(* ===== verification/Prelude.thy ===== *)
theory Prelude
  imports Main "HOL-Library.Word" "HOL-Library.Monad_Syntax"
begin

text \<open>
  Shared ground of the development: the machine types of \<open>oi_cpu_dep.h\<close>, the status codes
  the modelled functions return, the reading of \<open>OI_ASSERT\<close>, and the generic lemmas on
  options, lists and words that the component theories use.

  A C function that can fail an \<open>OI_ASSERT\<close> (the build defines \<open>OI_DEBUG\<close>, and
  \<open>OI_AssertFail\<close> then divides by zero to stop the process) or that can touch memory outside
  the object it was given is modelled by a function into an option type: \<^term>\<open>None\<close> is
  "the process stopped or its behaviour is undefined", \<^term>\<open>Some\<close> is a normal return.
  Status codes are ordinary results inside \<^term>\<open>Some\<close>.
\<close>

unbundle bit_operations_syntax

section \<open>Machine types\<close>

type_synonym u8 = "8 word"
type_synonym u16 = "16 word"
type_synonym u32 = "32 word"

type_synonym bytes = "8 word list"

section \<open>Status codes\<close>

text \<open>The members of \<open>OI_STATUS\<close> (\<open>oi_status.h\<close>) that the modelled functions return.\<close>

datatype OI_STATUS =
    OI_OK
  | OI_FAIL
  | OI_STATUS_INVALID_PARAMETERS
  | OI_STATUS_OUT_OF_MEMORY
  | OI_STATUS_NO_RESOURCES
  | OI_STATUS_NOT_FOUND
  | OI_STATUS_INVALID_HANDLE
  | OI_STATUS_ALREADY_INITIALIZED
  | OI_STATUS_MBUF_OVERFLOW
  | OI_DISPATCH_INVALID_CB_HANDLE
  | OI_DISPATCH_TABLE_OVERFLOW
  | OI_OBEX_PACKET_OVERFLOW
  | OI_OBEX_ERROR
  | OI_OBEX_BAD_PACKET
  | OI_OBEX_PASSWORD_TOO_LONG
  | OI_OBEX_USERID_TOO_LONG
  | OI_OBEX_INVALID_AUTH_DIGEST
  | OI_OBEX_UNAUTHORIZED
  | OI_STATUS_NOT_IMPLEMENTED
  | OI_STATUS_NOT_INITIALIZED
  | OI_STATUS_ACCESS_DENIED
  | OI_STATUS_INVALID_STATE
  | OI_STATUS_ALREADY_REGISTERED
  | OI_STATUS_STILL_CONNECTED
  | OI_STATUS_NOT_CONNECTED
  | OI_OBEX_CONTINUE
  | OI_OBEX_COMMAND_ERROR
  | OI_OBEX_INCOMPLETE_PACKET
  | OI_OBEX_LENGTH_REQUIRED
  | OI_OBEX_NOT_CONNECTED
  | OI_OBEX_OPERATION_IN_PROGRESS
  | OI_OBEX_REQUIRED_HEADER_NOT_FOUND
  | OI_OBEX_SERVICE_UNAVAILABLE
  | OI_OBEX_UNKNOWN_COMMAND
  | OI_OBEX_UNSUPPORTED_VERSION
  | OI_OBEX_CLIENT_ABORTED_COMMAND
  | OI_OBEX_BAD_REQUEST
  | OI_OBEX_NOT_FOUND
  | OI_OBEX_ACCESS_DENIED
  | OI_OBEX_VALUE_NOT_ACCEPTABLE
  | OI_OBEX_PRECONDITION_FAILED
  | OI_OBEX_NOT_IMPLEMENTED
  | OI_OBEX_INVALID_OPERATION
  | OI_OBEX_DATABASE_FULL
  | OI_OBEX_DATABASE_LOCKED
  | OI_OBEX_UNSUPPORTED_MEDIA_TYPE
  | OI_OBEX_PARTIAL_CONTENT
  | OI_OBEX_METHOD_NOT_ALLOWED
  | OI_OBEX_FOLDER_BROWSING_NOT_ALLOWED
  | OI_OBEX_SERVER_FORCED_DISCONNECT
  | OI_OBEX_CONFLICT
  | OI_OBEX_NOT_MODIFIED
  | OI_OBEX_FORBIDDEN
  | OI_OBEX_CLEANUP
  | OI_OBEXSRV_INCOMPLETE_GET
  | OI_OBEX_CONNECTION_TIMEOUT
  | OI_OBEX_CONNECT_FAILED
  | OI_OBEX_DISCONNECT_FAILED
  | OI_OBEX_GET_RESPONSE_ERROR
  | OI_OBEX_PUT_RESPONSE_ERROR
  | OI_OBEX_NO_SUCH_FOLDER
  | OI_OBEX_INTERNAL_SERVER_ERROR

definition OI_SUCCESS :: "OI_STATUS \<Rightarrow> bool" where
  "OI_SUCCESS s \<longleftrightarrow> s = OI_OK"

section \<open>Assertions\<close>

definition OI_ASSERT :: "bool \<Rightarrow> unit option" where
  "OI_ASSERT c = (if c then Some () else None)"

named_theorems monad_simps \<open>rewriting of the option monad and of assertions\<close>
named_theorems unat_simps \<open>values of machine words as natural numbers\<close>

lemma OI_ASSERT_Some_iff [simp, monad_simps]: "OI_ASSERT c = Some x \<longleftrightarrow> c"
  by (cases x) (simp add: OI_ASSERT_def)

lemma OI_ASSERT_True [simp]: "OI_ASSERT True = Some ()"
  and OI_ASSERT_False [simp]: "OI_ASSERT False = None"
  by (simp_all add: OI_ASSERT_def)

lemma OI_ASSERT_eq_None [simp]: "OI_ASSERT c = None \<longleftrightarrow> \<not> c"
  by (simp add: OI_ASSERT_def)

lemma bind_OI_ASSERT [monad_simps]:
  "Option.bind (OI_ASSERT c) f = (if c then f () else None)"
  by (simp add: OI_ASSERT_def)

lemma bind_Some_iff [monad_simps]:
  "Option.bind m f = Some y \<longleftrightarrow> (\<exists>x. m = Some x \<and> f x = Some y)"
  by (cases m) auto

lemma OI_SUCCESS_simps [simp]:
  "OI_SUCCESS OI_OK" "s \<noteq> OI_OK \<Longrightarrow> \<not> OI_SUCCESS s"
  by (simp_all add: OI_SUCCESS_def)

section \<open>What holds of every normal return\<close>

text \<open>A small calculus for proofs that go through a function step by step: \<open>returns_rules\<close> take the
  steps apart, and the functions it calls come with rules of their own.\<close>

definition returns :: "('a \<Rightarrow> bool) \<Rightarrow> 'a option \<Rightarrow> bool" where
  "returns Q m \<longleftrightarrow> (\<forall>y. m = Some y \<longrightarrow> Q y)"

lemma returnsD: "returns Q m \<Longrightarrow> m = Some y \<Longrightarrow> Q y"
  by (simp add: returns_def)

lemma returns_Some: "Q y \<Longrightarrow> returns Q (Some y)"
  and returns_None: "returns Q None"
  by (simp_all add: returns_def)

lemma returns_bind: "returns (\<lambda>x. returns Q (f x)) m \<Longrightarrow> returns Q (Option.bind m f)"
  by (cases m) (auto simp: returns_def)

lemma returns_any: "(\<And>x. m = Some x \<Longrightarrow> returns Q (f x)) \<Longrightarrow> returns Q (Option.bind m f)"
  by (cases m) (auto simp: returns_def)

lemma returns_fall: "(\<And>x. m = Some x \<Longrightarrow> Q x) \<Longrightarrow> returns Q m"
  by (simp add: returns_def)

lemma returns_if: "(c \<Longrightarrow> returns Q a) \<Longrightarrow> (\<not> c \<Longrightarrow> returns Q b) \<Longrightarrow> returns Q (if c then a else b)"
  by simp

lemma returns_option: "(x = None \<Longrightarrow> returns Q a) \<Longrightarrow> (\<And>y. x = Some y \<Longrightarrow> returns Q (f y)) \<Longrightarrow>
    returns Q (case x of None \<Rightarrow> a | Some y \<Rightarrow> f y)"
  by (cases x) auto

lemma returns_map: "returns (\<lambda>x. Q (f x)) m \<Longrightarrow> returns Q (map_option f m)"
  by (cases m) (auto simp: returns_def)

lemma returns_let: "returns Q (f x) \<Longrightarrow> returns Q (Let x f)"
  by simp

lemma returns_prod: "(\<And>a b. p = (a, b) \<Longrightarrow> returns Q (f a b)) \<Longrightarrow> returns Q (case p of (a, b) \<Rightarrow> f a b)"
  by (cases p) auto

lemmas returns_rules = returns_if returns_option returns_map returns_let returns_prod returns_None

section \<open>Lists\<close>

definition overwrite :: "nat \<Rightarrow> 'a list \<Rightarrow> 'a list \<Rightarrow> 'a list" where
  "overwrite n ys xs = take n xs @ ys @ drop (n + length ys) xs"

lemma length_overwrite [simp]:
  "n + length ys \<le> length xs \<Longrightarrow> length (overwrite n ys xs) = length xs"
  by (simp add: overwrite_def)

lemma overwrite_Nil [simp]: "overwrite n [] xs = xs"
  by (simp add: overwrite_def)

lemma take_overwrite_before [simp]:
  "m \<le> n \<Longrightarrow> n \<le> length xs \<Longrightarrow> take m (overwrite n ys xs) = take m xs"
  by (simp add: overwrite_def min_def)

lemma take_overwrite_upto [simp]:
  "n + length ys \<le> length xs \<Longrightarrow>
     take (n + length ys) (overwrite n ys xs) = take n xs @ ys"
  by (simp add: overwrite_def)

lemma drop_overwrite_after:
  "n + length ys \<le> m \<Longrightarrow> n \<le> length xs \<Longrightarrow> drop m (overwrite n ys xs) = drop m xs"
  by (simp add: overwrite_def)

lemma overwrite_overwrite_next:
  "n + length ys + length zs \<le> length xs \<Longrightarrow>
     overwrite (n + length ys) zs (overwrite n ys xs) = overwrite n (ys @ zs) xs"
  by (simp add: overwrite_def ac_simps)

lemma take_drop_append_mid:
  "take (length ys) (drop (length xs) (xs @ ys @ zs)) = ys"
  by simp

lemma take_add_drop: "take m xs @ take n (drop m xs) = take (m + n) xs"
  by (simp add: take_add)

section \<open>Words as numbers\<close>

lemma unat_add_u16 [unat_simps]:
  "unat (a :: u16) + unat b < 65536 \<Longrightarrow> unat (a + b) = unat a + unat b"
  by (simp add: unat_word_ariths)

lemma unat_of_nat_u16 [unat_simps]: "n < 65536 \<Longrightarrow> unat (of_nat n :: u16) = n"
  by (simp add: unat_of_nat take_bit_nat_eq_self)

lemma unat_of_nat_u8 [unat_simps]: "n < 256 \<Longrightarrow> unat (of_nat n :: u8) = n"
  by (simp add: unat_of_nat take_bit_nat_eq_self)

lemma unat_of_nat_u32 [unat_simps]: "n < 4294967296 \<Longrightarrow> unat (of_nat n :: u32) = n"
  by (simp add: unat_of_nat take_bit_nat_eq_self)

lemma unat_lt_u8 [simp]: "unat (x :: u8) < 256"
  using unsigned_less [where ?'a = nat and w = x] by simp

lemma unat_lt_u16 [simp]: "unat (x :: u16) < 65536"
  using unsigned_less [where ?'a = nat and w = x] by simp

lemma unat_le_u16 [simp]: "unat (x :: u16) \<le> 65535"
  using unat_lt_u16 [of x] by linarith

lemma unat_sub_u16 [unat_simps]: "unat (b :: u16) \<le> unat a \<Longrightarrow> unat (a - b) = unat a - unat b"
  by (simp add: unat_sub word_le_nat_alt)

lemma unat_sub_u32 [unat_simps]: "unat (b :: u32) \<le> unat a \<Longrightarrow> unat (a - b) = unat a - unat b"
  by (simp add: unat_sub word_le_nat_alt)

lemma word_unat_eqI: "unat (a :: 'a::len word) = unat b \<Longrightarrow> a = b"
  by (simp add: unsigned_word_eqI)

end
