(* ===== verification/ByteStream.thy ===== *)
theory ByteStream
  imports Prelude
begin

text \<open>
  The byte-order macros of \<open>oi_endian.h\<close> and the byte streams of \<open>oi_bytestream.h\<close>.
  A stream is the C struct: the buffer, its allocated size, the current size, the position,
  the read/write flag and the error flag, each at its width; \<open>bs_addr\<close> is the address of
  the buffer, on whose parity the OBEX header parser depends. The position and size sums
  of the macros are done in \<open>int\<close> by the C promotions, so they are sums of \<^typ>\<open>nat\<close>
  here and do not wrap. Every macro's \<open>OI_ASSERT\<close>s are kept, in its order.
\<close>

section \<open>Byte order\<close>

datatype byte_order = OI_BIG_ENDIAN_BYTE_ORDER | OI_LITTLE_ENDIAN_BYTE_ORDER

definition SetUINT32_BigEndian :: "u32 \<Rightarrow> bytes" where
  "SetUINT32_BigEndian v =
     [ucast (drop_bit 24 (v AND 0xff000000)), ucast (drop_bit 16 (v AND 0x00ff0000)),
      ucast (drop_bit 8 (v AND 0x0000ff00)), ucast (v AND 0x000000ff)]"

definition SetUINT16_BigEndian :: "'a::len word \<Rightarrow> bytes" where
  "SetUINT16_BigEndian v = [ucast (drop_bit 8 (v AND 0xff00)), ucast (v AND 0x00ff)]"

definition SetUINT32_LittleEndian :: "u32 \<Rightarrow> bytes" where
  "SetUINT32_LittleEndian v =
     [ucast (v AND 0x000000ff), ucast (drop_bit 8 (v AND 0x0000ff00)),
      ucast (drop_bit 16 (v AND 0x00ff0000)), ucast (drop_bit 24 (v AND 0xff000000))]"

definition SetUINT16_LittleEndian :: "'a::len word \<Rightarrow> bytes" where
  "SetUINT16_LittleEndian v = [ucast (v AND 0x00ff), ucast (drop_bit 8 (v AND 0xff00))]"

definition GetUINT32_BigEndian :: "bytes \<Rightarrow> u32" where
  "GetUINT32_BigEndian src =
     ucast (src ! 3) OR push_bit 8 (ucast (src ! 2)) OR
     push_bit 16 (ucast (src ! 1)) OR push_bit 24 (ucast (src ! 0))"

definition GetUINT16_BigEndian :: "bytes \<Rightarrow> u16" where
  "GetUINT16_BigEndian src = ucast (src ! 1) OR push_bit 8 (ucast (src ! 0))"

definition GetUINT32_LittleEndian :: "bytes \<Rightarrow> u32" where
  "GetUINT32_LittleEndian src =
     ucast (src ! 0) OR push_bit 8 (ucast (src ! 1)) OR
     push_bit 16 (ucast (src ! 2)) OR push_bit 24 (ucast (src ! 3))"

definition GetUINT16_LittleEndian :: "bytes \<Rightarrow> u16" where
  "GetUINT16_LittleEndian src = ucast (src ! 0) OR push_bit 8 (ucast (src ! 1))"

named_theorems endian_simps \<open>laws of the byte-order macros\<close>

lemma length_SetUINT [simp]:
  "length (SetUINT32_BigEndian v) = 4" "length (SetUINT16_BigEndian w) = 2"
  "length (SetUINT32_LittleEndian v) = 4" "length (SetUINT16_LittleEndian w) = 2"
  by (simp_all add: SetUINT32_BigEndian_def SetUINT16_BigEndian_def
      SetUINT32_LittleEndian_def SetUINT16_LittleEndian_def)

text \<open>The masks and shifts of the macros select one byte each.\<close>

lemma mask_low_byte [endian_simps]: "(ucast (v AND 0x00ff :: 'a::len word) :: u8) = ucast v"
proof -
  have m: "(0x00ff :: 'a word) = mask 8"
    by (simp add: mask_eq_exp_minus_1)
  show ?thesis
    unfolding m by (rule bit_word_eqI) (auto simp: bit_simps dest: bit_imp_le_length)
qed

lemma mask_second_byte [endian_simps]:
  "(ucast (drop_bit 8 (v AND 0xff00 :: 'a::len word)) :: u8) = ucast (drop_bit 8 v)"
proof -
  have m: "(0xff00 :: 'a word) = push_bit 8 (mask 8)"
    by (simp add: mask_eq_exp_minus_1 push_bit_eq_mult)
  show ?thesis
    unfolding m by (rule bit_word_eqI) (auto simp: bit_simps dest: bit_imp_le_length)
qed

lemma mask_third_byte [endian_simps]:
  "(ucast (drop_bit 16 (v AND 0x00ff0000 :: u32)) :: u8) = ucast (drop_bit 16 v)"
proof -
  have m: "(0xff0000 :: u32) = push_bit 16 (mask 8)"
    by (simp add: mask_eq_exp_minus_1 push_bit_eq_mult)
  show ?thesis
    unfolding m by (rule bit_word_eqI) (auto simp: bit_simps)
qed

lemma mask_fourth_byte [endian_simps]:
  "(ucast (drop_bit 24 (v AND 0xff000000 :: u32)) :: u8) = ucast (drop_bit 24 v)"
proof -
  have m: "(0xff000000 :: u32) = push_bit 24 (mask 8)"
    by (simp add: mask_eq_exp_minus_1 push_bit_eq_mult)
  show ?thesis
    unfolding m by (rule bit_word_eqI) (auto simp: bit_simps)
qed

lemma join_bytes_u16:
  "(ucast (ucast v :: u8) OR push_bit 8 (ucast (ucast (drop_bit 8 v) :: u8)) :: u16) = v"
  by (rule bit_word_eqI) (auto simp: bit_simps)

lemma join_bytes_u32:
  "(ucast (ucast v :: u8) OR push_bit 8 (ucast (ucast (drop_bit 8 v) :: u8))
    OR push_bit 16 (ucast (ucast (drop_bit 16 v) :: u8))
    OR push_bit 24 (ucast (ucast (drop_bit 24 v) :: u8)) :: u32) = v" (is "?w = v")
proof (rule bit_word_eqI)
  fix n
  assume "n < LENGTH(32)"
  then consider "n < 8" | "8 \<le> n" "n < 16" | "16 \<le> n" "n < 24" | "24 \<le> n" "n < 32"
    by fastforce
  then show "bit ?w n = bit v n"
    by cases (auto simp: bit_simps)
qed

lemma split_low_byte [simp]: "(ucast (ucast (a :: u8) OR push_bit 8 (ucast (b :: u8)) :: u16) :: u8) = a"
  by (rule bit_word_eqI) (auto simp: bit_simps)

lemma split_high_byte [simp]:
  "(ucast (drop_bit 8 (ucast (a :: u8) OR push_bit 8 (ucast (b :: u8)) :: u16)) :: u8) = b"
  by (rule bit_word_eqI) (auto simp: bit_simps dest: bit_imp_le_length)

lemma Get_Set_UINT16_BigEndian [simp]: "GetUINT16_BigEndian (SetUINT16_BigEndian v) = v"
  and Get_Set_UINT16_LittleEndian [simp]: "GetUINT16_LittleEndian (SetUINT16_LittleEndian v) = v"
  by (simp_all add: GetUINT16_BigEndian_def SetUINT16_BigEndian_def endian_simps
      GetUINT16_LittleEndian_def SetUINT16_LittleEndian_def join_bytes_u16)

lemma Get_Set_UINT32_BigEndian [simp]: "GetUINT32_BigEndian (SetUINT32_BigEndian v) = v"
  and Get_Set_UINT32_LittleEndian [simp]: "GetUINT32_LittleEndian (SetUINT32_LittleEndian v) = v"
  by (simp_all add: GetUINT32_BigEndian_def SetUINT32_BigEndian_def endian_simps
      GetUINT32_LittleEndian_def SetUINT32_LittleEndian_def join_bytes_u32 or.assoc)

lemma Set_Get_UINT16_BigEndian [simp]:
  "SetUINT16_BigEndian (GetUINT16_BigEndian [a, b]) = [a, b]"
proof -
  have "GetUINT16_BigEndian [a, b] = ucast b OR push_bit 8 (ucast a)"
    by (simp add: GetUINT16_BigEndian_def)
  then show ?thesis
    by (simp only: SetUINT16_BigEndian_def endian_simps split_low_byte split_high_byte)
qed

section \<open>The stream\<close>

text \<open>\<open>BYTESTREAM_READ\<close>, \<open>BYTESTREAM_WRITE\<close>, \<open>BYTESTREAM_LOCKED\<close>.\<close>

definition BYTESTREAM_READ :: u8 where "BYTESTREAM_READ = 1"
definition BYTESTREAM_WRITE :: u8 where "BYTESTREAM_WRITE = 2"
definition BYTESTREAM_LOCKED :: u8 where "BYTESTREAM_LOCKED = 15"

lemma RWFlag_distinct [simp]:
  "BYTESTREAM_READ \<noteq> BYTESTREAM_WRITE" "BYTESTREAM_LOCKED \<noteq> BYTESTREAM_WRITE"
  "BYTESTREAM_WRITE \<noteq> BYTESTREAM_READ" "BYTESTREAM_LOCKED \<noteq> BYTESTREAM_READ"
  by (simp_all add: BYTESTREAM_READ_def BYTESTREAM_WRITE_def BYTESTREAM_LOCKED_def)

record OI_BYTE_STREAM =
  bs_addr :: u32
  bs_data :: bytes
  bs_trueSize :: u16
  bs_size :: u16
  bs_pos :: u16
  bs_RWFlag :: u8
  bs_error :: u8

text \<open>Reads and writes of the buffer behind \<open>__bsdata\<close> at the current position; past the
  end of the buffer they are undefined.\<close>

definition bs_peek :: "nat \<Rightarrow> OI_BYTE_STREAM \<Rightarrow> bytes option" where
  "bs_peek n bs =
     (if unat (bs_pos bs) + n \<le> length (bs_data bs)
      then Some (take n (drop (unat (bs_pos bs)) (bs_data bs))) else None)"

definition bs_poke :: "bytes \<Rightarrow> OI_BYTE_STREAM \<Rightarrow> OI_BYTE_STREAM option" where
  "bs_poke vs bs =
     (if unat (bs_pos bs) + length vs \<le> length (bs_data bs)
      then Some (bs\<lparr>bs_data := overwrite (unat (bs_pos bs)) vs (bs_data bs)\<rparr>) else None)"

definition bs_advance :: "nat \<Rightarrow> OI_BYTE_STREAM \<Rightarrow> OI_BYTE_STREAM" where
  "bs_advance n bs = bs\<lparr>bs_pos := bs_pos bs + of_nat n\<rparr>"

definition ByteStream_Init :: "OI_BYTE_STREAM \<Rightarrow> u32 \<Rightarrow> bytes \<Rightarrow> u16 \<Rightarrow> OI_BYTE_STREAM option" where
  "ByteStream_Init bs addr buf n = do {
     OI_ASSERT (unat n > 0);
     Some (bs\<lparr>bs_error := 0, bs_addr := addr, bs_data := buf, bs_trueSize := n, bs_size := n\<rparr>)
   }"

definition ByteStream_Open :: "OI_BYTE_STREAM \<Rightarrow> u8 \<Rightarrow> OI_BYTE_STREAM option" where
  "ByteStream_Open bs rw = do {
     OI_ASSERT (unat (bs_trueSize bs) > 0);
     Some (bs\<lparr>bs_pos := 0, bs_RWFlag := rw, bs_size := bs_trueSize bs\<rparr>)
   }"

definition ByteStream_Close :: "OI_BYTE_STREAM \<Rightarrow> OI_BYTE_STREAM" where
  "ByteStream_Close bs =
     (if bs_RWFlag bs = BYTESTREAM_WRITE then bs\<lparr>bs_size := bs_pos bs\<rparr> else bs)
       \<lparr>bs_RWFlag := BYTESTREAM_LOCKED\<rparr>"

definition ByteStream_Skip :: "OI_BYTE_STREAM \<Rightarrow> nat \<Rightarrow> OI_BYTE_STREAM option" where
  "ByteStream_Skip bs count = do {
     OI_ASSERT (unat (bs_pos bs) + count \<le> unat (bs_size bs));
     Some (bs_advance count bs)
   }"

definition ByteStream_Skip_Checked :: "OI_BYTE_STREAM \<Rightarrow> nat \<Rightarrow> OI_BYTE_STREAM" where
  "ByteStream_Skip_Checked bs count =
     (if unat (bs_pos bs) + count \<le> unat (bs_size bs) then bs_advance count bs
      else bs\<lparr>bs_error := 1\<rparr>)"

definition ByteStream_SetPos :: "OI_BYTE_STREAM \<Rightarrow> u16 \<Rightarrow> OI_BYTE_STREAM option" where
  "ByteStream_SetPos bs p = do {
     OI_ASSERT (unat p + 1 \<le> unat (bs_size bs) + 1);
     Some (bs\<lparr>bs_pos := p\<rparr>)
   }"

definition ByteStream_Error :: "OI_BYTE_STREAM \<Rightarrow> bool" where
  "ByteStream_Error bs \<longleftrightarrow> bs_error bs \<noteq> 0"

definition ByteStream_NumReadBytesAvail :: "OI_BYTE_STREAM \<Rightarrow> int" where
  "ByteStream_NumReadBytesAvail bs = int (unat (bs_size bs)) - int (unat (bs_pos bs))"

definition ByteStream_NumWriteBytesAllowed :: "OI_BYTE_STREAM \<Rightarrow> int" where
  "ByteStream_NumWriteBytesAllowed bs = int (unat (bs_size bs)) - int (unat (bs_pos bs))"

subsection \<open>Reading\<close>

text \<open>The \<open>_Checked\<close> macros assign their out parameter only when the bytes are there, so
  the models take its old value and return the new one.\<close>

definition ByteStream_GetUINT8 :: "OI_BYTE_STREAM \<Rightarrow> (u8 \<times> OI_BYTE_STREAM) option" where
  "ByteStream_GetUINT8 bs = do {
     OI_ASSERT (bs_RWFlag bs = BYTESTREAM_READ);
     OI_ASSERT (unat (bs_pos bs) + 1 \<le> unat (bs_size bs));
     src \<leftarrow> bs_peek 1 bs;
     Some (src ! 0, bs_advance 1 bs)
   }"

definition ByteStream_GetUINT8_Checked ::
    "OI_BYTE_STREAM \<Rightarrow> u8 \<Rightarrow> (u8 \<times> OI_BYTE_STREAM) option" where
  "ByteStream_GetUINT8_Checked bs i = do {
     OI_ASSERT (bs_RWFlag bs = BYTESTREAM_READ);
     if unat (bs_pos bs) + 1 \<le> unat (bs_size bs)
     then do { src \<leftarrow> bs_peek 1 bs; Some (src ! 0, bs_advance 1 bs) }
     else Some (i, bs\<lparr>bs_error := 1\<rparr>)
   }"

definition ByteStream_GetUINT16 ::
    "OI_BYTE_STREAM \<Rightarrow> byte_order \<Rightarrow> (u16 \<times> OI_BYTE_STREAM) option" where
  "ByteStream_GetUINT16 bs bo = do {
     OI_ASSERT (bs_RWFlag bs = BYTESTREAM_READ);
     OI_ASSERT (unat (bs_pos bs) + 2 \<le> unat (bs_size bs));
     src \<leftarrow> bs_peek 2 bs;
     Some (if bo = OI_BIG_ENDIAN_BYTE_ORDER then GetUINT16_BigEndian src
           else GetUINT16_LittleEndian src,
           bs_advance 2 bs)
   }"

definition ByteStream_GetUINT16_Checked ::
    "OI_BYTE_STREAM \<Rightarrow> u16 \<Rightarrow> byte_order \<Rightarrow> (u16 \<times> OI_BYTE_STREAM) option" where
  "ByteStream_GetUINT16_Checked bs i bo = do {
     OI_ASSERT (bs_RWFlag bs = BYTESTREAM_READ);
     if unat (bs_pos bs) + 2 \<le> unat (bs_size bs)
     then do {
       src \<leftarrow> bs_peek 2 bs;
       Some (if bo = OI_BIG_ENDIAN_BYTE_ORDER then GetUINT16_BigEndian src
             else GetUINT16_LittleEndian src,
             bs_advance 2 bs)
     }
     else Some (i, bs\<lparr>bs_error := 1\<rparr>)
   }"

definition ByteStream_GetUINT32 ::
    "OI_BYTE_STREAM \<Rightarrow> byte_order \<Rightarrow> (u32 \<times> OI_BYTE_STREAM) option" where
  "ByteStream_GetUINT32 bs bo = do {
     OI_ASSERT (unat (bs_pos bs) + 4 \<le> unat (bs_size bs));
     OI_ASSERT (bs_RWFlag bs = BYTESTREAM_READ);
     src \<leftarrow> bs_peek 4 bs;
     Some (if bo = OI_BIG_ENDIAN_BYTE_ORDER then GetUINT32_BigEndian src
           else GetUINT32_LittleEndian src,
           bs_advance 4 bs)
   }"

subsection \<open>Writing\<close>

definition ByteStream_PutUINT8 :: "OI_BYTE_STREAM \<Rightarrow> u8 \<Rightarrow> OI_BYTE_STREAM option" where
  "ByteStream_PutUINT8 bs i = do {
     OI_ASSERT (unat (bs_pos bs) + 1 \<le> unat (bs_size bs));
     OI_ASSERT (bs_RWFlag bs = BYTESTREAM_WRITE);
     bs' \<leftarrow> bs_poke [i] bs;
     Some (bs_advance 1 bs')
   }"

definition ByteStream_PutUINT16 ::
    "OI_BYTE_STREAM \<Rightarrow> 'a::len word \<Rightarrow> byte_order \<Rightarrow> OI_BYTE_STREAM option" where
  "ByteStream_PutUINT16 bs i bo = do {
     OI_ASSERT (unat (bs_pos bs) + 2 \<le> unat (bs_size bs));
     OI_ASSERT (bs_RWFlag bs = BYTESTREAM_WRITE);
     bs' \<leftarrow> bs_poke (if bo = OI_BIG_ENDIAN_BYTE_ORDER then SetUINT16_BigEndian i
                    else SetUINT16_LittleEndian i) bs;
     Some (bs_advance 2 bs')
   }"

definition ByteStream_PutUINT32 ::
    "OI_BYTE_STREAM \<Rightarrow> u32 \<Rightarrow> byte_order \<Rightarrow> OI_BYTE_STREAM option" where
  "ByteStream_PutUINT32 bs i bo = do {
     OI_ASSERT (unat (bs_pos bs) + 4 \<le> unat (bs_size bs));
     OI_ASSERT (bs_RWFlag bs = BYTESTREAM_WRITE);
     bs' \<leftarrow> bs_poke (if bo = OI_BIG_ENDIAN_BYTE_ORDER then SetUINT32_BigEndian i
                    else SetUINT32_LittleEndian i) bs;
     Some (bs_advance 4 bs')
   }"

definition ByteStream_PutBytes :: "OI_BYTE_STREAM \<Rightarrow> bytes \<Rightarrow> nat \<Rightarrow> OI_BYTE_STREAM option" where
  "ByteStream_PutBytes bs src n = do {
     OI_ASSERT (unat (bs_pos bs) + n \<le> unat (bs_size bs));
     OI_ASSERT (bs_RWFlag bs = BYTESTREAM_WRITE);
     if n \<le> length src
     then do { bs' \<leftarrow> bs_poke (take n src) bs; Some (bs_advance n bs') }
     else None
   }"

section \<open>Well-formed streams\<close>

definition bs_wf :: "OI_BYTE_STREAM \<Rightarrow> bool" where
  "bs_wf bs \<longleftrightarrow> unat (bs_pos bs) \<le> unat (bs_size bs) \<and> unat (bs_size bs) \<le> unat (bs_trueSize bs) \<and>
     unat (bs_trueSize bs) \<le> length (bs_data bs)"

definition bs_rest :: "OI_BYTE_STREAM \<Rightarrow> bytes" where
  "bs_rest bs = drop (unat (bs_pos bs)) (take (unat (bs_size bs)) (bs_data bs))"

definition bs_written :: "OI_BYTE_STREAM \<Rightarrow> bytes" where
  "bs_written bs = take (unat (bs_pos bs)) (bs_data bs)"

definition bs_room :: "OI_BYTE_STREAM \<Rightarrow> nat" where
  "bs_room bs = unat (bs_size bs) - unat (bs_pos bs)"

definition bs_reading :: "OI_BYTE_STREAM \<Rightarrow> bool" where
  "bs_reading bs \<longleftrightarrow> bs_wf bs \<and> bs_RWFlag bs = BYTESTREAM_READ"

definition bs_writing :: "OI_BYTE_STREAM \<Rightarrow> bool" where
  "bs_writing bs \<longleftrightarrow> bs_wf bs \<and> bs_RWFlag bs = BYTESTREAM_WRITE"

named_theorems bs_read_simps \<open>the read macros on a well-formed stream, in terms of its rest\<close>
named_theorems bs_write_simps \<open>the write macros on a well-formed stream\<close>

lemma length_bs_rest: "bs_wf bs \<Longrightarrow> length (bs_rest bs) = unat (bs_size bs) - unat (bs_pos bs)"
  by (simp add: bs_rest_def bs_wf_def)

lemma bs_wf_limit:
  "bs_wf bs \<Longrightarrow> unat (bs_pos bs) + n \<le> unat (bs_size bs) \<longleftrightarrow> n \<le> length (bs_rest bs)"
  by (simp add: length_bs_rest) (simp add: bs_wf_def, linarith)

lemma bs_avail: "bs_wf bs \<Longrightarrow> ByteStream_NumReadBytesAvail bs = int (length (bs_rest bs))"
  by (simp add: ByteStream_NumReadBytesAvail_def length_bs_rest bs_wf_def of_nat_diff)

lemma bs_advance_fields [simp]:
  "bs_data (bs_advance n bs) = bs_data bs" "bs_size (bs_advance n bs) = bs_size bs"
  "bs_trueSize (bs_advance n bs) = bs_trueSize bs" "bs_RWFlag (bs_advance n bs) = bs_RWFlag bs"
  "bs_addr (bs_advance n bs) = bs_addr bs" "bs_error (bs_advance n bs) = bs_error bs"
  by (simp_all add: bs_advance_def)

lemma bs_pos_advance:
  assumes "unat (bs_pos bs) + n \<le> unat (bs_size bs)"
  shows "unat (bs_pos (bs_advance n bs)) = unat (bs_pos bs) + n"
proof -
  have "unat (bs_pos bs) + n < 65536"
    using assms unat_lt_u16 [of "bs_size bs"] by linarith
  then show ?thesis
    by (simp add: bs_advance_def unat_simps)
qed

lemma bs_rest_advance [simp]:
  assumes "bs_wf bs" "n \<le> length (bs_rest bs)"
  shows "bs_rest (bs_advance n bs) = drop n (bs_rest bs)"
proof -
  have "unat (bs_pos (bs_advance n bs)) = unat (bs_pos bs) + n"
    using assms by (intro bs_pos_advance) (simp add: bs_wf_limit)
  then show ?thesis
    by (simp add: bs_rest_def add.commute)
qed

lemma bs_wf_advance [simp]:
  assumes "bs_wf bs" "n \<le> length (bs_rest bs)"
  shows "bs_wf (bs_advance n bs)"
  using assms by (simp add: bs_wf_limit [symmetric] bs_pos_advance bs_wf_def)

lemma bs_reading_advance [simp]:
  "bs_reading bs \<Longrightarrow> n \<le> length (bs_rest bs) \<Longrightarrow> bs_reading (bs_advance n bs)"
  by (simp add: bs_reading_def)

lemma bs_peek_rest:
  assumes "bs_wf bs" "n \<le> length (bs_rest bs)"
  shows "bs_peek n bs = Some (take n (bs_rest bs))"
proof -
  have "unat (bs_pos bs) + n \<le> unat (bs_size bs)"
    using assms by (simp add: bs_wf_limit)
  moreover have "unat (bs_size bs) \<le> length (bs_data bs)"
    using assms by (simp add: bs_wf_def)
  ultimately show ?thesis
    by (simp add: bs_peek_def bs_rest_def drop_take min_def)
qed

lemma ByteStream_GetUINT8_eq [bs_read_simps]:
  "bs_reading bs \<Longrightarrow> ByteStream_GetUINT8 bs =
     (if 1 \<le> length (bs_rest bs) then Some (bs_rest bs ! 0, bs_advance 1 bs) else None)"
  using bs_wf_limit [of bs 1] bs_peek_rest [of bs 1]
  by (auto simp: ByteStream_GetUINT8_def bs_reading_def monad_simps)

lemma ByteStream_GetUINT8_Checked_eq [bs_read_simps]:
  "bs_reading bs \<Longrightarrow> ByteStream_GetUINT8_Checked bs i =
     Some (if 1 \<le> length (bs_rest bs) then (bs_rest bs ! 0, bs_advance 1 bs)
           else (i, bs\<lparr>bs_error := 1\<rparr>))"
  using bs_wf_limit [of bs 1] bs_peek_rest [of bs 1]
  by (auto simp: ByteStream_GetUINT8_Checked_def bs_reading_def monad_simps)

lemma ByteStream_GetUINT16_BE_eq [bs_read_simps]:
  "bs_reading bs \<Longrightarrow> ByteStream_GetUINT16 bs OI_BIG_ENDIAN_BYTE_ORDER =
     (if 2 \<le> length (bs_rest bs)
      then Some (GetUINT16_BigEndian (bs_rest bs), bs_advance 2 bs) else None)"
  using bs_wf_limit [of bs 2] bs_peek_rest [of bs 2]
  by (auto simp: ByteStream_GetUINT16_def bs_reading_def monad_simps
      GetUINT16_BigEndian_def)

lemma ByteStream_GetUINT16_Checked_BE_eq [bs_read_simps]:
  "bs_reading bs \<Longrightarrow> ByteStream_GetUINT16_Checked bs i OI_BIG_ENDIAN_BYTE_ORDER =
     Some (if 2 \<le> length (bs_rest bs) then (GetUINT16_BigEndian (bs_rest bs), bs_advance 2 bs)
           else (i, bs\<lparr>bs_error := 1\<rparr>))"
  using bs_wf_limit [of bs 2] bs_peek_rest [of bs 2]
  by (auto simp: ByteStream_GetUINT16_Checked_def bs_reading_def
      monad_simps GetUINT16_BigEndian_def)

lemma ByteStream_GetUINT32_BE_eq [bs_read_simps]:
  "bs_reading bs \<Longrightarrow> ByteStream_GetUINT32 bs OI_BIG_ENDIAN_BYTE_ORDER =
     (if 4 \<le> length (bs_rest bs)
      then Some (GetUINT32_BigEndian (bs_rest bs), bs_advance 4 bs) else None)"
  using bs_wf_limit [of bs 4] bs_peek_rest [of bs 4]
  by (auto simp: ByteStream_GetUINT32_def bs_reading_def monad_simps
      GetUINT32_BigEndian_def)

lemma ByteStream_Skip_eq [bs_read_simps]:
  "bs_wf bs \<Longrightarrow> ByteStream_Skip bs n =
     (if n \<le> length (bs_rest bs) then Some (bs_advance n bs) else None)"
  by (simp add: ByteStream_Skip_def bs_wf_limit monad_simps)

lemma ByteStream_Skip_Checked_eq [bs_read_simps]:
  "bs_wf bs \<Longrightarrow> ByteStream_Skip_Checked bs n =
     (if n \<le> length (bs_rest bs) then bs_advance n bs else bs\<lparr>bs_error := 1\<rparr>)"
  by (simp add: ByteStream_Skip_Checked_def bs_wf_limit)

lemma bs_reading_error [simp]:
  "bs_reading (bs\<lparr>bs_error := e\<rparr>) = bs_reading bs" "bs_wf (bs\<lparr>bs_error := e\<rparr>) = bs_wf bs"
  "bs_rest (bs\<lparr>bs_error := e\<rparr>) = bs_rest bs"
  by (simp_all add: bs_reading_def bs_wf_def bs_rest_def)

lemma bs_reading_wf [simp]: "bs_reading bs \<Longrightarrow> bs_wf bs"
  by (simp add: bs_reading_def)

lemma bs_writing_wf [simp]: "bs_writing bs \<Longrightarrow> bs_wf bs"
  by (simp add: bs_writing_def)

text \<open>A put of \<open>k\<close> bytes succeeds exactly when there is room for them; it appends them to
  what has been written and leaves the capacity alone.\<close>

definition bs_put :: "bytes \<Rightarrow> OI_BYTE_STREAM \<Rightarrow> OI_BYTE_STREAM" where
  "bs_put vs bs = bs_advance (length vs) (bs\<lparr>bs_data := overwrite (unat (bs_pos bs)) vs (bs_data bs)\<rparr>)"

lemma bs_poke_room:
  assumes "bs_wf bs" "length vs \<le> bs_room bs"
  shows "bs_poke vs bs = Some (bs\<lparr>bs_data := overwrite (unat (bs_pos bs)) vs (bs_data bs)\<rparr>)"
  using assms by (auto simp: bs_poke_def bs_room_def bs_wf_def)

lemma bs_room_limit:
  "bs_wf bs \<Longrightarrow> unat (bs_pos bs) + n \<le> unat (bs_size bs) \<longleftrightarrow> n \<le> bs_room bs"
  by (simp add: bs_room_def bs_wf_def) linarith

lemma ByteStream_PutUINT8_eq [bs_write_simps]:
  "bs_writing bs \<Longrightarrow> ByteStream_PutUINT8 bs i =
     (if 1 \<le> bs_room bs then Some (bs_put [i] bs) else None)"
  using bs_room_limit [of bs 1] bs_poke_room [of bs "[i]"]
  by (auto simp: ByteStream_PutUINT8_def bs_writing_def monad_simps bs_put_def)

lemma ByteStream_PutUINT16_BE_eq [bs_write_simps]:
  "bs_writing bs \<Longrightarrow> ByteStream_PutUINT16 bs i OI_BIG_ENDIAN_BYTE_ORDER =
     (if 2 \<le> bs_room bs then Some (bs_put (SetUINT16_BigEndian i) bs) else None)"
  using bs_room_limit [of bs 2] bs_poke_room [of bs "SetUINT16_BigEndian i"]
  by (auto simp: ByteStream_PutUINT16_def bs_writing_def monad_simps bs_put_def)

lemma ByteStream_PutBytes_eq [bs_write_simps]:
  "bs_writing bs \<Longrightarrow> n \<le> length src \<Longrightarrow> ByteStream_PutBytes bs src n =
     (if n \<le> bs_room bs then Some (bs_put (take n src) bs) else None)"
  using bs_room_limit [of bs n] bs_poke_room [of bs "take n src"]
  by (auto simp: ByteStream_PutBytes_def bs_writing_def monad_simps bs_put_def min_def)

lemma bs_pos_put:
  "bs_wf bs \<Longrightarrow> length vs \<le> bs_room bs \<Longrightarrow> unat (bs_pos (bs_put vs bs)) = unat (bs_pos bs) + length vs"
  using bs_room_limit [of bs "length vs"] bs_pos_advance [of "bs\<lparr>bs_data := d\<rparr>" for d]
  by (simp add: bs_put_def)

lemma bs_put_fields [simp]:
  "bs_size (bs_put vs bs) = bs_size bs" "bs_trueSize (bs_put vs bs) = bs_trueSize bs"
  "bs_RWFlag (bs_put vs bs) = bs_RWFlag bs" "bs_addr (bs_put vs bs) = bs_addr bs"
  "bs_error (bs_put vs bs) = bs_error bs"
  by (simp_all add: bs_put_def)

lemma bs_writing_put [simp]:
  assumes "bs_writing bs" "length vs \<le> bs_room bs"
  shows "bs_writing (bs_put vs bs)"
proof -
  have "length (bs_data (bs_put vs bs)) = length (bs_data bs)"
    using assms bs_room_limit [of bs "length vs"]
    by (auto simp: bs_put_def bs_writing_def bs_wf_def)
  with assms bs_room_limit [of bs "length vs"] show ?thesis
    by (auto simp: bs_writing_def bs_wf_def bs_pos_put [unfolded bs_wf_def])
qed

lemma bs_room_put [simp]:
  "bs_wf bs \<Longrightarrow> length vs \<le> bs_room bs \<Longrightarrow> bs_room (bs_put vs bs) = bs_room bs - length vs"
  by (simp add: bs_room_def bs_pos_put)

lemma bs_written_put [simp]:
  assumes "bs_wf bs" "length vs \<le> bs_room bs"
  shows "bs_written (bs_put vs bs) = bs_written bs @ vs"
proof -
  have "unat (bs_pos bs) + length vs \<le> length (bs_data bs)"
    using assms bs_room_limit [of bs "length vs"] by (auto simp: bs_wf_def)
  with assms show ?thesis
    by (simp add: bs_written_def bs_pos_put) (simp add: bs_put_def)
qed

end
