(* ===== verification/Fcs.thy ===== *)
theory Fcs
  imports ByteStream
begin

text \<open>
  The frame check sequence of \<open>oi_fcs.c\<close>: the table, the table-driven loop, and the bitwise
  definition of the same CRC (reflected polynomial \<open>0xA001\<close>) that the table was made from.
  The locale \<open>checksum\<close> is what the mbuf module relies on: a running sum that can be
  continued over the pieces of a buffer.
\<close>

definition crcTable :: "u16 list" where
  "crcTable = [
    0x0000, 0xC0C1, 0xC181, 0x0140, 0xC301, 0x03C0, 0x0280, 0xC241,
    0xC601, 0x06C0, 0x0780, 0xC741, 0x0500, 0xC5C1, 0xC481, 0x0440,
    0xCC01, 0x0CC0, 0x0D80, 0xCD41, 0x0F00, 0xCFC1, 0xCE81, 0x0E40,
    0x0A00, 0xCAC1, 0xCB81, 0x0B40, 0xC901, 0x09C0, 0x0880, 0xC841,
    0xD801, 0x18C0, 0x1980, 0xD941, 0x1B00, 0xDBC1, 0xDA81, 0x1A40,
    0x1E00, 0xDEC1, 0xDF81, 0x1F40, 0xDD01, 0x1DC0, 0x1C80, 0xDC41,
    0x1400, 0xD4C1, 0xD581, 0x1540, 0xD701, 0x17C0, 0x1680, 0xD641,
    0xD201, 0x12C0, 0x1380, 0xD341, 0x1100, 0xD1C1, 0xD081, 0x1040,
    0xF001, 0x30C0, 0x3180, 0xF141, 0x3300, 0xF3C1, 0xF281, 0x3240,
    0x3600, 0xF6C1, 0xF781, 0x3740, 0xF501, 0x35C0, 0x3480, 0xF441,
    0x3C00, 0xFCC1, 0xFD81, 0x3D40, 0xFF01, 0x3FC0, 0x3E80, 0xFE41,
    0xFA01, 0x3AC0, 0x3B80, 0xFB41, 0x3900, 0xF9C1, 0xF881, 0x3840,
    0x2800, 0xE8C1, 0xE981, 0x2940, 0xEB01, 0x2BC0, 0x2A80, 0xEA41,
    0xEE01, 0x2EC0, 0x2F80, 0xEF41, 0x2D00, 0xEDC1, 0xEC81, 0x2C40,
    0xE401, 0x24C0, 0x2580, 0xE541, 0x2700, 0xE7C1, 0xE681, 0x2640,
    0x2200, 0xE2C1, 0xE381, 0x2340, 0xE101, 0x21C0, 0x2080, 0xE041,
    0xA001, 0x60C0, 0x6180, 0xA141, 0x6300, 0xA3C1, 0xA281, 0x6240,
    0x6600, 0xA6C1, 0xA781, 0x6740, 0xA501, 0x65C0, 0x6480, 0xA441,
    0x6C00, 0xACC1, 0xAD81, 0x6D40, 0xAF01, 0x6FC0, 0x6E80, 0xAE41,
    0xAA01, 0x6AC0, 0x6B80, 0xAB41, 0x6900, 0xA9C1, 0xA881, 0x6840,
    0x7800, 0xB8C1, 0xB981, 0x7940, 0xBB01, 0x7BC0, 0x7A80, 0xBA41,
    0xBE01, 0x7EC0, 0x7F80, 0xBF41, 0x7D00, 0xBDC1, 0xBC81, 0x7C40,
    0xB401, 0x74C0, 0x7580, 0xB541, 0x7700, 0xB7C1, 0xB681, 0x7640,
    0x7200, 0xB2C1, 0xB381, 0x7340, 0xB101, 0x71C0, 0x7080, 0xB041,
    0x5000, 0x90C1, 0x9181, 0x5140, 0x9301, 0x53C0, 0x5280, 0x9241,
    0x9601, 0x56C0, 0x5780, 0x9741, 0x5500, 0x95C1, 0x9481, 0x5440,
    0x9C01, 0x5CC0, 0x5D80, 0x9D41, 0x5F00, 0x9FC1, 0x9E81, 0x5E40,
    0x5A00, 0x9AC1, 0x9B81, 0x5B40, 0x9901, 0x59C0, 0x5880, 0x9841,
    0x8801, 0x48C0, 0x4980, 0x8941, 0x4B00, 0x8BC1, 0x8A81, 0x4A40,
    0x4E00, 0x8EC1, 0x8F81, 0x4F40, 0x8D01, 0x4DC0, 0x4C80, 0x8C41,
    0x4400, 0x84C1, 0x8581, 0x4540, 0x8701, 0x47C0, 0x4680, 0x8641,
    0x8201, 0x42C0, 0x4380, 0x8341, 0x4100, 0x81C1, 0x8081, 0x4040]"

text \<open>One pass of the \<open>while (bufLen--)\<close> loop per call; reading past the buffer is undefined.\<close>

definition fcs_step :: "u16 \<Rightarrow> u8 \<Rightarrow> u16" where
  "fcs_step crc b = crcTable ! unat ((crc XOR ucast b) AND 0xFF) XOR drop_bit 8 crc"

fun fcs_loop :: "bytes \<Rightarrow> nat \<Rightarrow> u16 \<Rightarrow> u16 option" where
  "fcs_loop buffer 0 crc = Some crc"
| "fcs_loop [] (Suc bufLen) crc = None"
| "fcs_loop (b # buffer) (Suc bufLen) crc = fcs_loop buffer bufLen (fcs_step crc b)"

definition OI_FCS_Compute :: "bytes \<Rightarrow> u16 \<Rightarrow> u16 \<Rightarrow> u16 option" where
  "OI_FCS_Compute buffer bufLen runningCrc = fcs_loop buffer (unat bufLen) runningCrc"

section \<open>The bitwise CRC\<close>

definition crc_bit :: "u16 \<Rightarrow> u16" where
  "crc_bit c = (if bit c 0 then drop_bit 1 c XOR 0xA001 else drop_bit 1 c)"

definition crc_byte :: "u16 \<Rightarrow> u8 \<Rightarrow> u16" where
  "crc_byte c b = (crc_bit ^^ 8) (c XOR ucast b)"

definition crc_bytes :: "u16 \<Rightarrow> bytes \<Rightarrow> u16" where
  "crc_bytes = foldl crc_byte"

lemma crc_bit_XOR: "crc_bit (a XOR b) = crc_bit a XOR crc_bit b"
  by (rule bit_word_eqI) (auto simp: crc_bit_def bit_simps)

lemma crc_bits_XOR: "(crc_bit ^^ n) (a XOR b) = (crc_bit ^^ n) a XOR (crc_bit ^^ n) b"
  by (induction n) (simp_all add: crc_bit_XOR)

lemma crc_bits_high:
  "(\<And>i. i < n \<Longrightarrow> \<not> bit a i) \<Longrightarrow> (crc_bit ^^ n) a = drop_bit n a"
  by (induction n) (auto simp: crc_bit_def bit_simps)

text \<open>The same step on numbers, for evaluating the table.\<close>

definition crc_bit_nat :: "nat \<Rightarrow> nat" where
  "crc_bit_nat n = (if odd n then (n div 2) XOR 40961 else n div 2)"

lemma crc_bit_of_nat:
  assumes "n < 65536"
  shows "crc_bit (of_nat n) = of_nat (crc_bit_nat n)" and "crc_bit_nat n < 65536"
proof -
  have d: "drop_bit 1 (of_nat n :: u16) = of_nat (n div 2)"
    using assms by (intro word_unat_eqI)
      (simp add: drop_bit_eq_div unat_div unat_of_nat_u16 del: of_nat_numeral)
  show "crc_bit (of_nat n) = of_nat (crc_bit_nat n)"
    by (simp add: crc_bit_def crc_bit_nat_def bit_0 d [simplified] of_nat_xor_eq)
  have "n div 2 = take_bit 16 (n div 2)"
    using assms by (simp add: take_bit_nat_eq_self)
  then have "take_bit 16 (crc_bit_nat n) = crc_bit_nat n"
    by (simp add: crc_bit_nat_def)
  then show "crc_bit_nat n < 65536"
    using take_bit_nat_less_exp [of 16 "crc_bit_nat n"] by simp
qed

lemma crc_bits_of_nat:
  "n < 65536 \<Longrightarrow> (crc_bit ^^ k) (of_nat n) = of_nat ((crc_bit_nat ^^ k) n) \<and> (crc_bit_nat ^^ k) n < 65536"
  by (induction k) (simp_all add: crc_bit_of_nat)

lemma crc_bits_nat_8:
  "(crc_bit_nat ^^ 8) n =
     crc_bit_nat (crc_bit_nat (crc_bit_nat (crc_bit_nat (crc_bit_nat (crc_bit_nat
       (crc_bit_nat (crc_bit_nat n)))))))"
  by (simp add: eval_nat_numeral)

lemma crcTable_numbers: "crcTable = map of_nat (map (crc_bit_nat ^^ 8) [0..<256])"
proof -
  have r: "[0..<256] = 0 # 1 # [2..<256]"
    by (simp add: upt_rec numeral_2_eq_2)
  have "map (crc_bit_nat ^^ 8) [0..<256] = map unat crcTable"
    unfolding crcTable_def r
    by (simp add: upt_rec_numeral) (simp add: crc_bits_nat_8 crc_bit_nat_def)
  then show ?thesis
    by (simp add: comp_def)
qed

lemma crcTable_bitwise: "crcTable = map (\<lambda>i. (crc_bit ^^ 8) (of_nat i)) [0..<256]"
  unfolding crcTable_numbers by (simp add: crc_bits_of_nat)

lemma crcTable_nth: "i < 256 \<Longrightarrow> crcTable ! i = (crc_bit ^^ 8) (of_nat i)"
  by (simp add: crcTable_bitwise)

lemma fcs_step_crc_byte: "fcs_step c b = crc_byte c b"
proof -
  let ?x = "c XOR ucast b"
  have m: "(0xFF :: u16) = mask 8"
    by (simp add: mask_eq_exp_minus_1)
  have lt: "unat (?x AND 0xFF) < 256"
    using take_bit_nat_less_exp [of 8 "unat ?x"]
    by (simp only: m take_bit_eq_mask [symmetric] unsigned_take_bit_eq) simp
  have "?x = (?x AND 0xFF) XOR push_bit 8 (drop_bit 8 c)"
    unfolding m by (rule bit_word_eqI) (auto simp: bit_simps dest: bit_imp_le_length)
  then have "(crc_bit ^^ 8) ?x =
      (crc_bit ^^ 8) (?x AND 0xFF) XOR (crc_bit ^^ 8) (push_bit 8 (drop_bit 8 c))"
    by (metis crc_bits_XOR)
  also have "(crc_bit ^^ 8) (push_bit 8 (drop_bit 8 c)) = drop_bit 8 (push_bit 8 (drop_bit 8 c))"
    by (rule crc_bits_high) (simp add: bit_simps)
  also have "\<dots> = drop_bit 8 c"
    by (rule bit_word_eqI) (auto simp: bit_simps dest: bit_imp_le_length)
  also have "(crc_bit ^^ 8) (?x AND 0xFF) = crcTable ! unat (?x AND 0xFF)"
    using lt by (simp add: crcTable_nth del: funpow.simps)
  finally show ?thesis
    by (simp only: fcs_step_def crc_byte_def)
qed

section \<open>Running sums\<close>

lemma fcs_loop_take: "n \<le> length xs \<Longrightarrow> fcs_loop xs n c = Some (crc_bytes c (take n xs))"
  by (induction xs n c rule: fcs_loop.induct)
    (simp_all add: crc_bytes_def fcs_step_crc_byte)

lemma fcs_loop_short: "length xs < n \<Longrightarrow> fcs_loop xs n c = None"
  by (induction xs n c rule: fcs_loop.induct) simp_all

lemma crc_bytes_append: "crc_bytes c (xs @ ys) = crc_bytes (crc_bytes c xs) ys"
  by (simp add: crc_bytes_def)

lemma crc_bytes_Nil [simp]: "crc_bytes c [] = c"
  by (simp add: crc_bytes_def)

text \<open>
  The interface of a running checksum: \<open>compute\<close> over the first \<open>n\<close> bytes of a buffer
  is \<open>sum\<close> of those bytes, and the sum of a concatenation is the sum continued.
\<close>

locale checksum =
  fixes compute :: "bytes \<Rightarrow> u16 \<Rightarrow> 's \<Rightarrow> 's option"
    and sum :: "'s \<Rightarrow> bytes \<Rightarrow> 's"
  assumes compute_sum: "unat n \<le> length xs \<Longrightarrow> compute xs n s = Some (sum s (take (unat n) xs))"
    and sum_Nil: "sum s [] = s"
    and sum_append: "sum s (xs @ ys) = sum (sum s xs) ys"
begin

lemma sum_concat: "sum s (concat xss) = foldl sum s xss"
  by (induction xss arbitrary: s) (simp_all add: sum_Nil sum_append)

lemma compute_pieces:
  assumes "unat m \<le> length xs" "unat n \<le> length ys"
  shows "Option.bind (compute xs m s) (compute ys n) =
           Some (sum s (take (unat m) xs @ take (unat n) ys))"
  using assms by (simp add: compute_sum sum_append)

end

interpretation fcs: checksum OI_FCS_Compute crc_bytes
  by unfold_locales (simp_all add: OI_FCS_Compute_def fcs_loop_take crc_bytes_append)

section \<open>Error detection\<close>

lemma xor_cancel: "(a :: u16) XOR x = b XOR x \<Longrightarrow> a = b"
proof -
  assume "a XOR x = b XOR x"
  then have "(a XOR x) XOR x = (b XOR x) XOR x"
    by simp
  then show "a = b"
    by (simp add: xor.assoc)
qed

lemma bit_0_word_false: "\<not> bit (0 :: u16) n"
  by simp

lemma crc_bit_inj: "crc_bit a = crc_bit b \<Longrightarrow> a = b"
proof -
  assume eq: "crc_bit a = crc_bit b"
  have "crc_bit (a XOR b) = 0"
    using eq by (simp add: crc_bit_XOR)
  moreover have "bit (crc_bit c) 15 \<longleftrightarrow> bit c 0" for c
    using bit_imp_le_length [of c 16] by (auto simp: crc_bit_def bit_simps)
  ultimately have z: "\<not> bit (a XOR b) 0"
    by (metis bit_0_word_false)
  with \<open>crc_bit (a XOR b) = 0\<close> have d: "drop_bit 1 (a XOR b) = 0"
    by (simp add: crc_bit_def)
  have "\<not> bit (a XOR b) n" for n
    using z arg_cong [OF d, of "\<lambda>w. bit w (n - 1)"] by (cases n) (simp_all add: bit_simps)
  then have "a XOR b = 0"
    by (intro bit_word_eqI) simp
  moreover have "a = (a XOR b) XOR b"
    by (simp add: xor.assoc)
  ultimately show "a = b"
    by simp
qed

lemma crc_bits_inj: "(crc_bit ^^ n) a = (crc_bit ^^ n) b \<Longrightarrow> a = b"
  by (induction n) (auto dest: crc_bit_inj)

lemma crc_byte_inj_crc: "crc_byte a x = crc_byte b x \<Longrightarrow> a = b"
  unfolding crc_byte_def by (drule crc_bits_inj) (rule xor_cancel)

lemma crc_byte_inj_byte:
  assumes "crc_byte c x = crc_byte c y"
  shows "x = y"
proof -
  have "c XOR ucast x = c XOR ucast y"
    using assms unfolding crc_byte_def by (rule crc_bits_inj)
  then have "(ucast x :: u16) = ucast y"
    using xor_cancel [of "ucast x" c "ucast y"] by (simp add: xor.commute)
  then show ?thesis
    by (auto simp: bit_eq_iff bit_simps dest: bit_imp_le_length)
qed

lemma crc_bytes_inj_crc: "crc_bytes a xs = crc_bytes b xs \<Longrightarrow> a = b"
  by (induction xs arbitrary: a b) (auto simp: crc_bytes_def dest: crc_byte_inj_crc)

lemma crc_bytes_residue:
  "crc_bytes c (SetUINT16_LittleEndian c) = 0"
proof -
  let ?lo = "ucast (c AND 0xff) :: u8" and ?hi = "ucast (drop_bit 8 (c AND 0xff00)) :: u8"
  have a: "c XOR ucast ?lo = push_bit 8 (drop_bit 8 c)"
    by (simp only: mask_low_byte) (rule bit_word_eqI, auto simp: bit_simps)
  have b: "(crc_bit ^^ 8) (push_bit 8 (drop_bit 8 c)) = drop_bit 8 (push_bit 8 (drop_bit 8 c))"
    by (rule crc_bits_high) (simp add: bit_simps)
  have d: "drop_bit 8 (push_bit 8 (drop_bit 8 c)) XOR ucast ?hi = 0"
    by (simp only: mask_second_byte) (rule bit_word_eqI, auto simp: bit_simps)
  have z: "(crc_bit ^^ 8) 0 = 0"
    by (simp add: eval_nat_numeral crc_bit_def)
  show ?thesis
    by (simp only: crc_bytes_def SetUINT16_LittleEndian_def foldl.simps crc_byte_def a b d z)
qed

section \<open>Properties\<close>

text \<open>C25: The table-driven loop computes the bitwise CRC with the reflected polynomial
  \<open>0xA001\<close> of the first \<open>bufLen\<close> bytes, and is undefined exactly when the buffer is shorter.\<close>

theorem OI_FCS_Compute_bitwise:
  "OI_FCS_Compute buffer bufLen crc =
     (if unat bufLen \<le> length buffer then Some (crc_bytes crc (take (unat bufLen) buffer)) else None)"
  by (simp add: OI_FCS_Compute_def fcs_loop_take fcs_loop_short)

text \<open>A frame followed by its own FCS, low byte first, has FCS zero, whatever the start
  value: the receiver's check.\<close>

theorem OI_FCS_Compute_residue:
  assumes "length frame + 2 < 65536"
    and "OI_FCS_Compute frame (of_nat (length frame)) crc = Some fcs"
  shows "OI_FCS_Compute (frame @ SetUINT16_LittleEndian fcs) (of_nat (length frame + 2)) crc = Some 0"
proof -
  have "unat (of_nat (length frame) :: u16) = length frame"
    "unat (of_nat (length frame + 2) :: u16) = length frame + 2"
    using assms(1) by (intro unat_of_nat_u16; simp)+
  then show ?thesis
    using assms(2)
    by (simp add: OI_FCS_Compute_def fcs_loop_take crc_bytes_append crc_bytes_residue)
qed

lemma OI_FCS_Compute_residue_witness:
  "OI_FCS_Compute ([0x31] @ SetUINT16_LittleEndian (0xD4C1 :: u16)) 3 0 = Some 0"
proof -
  have "OI_FCS_Compute [0x31] (of_nat (length [0x31 :: u8])) 0 = Some 0xD4C1"
    by (simp add: OI_FCS_Compute_def fcs_step_def crcTable_def)
  from OI_FCS_Compute_residue [OF _ this] show ?thesis
    by simp
qed

text \<open>The FCS tells apart any two frames of the same length that differ in one byte.\<close>

theorem OI_FCS_Compute_detects_byte:
  assumes "x \<noteq> y" and "unat n = length (pre @ [x] @ post)"
  shows "OI_FCS_Compute (pre @ [x] @ post) n crc \<noteq> OI_FCS_Compute (pre @ [y] @ post) n crc"
proof
  assume "OI_FCS_Compute (pre @ [x] @ post) n crc = OI_FCS_Compute (pre @ [y] @ post) n crc"
  then have "crc_bytes crc (pre @ [x] @ post) = crc_bytes crc (pre @ [y] @ post)"
    using assms(2) by (simp add: OI_FCS_Compute_def fcs_loop_take)
  then have "crc_bytes (crc_byte (crc_bytes crc pre) x) post = crc_bytes (crc_byte (crc_bytes crc pre) y) post"
    by (simp add: crc_bytes_def)
  then have "crc_byte (crc_bytes crc pre) x = crc_byte (crc_bytes crc pre) y"
    by (rule crc_bytes_inj_crc)
  with assms(1) show False
    by (auto dest: crc_byte_inj_byte)
qed

lemma OI_FCS_Compute_detects_byte_witness:
  "OI_FCS_Compute [1, 2, 3] 3 0 \<noteq> OI_FCS_Compute [1, 7, 3] 3 0"
  using OI_FCS_Compute_detects_byte [of 2 7 3 "[1]" "[3]" 0] by simp

end
