(* ===== verification/Mbuf.thy ===== *)
theory Mbuf
  imports Fcs
begin

text \<open>
  The mbufs of \<open>oi_mbuf.c\<close>: packets kept as a list of cells, each a pointer to a buffer, a
  few inline bytes or a nested mbuf, with a window and a pull position.

  An mbuf is the tree of its header and its used cells (\<open>usedCells\<close> is the length of the
  list; the unused tail of the C array is never read). The member of the \<open>buf\<close> union that a
  cell holds is given by its constructor. The buffer behind a pointer is its contents, which
  the API requires to stay valid and unchanged while the mbuf refers to it; a nested mbuf
  belongs to one cell. The answers of \<open>OI_Malloc\<close> and \<open>OI_Calloc\<close> are Boolean arguments.
\<close>

section \<open>Data\<close>

datatype OI_MBUF_DISPOSITION = MBUF_COPY | MBUF_FREE | MBUF_KEEP | MBUF_INLINE | MBUF_NESTED

record OI_MBUF_HDR =
  allocCells :: u8
  currCell :: u8
  numBytes :: u16
  currPos :: u16
  winStart :: u16
  winSize :: u16

datatype OI_MBUF =
    MBUF (mbuf_hdr: OI_MBUF_HDR) (mbuf_cells: "OI_MBUF_CELL list")
and OI_MBUF_CELL =
    CELL_PTR OI_MBUF_DISPOSITION u16 "bytes option"
  | CELL_INLINE u16 bytes
  | CELL_NESTED u16 u16 OI_MBUF

fun cell_len :: "OI_MBUF_CELL \<Rightarrow> u16" where
  "cell_len (CELL_PTR d len ptr) = len"
| "cell_len (CELL_INLINE len data) = len"
| "cell_len (CELL_NESTED len ws m) = len"

definition MBUF_INLINE_BUF_SIZE :: u16 where "MBUF_INLINE_BUF_SIZE = 8"
definition DEFAULT_MBUF_CELLS :: u8 where "DEFAULT_MBUF_CELLS = 4"

definition hdr_dirty :: "OI_MBUF_HDR \<Rightarrow> bool" where
  "hdr_dirty h \<longleftrightarrow> currCell h \<noteq> 0 \<or> currPos h \<noteq> 0"

definition OI_MBUF_IS_DIRTY :: "OI_MBUF \<Rightarrow> bool" where
  "OI_MBUF_IS_DIRTY m \<longleftrightarrow> hdr_dirty (mbuf_hdr m)"

definition MBUF_IS_WINDOWED :: "OI_MBUF_HDR \<Rightarrow> bool" where
  "MBUF_IS_WINDOWED h \<longleftrightarrow> winSize h \<noteq> 0 \<or> winStart h \<noteq> 0"

definition usedCells :: "OI_MBUF \<Rightarrow> nat" where
  "usedCells m = length (mbuf_cells m)"

text \<open>\<open>read_ptr\<close> copies \<open>n\<close> bytes at \<open>off\<close> from a pointer; copying nothing is harmless.\<close>

definition read_ptr :: "bytes option \<Rightarrow> nat \<Rightarrow> nat \<Rightarrow> bytes option" where
  "read_ptr p off n =
     (if n = 0 then Some []
      else case p of None \<Rightarrow> None
           | Some b \<Rightarrow> if off + n \<le> length b then Some (take n (drop off b)) else None)"

section \<open>Creation and release\<close>

definition zeroed_hdr :: "u8 \<Rightarrow> OI_MBUF_HDR" where
  "zeroed_hdr n = \<lparr>allocCells = n, currCell = 0, numBytes = 0, currPos = 0, winStart = 0, winSize = 0\<rparr>"

definition OI_MBUF_Alloc :: "bool \<Rightarrow> u8 \<Rightarrow> OI_MBUF option" where
  "OI_MBUF_Alloc calloc_ok numCells =
     (if calloc_ok then Some (MBUF (zeroed_hdr numCells) []) else None)"

definition OI_MBUF_Init :: "OI_MBUF \<Rightarrow> u8 \<Rightarrow> (OI_STATUS \<times> OI_MBUF) option" where
  "OI_MBUF_Init m n = do {
     OI_ASSERT (n > 0);
     Some (if n > DEFAULT_MBUF_CELLS then (OI_STATUS_MBUF_OVERFLOW, m)
           else (OI_OK, MBUF (zeroed_hdr n) []))
   }"

text \<open>\<open>Clean\<close> walks the cells, cleaning nested mbufs and summing \<open>len\<close> at 16 bits.\<close>

fun Clean :: "OI_MBUF \<Rightarrow> (u16 \<times> OI_MBUF) option"
and Clean_cells :: "OI_MBUF_CELL list \<Rightarrow> u16 \<Rightarrow> (u16 \<times> OI_MBUF_CELL list) option"
where
  "Clean (MBUF h cs) =
     (if hdr_dirty h then do {
        (len, cs') \<leftarrow> Clean_cells cs 0;
        if MBUF_IS_WINDOWED h then do {
          OI_ASSERT (winSize h \<le> len);
          Some (winSize h, MBUF (h\<lparr>currPos := 0, currCell := 0, numBytes := winSize h\<rparr>) cs')
        } else Some (len, MBUF (h\<lparr>currPos := 0, currCell := 0, numBytes := len\<rparr>) cs')
      } else Some (numBytes h, MBUF h cs))"
| "Clean_cells [] len = Some (len, [])"
| "Clean_cells (CELL_NESTED l ws m # cs) len = do {
     (_, m') \<leftarrow> Clean m;
     (len', cs') \<leftarrow> Clean_cells cs (len + l);
     Some (len', CELL_NESTED l ws m' # cs')
   }"
| "Clean_cells (CELL_PTR d l p # cs) len = do {
     (len', cs') \<leftarrow> Clean_cells cs (len + l);
     Some (len', CELL_PTR d l p # cs')
   }"
| "Clean_cells (CELL_INLINE l p # cs) len = do {
     (len', cs') \<leftarrow> Clean_cells cs (len + l);
     Some (len', CELL_INLINE l p # cs')
   }"

definition OI_MBUF_Reset :: "OI_MBUF \<Rightarrow> OI_MBUF option" where
  "OI_MBUF_Reset m = map_option snd (Clean m)"

text \<open>
  \<open>OI_MBUF_Clear\<close> gives back the summed length, the pointers handed to \<open>OI_Free\<close>, the nested
  mbufs (which it cleans and leaves to their owner) and the zeroed mbuf.
\<close>

fun Clear_cells ::
    "OI_MBUF_CELL list \<Rightarrow> u16 \<Rightarrow> (u16 \<times> bytes option list \<times> OI_MBUF list) option" where
  "Clear_cells [] len = Some (len, [], [])"
| "Clear_cells (CELL_PTR d l p # cs) len = do {
     (len', freed, nested) \<leftarrow> Clear_cells cs (len + l);
     Some (len', if d = MBUF_COPY \<or> d = MBUF_FREE then p # freed else freed, nested)
   }"
| "Clear_cells (CELL_INLINE l p # cs) len = Clear_cells cs (len + l)"
| "Clear_cells (CELL_NESTED l ws m # cs) len = do {
     (n, m') \<leftarrow> Clean m;
     (len', freed, nested) \<leftarrow> Clear_cells cs (len + n);
     Some (len', freed, m' # nested)
   }"

definition OI_MBUF_Clear ::
    "OI_MBUF \<Rightarrow> (u16 \<times> bytes option list \<times> OI_MBUF list \<times> OI_MBUF) option" where
  "OI_MBUF_Clear m = do {
     (len, freed, nested) \<leftarrow> Clear_cells (mbuf_cells m) 0;
     Some (len, freed, nested, MBUF (zeroed_hdr (allocCells (mbuf_hdr m))) [])
   }"

definition OI_MBUF_Free :: "OI_MBUF \<Rightarrow> (u16 \<times> bytes option list \<times> OI_MBUF list) option" where
  "OI_MBUF_Free m = do {
     (len, freed, nested, _) \<leftarrow> OI_MBUF_Clear m;
     Some (len, freed, nested)
   }"

section \<open>Adding cells\<close>

text \<open>A cell initialised as \<open>MBUF_INLINE\<close> or \<open>MBUF_NESTED\<close> from a pointer would be read back
  through another member of the union; that is undefined here.\<close>

definition InitCell ::
    "bool \<Rightarrow> bytes option \<Rightarrow> u16 \<Rightarrow> OI_MBUF_DISPOSITION \<Rightarrow> (OI_STATUS \<times> OI_MBUF_CELL) option" where
  "InitCell malloc_ok buf len disposition =
     (case disposition of
        MBUF_COPY \<Rightarrow>
          if len \<le> MBUF_INLINE_BUF_SIZE
          then map_option (\<lambda>data. (OI_OK, CELL_INLINE len data)) (read_ptr buf 0 (unat len))
          else if \<not> malloc_ok then Some (OI_STATUS_OUT_OF_MEMORY, CELL_PTR MBUF_KEEP 0 None)
          else map_option (\<lambda>data. (OI_OK, CELL_PTR MBUF_COPY len (Some data)))
                 (read_ptr buf 0 (unat len))
      | MBUF_FREE \<Rightarrow> Some (OI_OK, CELL_PTR MBUF_FREE len buf)
      | MBUF_KEEP \<Rightarrow> Some (OI_OK, CELL_PTR MBUF_KEEP len buf)
      | _ \<Rightarrow> None)"

definition OI_MBUF_Unwrap :: "OI_MBUF \<Rightarrow> (bytes option \<times> u16) option" where
  "OI_MBUF_Unwrap m = do {
     OI_ASSERT (allocCells (mbuf_hdr m) \<le> 1);
     OI_ASSERT (usedCells m = unat (allocCells (mbuf_hdr m)));
     if allocCells (mbuf_hdr m) = 1
     then (case mbuf_cells m of
             [CELL_PTR MBUF_KEEP len ptr] \<Rightarrow> Some (ptr, len)
           | _ \<Rightarrow> None)
     else Some (None, 0)
   }"

definition OI_MBUF_Wrap ::
    "bool \<Rightarrow> bool \<Rightarrow> bytes option \<Rightarrow> u16 \<Rightarrow> OI_MBUF_DISPOSITION \<Rightarrow> OI_MBUF option option" where
  "OI_MBUF_Wrap calloc_ok malloc_ok data len disposition =
     (if data = None \<or> len = 0 then Some (OI_MBUF_Alloc calloc_ok 0)
      else case OI_MBUF_Alloc calloc_ok 1 of
        None \<Rightarrow> Some None
      | Some m \<Rightarrow> do {
          (result, c) \<leftarrow> InitCell malloc_ok data len disposition;
          let m' = MBUF ((mbuf_hdr m)\<lparr>numBytes := len\<rparr>) [c];
          if OI_SUCCESS result then Some (Some m')
          else do { _ \<leftarrow> OI_MBUF_Free m'; Some None }
        })"

definition disposition_ok :: "OI_MBUF_DISPOSITION \<Rightarrow> bool" where
  "disposition_ok d \<longleftrightarrow> d = MBUF_COPY \<or> d = MBUF_FREE \<or> d = MBUF_KEEP"

definition OI_MBUF_Prepend ::
    "bool \<Rightarrow> OI_MBUF \<Rightarrow> bytes option \<Rightarrow> u16 \<Rightarrow> OI_MBUF_DISPOSITION \<Rightarrow> (OI_STATUS \<times> OI_MBUF) option" where
  "OI_MBUF_Prepend malloc_ok m buf len disposition = do {
     OI_ASSERT (buf \<noteq> None);
     OI_ASSERT (\<not> OI_MBUF_IS_DIRTY m);
     OI_ASSERT (\<not> MBUF_IS_WINDOWED (mbuf_hdr m));
     if \<not> disposition_ok disposition then Some (OI_STATUS_INVALID_PARAMETERS, m)
     else if len = 0 then Some (OI_OK, m)
     else if usedCells m \<ge> unat (allocCells (mbuf_hdr m)) then Some (OI_STATUS_MBUF_OVERFLOW, m)
     else do {
       (status, c) \<leftarrow> InitCell malloc_ok buf len disposition;
       Some (status,
             MBUF (if OI_SUCCESS status then (mbuf_hdr m)\<lparr>numBytes := numBytes (mbuf_hdr m) + len\<rparr>
                   else mbuf_hdr m)
               (c # mbuf_cells m))
     }
   }"

definition OI_MBUF_Append ::
    "bool \<Rightarrow> OI_MBUF \<Rightarrow> bytes option \<Rightarrow> u16 \<Rightarrow> OI_MBUF_DISPOSITION \<Rightarrow> (OI_STATUS \<times> OI_MBUF) option" where
  "OI_MBUF_Append malloc_ok m buf len disposition = do {
     OI_ASSERT (\<not> OI_MBUF_IS_DIRTY m);
     OI_ASSERT (\<not> MBUF_IS_WINDOWED (mbuf_hdr m));
     if \<not> disposition_ok disposition then Some (OI_STATUS_INVALID_PARAMETERS, m)
     else if len = 0 then Some (OI_OK, m)
     else if usedCells m \<ge> unat (allocCells (mbuf_hdr m)) then Some (OI_STATUS_MBUF_OVERFLOW, m)
     else do {
       (status, c) \<leftarrow> InitCell malloc_ok buf len disposition;
       Some (status,
             if OI_SUCCESS status
             then MBUF ((mbuf_hdr m)\<lparr>numBytes := numBytes (mbuf_hdr m) + len\<rparr>) (mbuf_cells m @ [c])
             else m)
     }
   }"

definition OI_MBUF_GetNestedMbuf :: "OI_MBUF \<Rightarrow> u8 \<Rightarrow> OI_MBUF option" where
  "OI_MBUF_GetNestedMbuf m index =
     (if unat index \<ge> usedCells m then None
      else case mbuf_cells m ! unat index of CELL_NESTED l ws n \<Rightarrow> Some n | _ \<Rightarrow> None)"

definition OI_MBUF_AppendMbuf :: "OI_MBUF \<Rightarrow> OI_MBUF \<Rightarrow> (OI_STATUS \<times> OI_MBUF) option" where
  "OI_MBUF_AppendMbuf m added = do {
     OI_ASSERT (\<not> OI_MBUF_IS_DIRTY m);
     OI_ASSERT (\<not> OI_MBUF_IS_DIRTY added);
     if usedCells m \<ge> unat (allocCells (mbuf_hdr m)) then Some (OI_STATUS_MBUF_OVERFLOW, m)
     else Some (OI_OK,
       MBUF ((mbuf_hdr m)\<lparr>numBytes := numBytes (mbuf_hdr m) + numBytes (mbuf_hdr added)\<rparr>)
         (mbuf_cells m @
           [CELL_NESTED (numBytes (mbuf_hdr added)) (winStart (mbuf_hdr added)) added]))
   }"

section \<open>Reading\<close>

text \<open>
  \<open>PullBytes\<close> is the C function; \<open>PullCells\<close> its loop, which passes the first \<open>skip\<close> cells
  (those before \<open>currCell\<close>) by; \<open>PullCell\<close> the copy out of one cell. The bytes written at
  \<open>dest\<close> are the result.
\<close>

fun PullBytes :: "OI_MBUF \<Rightarrow> u16 \<Rightarrow> u16 \<Rightarrow> (bytes \<times> OI_MBUF) option"
and PullCells ::
    "OI_MBUF_CELL list \<Rightarrow> nat \<Rightarrow> u8 \<Rightarrow> u16 \<Rightarrow> u16 \<Rightarrow> u16 \<Rightarrow>
       (bytes \<times> u8 \<times> u16 \<times> OI_MBUF_CELL list) option"
and PullCell :: "OI_MBUF_CELL \<Rightarrow> u16 \<Rightarrow> u16 \<Rightarrow> (bytes \<times> OI_MBUF_CELL) option"
where
  "PullBytes (MBUF h cs) n winPos = do {
     (out, k, pos, cs') \<leftarrow> PullCells cs (unat (currCell h)) (currCell h) (currPos h)
                            (if hdr_dirty h then 0 else winPos) n;
     Some (out, MBUF (h\<lparr>currCell := k, currPos := pos\<rparr>) cs')
   }"
| "PullCells [] skip k pos winPos n = Some ([], k, pos, [])"
| "PullCells (c # cs) (Suc skip) k pos winPos n = do {
     (out, k', pos', cs') \<leftarrow> PullCells cs skip k pos winPos n;
     Some (out, k', pos', c # cs')
   }"
| "PullCells (c # cs) 0 k pos winPos n =
     (if cell_len c < winPos then do {
        OI_ASSERT (pos = 0);
        (out, k', pos', cs') \<leftarrow> PullCells cs 0 (k + 1) 0 (winPos - cell_len c) n;
        Some (out, k', pos', c # cs')
      } else do {
        OI_ASSERT (cell_len c \<ge> pos + winPos);
        (data, c') \<leftarrow> PullCell c (min n (cell_len c - (pos + winPos))) (pos + winPos);
        OI_ASSERT (unat n \<ge> length data);
        if n - of_nat (length data) = 0
        then Some (data, k, pos + winPos + of_nat (length data), c' # cs)
        else do {
          (out, k', pos', cs') \<leftarrow> PullCells cs 0 (k + 1) 0 0 (n - of_nat (length data));
          Some (data @ out, k', pos', c' # cs')
        }
      })"
| "PullCell (CELL_PTR d len p) l pos =
     map_option (\<lambda>data. (data, CELL_PTR d len p)) (read_ptr p (unat pos) (unat l))"
| "PullCell (CELL_INLINE len p) l pos =
     map_option (\<lambda>data. (data, CELL_INLINE len p)) (read_ptr (Some p) (unat pos) (unat l))"
| "PullCell (CELL_NESTED len ws m) l pos =
     map_option (\<lambda>(data, m'). (data, CELL_NESTED len ws m')) (PullBytes m l (ws + pos))"

definition OI_MBUF_PullBytes :: "OI_MBUF \<Rightarrow> u16 \<Rightarrow> (bytes \<times> OI_MBUF) option" where
  "OI_MBUF_PullBytes src n =
     (if n > 0 then do {
        (out, src') \<leftarrow> PullBytes src (min (numBytes (mbuf_hdr src)) n) (winStart (mbuf_hdr src));
        OI_ASSERT (unat (numBytes (mbuf_hdr src)) \<ge> length out);
        Some (out, MBUF ((mbuf_hdr src')\<lparr>numBytes := numBytes (mbuf_hdr src) - of_nat (length out)\<rparr>)
                     (mbuf_cells src'))
      } else Some ([], src))"

fun ComputeFCS :: "OI_MBUF \<Rightarrow> u16 \<Rightarrow> u16 \<Rightarrow> u16 \<Rightarrow> (u16 \<times> u16) option"
and FCS_cells :: "OI_MBUF_CELL list \<Rightarrow> u16 \<Rightarrow> u16 \<Rightarrow> u16 \<Rightarrow> u16 \<Rightarrow> (u16 \<times> u16) option"
and FCS_cell :: "OI_MBUF_CELL \<Rightarrow> u16 \<Rightarrow> u16 \<Rightarrow> u16 \<Rightarrow> (u16 \<times> u16) option"
where
  "ComputeFCS (MBUF h cs) n winPos fcs = do {
     OI_ASSERT (\<not> hdr_dirty h);
     FCS_cells cs n winPos 0 fcs
   }"
| "FCS_cells [] n winPos checkedLen fcs = Some (checkedLen, fcs)"
| "FCS_cells (c # cs) n winPos checkedLen fcs =
     (if cell_len c < winPos then FCS_cells cs n (winPos - cell_len c) checkedLen fcs
      else do {
        (len, fcs') \<leftarrow> FCS_cell c (min n (cell_len c - winPos)) winPos fcs;
        if n - len = 0 then Some (checkedLen + len, fcs')
        else FCS_cells cs (n - len) 0 (checkedLen + len) fcs'
      })"
| "FCS_cell (CELL_PTR d len p) l winPos fcs =
     (case p of None \<Rightarrow> if l = 0 then Some (0, fcs) else None
      | Some b \<Rightarrow> map_option (Pair l) (OI_FCS_Compute (drop (unat winPos) b) l fcs))"
| "FCS_cell (CELL_INLINE len b) l winPos fcs =
     map_option (Pair l) (OI_FCS_Compute (drop (unat winPos) b) l fcs)"
| "FCS_cell (CELL_NESTED len ws m) l winPos fcs = ComputeFCS m l (winPos + ws) fcs"

definition OI_MBUF_ComputeFCS :: "OI_MBUF \<Rightarrow> u16 \<Rightarrow> u16 \<Rightarrow> (u16 \<times> u16) option" where
  "OI_MBUF_ComputeFCS m n runningFCS =
     ComputeFCS m (min n (numBytes (mbuf_hdr m))) (winStart (mbuf_hdr m)) runningFCS"

text \<open>\<open>OI_MBUF_PeekBytes\<close> gives the bytes from the returned pointer to the end of its
  buffer, with \<open>contigLen\<close>; \<open>NULL\<close> is \<^term>\<open>None\<close>.\<close>

fun OI_MBUF_PeekBytes :: "OI_MBUF \<Rightarrow> u16 \<Rightarrow> (bytes \<times> u16) option"
and Peek_cells :: "OI_MBUF_CELL list \<Rightarrow> u16 \<Rightarrow> (bytes \<times> u16) option"
and Peek_cell :: "OI_MBUF_CELL \<Rightarrow> u16 \<Rightarrow> (bytes \<times> u16) option"
where
  "OI_MBUF_PeekBytes (MBUF h cs) offset = Peek_cells cs (offset + winStart h)"
| "Peek_cells [] offset = None"
| "Peek_cells (c # cs) offset =
     (if offset \<ge> cell_len c then Peek_cells cs (offset - cell_len c) else Peek_cell c offset)"
| "Peek_cell (CELL_PTR d len p) offset =
     map_option (\<lambda>b. (drop (unat offset) b, len - offset)) p"
| "Peek_cell (CELL_INLINE len b) offset = Some (drop (unat offset) b, len - offset)"
| "Peek_cell (CELL_NESTED len ws m) offset = OI_MBUF_PeekBytes m offset"

section \<open>Windows\<close>

definition cells_len :: "OI_MBUF_CELL list \<Rightarrow> u16" where
  "cells_len cs = foldl (\<lambda>len c. len + cell_len c) 0 cs"

definition OI_MBUF_SetWindowAt :: "OI_MBUF \<Rightarrow> u16 \<Rightarrow> u16 \<Rightarrow> (u16 \<times> OI_MBUF) option" where
  "OI_MBUF_SetWindowAt m ws sz = do {
     OI_ASSERT (\<not> OI_MBUF_IS_DIRTY m);
     let len = cells_len (mbuf_cells m);
     let ws = min len ws;
     let sz = min (len - ws) sz;
     Some (sz, MBUF ((mbuf_hdr m)\<lparr>winStart := ws, winSize := sz, numBytes := sz\<rparr>) (mbuf_cells m))
   }"

definition OI_MBUF_SetWindow :: "OI_MBUF \<Rightarrow> u16 \<Rightarrow> (u16 \<times> OI_MBUF) option" where
  "OI_MBUF_SetWindow m sz = OI_MBUF_SetWindowAt m 0 sz"

definition OI_MBUF_AdvanceWindow :: "OI_MBUF \<Rightarrow> u16 \<Rightarrow> (u16 \<times> OI_MBUF) option" where
  "OI_MBUF_AdvanceWindow m sz =
     OI_MBUF_SetWindowAt m (winStart (mbuf_hdr m) + winSize (mbuf_hdr m)) sz"

section \<open>Contents\<close>

text \<open>The bytes of an unpulled mbuf, window ignored, and of one cell of it.\<close>

fun mbuf_raw :: "OI_MBUF \<Rightarrow> bytes" and cell_raw :: "OI_MBUF_CELL \<Rightarrow> bytes" where
  "mbuf_raw (MBUF h cs) = concat (map cell_raw cs)"
| "cell_raw (CELL_PTR d len p) = (case p of None \<Rightarrow> [] | Some b \<Rightarrow> take (unat len) b)"
| "cell_raw (CELL_INLINE len b) = take (unat len) b"
| "cell_raw (CELL_NESTED len ws m) = take (unat len) (drop (unat ws) (mbuf_raw m))"

definition ptr_ok :: "bytes option \<Rightarrow> u16 \<Rightarrow> bool" where
  "ptr_ok p len \<longleftrightarrow> (case p of None \<Rightarrow> len = 0 | Some b \<Rightarrow> unat len \<le> length b)"

definition lens :: "OI_MBUF_CELL list \<Rightarrow> nat" where
  "lens cs = sum_list (map (unat \<circ> cell_len) cs)"

text \<open>A header agrees with its cells: the cells fit, their total length fits 16 bits, the
  window lies inside, and \<open>numBytes\<close> is the window size or the total.\<close>

definition hdr_ok :: "OI_MBUF_HDR \<Rightarrow> OI_MBUF_CELL list \<Rightarrow> bool" where
  "hdr_ok h cs \<longleftrightarrow> length cs \<le> unat (allocCells h) \<and> lens cs < 65536 \<and>
     unat (winStart h) + unat (winSize h) \<le> lens cs"

definition full_bytes :: "OI_MBUF_HDR \<Rightarrow> OI_MBUF_CELL list \<Rightarrow> u16" where
  "full_bytes h cs = (if MBUF_IS_WINDOWED h then winSize h else of_nat (lens cs))"

text \<open>An mbuf from which nothing has been pulled.\<close>

fun mbuf_ok :: "OI_MBUF \<Rightarrow> bool" and cell_ok :: "OI_MBUF_CELL \<Rightarrow> bool" where
  "mbuf_ok (MBUF h cs) \<longleftrightarrow> \<not> hdr_dirty h \<and> hdr_ok h cs \<and> numBytes h = full_bytes h cs \<and>
     (\<forall>c \<in> set cs. cell_ok c)"
| "cell_ok (CELL_PTR d len p) \<longleftrightarrow> ptr_ok p len"
| "cell_ok (CELL_INLINE len b) \<longleftrightarrow> unat len \<le> length b"
| "cell_ok (CELL_NESTED len ws m) \<longleftrightarrow> 0 < len \<and> mbuf_ok m \<and>
     unat ws + unat len \<le> length (mbuf_raw m)"

lemma length_cell_raw: "cell_ok c \<Longrightarrow> length (cell_raw c) = unat (cell_len c)"
  by (cases c) (auto simp: ptr_ok_def split: option.splits)

lemma length_cells_raw:
  "\<forall>c \<in> set cs. cell_ok c \<Longrightarrow> length (concat (map cell_raw cs)) = lens cs"
  by (induction cs) (simp_all add: lens_def length_cell_raw)

lemma lens_simps [simp]: "lens [] = 0" "lens (c # cs) = unat (cell_len c) + lens cs"
  "lens (cs @ ds) = lens cs + lens ds"
  by (simp_all add: lens_def)

lemma length_mbuf_raw: "mbuf_ok (MBUF h cs) \<Longrightarrow> length (mbuf_raw (MBUF h cs)) = lens cs"
  by (simp add: length_cells_raw)

text \<open>The bytes a partly pulled mbuf still has to give, for a pull with window start \<open>w\<close>.\<close>

fun mbuf_rest :: "OI_MBUF \<Rightarrow> nat \<Rightarrow> bytes"
and cells_rest :: "OI_MBUF_CELL list \<Rightarrow> nat \<Rightarrow> nat \<Rightarrow> bytes"
and cell_rest :: "OI_MBUF_CELL \<Rightarrow> nat \<Rightarrow> bytes"
where
  "mbuf_rest (MBUF h cs) w =
     (if hdr_dirty h then cells_rest cs (unat (currCell h)) (unat (currPos h))
      else drop w (concat (map cell_raw cs)))"
| "cells_rest [] k pos = []"
| "cells_rest (c # cs) (Suc k) pos = cells_rest cs k pos"
| "cells_rest (c # cs) 0 pos = cell_rest c pos @ concat (map cell_raw cs)"
| "cell_rest (CELL_PTR d len p) pos =
     (case p of None \<Rightarrow> [] | Some b \<Rightarrow> drop pos (take (unat len) b))"
| "cell_rest (CELL_INLINE len b) pos = drop pos (take (unat len) b)"
| "cell_rest (CELL_NESTED len ws m) pos = take (unat len - pos) (mbuf_rest m (unat ws + pos))"

text \<open>An mbuf in any state a sequence of pulls leads to.\<close>

fun pull_ok :: "OI_MBUF \<Rightarrow> bool"
and cells_pull_ok :: "OI_MBUF_CELL list \<Rightarrow> nat \<Rightarrow> nat \<Rightarrow> bool"
and prev_ok :: "OI_MBUF_CELL \<Rightarrow> bool"
and cell_pull_ok :: "OI_MBUF_CELL \<Rightarrow> nat \<Rightarrow> bool"
where
  "pull_ok (MBUF h cs) \<longleftrightarrow> hdr_ok h cs \<and>
     (if hdr_dirty h then cells_pull_ok cs (unat (currCell h)) (unat (currPos h))
      else \<forall>c \<in> set cs. cell_ok c)"
| "cells_pull_ok [] k pos \<longleftrightarrow> False"
| "cells_pull_ok (c # cs) (Suc k) pos \<longleftrightarrow> prev_ok c \<and> cells_pull_ok cs k pos"
| "cells_pull_ok (c # cs) 0 pos \<longleftrightarrow> 0 < pos \<and> cell_pull_ok c pos \<and> (\<forall>c \<in> set cs. cell_ok c)"
| "prev_ok (CELL_NESTED len ws m) \<longleftrightarrow> mbuf_ok m \<or> OI_MBUF_IS_DIRTY m \<and> pull_ok m"
| "prev_ok (CELL_PTR d len p) \<longleftrightarrow> True"
| "prev_ok (CELL_INLINE len b) \<longleftrightarrow> True"
| "cell_pull_ok (CELL_PTR d len p) pos \<longleftrightarrow> ptr_ok p len \<and> pos \<le> unat len"
| "cell_pull_ok (CELL_INLINE len b) pos \<longleftrightarrow> unat len \<le> length b \<and> pos \<le> unat len"
| "cell_pull_ok (CELL_NESTED len ws m) pos \<longleftrightarrow> pos \<le> unat len \<and> 0 < len \<and>
     unat ws + unat len < 65536 \<and> OI_MBUF_IS_DIRTY m \<and> pull_ok m \<and>
     unat len - pos \<le> length (mbuf_rest m 0)"

text \<open>The same mbuf with nothing pulled.\<close>

fun pristine :: "OI_MBUF \<Rightarrow> OI_MBUF" and pristine_cell :: "OI_MBUF_CELL \<Rightarrow> OI_MBUF_CELL" where
  "pristine (MBUF h cs) =
     MBUF (h\<lparr>currCell := 0, currPos := 0, numBytes := full_bytes h cs\<rparr>) (map pristine_cell cs)"
| "pristine_cell (CELL_PTR d len p) = CELL_PTR d len p"
| "pristine_cell (CELL_INLINE len b) = CELL_INLINE len b"
| "pristine_cell (CELL_NESTED len ws m) = CELL_NESTED len ws (pristine m)"

lemma cell_len_pristine [simp]: "cell_len (pristine_cell c) = cell_len c"
  by (cases c) simp_all

lemma mbuf_ok_pull_ok: "mbuf_ok m \<Longrightarrow> pull_ok m"
  by (cases m) simp

lemma cell_ok_prev_ok: "cell_ok c \<Longrightarrow> prev_ok c"
  by (cases c) (simp_all add: mbuf_ok_pull_ok)

lemma cell_pull_ok_prev_ok: "cell_pull_ok c p \<Longrightarrow> prev_ok c"
  by (cases c) simp_all

lemma cell_rest_ok:
  "cell_ok c \<Longrightarrow> cell_rest c p = drop p (cell_raw c)"
proof (cases c)
  case (CELL_NESTED len ws m)
  moreover assume "cell_ok c"
  ultimately show ?thesis
    by (cases m) (simp add: drop_take add.commute)
qed (auto split: option.splits)

lemma mbuf_rest_dirty: "OI_MBUF_IS_DIRTY m \<Longrightarrow> mbuf_rest m w = mbuf_rest m 0"
  by (cases m) (simp add: OI_MBUF_IS_DIRTY_def)

lemma length_cell_rest_pull:
  "cell_pull_ok c p \<Longrightarrow> length (cell_rest c p) = unat (cell_len c) - p"
proof (cases c)
  case (CELL_NESTED len ws m)
  moreover assume "cell_pull_ok c p"
  ultimately show ?thesis
    using mbuf_rest_dirty [of m "unat ws + p"] by simp
qed (auto simp: ptr_ok_def split: option.splits)

lemma length_cell_rest:
  "cell_ok c \<or> cell_pull_ok c p \<Longrightarrow> length (cell_rest c p) = unat (cell_len c) - p"
  by (auto simp: length_cell_rest_pull cell_rest_ok length_cell_raw)

lemma hdr_unchanged:
  "\<not> hdr_dirty h \<Longrightarrow> numBytes h = n \<Longrightarrow> h\<lparr>currCell := 0, currPos := 0, numBytes := n\<rparr> = h"
  by (cases h) (simp add: hdr_dirty_def)

lemma mbuf_ok_pristine:
  "mbuf_ok m \<Longrightarrow> pristine m = m" "cell_ok c \<Longrightarrow> pristine_cell c = c"
proof (induction m and c rule: mbuf_ok_cell_ok.induct)
  case (1 h cs)
  then have "map pristine_cell cs = cs"
    by (intro map_idI) simp
  with 1 show ?case
    by (simp add: hdr_unchanged)
qed simp_all

lemma lens_pristine [simp]: "lens (map pristine_cell cs) = lens cs"
  by (simp add: lens_def comp_def)

text \<open>\<open>Clean\<close> takes any state reached by pulls back to the start.\<close>

lemma Clean_cells_pull:
  fixes len :: u16
  assumes "\<forall>c \<in> set cs. case c of CELL_NESTED l ws m \<Rightarrow> \<exists>n. Clean m = Some (n, pristine m) | _ \<Rightarrow> True"
  shows "Clean_cells cs len = Some (len + of_nat (lens cs), map pristine_cell cs)"
  using assms
proof (induction cs arbitrary: len)
  case (Cons c cs)
  then show ?case
    by (cases c) (auto simp: add.assoc)
qed simp

lemma cells_pull_ok_prev: "cells_pull_ok cs k p \<Longrightarrow> \<forall>c \<in> set cs. prev_ok c"
proof (induction cs arbitrary: k)
  case (Cons c cs)
  then show ?case
    by (cases k) (auto intro: cell_ok_prev_ok cell_pull_ok_prev_ok)
qed simp

lemma Clean_pull:
  "OI_MBUF_IS_DIRTY m \<and> pull_ok m \<or> mbuf_ok m \<Longrightarrow> \<exists>n. Clean m = Some (n, pristine m)"
proof (induction m rule: measure_induct_rule [of size])
  case (less m)
  obtain h cs where m: "m = MBUF h cs"
    by (cases m)
  show ?case
  proof (cases "hdr_dirty h")
    case False
    with less.prems m have "mbuf_ok m"
      by (simp add: OI_MBUF_IS_DIRTY_def)
    with False m show ?thesis
      using mbuf_ok_pristine(1) [of m] by simp
  next
    case True
    with less.prems m have ok: "hdr_ok h cs" and prev: "\<forall>c \<in> set cs. prev_ok c"
      by (auto simp: OI_MBUF_IS_DIRTY_def cells_pull_ok_prev)
    have "\<exists>n. Clean m' = Some (n, pristine m')" if "CELL_NESTED l ws m' \<in> set cs" for l ws m'
    proof (rule less.IH)
      show "size m' < size m"
        using size_list_estimation [OF that, of "size m'" size] m by simp
      show "OI_MBUF_IS_DIRTY m' \<and> pull_ok m' \<or> mbuf_ok m'"
        using prev that by fastforce
    qed
    then have "Clean_cells cs 0 = Some (0 + of_nat (lens cs), map pristine_cell cs)"
      by (intro Clean_cells_pull) (auto split: OI_MBUF_CELL.splits)
    moreover have "winSize h \<le> (of_nat (lens cs) :: u16)"
      using ok by (simp add: hdr_ok_def word_le_nat_alt unat_of_nat_u16)
    ultimately show ?thesis
      using True m by (cases "MBUF_IS_WINDOWED h") (simp_all add: full_bytes_def)
  qed
qed

section \<open>Pulling bytes\<close>

text \<open>What a pull of \<open>l\<close> bytes from one cell at \<open>pos\<close> gives and leaves.\<close>

definition cell_pulled :: "OI_MBUF_CELL \<Rightarrow> u16 \<Rightarrow> u16 \<Rightarrow> bool" where
  "cell_pulled c l pos \<longleftrightarrow> (\<exists>c'. PullCell c l pos = Some (take (unat l) (cell_rest c (unat pos)), c') \<and>
     cell_pull_ok c' (unat pos + unat l) \<and>
     cell_rest c' (unat pos + unat l) = drop (unat l) (cell_rest c (unat pos)) \<and>
     pristine_cell c' = pristine_cell c)"

definition mbuf_pulled :: "OI_MBUF \<Rightarrow> u16 \<Rightarrow> u16 \<Rightarrow> bool" where
  "mbuf_pulled m n w \<longleftrightarrow> (\<exists>m'. PullBytes m n w = Some (take (unat n) (mbuf_rest m (unat w)), m') \<and>
     pull_ok m' \<and> OI_MBUF_IS_DIRTY m' \<and>
     mbuf_rest m' 0 = drop (unat n) (mbuf_rest m (unat w)) \<and>
     pristine m' = pristine m \<and> winStart (mbuf_hdr m') = winStart (mbuf_hdr m))"

text \<open>The loop's state: the cells ahead are unpulled, with \<open>w\<close> bytes to skip, or the first of
  them was partly pulled.\<close>

definition ahead :: "OI_MBUF_CELL list \<Rightarrow> nat \<Rightarrow> u16 \<Rightarrow> u16 \<Rightarrow> u16 \<Rightarrow> bool" where
  "ahead cs skip pos w n \<longleftrightarrow>
     (if w = 0 \<and> 0 < pos then cells_pull_ok cs skip (unat pos)
      else pos = 0 \<and> skip = 0 \<and> (\<forall>c \<in> set cs. cell_ok c) \<and> (0 < n \<or> 0 < w) \<and> unat w \<le> lens cs)"

definition ahead_rest :: "OI_MBUF_CELL list \<Rightarrow> nat \<Rightarrow> u16 \<Rightarrow> u16 \<Rightarrow> bytes" where
  "ahead_rest cs skip pos w =
     (if w = 0 \<and> 0 < pos then cells_rest cs skip (unat pos)
      else drop (unat w) (concat (map cell_raw cs)))"

definition cells_pulled :: "OI_MBUF_CELL list \<Rightarrow> nat \<Rightarrow> u8 \<Rightarrow> u16 \<Rightarrow> u16 \<Rightarrow> u16 \<Rightarrow> bool" where
  "cells_pulled cs skip k pos w n \<longleftrightarrow>
     (\<exists>k' pos' cs'. PullCells cs skip k pos w n =
          Some (take (unat n) (ahead_rest cs skip pos w), k', pos', cs') \<and>
        unat k \<le> unat k' \<and> cells_pull_ok cs' (skip + (unat k' - unat k)) (unat pos') \<and>
        cells_rest cs' (skip + (unat k' - unat k)) (unat pos') = drop (unat n) (ahead_rest cs skip pos w) \<and>
        0 < pos' \<and> map pristine_cell cs' = map pristine_cell cs)"

lemma cells_pulled_start:
  "cells_pulled cs (unat k) k pos w n \<Longrightarrow> \<exists>k' pos' cs'.
     PullCells cs (unat k) k pos w n = Some (take (unat n) (ahead_rest cs (unat k) pos w), k', pos', cs') \<and>
     cells_pull_ok cs' (unat k') (unat pos') \<and>
     cells_rest cs' (unat k') (unat pos') = drop (unat n) (ahead_rest cs (unat k) pos w) \<and>
     0 < pos' \<and> map pristine_cell cs' = map pristine_cell cs"
  unfolding cells_pulled_def by (metis le_add_diff_inverse)

lemma read_ptr_take:
  "ptr_ok p len \<Longrightarrow> pos \<le> unat len \<Longrightarrow> l \<le> unat len - pos \<Longrightarrow>
     read_ptr p pos l = Some (take l (case p of None \<Rightarrow> [] | Some b \<Rightarrow> drop pos (take (unat len) b)))"
  by (auto simp: read_ptr_def ptr_ok_def drop_take min_def split: option.splits)

lemma PullCell_ptr:
  assumes "cell_ok (CELL_PTR d len p) \<or> cell_pull_ok (CELL_PTR d len p) (unat pos)"
    and "unat pos \<le> unat len" "unat l \<le> unat len - unat pos"
  shows "cell_pulled (CELL_PTR d len p) l pos"
  using assms read_ptr_take [of p len "unat pos" "unat l"]
  by (auto simp: cell_pulled_def split: option.splits)
    (simp_all add: ptr_ok_def add.commute)

lemma PullCell_inline:
  assumes "cell_ok (CELL_INLINE len b) \<or> cell_pull_ok (CELL_INLINE len b) (unat pos)"
    and "unat pos \<le> unat len" "unat l \<le> unat len - unat pos"
  shows "cell_pulled (CELL_INLINE len b) l pos"
  using assms read_ptr_take [of "Some b" len "unat pos" "unat l"]
  by (auto simp: cell_pulled_def ptr_ok_def add.commute)

lemma PullCell_nested:
  assumes "cell_ok (CELL_NESTED len ws m) \<or> cell_pull_ok (CELL_NESTED len ws m) (unat pos)"
    and "unat pos \<le> unat len" "unat l \<le> unat len - unat pos" "0 < l \<or> 0 < pos"
    and IH: "\<And>w. pull_ok m \<Longrightarrow> OI_MBUF_IS_DIRTY m \<or> unat w \<le> length (mbuf_raw m) \<Longrightarrow>
       unat l \<le> length (mbuf_rest m (unat w)) \<Longrightarrow> 0 < l \<or> 0 < w \<or> OI_MBUF_IS_DIRTY m \<Longrightarrow>
       mbuf_pulled m l w"
  shows "cell_pulled (CELL_NESTED len ws m) l pos"
proof -
  have bound: "unat ws + unat len < 65536"
  proof (cases m)
    case (MBUF h cs)
    then show ?thesis
      using assms(1) length_mbuf_raw [of h cs] by (auto simp: hdr_ok_def)
  qed
  then have sum: "unat (ws + pos) = unat ws + unat pos"
    using assms(2) by (simp add: unat_add_u16)
  have ok: "pull_ok m"
    using assms(1) mbuf_ok_pull_ok by auto
  have dw: "OI_MBUF_IS_DIRTY m \<or> unat (ws + pos) \<le> length (mbuf_raw m)"
    using assms(1,2) sum by auto
  have len: "unat len - unat pos \<le> length (mbuf_rest m (unat ws + unat pos))"
  proof (cases "OI_MBUF_IS_DIRTY m")
    case True
    then show ?thesis
      using assms(1) mbuf_rest_dirty [of m "unat ws + unat pos"]
      by (cases m) (auto simp: OI_MBUF_IS_DIRTY_def)
  next
    case False
    then show ?thesis
      using assms(1) by (cases m) (auto simp: OI_MBUF_IS_DIRTY_def)
  qed
  have "mbuf_pulled m l (ws + pos)"
  proof (rule IH [OF ok dw])
    show "unat l \<le> length (mbuf_rest m (unat (ws + pos)))"
      using assms(3) len sum by simp
    show "0 < l \<or> 0 < ws + pos \<or> OI_MBUF_IS_DIRTY m"
      using assms(4) sum by (auto simp: word_less_nat_alt)
  qed
  then obtain m' where m': "PullBytes m l (ws + pos) =
        Some (take (unat l) (mbuf_rest m (unat ws + unat pos)), m')"
      "pull_ok m'" "OI_MBUF_IS_DIRTY m'" "pristine m' = pristine m"
      "mbuf_rest m' 0 = drop (unat l) (mbuf_rest m (unat ws + unat pos))"
    by (auto simp: mbuf_pulled_def sum)
  have "0 < len"
    using assms(1) by auto
  with m' bound assms(2,3) len show ?thesis
    using mbuf_rest_dirty [of m' "unat ws + (unat pos + unat l)"]
    by (auto simp: cell_pulled_def drop_take min_def)
qed


definition cell_pullable :: "OI_MBUF_CELL \<Rightarrow> bool" where
  "cell_pullable c \<longleftrightarrow> (\<forall>l pos. (cell_ok c \<or> cell_pull_ok c (unat pos)) \<longrightarrow> unat pos \<le> unat (cell_len c) \<longrightarrow>
     unat l \<le> unat (cell_len c) - unat pos \<longrightarrow> 0 < l \<or> 0 < pos \<or> cell_len c = 0 \<longrightarrow> cell_pulled c l pos)"

lemma cell_pullableD:
  "cell_pullable c \<Longrightarrow> cell_ok c \<or> cell_pull_ok c (unat pos) \<Longrightarrow> unat pos \<le> unat (cell_len c) \<Longrightarrow>
     unat l \<le> unat (cell_len c) - unat pos \<Longrightarrow> 0 < l \<or> 0 < pos \<or> cell_len c = 0 \<Longrightarrow> cell_pulled c l pos"
  unfolding cell_pullable_def by blast

lemma cells_pull_ok_pos: "cells_pull_ok cs k p \<Longrightarrow> 0 < p"
proof (induction cs arbitrary: k)
  case (Cons c cs)
  then show ?case
    by (cases k) auto
qed simp

lemma lens_eq: "map pristine_cell cs' = map pristine_cell cs \<Longrightarrow> lens cs' = lens cs"
  by (metis lens_pristine)

lemma u8_next: "unat (k :: u8) < 255 \<Longrightarrow> unat (k + 1) = unat k + 1"
  by (simp add: unat_word_ariths)

lemma ahead_here:
  assumes "ahead (c # cs) 0 pos w n" "\<not> cell_len c < w"
  shows "cell_ok c \<or> cell_pull_ok c (unat (pos + w))" and "unat (pos + w) \<le> unat (cell_len c)"
    and "\<forall>c \<in> set cs. cell_ok c" and "0 < n \<or> 0 < pos + w"
    and "ahead_rest (c # cs) 0 pos w = cell_rest c (unat (pos + w)) @ concat (map cell_raw cs)"
  using assms
  by (auto simp: ahead_def ahead_rest_def word_less_nat_alt not_less cell_rest_ok length_cell_raw
      split: if_splits) (cases c, simp_all)+

lemma cells_at_later:
  assumes "Suc i \<le> j"
  shows "cells_pull_ok (c # cs) (j - i) pos = (prev_ok c \<and> cells_pull_ok cs (j - Suc i) pos)"
    and "cells_rest (c # cs) (j - i) pos = cells_rest cs (j - Suc i) pos"
proof -
  have "j - i = Suc (j - Suc i)"
    using assms by simp
  then show "cells_pull_ok (c # cs) (j - i) pos = (prev_ok c \<and> cells_pull_ok cs (j - Suc i) pos)"
    and "cells_rest (c # cs) (j - i) pos = cells_rest cs (j - Suc i) pos"
    by simp_all
qed

lemma PullCells_pulled:
  assumes "\<forall>c \<in> set cs. cell_pullable c" and "ahead cs skip pos w n"
    and "unat n \<le> length (ahead_rest cs skip pos w)" and "unat k + length cs \<le> 255 + skip"
  shows "cells_pulled cs skip k pos w n"
  using assms
proof (induction cs arbitrary: skip k pos w n)
  case Nil
  then show ?case
    by (auto simp: ahead_def ahead_rest_def word_less_nat_alt split: if_splits)
next
  case (Cons c cs)
  show ?case
  proof (cases skip)
    case (Suc s)
    with Cons.prems have a: "ahead cs s pos w n" "prev_ok c"
      and r: "ahead_rest (c # cs) skip pos w = ahead_rest cs s pos w"
      by (auto simp: ahead_def ahead_rest_def split: if_splits)
    then have "cells_pulled cs s k pos w n"
      using Cons Suc by simp
    with a r Suc show ?thesis
      by (auto simp: cells_pulled_def)
  next
    case 0
    show ?thesis
    proof (cases "cell_len c < w")
      case True
      with Cons.prems 0 have pos: "pos = 0" and ok: "cell_ok c" "\<forall>c \<in> set cs. cell_ok c"
        and ww: "unat (w - cell_len c) = unat w - unat (cell_len c)" "0 < w - cell_len c"
        by (auto simp: ahead_def unat_sub_u16 word_less_nat_alt split: if_splits)
      have a: "ahead cs 0 0 (w - cell_len c) n"
        using Cons.prems(2) 0 ok ww by (auto simp: ahead_def split: if_splits)
      have r: "ahead_rest (c # cs) 0 0 w = ahead_rest cs 0 0 (w - cell_len c)"
        using True ww ok by (simp add: ahead_rest_def length_cell_raw word_less_nat_alt)
      have k: "unat (k + 1) = unat k + 1"
        using Cons.prems(4) 0 by (intro u8_next) simp
      have "cells_pulled cs 0 (k + 1) 0 (w - cell_len c) n"
        using Cons.prems 0 a r k pos by (intro Cons.IH) simp_all
      then show ?thesis
        using True pos 0 r k ok(1) by (auto simp: cells_pulled_def cells_at_later cell_ok_prev_ok)
    next
      case False0: False
      note here = ahead_here [OF Cons.prems(2) [unfolded 0] False0]
      let ?p = "pos + w" and ?l = "min n (cell_len c - (pos + w))"
      have l: "unat ?l = min (unat n) (unat (cell_len c) - unat ?p)"
        using here(2) by (simp add: min_def unat_sub_u16 word_le_nat_alt)
      have len: "length (cell_rest c (unat ?p)) = unat (cell_len c) - unat ?p"
        using here(1) by (rule length_cell_rest)
      have "cell_pulled c ?l ?p"
      proof -
        have "0 < ?l \<or> 0 < ?p \<or> cell_len c = 0"
          using here(2,4) l by (auto simp: word_less_nat_alt unat_gt_0)
        then show ?thesis
          using Cons.prems(1) here(1,2) l by (intro cell_pullableD) auto
      qed
      then obtain c' where c': "PullCell c ?l ?p = Some (take (unat ?l) (cell_rest c (unat ?p)), c')"
          "cell_pull_ok c' (unat ?p + unat ?l)" "pristine_cell c' = pristine_cell c"
          "cell_rest c' (unat ?p + unat ?l) = drop (unat ?l) (cell_rest c (unat ?p))"
        by (auto simp: cell_pulled_def)
      have dl: "length (take (unat ?l) (cell_rest c (unat ?p))) = unat ?l"
        using len l by simp
      have pl: "unat (?p + ?l) = unat ?p + unat ?l"
        using l here(2) unat_lt_u16 [of "cell_len c"] by (intro unat_add_u16) linarith
      show ?thesis
      proof (cases "n \<le> cell_len c - ?p")
        case True
        then have ln: "?l = n"
          by (simp add: min_def)
        have "0 < ?p + n"
          using here(4) pl ln by (auto simp: word_less_nat_alt)
        moreover have "unat n \<le> length (cell_rest c (unat ?p))"
          using dl ln by simp
        ultimately show ?thesis
          using False0 c' here(2,3) pl dl 0 ln
          by (simp add: cells_pulled_def here(5) word_le_nat_alt word_less_nat_alt add.assoc)
      next
        case False
        then have ln: "?l = cell_len c - ?p"
          by simp
        then have lp: "unat ?p + unat ?l = unat (cell_len c)" "unat ?l < unat n"
          using l here(2) False by (auto simp: word_le_nat_alt unat_sub_u16)
        then have all: "take (unat ?l) (cell_rest c (unat ?p)) = cell_rest c (unat ?p)"
          using len by simp
        have n2: "unat (n - ?l) = unat n - unat ?l"
          using lp by (simp add: unat_sub_u16)
        have k: "unat (k + 1) = unat k + 1"
          using Cons.prems(4) 0 by (intro u8_next) simp
        have a: "ahead cs 0 0 0 (n - ?l)"
          using here(3) n2 lp by (simp add: ahead_def word_less_nat_alt)
        have "cells_pulled cs 0 (k + 1) 0 0 (n - ?l)"
        proof (rule Cons.IH [OF _ a])
          show "unat (n - ?l) \<le> length (ahead_rest cs 0 0 0)"
            using Cons.prems(3) here(5) len lp n2 0 by (simp add: ahead_rest_def)
        qed (use Cons.prems 0 k in simp_all)
        then obtain k' pos' cs' where r:
            "PullCells cs 0 (k + 1) 0 0 (n - ?l) =
              Some (take (unat n - unat ?l) (concat (map cell_raw cs)), k', pos', cs')"
            "unat k + 1 \<le> unat k'" "cells_pull_ok cs' (unat k' - (unat k + 1)) (unat pos')"
            "cells_rest cs' (unat k' - (unat k + 1)) (unat pos') =
               drop (unat n - unat ?l) (concat (map cell_raw cs))"
            "0 < pos'" "map pristine_cell cs' = map pristine_cell cs"
          by (auto simp: cells_pulled_def k n2 ahead_rest_def)
        have nz: "n - of_nat (length (cell_rest c (unat ?p))) \<noteq> 0"
          using lp n2 dl all by (auto simp: word_less_nat_alt)
        have lw: "of_nat (length (cell_rest c (unat ?p))) = ?l"
          using dl all by simp
        have le: "unat (cell_len c - ?p) \<le> unat n"
          using lp(2) ln by simp
        show ?thesis
          using False0 c' here(2) 0 r le nz lw dl all lp n2 cell_pull_ok_prev_ok [OF c'(2)]
          by (simp add: cells_pulled_def here(5) cells_at_later word_le_nat_alt)
      qed
    qed
  qed
qed


lemma PullBytes_pulled:
  assumes "\<forall>c \<in> set cs. cell_pullable c" and "pull_ok (MBUF h cs)"
    and "hdr_dirty h \<or> unat w \<le> lens cs"
    and "unat n \<le> length (mbuf_rest (MBUF h cs) (unat w))" and "0 < n \<or> 0 < w \<or> hdr_dirty h"
  shows "mbuf_pulled (MBUF h cs) n w"
proof -
  let ?w = "if hdr_dirty h then 0 else w"
  have pos: "hdr_dirty h \<Longrightarrow> 0 < currPos h"
    using assms(2) cells_pull_ok_pos by (auto simp: word_less_nat_alt)
  have clean: "\<not> hdr_dirty h \<Longrightarrow> currPos h = 0 \<and> currCell h = 0"
    by (simp add: hdr_dirty_def)
  have a: "ahead cs (unat (currCell h)) (currPos h) ?w n"
    using assms(2,3,5) pos clean by (auto simp: ahead_def)
  have r: "ahead_rest cs (unat (currCell h)) (currPos h) ?w = mbuf_rest (MBUF h cs) (unat w)"
    using pos clean by (auto simp: ahead_rest_def)
  have "length cs \<le> 255"
    using assms(2) unat_lt_u8 [of "allocCells h"] unfolding pull_ok.simps hdr_ok_def by linarith
  then have "cells_pulled cs (unat (currCell h)) (currCell h) (currPos h) ?w n"
    using assms(1,4) a r by (intro PullCells_pulled) simp_all
  from cells_pulled_start [OF this, unfolded r] obtain k' pos' cs' where p:
      "PullCells cs (unat (currCell h)) (currCell h) (currPos h) ?w n =
         Some (take (unat n) (mbuf_rest (MBUF h cs) (unat w)), k', pos', cs')"
      "cells_pull_ok cs' (unat k') (unat pos')"
      "cells_rest cs' (unat k') (unat pos') = drop (unat n) (mbuf_rest (MBUF h cs) (unat w))"
      "0 < pos'" "map pristine_cell cs' = map pristine_cell cs"
    by blast
  have len: "lens cs' = lens cs" "length cs' = length cs"
    using lens_eq [OF p(5)] arg_cong [OF p(5), of length] by simp_all
  have hdr: "hdr_ok (h\<lparr>currCell := k', currPos := pos'\<rparr>) cs'"
      "full_bytes (h\<lparr>currCell := k', currPos := pos'\<rparr>) cs' = full_bytes h cs"
    using assms(2) len by (simp_all add: hdr_ok_def full_bytes_def MBUF_IS_WINDOWED_def)
  have d: "hdr_dirty (h\<lparr>currCell := k', currPos := pos'\<rparr>)"
    using p(4) by (auto simp: hdr_dirty_def)
  show ?thesis
    using p hdr d by (simp add: mbuf_pulled_def OI_MBUF_IS_DIRTY_def)
qed

lemma pulled:
  "pull_ok m \<Longrightarrow> OI_MBUF_IS_DIRTY m \<or> unat w \<le> length (mbuf_raw m) \<Longrightarrow>
     unat n \<le> length (mbuf_rest m (unat w)) \<Longrightarrow> 0 < n \<or> 0 < w \<or> OI_MBUF_IS_DIRTY m \<Longrightarrow>
     mbuf_pulled m n w"
proof (induction m arbitrary: n w rule: measure_induct_rule [of size])
  case (less m)
  obtain h cs where m: "m = MBUF h cs"
    by (cases m)
  have "cell_pullable c" if c: "c \<in> set cs" for c
  proof (cases c)
    case (CELL_NESTED len ws m')
    have "size m' < size m"
      using size_list_estimation [OF c [unfolded CELL_NESTED], of "size m'" size] m by simp
    then show ?thesis
      using less.IH [of m'] unfolding CELL_NESTED cell_pullable_def
      by (auto intro!: PullCell_nested)
  qed (auto simp: cell_pullable_def PullCell_ptr PullCell_inline)
  then have all: "\<forall>c \<in> set cs. cell_pullable c"
    by blast
  have "hdr_dirty h \<or> unat w \<le> lens cs"
    using less.prems(1,2) m length_cells_raw [of cs]
    by (cases "hdr_dirty h") (simp_all add: OI_MBUF_IS_DIRTY_def)
  with all show ?case
    using less.prems m unfolding m by (intro PullBytes_pulled) (simp_all add: OI_MBUF_IS_DIRTY_def)
qed


text \<open>What a consumer of the mbuf has still to see.\<close>

definition mbuf_content :: "OI_MBUF \<Rightarrow> bytes" where
  "mbuf_content m = take (unat (numBytes (mbuf_hdr m))) (mbuf_rest m (unat (winStart (mbuf_hdr m))))"

definition mbuf_wf :: "OI_MBUF \<Rightarrow> bool" where
  "mbuf_wf m \<longleftrightarrow> pull_ok m \<and>
     unat (numBytes (mbuf_hdr m)) \<le> length (mbuf_rest m (unat (winStart (mbuf_hdr m))))"

lemma mbuf_ok_fits:
  assumes "mbuf_ok m"
  shows "unat (winStart (mbuf_hdr m)) + unat (numBytes (mbuf_hdr m)) \<le> length (mbuf_raw m)"
proof (cases m)
  case (MBUF h cs)
  with assms show ?thesis
    by (auto simp: length_cells_raw hdr_ok_def full_bytes_def unat_of_nat_u16 MBUF_IS_WINDOWED_def)
qed

lemma mbuf_rest_ok: "mbuf_ok m \<Longrightarrow> mbuf_rest m w = drop w (mbuf_raw m)"
  by (cases m) simp

lemma mbuf_ok_wf: "mbuf_ok m \<Longrightarrow> mbuf_wf m"
  using mbuf_ok_fits [of m] by (simp add: mbuf_wf_def mbuf_ok_pull_ok mbuf_rest_ok)

lemma mbuf_content_ok:
  "mbuf_ok m \<Longrightarrow> mbuf_content m =
     take (unat (numBytes (mbuf_hdr m))) (drop (unat (winStart (mbuf_hdr m))) (mbuf_raw m))"
  by (simp add: mbuf_content_def mbuf_rest_ok)

lemma length_mbuf_content: "mbuf_wf m \<Longrightarrow> length (mbuf_content m) = unat (numBytes (mbuf_hdr m))"
  by (simp add: mbuf_wf_def mbuf_content_def)

lemma pull_ok_numBytes [simp]:
  "pull_ok (MBUF (h\<lparr>numBytes := n\<rparr>) cs) = pull_ok (MBUF h cs)"
  "mbuf_rest (MBUF (h\<lparr>numBytes := n\<rparr>) cs) w = mbuf_rest (MBUF h cs) w"
  "pristine (MBUF (h\<lparr>numBytes := n\<rparr>) cs) = pristine (MBUF h cs)"
  by (simp_all add: hdr_ok_def hdr_dirty_def full_bytes_def MBUF_IS_WINDOWED_def)

lemma OI_MBUF_PullBytes_wf:
  assumes wf: "mbuf_wf m" and some: "mbuf_content m \<noteq> [] \<or> OI_MBUF_IS_DIRTY m"
  shows "\<exists>m'. OI_MBUF_PullBytes m n = Some (take (unat n) (mbuf_content m), m') \<and> mbuf_wf m' \<and>
    mbuf_content m' = drop (unat n) (mbuf_content m) \<and> pristine m' = pristine m \<and>
    (mbuf_content m' \<noteq> [] \<or> OI_MBUF_IS_DIRTY m') \<and>
    (OI_MBUF_IS_DIRTY m' \<or> m' = m)"
proof (cases "n = 0")
  case True
  with assms show ?thesis
    by (simp add: OI_MBUF_PullBytes_def)
next
  case False
  let ?h = "mbuf_hdr m" and ?k = "min (numBytes (mbuf_hdr m)) n"
  have k: "unat ?k = min (unat (numBytes ?h)) (unat n)"
    by (simp add: min_def word_le_nat_alt)
  have "mbuf_pulled m ?k (winStart ?h)"
  proof (rule pulled)
    show "pull_ok m" "unat ?k \<le> length (mbuf_rest m (unat (winStart ?h)))"
      using wf k by (auto simp: mbuf_wf_def)
    show "OI_MBUF_IS_DIRTY m \<or> unat (winStart ?h) \<le> length (mbuf_raw m)"
      using wf by (cases m, cases "hdr_dirty (mbuf_hdr m)")
        (auto simp: mbuf_wf_def OI_MBUF_IS_DIRTY_def hdr_ok_def length_cells_raw)
    show "0 < ?k \<or> 0 < winStart ?h \<or> OI_MBUF_IS_DIRTY m"
      using some False wf by (auto simp: mbuf_content_def word_gt_0 min_def)
  qed
  then obtain m1 where m1:
      "PullBytes m ?k (winStart ?h) = Some (take (unat ?k) (mbuf_rest m (unat (winStart ?h))), m1)"
      "pull_ok m1" "OI_MBUF_IS_DIRTY m1" "pristine m1 = pristine m"
      "mbuf_rest m1 0 = drop (unat ?k) (mbuf_rest m (unat (winStart ?h)))"
      "winStart (mbuf_hdr m1) = winStart ?h"
    by (auto simp: mbuf_pulled_def)
  obtain h1 cs1 where [simp]: "m1 = MBUF h1 cs1"
    by (cases m1)
  have len: "length (take (unat ?k) (mbuf_rest m (unat (winStart ?h)))) = unat ?k"
    using wf k by (auto simp: mbuf_wf_def min_def)
  define m' where "m' = MBUF (h1\<lparr>numBytes := numBytes ?h - ?k\<rparr>) cs1"
  have nb: "unat (numBytes ?h - ?k) = unat (numBytes ?h) - unat ?k"
    using k by (simp add: unat_sub_u16)
  have pull: "OI_MBUF_PullBytes m n = Some (take (unat ?k) (mbuf_rest m (unat (winStart ?h))), m')"
  proof -
    define out where "out = take (unat ?k) (mbuf_rest m (unat (winStart ?h)))"
    have "PullBytes m ?k (winStart ?h) = Some (out, MBUF h1 cs1)" "length out = unat ?k"
      using m1(1) len by (simp_all add: out_def)
    moreover have "unat ?k \<le> unat (numBytes ?h)"
      using k by simp
    ultimately show ?thesis
      using False by (simp add: OI_MBUF_PullBytes_def m'_def word_gt_0 flip: out_def)
  qed
  have dirty: "OI_MBUF_IS_DIRTY m'"
    using m1(3) by (simp add: m'_def OI_MBUF_IS_DIRTY_def hdr_dirty_def)
  have rest: "mbuf_rest m' w = drop (unat ?k) (mbuf_rest m (unat (winStart ?h)))" for w
    using mbuf_rest_dirty [OF m1(3), of w] m1(5)
    by (simp add: m'_def hdr_dirty_def del: mbuf_rest.simps)
  have out: "take (unat ?k) (mbuf_rest m (unat (winStart ?h))) = take (unat n) (mbuf_content m)"
    unfolding k mbuf_content_def by (simp add: min.commute)
  have content: "mbuf_content m' = drop (unat n) (mbuf_content m)"
    using k nb by (simp add: mbuf_content_def rest) (simp add: m'_def drop_take min_def)
  have "pull_ok m'"
    using m1(2) by (simp add: m'_def del: pull_ok.simps)
  moreover have "unat (numBytes (mbuf_hdr m')) = unat (numBytes ?h) - unat ?k"
    using nb by (simp add: m'_def)
  ultimately have "mbuf_wf m'"
    using wf by (auto simp: mbuf_wf_def rest)
  moreover have "pristine m' = pristine m"
    using m1(4) by (simp add: m'_def del: pristine.simps)
  ultimately show ?thesis
    using pull out content dirty by auto
qed

text \<open>A sequence of pulls.\<close>

fun pulls :: "OI_MBUF \<Rightarrow> u16 list \<Rightarrow> (bytes list \<times> OI_MBUF) option" where
  "pulls m [] = Some ([], m)"
| "pulls m (n # ns) = do {
     (out, m') \<leftarrow> OI_MBUF_PullBytes m n;
     (outs, m'') \<leftarrow> pulls m' ns;
     Some (out # outs, m'')
   }"

lemma pulls_wf:
  "mbuf_wf m \<Longrightarrow> mbuf_content m \<noteq> [] \<or> OI_MBUF_IS_DIRTY m \<Longrightarrow>
     \<exists>outs m'. pulls m ns = Some (outs, m') \<and>
       concat outs = take (sum_list (map unat ns)) (mbuf_content m) \<and>
       mbuf_content m' = drop (sum_list (map unat ns)) (mbuf_content m) \<and>
       mbuf_wf m' \<and> pristine m' = pristine m \<and> (OI_MBUF_IS_DIRTY m' \<or> m' = m)"
proof (induction ns arbitrary: m)
  case (Cons n ns)
  obtain m1 where m1: "OI_MBUF_PullBytes m n = Some (take (unat n) (mbuf_content m), m1)"
      "mbuf_wf m1" "mbuf_content m1 = drop (unat n) (mbuf_content m)" "pristine m1 = pristine m"
      "mbuf_content m1 \<noteq> [] \<or> OI_MBUF_IS_DIRTY m1" "OI_MBUF_IS_DIRTY m1 \<or> m1 = m"
    using OI_MBUF_PullBytes_wf [OF Cons.prems, of n] by blast
  obtain outs m' where m': "pulls m1 ns = Some (outs, m')"
      "concat outs = take (sum_list (map unat ns)) (mbuf_content m1)"
      "mbuf_content m' = drop (sum_list (map unat ns)) (mbuf_content m1)"
      "mbuf_wf m'" "pristine m' = pristine m1" "OI_MBUF_IS_DIRTY m' \<or> m' = m1"
    using Cons.IH [OF m1(2,5)] by blast
  then show ?case
    using m1 by (auto simp: take_add add.commute)
qed simp

lemma OI_MBUF_Reset_pulled:
  assumes "mbuf_wf m'" "OI_MBUF_IS_DIRTY m' \<or> m' = m" "mbuf_ok m" "pristine m' = pristine m"
  shows "OI_MBUF_Reset m' = Some m"
  using assms Clean_pull [of m'] mbuf_ok_pristine(1) [of m]
  by (auto simp: OI_MBUF_Reset_def mbuf_wf_def)

section \<open>The checksum of an mbuf\<close>

definition cell_checked :: "OI_MBUF_CELL \<Rightarrow> bool" where
  "cell_checked c \<longleftrightarrow> (\<forall>l w fcs. unat w + unat l \<le> unat (cell_len c) \<longrightarrow>
     FCS_cell c l w fcs = Some (l, crc_bytes fcs (take (unat l) (drop (unat w) (cell_raw c)))))"

lemma FCS_cells_ok:
  assumes "\<forall>c \<in> set cs. cell_ok c \<and> cell_checked c" "unat w + unat n \<le> lens cs"
  shows "FCS_cells cs n w k fcs =
           Some (k + n, crc_bytes fcs (take (unat n) (drop (unat w) (concat (map cell_raw cs)))))"
  using assms
proof (induction cs arbitrary: n w k fcs)
  case Nil
  then show ?case
    by (simp add: unat_eq_zero)
next
  case (Cons c cs)
  have len: "length (cell_raw c) = unat (cell_len c)"
    using Cons.prems(1) by (simp add: length_cell_raw)
  show ?case
  proof (cases "cell_len c < w")
    case True
    then have "unat (w - cell_len c) = unat w - unat (cell_len c)"
      by (simp add: unat_sub_u16 word_less_nat_alt)
    with True Cons len show ?thesis
      by (simp add: word_less_nat_alt)
  next
    case False
    let ?l = "min n (cell_len c - w)"
    have "unat (cell_len c - w) = unat (cell_len c) - unat w"
      using False by (simp add: unat_sub_u16 word_less_nat_alt)
    then have l: "unat ?l = min (unat n) (unat (cell_len c) - unat w)"
      by (simp add: min_def word_le_nat_alt)
    let ?out = "take (unat ?l) (drop (unat w) (cell_raw c))"
    have "FCS_cell c ?l w fcs = Some (?l, crc_bytes fcs ?out)"
      using Cons.prems(1) False l by (simp add: cell_checked_def word_le_nat_alt not_less)
    with False have step: "FCS_cells (c # cs) n w k fcs =
        (if n - ?l = 0 then Some (k + ?l, crc_bytes fcs ?out)
         else FCS_cells cs (n - ?l) 0 (k + ?l) (crc_bytes fcs ?out))"
      by simp
    have n: "unat (n - ?l) = unat n - unat ?l"
      using l by (simp add: unat_sub_u16)
    have "unat w \<le> length (cell_raw c)"
      using False len by (simp add: word_le_nat_alt not_less)
    then have out: "take (unat n) (drop (unat w) (concat (map cell_raw (c # cs)))) =
        ?out @ take (unat n - unat ?l) (concat (map cell_raw cs))"
      using len l by (simp add: min_def)
    show ?thesis
    proof (cases "n - ?l = 0")
      case True
      then have "n = ?l" "unat n - unat ?l = 0"
        using n by simp_all
      then show ?thesis
        unfolding step out using True by simp
    next
      case nz: False
      have "FCS_cells cs (n - ?l) 0 (k + ?l) (crc_bytes fcs ?out) =
          Some (k + ?l + (n - ?l),
            crc_bytes (crc_bytes fcs ?out) (take (unat n - unat ?l) (concat (map cell_raw cs))))"
      proof (subst Cons.IH)
        show "unat (0 :: u16) + unat (n - ?l) \<le> lens cs"
          using Cons.prems(2) n l by (simp add: min_def split: if_splits)
      qed (use Cons.prems(1) n in auto)
      then show ?thesis
        unfolding step out using nz by (simp add: crc_bytes_append)
    qed
  qed
qed

lemma ComputeFCS_ok:
  "mbuf_ok m \<Longrightarrow> unat w + unat n \<le> length (mbuf_raw m) \<Longrightarrow>
     ComputeFCS m n w fcs = Some (n, crc_bytes fcs (take (unat n) (drop (unat w) (mbuf_raw m))))"
proof (induction m arbitrary: n w fcs rule: measure_induct_rule [of size])
  case (less m)
  obtain h cs where m: "m = MBUF h cs"
    by (cases m)
  have "cell_checked c" if c: "c \<in> set cs" for c
  proof (cases c)
    case (CELL_PTR d len p)
    have "ptr_ok p len"
      using less.prems(1) m c CELL_PTR by auto
    then show ?thesis
      using fcs.compute_sum by (auto simp: CELL_PTR cell_checked_def ptr_ok_def drop_take
          unat_eq_zero min_def split: option.splits)
  next
    case (CELL_INLINE len b)
    have "unat len \<le> length b"
      using less.prems(1) m c CELL_INLINE by auto
    then show ?thesis
      using fcs.compute_sum by (auto simp: CELL_INLINE cell_checked_def drop_take min_def)
  next
    case (CELL_NESTED len ws m')
    have sz: "size m' < size m"
      using size_list_estimation [OF c [unfolded CELL_NESTED], of "size m'" size] m by simp
    have ok: "mbuf_ok m'" "unat ws + unat len \<le> length (mbuf_raw m')"
      using less.prems(1) m c CELL_NESTED by auto
    then have "length (mbuf_raw m') < 65536"
      by (cases m') (simp add: length_cells_raw hdr_ok_def)
    then have w: "unat (w + ws) = unat w + unat ws" if "unat w \<le> unat len" for w
      using that ok(2) by (intro unat_add_u16) simp
    show ?thesis
      using less.IH [OF sz ok(1)] w ok(2)
      by (auto simp: CELL_NESTED cell_checked_def drop_take min_def add.commute)
  qed
  then show ?case
    using less.prems m length_cells_raw [of cs] FCS_cells_ok [of cs w n 0 fcs] by auto
qed

lemma OI_MBUF_ComputeFCS_ok:
  assumes "mbuf_ok m"
  shows "OI_MBUF_ComputeFCS m n fcs =
    Some (of_nat (length (take (unat n) (mbuf_content m))), crc_bytes fcs (take (unat n) (mbuf_content m)))"
proof -
  have k: "unat (min n (numBytes (mbuf_hdr m))) = min (unat n) (unat (numBytes (mbuf_hdr m)))"
    by (simp add: min_def word_le_nat_alt)
  have "length (take (unat n) (mbuf_content m)) = min (unat n) (unat (numBytes (mbuf_hdr m)))"
    using assms by (simp add: length_mbuf_content mbuf_ok_wf min.commute)
  moreover have "(of_nat (min (unat n) (unat (numBytes (mbuf_hdr m)))) :: u16) = min n (numBytes (mbuf_hdr m))"
    unfolding k [symmetric] by simp
  ultimately show ?thesis
    using ComputeFCS_ok [OF assms, of "winStart (mbuf_hdr m)" "min n (numBytes (mbuf_hdr m))" fcs]
      mbuf_ok_fits [OF assms] assms
    by (simp add: OI_MBUF_ComputeFCS_def k mbuf_content_ok)
qed

section \<open>Building packets\<close>

lemma mbuf_ok_unwindowed:
  assumes "mbuf_ok m" "\<not> MBUF_IS_WINDOWED (mbuf_hdr m)"
  shows "mbuf_content m = mbuf_raw m" and "unat (numBytes (mbuf_hdr m)) = lens (mbuf_cells m)"
  using assms by (cases m, simp add: mbuf_content_ok length_cells_raw full_bytes_def
      MBUF_IS_WINDOWED_def hdr_ok_def unat_of_nat_u16)+

lemma InitCell_ok:
  assumes "disposition_ok d" "unat len \<le> length b" "malloc_ok \<or> d \<noteq> MBUF_COPY \<or> len \<le> 8"
  shows "\<exists>c. InitCell malloc_ok (Some b) len d = Some (OI_OK, c) \<and> cell_ok c \<and> cell_len c = len \<and>
    cell_raw c = take (unat len) b"
  using assms by (cases d)
    (auto simp: InitCell_def disposition_ok_def read_ptr_def ptr_ok_def MBUF_INLINE_BUF_SIZE_def)

lemma InitCell_no_memory:
  "\<not> malloc_ok \<Longrightarrow> 8 < len \<Longrightarrow>
     InitCell malloc_ok buf len MBUF_COPY = Some (OI_STATUS_OUT_OF_MEMORY, CELL_PTR MBUF_KEEP 0 None)"
  by (simp add: InitCell_def MBUF_INLINE_BUF_SIZE_def)

text \<open>A cell added at either end of an unwindowed mbuf.\<close>

lemma mbuf_ok_add:
  assumes "mbuf_ok (MBUF h cs)" "\<not> MBUF_IS_WINDOWED h" "cell_ok c"
    and "length cs < unat (allocCells h)" "lens cs + unat (cell_len c) < 65536"
    and "cs' = cs @ [c] \<or> cs' = c # cs"
  shows "mbuf_ok (MBUF (h\<lparr>numBytes := numBytes h + cell_len c\<rparr>) cs')"
proof -
  have "numBytes h + cell_len c = of_nat (lens cs + unat (cell_len c))"
    using assms(1,2) by (simp add: full_bytes_def)
  moreover have "lens cs' = lens cs + unat (cell_len c)" "length cs' = Suc (length cs)"
    "\<forall>c \<in> set cs'. cell_ok c"
    using assms(1,3,6) by auto
  ultimately show ?thesis
    using assms(1,2,4,5)
    by (auto simp: hdr_ok_def hdr_dirty_def full_bytes_def MBUF_IS_WINDOWED_def)
qed

text \<open>\<open>addable\<close> is what the API asks of the caller of \<open>OI_MBUF_Append\<close> and \<open>OI_MBUF_Prepend\<close>.\<close>

definition addable :: "OI_MBUF \<Rightarrow> bytes \<Rightarrow> u16 \<Rightarrow> OI_MBUF_DISPOSITION \<Rightarrow> bool" where
  "addable m b len d \<longleftrightarrow> mbuf_ok m \<and> \<not> MBUF_IS_WINDOWED (mbuf_hdr m) \<and> disposition_ok d \<and>
     unat len \<le> length b \<and> length (mbuf_content m) + unat len < 65536"

lemma addable_cells:
  "addable (MBUF h cs) b len d \<Longrightarrow> lens cs + unat len < 65536 \<and> \<not> hdr_dirty h"
  using mbuf_ok_unwindowed [of "MBUF h cs"] length_cells_raw [of cs]
  by (auto simp: addable_def)

lemma OI_MBUF_Append_ok:
  assumes "addable m b len d" "len \<noteq> 0" "usedCells m < unat (allocCells (mbuf_hdr m))"
    and "malloc_ok \<or> d \<noteq> MBUF_COPY \<or> len \<le> 8"
  shows "\<exists>m'. OI_MBUF_Append malloc_ok m (Some b) len d = Some (OI_OK, m') \<and> mbuf_ok m' \<and>
    \<not> MBUF_IS_WINDOWED (mbuf_hdr m') \<and> mbuf_content m' = mbuf_content m @ take (unat len) b \<and>
    usedCells m' = Suc (usedCells m) \<and> allocCells (mbuf_hdr m') = allocCells (mbuf_hdr m)"
proof -
  obtain h cs where m: "m = MBUF h cs"
    by (cases m)
  obtain c where c: "InitCell malloc_ok (Some b) len d = Some (OI_OK, c)" "cell_ok c"
      "cell_len c = len" "cell_raw c = take (unat len) b"
    using InitCell_ok [of d len b malloc_ok] assms by (auto simp: addable_def)
  let ?m' = "MBUF (h\<lparr>numBytes := numBytes h + len\<rparr>) (cs @ [c])"
  have w: "\<not> MBUF_IS_WINDOWED (h\<lparr>numBytes := numBytes h + len\<rparr>)"
    using assms(1) m by (simp add: addable_def MBUF_IS_WINDOWED_def)
  have "mbuf_ok ?m'"
    using assms m c addable_cells [of h cs b len d] mbuf_ok_add [of h cs c "cs @ [c]"]
    by (auto simp: addable_def usedCells_def simp del: mbuf_ok.simps)
  with w assms m c addable_cells [of h cs b len d] show ?thesis
    using mbuf_ok_unwindowed(1) [of ?m'] mbuf_ok_unwindowed(1) [of m]
    by (auto simp: OI_MBUF_Append_def addable_def OI_MBUF_IS_DIRTY_def usedCells_def
        simp del: mbuf_ok.simps)
qed

lemma OI_MBUF_Prepend_ok:
  assumes "addable m b len d" "len \<noteq> 0" "usedCells m < unat (allocCells (mbuf_hdr m))"
    and "malloc_ok \<or> d \<noteq> MBUF_COPY \<or> len \<le> 8"
  shows "\<exists>m'. OI_MBUF_Prepend malloc_ok m (Some b) len d = Some (OI_OK, m') \<and> mbuf_ok m' \<and>
    \<not> MBUF_IS_WINDOWED (mbuf_hdr m') \<and> mbuf_content m' = take (unat len) b @ mbuf_content m \<and>
    usedCells m' = Suc (usedCells m) \<and> allocCells (mbuf_hdr m') = allocCells (mbuf_hdr m)"
proof -
  obtain h cs where m: "m = MBUF h cs"
    by (cases m)
  obtain c where c: "InitCell malloc_ok (Some b) len d = Some (OI_OK, c)" "cell_ok c"
      "cell_len c = len" "cell_raw c = take (unat len) b"
    using InitCell_ok [of d len b malloc_ok] assms by (auto simp: addable_def)
  let ?m' = "MBUF (h\<lparr>numBytes := numBytes h + len\<rparr>) (c # cs)"
  have w: "\<not> MBUF_IS_WINDOWED (h\<lparr>numBytes := numBytes h + len\<rparr>)"
    using assms(1) m by (simp add: addable_def MBUF_IS_WINDOWED_def)
  have "mbuf_ok ?m'"
    using assms m c addable_cells [of h cs b len d] mbuf_ok_add [of h cs c "c # cs"]
    by (auto simp: addable_def usedCells_def simp del: mbuf_ok.simps)
  with w assms m c addable_cells [of h cs b len d] show ?thesis
    using mbuf_ok_unwindowed(1) [of ?m'] mbuf_ok_unwindowed(1) [of m]
    by (auto simp: OI_MBUF_Prepend_def addable_def OI_MBUF_IS_DIRTY_def usedCells_def
        simp del: mbuf_ok.simps)
qed

lemma OI_MBUF_full:
  assumes "addable m b len d" "len \<noteq> 0" "unat (allocCells (mbuf_hdr m)) \<le> usedCells m"
  shows "OI_MBUF_Append malloc_ok m (Some b) len d = Some (OI_STATUS_MBUF_OVERFLOW, m)"
    and "OI_MBUF_Prepend malloc_ok m (Some b) len d = Some (OI_STATUS_MBUF_OVERFLOW, m)"
  using assms by (cases m, simp add: OI_MBUF_Append_def OI_MBUF_Prepend_def addable_def OI_MBUF_IS_DIRTY_def)+

lemma OI_MBUF_AppendMbuf_ok:
  assumes "mbuf_ok m" "\<not> MBUF_IS_WINDOWED (mbuf_hdr m)" "mbuf_ok added" "mbuf_content added \<noteq> []"
    and "usedCells m < unat (allocCells (mbuf_hdr m))"
    and "length (mbuf_content m) + length (mbuf_content added) < 65536"
  shows "\<exists>m'. OI_MBUF_AppendMbuf m added = Some (OI_OK, m') \<and> mbuf_ok m' \<and>
    mbuf_content m' = mbuf_content m @ mbuf_content added"
proof -
  obtain h cs where m: "m = MBUF h cs"
    by (cases m)
  let ?n = "numBytes (mbuf_hdr added)"
  let ?c = "CELL_NESTED ?n (winStart (mbuf_hdr added)) added"
  let ?m' = "MBUF (h\<lparr>numBytes := numBytes h + ?n\<rparr>) (cs @ [?c])"
  have n: "length (mbuf_content added) = unat ?n"
    using assms(3) by (simp add: length_mbuf_content mbuf_ok_wf)
  then have "cell_ok ?c"
    using assms(3,4) mbuf_ok_fits [of added] by (auto simp: word_gt_0)
  moreover have "lens cs = length (mbuf_content m)"
    using mbuf_ok_unwindowed [OF assms(1,2)] m assms(1) length_cells_raw [of cs] by simp
  ultimately have ok: "mbuf_ok ?m'"
    using assms m n mbuf_ok_add [of h cs ?c "cs @ [?c]"]
    by (auto simp: usedCells_def simp del: mbuf_ok.simps cell_ok.simps)
  have w: "\<not> MBUF_IS_WINDOWED (h\<lparr>numBytes := numBytes h + ?n\<rparr>)"
    using assms(2) m by (simp add: MBUF_IS_WINDOWED_def)
  have clean: "\<not> hdr_dirty h" "\<not> hdr_dirty (mbuf_hdr added)"
    using assms(1,3) m by (simp, cases added, simp)
  have "mbuf_content added = cell_raw ?c"
    using assms(3) by (simp add: mbuf_content_ok)
  with ok w clean assms(2,5) m mbuf_ok_unwindowed(1) [OF ok] mbuf_ok_unwindowed(1) [OF assms(1,2)]
  show ?thesis
    by (auto simp: OI_MBUF_AppendMbuf_def OI_MBUF_IS_DIRTY_def usedCells_def
        simp del: mbuf_ok.simps)
qed

section \<open>Windows\<close>

lemma cells_len_lens: "lens cs < 65536 \<Longrightarrow> unat (cells_len cs) = lens cs"
proof -
  have "foldl (\<lambda>len c. len + cell_len c) a cs = a + of_nat (lens cs)" for a
    by (induction cs arbitrary: a) (simp_all add: add.assoc)
  then show "lens cs < 65536 \<Longrightarrow> ?thesis"
    by (simp add: cells_len_def unat_of_nat_u16)
qed

lemma take_drop_window:
  "take (min a (length xs - min b (length xs))) (drop (min b (length xs)) xs) = take a (drop b xs)"
  by (simp add: min_def)

text \<open>An mbuf as the windowing functions leave it: as \<open>mbuf_ok\<close>, but \<open>numBytes\<close> is the
  window size even when the window is the empty one at the start.\<close>

definition windowed_ok :: "OI_MBUF \<Rightarrow> bool" where
  "windowed_ok m \<longleftrightarrow> pull_ok m \<and> \<not> OI_MBUF_IS_DIRTY m \<and> numBytes (mbuf_hdr m) = winSize (mbuf_hdr m)"

lemma OI_MBUF_SetWindowAt_ok:
  assumes "pull_ok m" "\<not> OI_MBUF_IS_DIRTY m"
  shows "\<exists>m'. OI_MBUF_SetWindowAt m ws sz =
      Some (of_nat (length (mbuf_content m')), m') \<and> windowed_ok m' \<and> mbuf_raw m' = mbuf_raw m \<and>
      mbuf_content m' = take (unat sz) (drop (unat ws) (mbuf_raw m)) \<and>
      unat (winStart (mbuf_hdr m')) = min (unat ws) (length (mbuf_raw m)) \<and>
      unat (winSize (mbuf_hdr m')) = length (mbuf_content m')"
proof -
  obtain h cs where m: "m = MBUF h cs"
    by (cases m)
  have ok: "hdr_ok h cs" "\<forall>c \<in> set cs. cell_ok c" "\<not> hdr_dirty h"
    using assms m by (auto simp: OI_MBUF_IS_DIRTY_def split: if_splits)
  then have len: "length (concat (map cell_raw cs)) = lens cs" "unat (cells_len cs) = lens cs"
    by (simp_all add: length_cells_raw cells_len_lens hdr_ok_def)
  let ?ws = "min (cells_len cs) ws"
  let ?sz = "min (cells_len cs - ?ws) sz"
  let ?m' = "MBUF (h\<lparr>winStart := ?ws, winSize := ?sz, numBytes := ?sz\<rparr>) cs"
  have ws: "unat ?ws = min (unat ws) (lens cs)"
    using len by (simp add: min_def word_le_nat_alt)
  have "unat (cells_len cs - ?ws) = lens cs - unat ?ws"
    using ws len by (simp add: unat_sub_u16)
  then have sz: "unat ?sz = min (unat sz) (lens cs - unat ?ws)"
    by (simp add: min_def word_le_nat_alt)
  have content: "mbuf_content ?m' = take (unat sz) (drop (unat ws) (concat (map cell_raw cs)))"
    using ok(3) take_drop_window [of "unat sz" "concat (map cell_raw cs)" "unat ws"] len(1) ws sz
    by (simp add: mbuf_content_def hdr_dirty_def)
  have "windowed_ok ?m'"
    using ok ws sz
    by (simp add: windowed_ok_def OI_MBUF_IS_DIRTY_def hdr_ok_def hdr_dirty_def) linarith
  moreover have size: "unat ?sz = length (mbuf_content ?m')"
    unfolding sz ws content using len(1) by (simp add: min_def)
  moreover have "(of_nat (length (mbuf_content ?m')) :: u16) = ?sz"
    unfolding size [symmetric] by simp
  ultimately show ?thesis
    using content ok(3) m len(1) ws
    by (auto simp: OI_MBUF_SetWindowAt_def OI_MBUF_IS_DIRTY_def Let_def)
qed

text \<open>The windows of a segmentation: one set at the start, then each advanced past the last.\<close>

fun advance_windows :: "OI_MBUF \<Rightarrow> u16 list \<Rightarrow> (OI_MBUF list) option" where
  "advance_windows m [] = Some []"
| "advance_windows m (n # ns) = do {
     (_, m') \<leftarrow> OI_MBUF_AdvanceWindow m n;
     ms \<leftarrow> advance_windows m' ns;
     Some (m' # ms)
   }"

definition segments :: "OI_MBUF \<Rightarrow> u16 \<Rightarrow> u16 list \<Rightarrow> (OI_MBUF list) option" where
  "segments m n ns = do {
     (_, m') \<leftarrow> OI_MBUF_SetWindow m n;
     ms \<leftarrow> advance_windows m' ns;
     Some (m' # ms)
   }"

lemma advance_windows_ok:
  assumes "windowed_ok m"
  shows "\<exists>ms. advance_windows m ns = Some ms \<and>
    concat (map mbuf_content ms) =
      take (sum_list (map unat ns))
        (drop (unat (winStart (mbuf_hdr m)) + unat (winSize (mbuf_hdr m))) (mbuf_raw m))"
  using assms
proof (induction ns arbitrary: m)
  case (Cons n ns)
  let ?s = "winStart (mbuf_hdr m)" and ?z = "winSize (mbuf_hdr m)"
  obtain h cs where m: "m = MBUF h cs"
    by (cases m)
  have "pull_ok m" and clean: "\<not> OI_MBUF_IS_DIRTY m"
    using Cons.prems by (auto simp: windowed_ok_def)
  then have fits: "unat ?s + unat ?z \<le> length (mbuf_raw m)" "length (mbuf_raw m) < 65536"
    using m by (auto simp: hdr_ok_def OI_MBUF_IS_DIRTY_def length_cells_raw)
  then have sum: "unat (?s + ?z) = unat ?s + unat ?z"
    by (intro unat_add_u16) simp
  obtain m' where m': "OI_MBUF_AdvanceWindow m n = Some (of_nat (length (mbuf_content m')), m')"
      "windowed_ok m'" "mbuf_raw m' = mbuf_raw m"
      "mbuf_content m' = take (unat n) (drop (unat ?s + unat ?z) (mbuf_raw m))"
      "unat (winStart (mbuf_hdr m')) = unat ?s + unat ?z"
      "unat (winSize (mbuf_hdr m')) = length (mbuf_content m')"
    using OI_MBUF_SetWindowAt_ok [OF \<open>pull_ok m\<close> clean, of "?s + ?z" n] fits
    by (auto simp: OI_MBUF_AdvanceWindow_def sum)
  obtain ms where ms: "advance_windows m' ns = Some ms"
      "concat (map mbuf_content ms) = take (sum_list (map unat ns))
         (drop (unat ?s + unat ?z + length (mbuf_content m')) (mbuf_raw m))"
    using Cons.IH [OF m'(2)] m'(3,5,6) by auto
  have "take (sum_list (map unat (n # ns))) (drop (unat ?s + unat ?z) (mbuf_raw m)) =
      mbuf_content m' @ take (sum_list (map unat ns))
        (drop (unat ?s + unat ?z + length (mbuf_content m')) (mbuf_raw m))"
    by (simp add: m'(4) take_add min_def add.commute)
  then show ?case
    using m'(1) ms by simp
qed simp

lemma segments_ok:
  assumes "pull_ok m" "\<not> OI_MBUF_IS_DIRTY m"
  shows "\<exists>ms. segments m n ns = Some ms \<and>
    concat (map mbuf_content ms) = take (unat n + sum_list (map unat ns)) (mbuf_raw m)"
proof -
  obtain m' where m': "OI_MBUF_SetWindow m n = Some (of_nat (length (mbuf_content m')), m')"
      "windowed_ok m'" "mbuf_raw m' = mbuf_raw m" "mbuf_content m' = take (unat n) (mbuf_raw m)"
      "unat (winStart (mbuf_hdr m')) = 0" "unat (winSize (mbuf_hdr m')) = length (mbuf_content m')"
    using OI_MBUF_SetWindowAt_ok [OF assms, of 0 n] by (auto simp: OI_MBUF_SetWindow_def)
  then show ?thesis
    using advance_windows_ok [OF m'(2), of ns]
    by (auto simp: segments_def take_add min_def)
qed

lemma window_ok: "windowed_ok m \<Longrightarrow> mbuf_content m \<noteq> [] \<Longrightarrow> mbuf_ok m"
  by (cases m) (auto simp: windowed_ok_def OI_MBUF_IS_DIRTY_def full_bytes_def MBUF_IS_WINDOWED_def mbuf_content_def)

text \<open>Pulling from a window makes the mbuf dirty, and a dirty mbuf cannot be given another window.\<close>

lemma window_pull:
  assumes "mbuf_ok m" "mbuf_content m \<noteq> []" "k \<noteq> 0"
  shows "\<exists>m'. OI_MBUF_PullBytes m k = Some (take (unat k) (mbuf_content m), m') \<and>
    OI_MBUF_AdvanceWindow m' j = None \<and> OI_MBUF_Reset m' = Some m"
proof -
  obtain m' where m': "OI_MBUF_PullBytes m k = Some (take (unat k) (mbuf_content m), m')" "mbuf_wf m'"
      "mbuf_content m' = drop (unat k) (mbuf_content m)" "pristine m' = pristine m" "OI_MBUF_IS_DIRTY m' \<or> m' = m"
    using OI_MBUF_PullBytes_wf [OF mbuf_ok_wf [OF assms(1)], of k] assms(2) by blast
  have "length (drop (unat k) (mbuf_content m)) < length (mbuf_content m)"
    using assms(2,3) by (cases "unat k") (auto simp: unat_eq_0)
  then have "m' \<noteq> m"
    using m'(3) by (metis less_irrefl)
  then have "OI_MBUF_AdvanceWindow m' j = None"
    using m'(5) by (simp add: OI_MBUF_AdvanceWindow_def OI_MBUF_SetWindowAt_def)
  then show ?thesis
    using m' OI_MBUF_Reset_pulled [OF m'(2,5) assms(1) m'(4)] by blast
qed

lemma advance_windows_windowed:
  "pull_ok m \<Longrightarrow> \<not> OI_MBUF_IS_DIRTY m \<Longrightarrow> advance_windows m ns = Some ms \<Longrightarrow> \<forall>w \<in> set ms. windowed_ok w"
proof (induction ns arbitrary: m ms)
  case (Cons n ns)
  obtain m' where m': "OI_MBUF_AdvanceWindow m n = Some (of_nat (length (mbuf_content m')), m')" "windowed_ok m'"
    using OI_MBUF_SetWindowAt_ok [OF Cons.prems(1,2)] unfolding OI_MBUF_AdvanceWindow_def by blast
  then show ?case
    using Cons.prems(3) Cons.IH [of m'] by (auto simp: windowed_ok_def split: bind_splits)
qed simp

lemma segments_windowed:
  assumes "pull_ok m" "\<not> OI_MBUF_IS_DIRTY m" "segments m n ns = Some ms"
  shows "\<forall>w \<in> set ms. windowed_ok w"
proof -
  obtain m' where m': "OI_MBUF_SetWindow m n = Some (of_nat (length (mbuf_content m')), m')" "windowed_ok m'"
    using OI_MBUF_SetWindowAt_ok [OF assms(1,2)] unfolding OI_MBUF_SetWindow_def by blast
  with assms(3) show ?thesis
    using advance_windows_windowed [of m' ns] by (auto simp: segments_def windowed_ok_def split: bind_splits)
qed

section \<open>Peeking and wrapping\<close>

fun flat_cell :: "OI_MBUF_CELL \<Rightarrow> bool" where
  "flat_cell (CELL_NESTED len ws m) \<longleftrightarrow> False"
| "flat_cell c \<longleftrightarrow> True"

lemma Peek_cells_ok:
  assumes "\<forall>c \<in> set cs. cell_ok c \<and> flat_cell c" "unat off < lens cs"
  shows "\<exists>p n. Peek_cells cs off = Some (p, n) \<and> 0 < n \<and> unat n \<le> length p \<and>
    take (unat n) p = take (unat n) (drop (unat off) (concat (map cell_raw cs)))"
  using assms
proof (induction cs arbitrary: off)
  case (Cons c cs)
  have len: "length (cell_raw c) = unat (cell_len c)"
    using Cons.prems(1) by (simp add: length_cell_raw)
  show ?case
  proof (cases "cell_len c \<le> off")
    case True
    then have "unat (off - cell_len c) = unat off - unat (cell_len c)"
      by (simp add: unat_sub_u16 word_le_nat_alt)
    with Cons.prems True len show ?thesis
      using Cons.IH [of "off - cell_len c"] by (simp add: word_le_nat_alt)
  next
    case False
    then have "unat (cell_len c - off) = unat (cell_len c) - unat off" "unat off < unat (cell_len c)"
      by (simp_all add: unat_sub_u16 word_le_nat_alt)
    with Cons.prems False show ?thesis
      by (cases c) (auto simp: ptr_ok_def drop_take min_def word_less_nat_alt split: option.splits)
  qed
qed simp

lemma Unwrap_Wrap:
  assumes "data \<noteq> None" "len \<noteq> 0"
  shows "\<exists>m. OI_MBUF_Wrap True malloc_ok data len MBUF_KEEP = Some (Some m) \<and>
    OI_MBUF_Unwrap m = Some (data, len)"
  using assms
  by (simp add: OI_MBUF_Wrap_def OI_MBUF_Alloc_def InitCell_def OI_MBUF_Unwrap_def usedCells_def
      zeroed_hdr_def)

lemma add_cases:
  obtains (empty) "len = (0 :: u16)"
    | (full) "len \<noteq> 0" "unat (allocCells (mbuf_hdr m)) \<le> usedCells m"
    | (no_memory) "len \<noteq> 0" "usedCells m < unat (allocCells (mbuf_hdr m))" "\<not> malloc_ok" "d = MBUF_COPY" "8 < len"
    | (added) "len \<noteq> 0" "usedCells m < unat (allocCells (mbuf_hdr m))" "malloc_ok \<or> d \<noteq> MBUF_COPY \<or> len \<le> 8"
  by (metis not_le)

section \<open>The interface of packet builders\<close>

text \<open>
  What the OBEX marshaller relies on: fragments that need no memory (kept or handed over by
  reference, or at most eight copied bytes) go before or after the contents as long as there
  is a free cell, and an empty append changes nothing.
\<close>

definition cheap :: "bytes \<Rightarrow> u16 \<Rightarrow> OI_MBUF_DISPOSITION \<Rightarrow> bool" where
  "cheap b len d \<longleftrightarrow> disposition_ok d \<and> unat len \<le> length b \<and> (d = MBUF_COPY \<longrightarrow> len \<le> 8)"

locale packet_builder =
  fixes good :: "'m \<Rightarrow> bool" and content :: "'m \<Rightarrow> bytes" and room :: "'m \<Rightarrow> nat"
    and append :: "'m \<Rightarrow> bytes option \<Rightarrow> u16 \<Rightarrow> OI_MBUF_DISPOSITION \<Rightarrow> (OI_STATUS \<times> 'm) option"
    and prepend :: "'m \<Rightarrow> bytes option \<Rightarrow> u16 \<Rightarrow> OI_MBUF_DISPOSITION \<Rightarrow> (OI_STATUS \<times> 'm) option"
  assumes append_fragment: "good m \<Longrightarrow> cheap b len d \<Longrightarrow> len \<noteq> 0 \<Longrightarrow> 0 < room m \<Longrightarrow>
      length (content m) + unat len < 65536 \<Longrightarrow>
      \<exists>m'. append m (Some b) len d = Some (OI_OK, m') \<and> good m' \<and>
        content m' = content m @ take (unat len) b \<and> room m' = room m - 1"
    and prepend_fragment: "good m \<Longrightarrow> cheap b len d \<Longrightarrow> len \<noteq> 0 \<Longrightarrow> 0 < room m \<Longrightarrow>
      length (content m) + unat len < 65536 \<Longrightarrow>
      \<exists>m'. prepend m (Some b) len d = Some (OI_OK, m') \<and> good m' \<and>
        content m' = take (unat len) b @ content m \<and> room m' = room m - 1"
    and append_nothing: "good m \<Longrightarrow> append m p 0 MBUF_KEEP = Some (OI_OK, m)"
    and prepend_nothing: "good m \<Longrightarrow> prepend m (Some b) 0 MBUF_KEEP = Some (OI_OK, m)"
begin

text \<open>A header of three bytes and the data it announces, in either order.\<close>

lemma append_pair:
  assumes "good m" "length hdr = 3" "unat len \<le> length b \<or> len = 0" "2 \<le> room m"
    and "length (content m) + 3 + unat len < 65536" "p = Some b \<or> len = 0"
  shows "\<exists>m1 m2. append m (Some hdr) 3 MBUF_COPY = Some (OI_OK, m1) \<and>
    append m1 p len MBUF_KEEP = Some (OI_OK, m2) \<and> good m2 \<and>
    content m2 = content m @ hdr @ take (unat len) b \<and> room m - 2 \<le> room m2"
proof -
  obtain m1 where m1: "append m (Some hdr) 3 MBUF_COPY = Some (OI_OK, m1)" "good m1"
      "content m1 = content m @ hdr" "room m1 = room m - 1"
    using append_fragment [of m hdr 3 MBUF_COPY] assms
    by (auto simp: cheap_def disposition_ok_def)
  show ?thesis
  proof (cases "len = 0")
    case True
    with m1 append_nothing [of m1 p] show ?thesis
      by (intro exI [of _ m1]) simp
  next
    case False
    with m1 assms append_fragment [of m1 b len MBUF_KEEP] show ?thesis
      by (auto simp: cheap_def disposition_ok_def)
  qed
qed

lemma prepend_pair:
  assumes "good m" "length hdr = 3" "unat len \<le> length b" "2 \<le> room m"
    and "length (content m) + 3 + unat len < 65536"
  shows "\<exists>m1 m2. prepend m (Some b) len MBUF_KEEP = Some (OI_OK, m1) \<and>
    prepend m1 (Some hdr) 3 MBUF_COPY = Some (OI_OK, m2) \<and> good m2 \<and>
    content m2 = hdr @ take (unat len) b @ content m \<and> room m - 2 \<le> room m2"
proof -
  obtain m1 where m1: "prepend m (Some b) len MBUF_KEEP = Some (OI_OK, m1)" "good m1"
      "content m1 = take (unat len) b @ content m" "room m - 1 \<le> room m1"
  proof (cases "len = 0")
    case True
    with assms prepend_nothing [of m b] that show thesis
      by auto
  next
    case False
    with assms prepend_fragment [of m b len MBUF_KEEP] that show thesis
      by (auto simp: cheap_def disposition_ok_def)
  qed
  moreover have "0 < room m1"
    using m1(4) assms(4) by simp
  ultimately show ?thesis
    using assms prepend_fragment [of m1 hdr 3 MBUF_COPY]
    by (auto simp: cheap_def disposition_ok_def)
qed

end

definition mbuf_good :: "OI_MBUF \<Rightarrow> bool" where
  "mbuf_good m \<longleftrightarrow> mbuf_ok m \<and> \<not> MBUF_IS_WINDOWED (mbuf_hdr m)"

definition mbuf_room :: "OI_MBUF \<Rightarrow> nat" where
  "mbuf_room m = unat (allocCells (mbuf_hdr m)) - usedCells m"

lemma mbuf_good_clean: "mbuf_good m \<Longrightarrow> \<not> OI_MBUF_IS_DIRTY m"
  by (cases m) (simp add: mbuf_good_def OI_MBUF_IS_DIRTY_def)

interpretation mb: packet_builder mbuf_good mbuf_content mbuf_room
    "OI_MBUF_Append False" "OI_MBUF_Prepend False"
proof
  fix m b len d
  assume m: "mbuf_good m" "cheap b len d" "len \<noteq> 0" "0 < mbuf_room m"
    "length (mbuf_content m) + unat len < 65536"
  then have "addable m b len d" "usedCells m < unat (allocCells (mbuf_hdr m))"
    "False \<or> d \<noteq> MBUF_COPY \<or> len \<le> 8"
    by (auto simp: mbuf_good_def addable_def mbuf_room_def cheap_def)
  from OI_MBUF_Append_ok [OF this(1) m(3) this(2,3)] OI_MBUF_Prepend_ok [OF this(1) m(3) this(2,3)]
  show "\<exists>m'. OI_MBUF_Append False m (Some b) len d = Some (OI_OK, m') \<and> mbuf_good m' \<and>
      mbuf_content m' = mbuf_content m @ take (unat len) b \<and> mbuf_room m' = mbuf_room m - 1"
    and "\<exists>m'. OI_MBUF_Prepend False m (Some b) len d = Some (OI_OK, m') \<and> mbuf_good m' \<and>
      mbuf_content m' = take (unat len) b @ mbuf_content m \<and> mbuf_room m' = mbuf_room m - 1"
    by (auto simp: mbuf_good_def mbuf_room_def)
next
  fix m p b
  assume "mbuf_good m"
  then show "OI_MBUF_Append False m p 0 MBUF_KEEP = Some (OI_OK, m)"
    and "OI_MBUF_Prepend False m (Some b) 0 MBUF_KEEP = Some (OI_OK, m)"
    using mbuf_good_clean [of m]
    by (simp_all add: OI_MBUF_Append_def OI_MBUF_Prepend_def mbuf_good_def disposition_ok_def)
qed

section \<open>Properties\<close>

text \<open>C20: However an unpulled mbuf (nested mbufs and windows included) is pulled, in pieces of
  any sizes, the pieces put together are the start of its contents, the mbuf keeps the rest,
  and \<open>OI_MBUF_Reset\<close> gives back the mbuf exactly as it was.\<close>

theorem OI_MBUF_PullBytes_pieces:
  assumes "mbuf_ok m" and "mbuf_content m \<noteq> []"
  shows "\<exists>outs m'. pulls m ns = Some (outs, m') \<and>
    concat outs = take (sum_list (map unat ns)) (mbuf_content m) \<and>
    mbuf_content m' = drop (sum_list (map unat ns)) (mbuf_content m) \<and>
    OI_MBUF_Reset m' = Some m"
proof -
  obtain outs m' where m': "pulls m ns = Some (outs, m')"
      "concat outs = take (sum_list (map unat ns)) (mbuf_content m)"
      "mbuf_content m' = drop (sum_list (map unat ns)) (mbuf_content m)"
      "mbuf_wf m'" "pristine m' = pristine m" "OI_MBUF_IS_DIRTY m' \<or> m' = m"
    using pulls_wf [OF mbuf_ok_wf, of m ns] assms by blast
  with OI_MBUF_Reset_pulled [of m' m] assms show ?thesis
    by auto
qed

definition demo_inner :: OI_MBUF where
  "demo_inner = MBUF \<lparr>allocCells = 2, currCell = 0, numBytes = 3, currPos = 0, winStart = 1, winSize = 3\<rparr>
     [CELL_INLINE 2 [10, 11], CELL_PTR MBUF_KEEP 3 (Some [12, 13, 14, 99])]"

definition demo_mbuf :: OI_MBUF where
  "demo_mbuf = MBUF \<lparr>allocCells = 4, currCell = 0, numBytes = 6, currPos = 0, winStart = 0, winSize = 0\<rparr>
     [CELL_INLINE 2 [1, 2], CELL_NESTED 3 1 demo_inner, CELL_PTR MBUF_COPY 1 (Some [7])]"

lemma demo_mbuf_facts:
  "mbuf_ok demo_mbuf" "mbuf_content demo_mbuf = [1, 2, 11, 12, 13, 7]" "\<not> MBUF_IS_WINDOWED (mbuf_hdr demo_mbuf)"
  "usedCells demo_mbuf = 3" "allocCells (mbuf_hdr demo_mbuf) = 4" "mbuf_raw demo_mbuf = [1, 2, 11, 12, 13, 7]"
  by (simp_all add: demo_mbuf_def demo_inner_def hdr_dirty_def hdr_ok_def full_bytes_def
      MBUF_IS_WINDOWED_def ptr_ok_def mbuf_content_def usedCells_def word_less_nat_alt)

lemma OI_MBUF_PullBytes_pieces_witness:
  "\<exists>outs m'. pulls demo_mbuf [1, 3] = Some (outs, m') \<and> concat outs = [1, 2, 11, 12] \<and>
     mbuf_content m' = [13, 7] \<and> OI_MBUF_Reset m' = Some demo_mbuf"
  using OI_MBUF_PullBytes_pieces [of demo_mbuf "[1, 3]"] by (simp add: demo_mbuf_facts)

text \<open>C21: The checksum of an mbuf is the checksum of its contents: \<open>OI_MBUF_ComputeFCS\<close> walks
  cells, nested mbufs and windows and comes to the bitwise CRC of the first \<open>numBytes\<close> bytes a
  consumer would pull.\<close>

theorem OI_MBUF_ComputeFCS_content:
  assumes "mbuf_ok m"
  shows "OI_MBUF_ComputeFCS m n runningFCS =
    Some (of_nat (length (take (unat n) (mbuf_content m))),
      crc_bytes runningFCS (take (unat n) (mbuf_content m)))"
  using assms by (rule OI_MBUF_ComputeFCS_ok)

lemma OI_MBUF_ComputeFCS_content_witness:
  "OI_MBUF_ComputeFCS demo_mbuf 4 0 = Some (4, crc_bytes 0 [1, 2, 11, 12])"
  using OI_MBUF_ComputeFCS_content [of demo_mbuf 4 0] by (simp add: demo_mbuf_facts)

text \<open>C22: On an mbuf without a window whose length in 16 bits does not run over, \<open>OI_MBUF_Append\<close> puts the
  bytes after the contents, in one cell more, exactly when there is a free cell and, for a copied fragment that does not fit inline, memory; otherwise it reports which of
  the two was missing and leaves the mbuf exactly as it was. The mbuf stays well formed.\<close>

theorem OI_MBUF_Append_spec:
  assumes "addable m b len d"
  shows "\<exists>s m'. OI_MBUF_Append malloc_ok m (Some b) len d = Some (s, m') \<and> mbuf_ok m' \<and>
    s = (if len = 0 then OI_OK else if unat (allocCells (mbuf_hdr m)) \<le> usedCells m then OI_STATUS_MBUF_OVERFLOW
         else if \<not> malloc_ok \<and> d = MBUF_COPY \<and> 8 < len then OI_STATUS_OUT_OF_MEMORY else OI_OK) \<and>
    (if s = OI_OK then mbuf_content m' = mbuf_content m @ take (unat len) b \<and>
       usedCells m' = usedCells m + (if len = 0 then 0 else 1) else m' = m)"
proof -
  have ok: "mbuf_ok m" "\<not> MBUF_IS_WINDOWED (mbuf_hdr m)" "disposition_ok d" "\<not> OI_MBUF_IS_DIRTY m"
    using assms by (auto simp: addable_def OI_MBUF_IS_DIRTY_def) (cases m, simp)
  show ?thesis
  proof (cases rule: add_cases [where len = len and m = m and malloc_ok = malloc_ok and d = d])
    case added
    obtain m' where m': "OI_MBUF_Append malloc_ok m (Some b) len d = Some (OI_OK, m')" "mbuf_ok m'"
        "mbuf_content m' = mbuf_content m @ take (unat len) b"
      using OI_MBUF_Append_ok [OF assms added] by blast
    then have "usedCells m' = usedCells m + 1"
      using ok added by (cases m) (auto simp: OI_MBUF_Append_def usedCells_def split: bind_splits if_splits)
    then show ?thesis
      using m' added by auto
  qed (use ok OI_MBUF_full(1) [OF assms] in
      \<open>auto simp: OI_MBUF_Append_def InitCell_no_memory\<close>)
qed

lemma OI_MBUF_Append_spec_witness:
  "\<exists>s m'. OI_MBUF_Append False demo_mbuf (Some [5, 6, 0]) 2 MBUF_COPY = Some (s, m') \<and> s = OI_OK \<and>
     mbuf_content m' = [1, 2, 11, 12, 13, 7, 5, 6]"
  using OI_MBUF_Append_spec [of demo_mbuf "[5, 6, 0]" 2 MBUF_COPY False]
  by (auto simp: demo_mbuf_facts addable_def disposition_ok_def)

text \<open>\<open>OI_MBUF_Prepend\<close> puts the bytes before the contents under the same conditions; when
  memory runs out the mbuf gains an empty cell, which leaves its contents as they were.\<close>

theorem OI_MBUF_Prepend_spec:
  assumes "addable m b len d"
  shows "\<exists>s m'. OI_MBUF_Prepend malloc_ok m (Some b) len d = Some (s, m') \<and> mbuf_ok m' \<and>
    s = (if len = 0 then OI_OK else if unat (allocCells (mbuf_hdr m)) \<le> usedCells m then OI_STATUS_MBUF_OVERFLOW
         else if \<not> malloc_ok \<and> d = MBUF_COPY \<and> 8 < len then OI_STATUS_OUT_OF_MEMORY else OI_OK) \<and>
    mbuf_content m' = (if s = OI_OK then take (unat len) b @ mbuf_content m else mbuf_content m)"
proof -
  have ok: "mbuf_ok m" "\<not> MBUF_IS_WINDOWED (mbuf_hdr m)" "disposition_ok d" "\<not> OI_MBUF_IS_DIRTY m"
    using assms by (auto simp: addable_def OI_MBUF_IS_DIRTY_def) (cases m, simp)
  show ?thesis
  proof (cases rule: add_cases [where len = len and m = m and malloc_ok = malloc_ok and d = d])
    case no_memory
    obtain h cs where m: "m = MBUF h cs"
      by (cases m)
    have "mbuf_ok (MBUF (h\<lparr>numBytes := numBytes h + cell_len (CELL_PTR MBUF_KEEP 0 None)\<rparr>)
        (CELL_PTR MBUF_KEEP 0 None # cs))"
      using ok no_memory m addable_cells [of h cs b len d] assms
      by (intro mbuf_ok_add) (auto simp: usedCells_def ptr_ok_def)
    then have ok': "mbuf_ok (MBUF h (CELL_PTR MBUF_KEEP 0 None # cs))"
      by simp
    then have "mbuf_content (MBUF h (CELL_PTR MBUF_KEEP 0 None # cs)) = mbuf_content m"
      using ok m mbuf_ok_unwindowed(1) [OF ok'] mbuf_ok_unwindowed(1) [OF ok(1,2)] by simp
    then show ?thesis
      using ok ok' no_memory m by (simp add: OI_MBUF_Prepend_def InitCell_no_memory)
  next
    case added
    then show ?thesis
      using OI_MBUF_Prepend_ok [OF assms added] by auto
  qed (use ok OI_MBUF_full(2) [OF assms] in \<open>auto simp: OI_MBUF_Prepend_def\<close>)
qed

lemma OI_MBUF_Prepend_spec_witness:
  "\<exists>s m'. OI_MBUF_Prepend False demo_mbuf (Some [5, 6, 0]) 2 MBUF_COPY = Some (s, m') \<and> s = OI_OK \<and>
     mbuf_content m' = [5, 6, 1, 2, 11, 12, 13, 7]"
  using OI_MBUF_Prepend_spec [of demo_mbuf "[5, 6, 0]" 2 MBUF_COPY False]
  by (auto simp: demo_mbuf_facts addable_def disposition_ok_def)

text \<open>C23: \<open>OI_MBUF_SetWindow\<close> followed by \<open>OI_MBUF_AdvanceWindow\<close> cuts a packet into
  consecutive segments: whatever sizes are asked for, the windows' contents put together are
  the start of the packet, nothing lost or repeated at the seams or at the end. Pulling from a window gives
  its bytes, but then the next window can be set only after \<open>OI_MBUF_Reset\<close>, which gives the window back
  as it was: advancing straight after a pull, as the header file asks, fails an assertion.\<close>

theorem OI_MBUF_windows_segment:
  assumes "mbuf_ok m"
  shows "\<exists>ms. segments m n ns = Some ms \<and>
    concat (map mbuf_content ms) = take (unat n + sum_list (map unat ns)) (mbuf_raw m) \<and>
    (\<forall>w \<in> set ms. \<forall>k j. mbuf_content w \<noteq> [] \<and> k \<noteq> 0 \<longrightarrow>
       (\<exists>w'. OI_MBUF_PullBytes w k = Some (take (unat k) (mbuf_content w), w') \<and>
          OI_MBUF_AdvanceWindow w' j = None \<and> OI_MBUF_Reset w' = Some w))"
proof -
  have start: "pull_ok m" "\<not> OI_MBUF_IS_DIRTY m"
    using assms by (simp_all add: mbuf_ok_pull_ok) (cases m, simp add: OI_MBUF_IS_DIRTY_def)
  then obtain ms where ms: "segments m n ns = Some ms"
      "concat (map mbuf_content ms) = take (unat n + sum_list (map unat ns)) (mbuf_raw m)"
    using segments_ok by blast
  then show ?thesis
    using segments_windowed [OF start ms(1)] window_ok window_pull by blast
qed

lemma OI_MBUF_windows_segment_witness:
  "\<exists>ms. segments demo_mbuf 2 [3, 9] = Some ms \<and> concat (map mbuf_content ms) = [1, 2, 11, 12, 13, 7]"
  using OI_MBUF_windows_segment [of demo_mbuf 2 "[3, 9]"] by (auto simp: demo_mbuf_facts)

text \<open>C24: \<open>OI_MBUF_PeekBytes\<close> on an mbuf without nested mbufs points at the byte at the given
  offset of the window, with at least one byte, and no byte past the cell's buffer, readable.\<close>

theorem OI_MBUF_PeekBytes_flat:
  assumes "mbuf_ok (MBUF h cs)" and "\<forall>c \<in> set cs. flat_cell c"
    and "unat off < length (mbuf_content (MBUF h cs))"
  shows "\<exists>p n. OI_MBUF_PeekBytes (MBUF h cs) off = Some (p, n) \<and> 0 < n \<and> unat n \<le> length p \<and>
    take (unat n) p = take (unat n) (drop (unat (winStart h) + unat off) (mbuf_raw (MBUF h cs)))"
proof -
  have fits: "unat (winStart h) + unat (numBytes h) \<le> lens cs" "lens cs < 65536"
    using mbuf_ok_fits [OF assms(1)] assms(1) by (auto simp: length_cells_raw hdr_ok_def)
  moreover have "unat off < unat (numBytes h)"
    using assms(1,3) length_mbuf_content [OF mbuf_ok_wf [OF assms(1)]] by simp
  ultimately have o: "unat (off + winStart h) = unat (winStart h) + unat off"
    "unat (winStart h) + unat off < lens cs"
    by (simp_all add: unat_add_u16 add.commute)
  then show ?thesis
    using Peek_cells_ok [of cs "off + winStart h"] assms(1,2) by simp
qed

lemma OI_MBUF_PeekBytes_flat_witness:
  "\<exists>p n. OI_MBUF_PeekBytes demo_inner 1 = Some (p, n) \<and> 0 < n \<and> take (unat n) p = take (unat n) [12, 13, 14]"
  using OI_MBUF_PeekBytes_flat [of "mbuf_hdr demo_inner" "mbuf_cells demo_inner" 1]
  by (auto simp: demo_inner_def hdr_dirty_def hdr_ok_def full_bytes_def MBUF_IS_WINDOWED_def
      ptr_ok_def mbuf_content_def)

end
