(* ===== verification/ObexHeaders.thy ===== *)
theory ObexHeaders
  imports Mbuf
begin

text \<open>
  OBEX headers and the composition of packets, from \<open>obexcommon.c\<close>: sizes, \<open>AddHeader\<close> with
  its segmentation of body headers, \<open>OI_OBEXCOMMON_MarshalPacketMbuf\<close>, \<open>MarshalPacket\<close>,
  \<open>MarshalBodySegment\<close>, \<open>InitPacket\<close> and \<open>SendSimple\<close>.

  A header is its id and the member of the \<open>val\<close> union that was last written. Pointers are the
  bytes (or characters) behind them; reading past those, or reading another union member than
  the one the id's kind selects, is undefined (\<^term>\<open>None\<close>). The packet under construction
  is an mbuf. Fragments of at most eight bytes are copied inline without memory, so the
  \<open>OI_Malloc\<close> answer given to those appends is irrelevant and set to \<^term>\<open>False\<close>; the answers
  that matter are arguments: one for the mbuf, and \<open>mem i\<close> for the \<open>i\<close>-th header's buffer.
\<close>

unbundle bit_operations_syntax

section \<open>Headers\<close>

datatype OI_OBEX_VALUE =
    UNICODE "u16 list" u16
  | BYTESEQ "bytes option" u16
  | UINT8 u8
  | UINT32 u32

record OI_OBEX_HEADER =
  hdr_id :: u8
  hdr_val :: OI_OBEX_VALUE

datatype OBEX_KIND =
    OI_OBEX_HDR_ID_UNICODE | OI_OBEX_HDR_ID_BYTESEQ | OI_OBEX_HDR_ID_UINT8 | OI_OBEX_HDR_ID_UINT32

definition OI_OBEX_HDR_KIND :: "u8 \<Rightarrow> OBEX_KIND" where
  "OI_OBEX_HDR_KIND i =
     (if i AND 0xC0 = 0x00 then OI_OBEX_HDR_ID_UNICODE
      else if i AND 0xC0 = 0x40 then OI_OBEX_HDR_ID_BYTESEQ
      else if i AND 0xC0 = 0x80 then OI_OBEX_HDR_ID_UINT8
      else OI_OBEX_HDR_ID_UINT32)"

definition OI_OBEX_HDR_TARGET :: u8 where "OI_OBEX_HDR_TARGET = 0x46"
definition OI_OBEX_HDR_CONNECTION_ID :: u8 where "OI_OBEX_HDR_CONNECTION_ID = 0xCB"
definition OI_OBEX_HDR_SESSION_PARAMS :: u8 where "OI_OBEX_HDR_SESSION_PARAMS = 0x52"
definition OI_OBEX_HDR_BODY :: u8 where "OI_OBEX_HDR_BODY = 0x48"
definition OI_OBEX_HDR_END_OF_BODY :: u8 where "OI_OBEX_HDR_END_OF_BODY = 0x49"
definition OI_OBEX_HEADER_PREFIX_LEN :: u16 where "OI_OBEX_HEADER_PREFIX_LEN = 3"
definition OI_OBEX_HDR_BUFSIZE :: u16 where "OI_OBEX_HDR_BUFSIZE = 8"
definition OI_OBEX_FINAL_BIT :: u8 where "OI_OBEX_FINAL_BIT = 0x80"
definition OI_OBEX_RSP_CONTINUE :: u8 where "OI_OBEX_RSP_CONTINUE = 0x10"
definition OI_OBEX_RSP_OK :: u8 where "OI_OBEX_RSP_OK = 0x20"

definition OI_OBEX_FINAL :: "u8 \<Rightarrow> u8" where
  "OI_OBEX_FINAL op = op OR OI_OBEX_FINAL_BIT"

definition OI_OBEX_IS_A_BODY_HEADER :: "u8 \<Rightarrow> bool" where
  "OI_OBEX_IS_A_BODY_HEADER h \<longleftrightarrow> h = OI_OBEX_HDR_BODY \<or> h = OI_OBEX_HDR_END_OF_BODY"

definition PRIORITY_HEADER :: "u8 \<Rightarrow> bool" where
  "PRIORITY_HEADER h \<longleftrightarrow> OI_OBEX_HDR_TARGET = h \<or> OI_OBEX_HDR_CONNECTION_ID = h \<or>
     OI_OBEX_HDR_SESSION_PARAMS = h"

lemmas obex_consts = OI_OBEX_HDR_TARGET_def OI_OBEX_HDR_CONNECTION_ID_def
  OI_OBEX_HDR_SESSION_PARAMS_def OI_OBEX_HDR_BODY_def OI_OBEX_HDR_END_OF_BODY_def
  OI_OBEX_HEADER_PREFIX_LEN_def OI_OBEX_HDR_BUFSIZE_def OI_OBEX_FINAL_BIT_def
  OI_OBEX_RSP_CONTINUE_def OI_OBEX_RSP_OK_def

section \<open>Sizes\<close>

definition HeaderSize :: "OI_OBEX_HEADER \<Rightarrow> u16 option" where
  "HeaderSize header =
     (case (OI_OBEX_HDR_KIND (hdr_id header), hdr_val header) of
        (OI_OBEX_HDR_ID_UNICODE, UNICODE str len) \<Rightarrow>
          if len > 0 then do {
            OI_ASSERT (unat len \<le> length str);
            Some (OI_OBEX_HEADER_PREFIX_LEN + len * 2)
          } else Some OI_OBEX_HEADER_PREFIX_LEN
      | (OI_OBEX_HDR_ID_BYTESEQ, BYTESEQ data len) \<Rightarrow> Some (OI_OBEX_HEADER_PREFIX_LEN + len)
      | (OI_OBEX_HDR_ID_UINT8, UINT8 v) \<Rightarrow> Some 2
      | (OI_OBEX_HDR_ID_UINT32, UINT32 v) \<Rightarrow> Some 5
      | _ \<Rightarrow> None)"

text \<open>The header list, or \<open>NULL\<close>.\<close>

fun HeaderListSize_loop :: "OI_OBEX_HEADER list \<Rightarrow> u16 \<Rightarrow> u16 option" where
  "HeaderListSize_loop [] sz = Some sz"
| "HeaderListSize_loop (h # hs) sz = do {
     n \<leftarrow> HeaderSize h;
     HeaderListSize_loop hs (sz + n)
   }"

definition OI_OBEXCOMMON_HeaderListSize :: "OI_OBEX_HEADER list option \<Rightarrow> u16 option" where
  "OI_OBEXCOMMON_HeaderListSize headers =
     (case headers of None \<Rightarrow> Some 0 | Some hs \<Rightarrow> HeaderListSize_loop hs 0)"

section \<open>The connection's common part\<close>

record OBEX_COMMON =
  mbuf :: "OI_MBUF option"
  hdrBuf :: bytes
  srm :: u8
  maxSendPktLen :: u16
  currentOpcode :: u8
  bodySegment :: OI_OBEX_HEADER
  progressBytes :: u32

definition blank_stream :: OI_BYTE_STREAM where
  "blank_stream = \<lparr>bs_addr = 0, bs_data = [], bs_trueSize = 0, bs_size = 0, bs_pos = 0, bs_RWFlag = 0,
     bs_error = 0\<rparr>"

definition OI_OBEXCOMMON_InitPacket ::
    "OBEX_COMMON \<Rightarrow> u8 \<Rightarrow> (OBEX_COMMON \<times> OI_BYTE_STREAM) option" where
  "OI_OBEXCOMMON_InitPacket common opcode = do {
     let common = common\<lparr>currentOpcode := opcode,
                         bodySegment := (bodySegment common)\<lparr>hdr_id := 0\<rparr>\<rparr>;
     pkt \<leftarrow> ByteStream_Init blank_stream 0 (hdrBuf common) OI_OBEX_HDR_BUFSIZE;
     pkt \<leftarrow> ByteStream_Open pkt BYTESTREAM_WRITE;
     pkt \<leftarrow> ByteStream_Skip pkt 3;
     Some (common, pkt)
   }"

section \<open>Adding one header\<close>

fun put_chars :: "u16 list \<Rightarrow> OI_BYTE_STREAM \<Rightarrow> OI_BYTE_STREAM option" where
  "put_chars [] bs = Some bs"
| "put_chars (c # cs) bs = do {
     bs \<leftarrow> ByteStream_PutUINT16 bs c OI_BIG_ENDIAN_BYTE_ORDER;
     put_chars cs bs
   }"

text \<open>The copy of a Unicode header that goes into the packet: \<open>buf\<close> has \<open>length\<close> bytes of
  uninitialised memory, zeros here.\<close>

definition unicode_copy :: "u8 \<Rightarrow> u16 list \<Rightarrow> u16 \<Rightarrow> u16 \<Rightarrow> OI_BYTE_STREAM option" where
  "unicode_copy hdrId str len n = do {
     bs \<leftarrow> ByteStream_Init blank_stream 0 (replicate (unat n) 0) n;
     bs \<leftarrow> ByteStream_Open bs BYTESTREAM_WRITE;
     bs \<leftarrow> ByteStream_PutUINT8 bs hdrId;
     bs \<leftarrow> ByteStream_PutUINT16 bs n OI_BIG_ENDIAN_BYTE_ORDER;
     bs \<leftarrow> put_chars (take (unat len) str) bs;
     bs \<leftarrow> (if bs_pos bs < n then ByteStream_PutUINT16 bs (0 :: u16) OI_BIG_ENDIAN_BYTE_ORDER else Some bs);
     Some (ByteStream_Close bs)
   }"

definition OI_MBUF_add ::
    "bool \<Rightarrow> OI_MBUF \<Rightarrow> bytes option \<Rightarrow> u16 \<Rightarrow> OI_MBUF_DISPOSITION \<Rightarrow> (OI_STATUS \<times> OI_MBUF) option" where
  "OI_MBUF_add priority = (if priority then OI_MBUF_Prepend False else OI_MBUF_Append False)"

text \<open>How much of the header fits: its length in this packet, the id it goes under, and the
  body segment left for later; \<^term>\<open>Inl\<close> is an early return.\<close>

definition FitHeader ::
    "OBEX_COMMON \<Rightarrow> OI_OBEX_HEADER \<Rightarrow> u16 \<Rightarrow> u16 \<Rightarrow> (OI_STATUS + OBEX_COMMON \<times> u8 \<times> u16) option" where
  "FitHeader common header pktLen hlen =
     (if unat pktLen + unat hlen > unat (maxSendPktLen common) then
        if \<not> OI_OBEX_IS_A_BODY_HEADER (hdr_id header) then Some (Inl OI_OBEX_PACKET_OVERFLOW)
        else do {
          let hlen = maxSendPktLen common - pktLen;
          if hlen \<le> OI_OBEX_HEADER_PREFIX_LEN then Some (Inl OI_OK)
          else case hdr_val header of
            BYTESEQ (Some data) len \<Rightarrow> do {
              let n = hlen - OI_OBEX_HEADER_PREFIX_LEN;
              OI_ASSERT (unat n \<le> length data);
              Some (Inr (common\<lparr>bodySegment := header\<lparr>hdr_val := BYTESEQ (Some (drop (unat n) data)) (len - n)\<rparr>\<rparr>,
                         OI_OBEX_HDR_BODY, hlen))
            }
          | _ \<Rightarrow> None
        }
      else Some (Inr (common, hdr_id header, hlen)))"

definition AddHeader ::
    "bool \<Rightarrow> OBEX_COMMON \<Rightarrow> OI_MBUF \<Rightarrow> OI_OBEX_HEADER \<Rightarrow> u16 \<Rightarrow>
       (OI_STATUS \<times> OBEX_COMMON \<times> OI_MBUF \<times> u16) option" where
  "AddHeader malloc_ok common m header pktLen = do {
     hlen \<leftarrow> HeaderSize header;
     if hlen = 0 then Some (OI_STATUS_INVALID_PARAMETERS, common, m, pktLen)
     else do {
       fit \<leftarrow> FitHeader common header pktLen hlen;
       case fit of
         Inl status \<Rightarrow> Some (status, common, m, pktLen)
       | Inr (common, hdrId, hlen) \<Rightarrow> do {
           let pktLen = pktLen + hlen;
           let addToMbuf = OI_MBUF_add (PRIORITY_HEADER hdrId);
           case hdr_val header of
             UNICODE str len \<Rightarrow>
               if \<not> malloc_ok then Some (OI_STATUS_OUT_OF_MEMORY, common, m, pktLen)
               else do {
                 bs \<leftarrow> unicode_copy hdrId str len hlen;
                 (status, m) \<leftarrow> addToMbuf m (Some (bs_data bs)) (bs_size bs) MBUF_FREE;
                 Some (status, common, m, pktLen)
               }
           | BYTESEQ data len \<Rightarrow> do {
               let tmp = hdrId # SetUINT16_BigEndian hlen;
               (status, m) \<leftarrow>
                 (if \<not> PRIORITY_HEADER hdrId then do {
                    (status, m) \<leftarrow> OI_MBUF_Append False m (Some tmp) OI_OBEX_HEADER_PREFIX_LEN MBUF_COPY;
                    if OI_SUCCESS status
                    then OI_MBUF_Append False m data (hlen - OI_OBEX_HEADER_PREFIX_LEN) MBUF_KEEP
                    else Some (status, m)
                  } else do {
                    (status, m) \<leftarrow> OI_MBUF_Prepend False m data (hlen - OI_OBEX_HEADER_PREFIX_LEN) MBUF_KEEP;
                    if OI_SUCCESS status
                    then OI_MBUF_Prepend False m (Some tmp) OI_OBEX_HEADER_PREFIX_LEN MBUF_COPY
                    else Some (status, m)
                  });
               Some (status,
                     if OI_SUCCESS status \<and> OI_OBEX_IS_A_BODY_HEADER hdrId
                     then common\<lparr>progressBytes := progressBytes common + ucast hlen\<rparr> else common,
                     m, pktLen)
             }
           | UINT8 v \<Rightarrow> do {
               (status, m) \<leftarrow> addToMbuf m (Some [hdrId, v]) 2 MBUF_COPY;
               Some (status, common, m, pktLen)
             }
           | UINT32 v \<Rightarrow> do {
               (status, m) \<leftarrow> addToMbuf m (Some (hdrId # SetUINT32_BigEndian v)) 5 MBUF_COPY;
               Some (status, common, m, pktLen)
             }
         }
     }
   }"

section \<open>Composing a packet\<close>

text \<open>The two loops over \<open>hdrs\<close> and \<open>hdrList\<close>, one after the other; \<open>i\<close> numbers the headers
  for their memory.\<close>

fun AddHeaders ::
    "(nat \<Rightarrow> bool) \<Rightarrow> nat \<Rightarrow> OBEX_COMMON \<Rightarrow> OI_MBUF \<Rightarrow> OI_OBEX_HEADER list \<Rightarrow> u16 \<Rightarrow>
       (OI_STATUS \<times> OBEX_COMMON \<times> OI_MBUF \<times> u16) option" where
  "AddHeaders mem i common m [] pktLen = Some (OI_OK, common, m, pktLen)"
| "AddHeaders mem i common m (h # hs) pktLen = do {
     (status, common, m, pktLen) \<leftarrow> AddHeader (mem i) common m h pktLen;
     if OI_SUCCESS status then AddHeaders mem (Suc i) common m hs pktLen
     else Some (status, common, m, pktLen)
   }"

text \<open>The number of mbuf cells, at the width of the 8-bit variable it is counted in.\<close>

definition count_cells :: "OI_OBEX_HEADER list \<Rightarrow> OI_OBEX_HEADER list \<Rightarrow> u8" where
  "count_cells hdrs hdrList =
     foldl (\<lambda>cells h. if OI_OBEX_HDR_KIND (hdr_id h) = OI_OBEX_HDR_ID_BYTESEQ then cells + 1 else cells)
       (of_nat (length hdrs + length hdrList + 1)) (hdrs @ hdrList)"

definition PacketOpcode :: "OBEX_COMMON \<Rightarrow> u8" where
  "PacketOpcode common =
     (if OI_OBEX_IS_A_BODY_HEADER (hdr_id (bodySegment common)) then
        (let op = currentOpcode common in
         if op = OI_OBEX_FINAL OI_OBEX_RSP_OK \<or> op = OI_OBEX_FINAL OI_OBEX_RSP_CONTINUE
         then OI_OBEX_FINAL OI_OBEX_RSP_CONTINUE else op AND NOT OI_OBEX_FINAL_BIT)
      else currentOpcode common)"

definition OI_OBEXCOMMON_MarshalPacketMbuf ::
    "bool \<Rightarrow> (nat \<Rightarrow> bool) \<Rightarrow> OBEX_COMMON \<Rightarrow> OI_BYTE_STREAM \<Rightarrow> OI_OBEX_HEADER list \<Rightarrow>
       OI_OBEX_HEADER list option \<Rightarrow> (OI_STATUS \<times> OBEX_COMMON \<times> OI_MBUF option) option" where
  "OI_OBEXCOMMON_MarshalPacketMbuf calloc_ok mem common pktHdr hdrs hdrList = do {
     OI_ASSERT (hdr_id (bodySegment common) = 0);
     let hdrs2 = (case hdrList of None \<Rightarrow> [] | Some hs \<Rightarrow> hs);
     let pktLen = bs_pos pktHdr;
     case OI_MBUF_Alloc calloc_ok (count_cells hdrs hdrs2) of
       None \<Rightarrow> Some (OI_STATUS_OUT_OF_MEMORY, common, None)
     | Some m \<Rightarrow> do {
         (status, common, m, pktLen) \<leftarrow> AddHeaders mem 0 common m (hdrs @ hdrs2) pktLen;
         if \<not> OI_SUCCESS status then do { _ \<leftarrow> OI_MBUF_Free m; Some (status, common, None) }
         else do {
           let pos = bs_pos pktHdr;
           pktHdr \<leftarrow> ByteStream_SetPos pktHdr 0;
           pktHdr \<leftarrow> ByteStream_PutUINT8 pktHdr (PacketOpcode common);
           pktHdr \<leftarrow> ByteStream_PutUINT16 pktHdr pktLen OI_BIG_ENDIAN_BYTE_ORDER;
           pktHdr \<leftarrow> ByteStream_SetPos pktHdr pos;
           let pktHdr = ByteStream_Close pktHdr;
           (status, m) \<leftarrow> OI_MBUF_Prepend (mem (length hdrs + length hdrs2)) m
                              (Some (bs_data pktHdr)) (bs_size pktHdr) MBUF_COPY;
           if \<not> OI_SUCCESS status then do { _ \<leftarrow> OI_MBUF_Free m; Some (status, common, None) }
           else Some (OI_OK, common, Some m)
         }
       }
   }"

definition OI_OBEXCOMMON_MarshalPacket ::
    "bool \<Rightarrow> (nat \<Rightarrow> bool) \<Rightarrow> OBEX_COMMON \<Rightarrow> OI_BYTE_STREAM \<Rightarrow> OI_OBEX_HEADER list \<Rightarrow>
       OI_OBEX_HEADER list option \<Rightarrow> (OI_STATUS \<times> OBEX_COMMON) option" where
  "OI_OBEXCOMMON_MarshalPacket calloc_ok mem common pktHdr hdrs hdrList = do {
     OI_ASSERT (mbuf common = None);
     (status, common, m) \<leftarrow> OI_OBEXCOMMON_MarshalPacketMbuf calloc_ok mem common pktHdr hdrs hdrList;
     Some (status, common\<lparr>mbuf := m\<rparr>)
   }"

definition OI_OBEXCOMMON_MarshalBodySegment :: "bool \<Rightarrow> (nat \<Rightarrow> bool) \<Rightarrow> OBEX_COMMON \<Rightarrow> (OI_STATUS \<times> OBEX_COMMON) option" where
  "OI_OBEXCOMMON_MarshalBodySegment calloc_ok mem common = do {
     OI_ASSERT (OI_OBEX_IS_A_BODY_HEADER (hdr_id (bodySegment common)));
     let hdr = bodySegment common;
     let common = common\<lparr>bodySegment := hdr\<lparr>hdr_id := 0\<rparr>\<rparr>;
     (common, pkt) \<leftarrow> OI_OBEXCOMMON_InitPacket common (currentOpcode common);
     OI_OBEXCOMMON_MarshalPacket calloc_ok mem common pkt [hdr] None
   }"

text \<open>\<open>OI_OBEXCOMMON_SendSimple\<close> hands a three-byte packet to the lower layer's \<open>write\<close>.\<close>

definition OI_OBEXCOMMON_SendSimple ::
    "('c \<Rightarrow> OI_MBUF \<Rightarrow> bool \<Rightarrow> OI_STATUS \<times> bool \<times> 'c) \<Rightarrow> bool \<Rightarrow> 'c \<Rightarrow> u8 \<Rightarrow> (OI_STATUS \<times> 'c) option" where
  "OI_OBEXCOMMON_SendSimple write calloc_ok conn opcode = do {
     m \<leftarrow> OI_MBUF_Wrap calloc_ok False (Some [opcode, 0, 3]) 3 MBUF_COPY;
     case m of
       None \<Rightarrow> Some (OI_STATUS_OUT_OF_MEMORY, conn)
     | Some m \<Rightarrow>
         let (status, queueFull, conn) = write conn m True
         in if \<not> OI_SUCCESS status then do { _ \<leftarrow> OI_MBUF_Free m; Some (status, conn) }
            else Some (status, conn)
   }"

section \<open>Streams that compose bytes\<close>

lemma open_write_stream:
  assumes "0 < n" "unat n \<le> length buf"
  shows "\<exists>bs. (do { bs \<leftarrow> ByteStream_Init blank_stream 0 buf n; ByteStream_Open bs BYTESTREAM_WRITE }) = Some bs \<and>
    bs_writing bs \<and> bs_room bs = unat n \<and> bs_written bs = [] \<and> bs_size bs = n \<and> bs_pos bs = 0 \<and> bs_data bs = buf"
  using assms
  by (simp add: ByteStream_Init_def ByteStream_Open_def monad_simps word_less_nat_alt bs_writing_def
      bs_wf_def bs_room_def bs_written_def)

lemma put_chars_written:
  "bs_writing bs \<Longrightarrow> 2 * length cs \<le> bs_room bs \<Longrightarrow>
     \<exists>bs'. put_chars cs bs = Some bs' \<and> bs_writing bs' \<and> bs_room bs' = bs_room bs - 2 * length cs \<and>
       bs_written bs' = bs_written bs @ concat (map SetUINT16_BigEndian cs) \<and> bs_size bs' = bs_size bs"
proof (induction cs arbitrary: bs)
  case (Cons c cs)
  have "\<exists>bs'. put_chars cs (bs_put (SetUINT16_BigEndian c) bs) = Some bs' \<and> bs_writing bs' \<and>
      bs_room bs' = bs_room (bs_put (SetUINT16_BigEndian c) bs) - 2 * length cs \<and>
      bs_written bs' = bs_written (bs_put (SetUINT16_BigEndian c) bs) @ concat (map SetUINT16_BigEndian cs) \<and>
      bs_size bs' = bs_size (bs_put (SetUINT16_BigEndian c) bs)"
    using Cons.prems by (intro Cons.IH) simp_all
  then show ?case
    using Cons.prems by (auto simp: bs_write_simps)
qed simp

text \<open>What a closed stream hands on as data and size.\<close>

lemma closed_written:
  "bs_writing bs \<Longrightarrow> bs_data (ByteStream_Close bs) = bs_data bs"
  "bs_writing bs \<Longrightarrow> bs_size (ByteStream_Close bs) = bs_pos bs"
  "bs_writing bs \<Longrightarrow> take (unat (bs_pos bs)) (bs_data bs) = bs_written bs"
  "bs_writing bs \<Longrightarrow> unat (bs_pos bs) \<le> length (bs_data bs)"
  "bs_writing bs \<Longrightarrow> length (bs_written bs) = unat (bs_pos bs)"
  by (auto simp: ByteStream_Close_def bs_writing_def bs_written_def bs_wf_def)

section \<open>The wire format\<close>

definition enc_hdr :: "OI_OBEX_HEADER \<Rightarrow> bytes" where
  "enc_hdr h = hdr_id h #
     (case hdr_val h of
        UNICODE str len \<Rightarrow> SetUINT16_BigEndian (3 + len * 2) @ concat (map SetUINT16_BigEndian (take (unat len) str))
      | BYTESEQ data len \<Rightarrow> SetUINT16_BigEndian (3 + len) @ take (unat len) (case data of None \<Rightarrow> [] | Some b \<Rightarrow> b)
      | UINT8 v \<Rightarrow> [v]
      | UINT32 v \<Rightarrow> SetUINT32_BigEndian v)"

text \<open>A header the application may pass: the union member its id selects, a buffer as long as
  the length says, and a size that fits the 16-bit length field. A required-first byte
  sequence needs a buffer even when empty (\<open>OI_MBUF_Prepend\<close> asserts it).\<close>

definition hdr_ok_out :: "OI_OBEX_HEADER \<Rightarrow> bool" where
  "hdr_ok_out h \<longleftrightarrow>
     (case (OI_OBEX_HDR_KIND (hdr_id h), hdr_val h) of
        (OI_OBEX_HDR_ID_UNICODE, UNICODE str len) \<Rightarrow> unat len \<le> length str \<and> 3 + 2 * unat len < 65536
      | (OI_OBEX_HDR_ID_BYTESEQ, BYTESEQ data len) \<Rightarrow> 3 + unat len < 65536 \<and>
          (case data of None \<Rightarrow> len = 0 \<and> \<not> PRIORITY_HEADER (hdr_id h) | Some b \<Rightarrow> unat len \<le> length b)
      | (OI_OBEX_HDR_ID_UINT8, UINT8 v) \<Rightarrow> True
      | (OI_OBEX_HDR_ID_UINT32, UINT32 v) \<Rightarrow> True
      | _ \<Rightarrow> False)"

lemma unat_double: "2 * unat (len :: u16) < 65536 \<Longrightarrow> unat (len * 2) = 2 * unat len"
  by (simp add: unat_word_ariths)

lemma unat_prefix:
  "3 + unat (len :: u16) < 65536 \<Longrightarrow> unat (3 + len) = 3 + unat len"
  "3 + 2 * unat len < 65536 \<Longrightarrow> unat (3 + len * 2) = 3 + 2 * unat len"
  by (simp_all add: unat_add_u16 unat_double)

lemma hdr_ok_out_cases:
  assumes "hdr_ok_out h"
  obtains (unicode) str len where "OI_OBEX_HDR_KIND (hdr_id h) = OI_OBEX_HDR_ID_UNICODE"
      "hdr_val h = UNICODE str len" "unat len \<le> length str" "3 + 2 * unat len < 65536"
    | (byteseq) data len where "OI_OBEX_HDR_KIND (hdr_id h) = OI_OBEX_HDR_ID_BYTESEQ"
      "hdr_val h = BYTESEQ data len" "3 + unat len < 65536"
      "(data = None \<and> len = 0 \<and> \<not> PRIORITY_HEADER (hdr_id h)) \<or> (\<exists>b. data = Some b \<and> unat len \<le> length b)"
    | (uint8) v where "OI_OBEX_HDR_KIND (hdr_id h) = OI_OBEX_HDR_ID_UINT8" "hdr_val h = UINT8 v"
    | (uint32) v where "OI_OBEX_HDR_KIND (hdr_id h) = OI_OBEX_HDR_ID_UINT32" "hdr_val h = UINT32 v"
  using assms unfolding hdr_ok_out_def
  by (cases "OI_OBEX_HDR_KIND (hdr_id h)"; cases "hdr_val h") (auto split: option.splits)

lemma length_concat_chars [simp]: "length (concat (map SetUINT16_BigEndian cs)) = 2 * length cs"
  by (induction cs) simp_all

lemma length_enc_hdr:
  "hdr_ok_out h \<Longrightarrow> length (enc_hdr h) < 65536 \<and> HeaderSize h = Some (of_nat (length (enc_hdr h))) \<and>
     2 \<le> length (enc_hdr h)"
  by (erule hdr_ok_out_cases)
    (auto simp: enc_hdr_def HeaderSize_def OI_OBEX_HEADER_PREFIX_LEN_def monad_simps word_gt_0)

lemma unicode_copy_ok:
  assumes "unat len \<le> length str" "3 + 2 * unat len < 65536"
  shows "\<exists>bs. unicode_copy i str len (3 + len * 2) = Some bs \<and> unat (bs_size bs) \<le> length (bs_data bs) \<and>
    take (unat (bs_size bs)) (bs_data bs) = i # SetUINT16_BigEndian (3 + len * 2) @ concat (map SetUINT16_BigEndian (take (unat len) str)) \<and>
    bs_size bs = 3 + len * 2"
proof -
  let ?n = "3 + len * 2" and ?cs = "take (unat len) str"
  have n: "unat ?n = 3 + 2 * unat len"
    using assms(2) by (rule unat_prefix)
  obtain bs0 where bs0: "(do { bs \<leftarrow> ByteStream_Init blank_stream 0 (replicate (unat ?n) 0) ?n; ByteStream_Open bs BYTESTREAM_WRITE }) = Some bs0"
      "bs_writing bs0" "bs_room bs0 = unat ?n" "bs_written bs0 = []" "bs_size bs0 = ?n"
    using open_write_stream [of ?n "replicate (unat ?n) 0"] n by (auto simp: word_less_nat_alt)
  let ?bs2 = "bs_put (SetUINT16_BigEndian ?n) (bs_put [i] bs0)"
  have "\<exists>bs'. put_chars ?cs ?bs2 = Some bs' \<and> bs_writing bs' \<and> bs_room bs' = bs_room ?bs2 - 2 * length ?cs \<and>
      bs_written bs' = bs_written ?bs2 @ concat (map SetUINT16_BigEndian ?cs) \<and> bs_size bs' = bs_size ?bs2"
    using bs0 n assms(1) by (intro put_chars_written) simp_all
  then obtain bs' where bs': "put_chars ?cs ?bs2 = Some bs'" "bs_writing bs'"
      "bs_written bs' = i # SetUINT16_BigEndian ?n @ concat (map SetUINT16_BigEndian ?cs)" "bs_size bs' = ?n"
    using bs0 n by auto
  have pos: "unat (bs_pos bs') = unat ?n"
    using closed_written(5) [OF bs'(2)] bs'(3) assms(1) n by simp
  then have pos': "bs_pos bs' = ?n"
    by (rule word_unat_eqI)
  have "unicode_copy i str len ?n = Some (ByteStream_Close bs')"
    using bs0 bs'(1) n pos'
    by (simp add: unicode_copy_def bs_write_simps bind_assoc [symmetric] del: Option.bind_assoc)
  then show ?thesis
    using closed_written [OF bs'(2)] bs'(3) pos' by auto
qed


section \<open>One header into the packet\<close>

definition hdr_cells :: "OI_OBEX_HEADER \<Rightarrow> nat" where
  "hdr_cells h = (if OI_OBEX_HDR_KIND (hdr_id h) = OI_OBEX_HDR_ID_BYTESEQ then 2 else 1)"

definition placed :: "bool \<Rightarrow> bytes \<Rightarrow> bytes \<Rightarrow> bytes" where
  "placed prio new old = (if prio then new @ old else old @ new)"

lemma OI_MBUF_add_fragment:
  assumes "mbuf_good m" "cheap b len d" "len \<noteq> 0" "1 \<le> mbuf_room m"
    and "length (mbuf_content m) + unat len < 65536"
  shows "\<exists>m'. OI_MBUF_add prio m (Some b) len d = Some (OI_OK, m') \<and> mbuf_good m' \<and>
    mbuf_content m' = placed prio (take (unat len) b) (mbuf_content m) \<and> mbuf_room m - 1 \<le> mbuf_room m'"
  using mb.append_fragment [of m b len d] mb.prepend_fragment [of m b len d] assms
  by (auto simp: OI_MBUF_add_def placed_def)

lemma OI_MBUF_pair:
  assumes "mbuf_good m" "length hdr = 3" "2 \<le> mbuf_room m"
    and "length (mbuf_content m) + 3 + unat len < 65536"
    and "(data = None \<and> len = 0 \<and> \<not> prio) \<or> (\<exists>b. data = Some b \<and> unat len \<le> length b)"
  shows "\<exists>m1 m2. (if \<not> prio
      then OI_MBUF_Append False m (Some hdr) 3 MBUF_COPY = Some (OI_OK, m1) \<and>
        OI_MBUF_Append False m1 data len MBUF_KEEP = Some (OI_OK, m2)
      else OI_MBUF_Prepend False m data len MBUF_KEEP = Some (OI_OK, m1) \<and>
        OI_MBUF_Prepend False m1 (Some hdr) 3 MBUF_COPY = Some (OI_OK, m2)) \<and> mbuf_good m2 \<and>
    mbuf_content m2 = placed prio (hdr @ take (unat len) (case data of None \<Rightarrow> [] | Some b \<Rightarrow> b)) (mbuf_content m) \<and>
    mbuf_room m - 2 \<le> mbuf_room m2"
proof (cases prio)
  case True
  then obtain b where "data = Some b" "unat len \<le> length b"
    using assms(5) by auto
  then show ?thesis
    using True mb.prepend_pair [of m hdr len b] assms(1-4) by (auto simp: placed_def)
next
  case False
  then show ?thesis
    using mb.append_pair [of m hdr len "case data of None \<Rightarrow> [] | Some b \<Rightarrow> b" data] assms
    by (auto simp: placed_def)
qed

text \<open>A body header adds its whole length to the progress.\<close>

definition progressed :: "OBEX_COMMON \<Rightarrow> u8 \<Rightarrow> nat \<Rightarrow> OBEX_COMMON" where
  "progressed common i n =
     (if OI_OBEX_IS_A_BODY_HEADER i then common\<lparr>progressBytes := progressBytes common + of_nat n\<rparr> else common)"

lemma ucast_of_nat_u16: "n < 65536 \<Longrightarrow> (ucast (of_nat n :: u16) :: u32) = of_nat n"
  by (intro word_unat_eqI) (simp add: unsigned_ucast_eq unat_of_nat_u16 unat_of_nat_u32 take_bit_nat_eq_self)

lemma body_is_byteseq:
  "OI_OBEX_IS_A_BODY_HEADER i \<Longrightarrow> OI_OBEX_HDR_KIND i = OI_OBEX_HDR_ID_BYTESEQ \<and> \<not> PRIORITY_HEADER i"
  by (auto simp: OI_OBEX_IS_A_BODY_HEADER_def OI_OBEX_HDR_KIND_def PRIORITY_HEADER_def obex_consts)

lemma AddHeader_fits:
  assumes ok: "hdr_ok_out h" and m: "mbuf_good m" "hdr_cells h \<le> mbuf_room m"
    and len: "unat pktLen + length (enc_hdr h) \<le> unat (maxSendPktLen common)"
    and tot: "length (mbuf_content m) + length (enc_hdr h) < 65536"
  shows "\<exists>m'. AddHeader True common m h pktLen =
      Some (OI_OK, progressed common (hdr_id h) (length (enc_hdr h)), m', pktLen + of_nat (length (enc_hdr h))) \<and>
    mbuf_good m' \<and> mbuf_content m' = placed (PRIORITY_HEADER (hdr_id h)) (enc_hdr h) (mbuf_content m) \<and>
    mbuf_room m - hdr_cells h \<le> mbuf_room m'"
proof -
  let ?n = "of_nat (length (enc_hdr h)) :: u16"
  have n: "unat ?n = length (enc_hdr h)" "HeaderSize h = Some ?n" "?n \<noteq> 0"
    using length_enc_hdr [OF ok] by (auto simp: unat_of_nat_u16 unat_eq_zero simp flip: unat_eq_zero)
  have fit: "FitHeader common h pktLen ?n = Some (Inr (common, hdr_id h, ?n))"
    using len n by (simp add: FitHeader_def)
  show ?thesis
    using ok
  proof (cases rule: hdr_ok_out_cases)
    case (unicode str len)
    have nn: "?n = 3 + len * 2"
      using unicode by (simp add: enc_hdr_def)
    obtain bs where bs: "unicode_copy (hdr_id h) str len (3 + len * 2) = Some bs"
        "unat (bs_size bs) \<le> length (bs_data bs)" "bs_size bs = ?n"
        "take (unat (bs_size bs)) (bs_data bs) = enc_hdr h"
      using unicode_copy_ok [OF unicode(3,4), of "hdr_id h"] nn unicode(2)
      by (auto simp: enc_hdr_def)
    have "\<not> OI_OBEX_IS_A_BODY_HEADER (hdr_id h)"
      using body_is_byteseq unicode(1) by fastforce
    then show ?thesis
      using OI_MBUF_add_fragment [of m "bs_data bs" ?n MBUF_FREE "PRIORITY_HEADER (hdr_id h)"]
        bs m tot n fit unicode
      by (auto simp: AddHeader_def nn [symmetric] progressed_def hdr_cells_def cheap_def disposition_ok_def)
  next
    case (byteseq data len)
    let ?tmp = "hdr_id h # SetUINT16_BigEndian ?n" and ?prio = "PRIORITY_HEADER (hdr_id h)"
    have nn: "?n - 3 = len" "length (enc_hdr h) = 3 + unat len"
      using byteseq by (auto simp: enc_hdr_def)
    have enc: "enc_hdr h = ?tmp @ take (unat len) (case data of None \<Rightarrow> [] | Some b \<Rightarrow> b)"
      using byteseq(2) nn by (simp add: enc_hdr_def)
    obtain m1 m2 where mm: "if \<not> ?prio
      then OI_MBUF_Append False m (Some ?tmp) 3 MBUF_COPY = Some (OI_OK, m1) \<and>
        OI_MBUF_Append False m1 data len MBUF_KEEP = Some (OI_OK, m2)
      else OI_MBUF_Prepend False m data len MBUF_KEEP = Some (OI_OK, m1) \<and>
        OI_MBUF_Prepend False m1 (Some ?tmp) 3 MBUF_COPY = Some (OI_OK, m2)"
      "mbuf_good m2" "mbuf_room m - 2 \<le> mbuf_room m2"
      "mbuf_content m2 = placed ?prio (?tmp @ take (unat len) (case data of None \<Rightarrow> [] | Some b \<Rightarrow> b)) (mbuf_content m)"
      using OI_MBUF_pair [of m ?tmp len data ?prio] m byteseq tot nn by (auto simp: hdr_cells_def)
    have u: "(ucast ?n :: u32) = of_nat (length (enc_hdr h))"
      using length_enc_hdr [OF ok] by (intro ucast_of_nat_u16) simp
    show ?thesis
      using mm n(2,3) fit byteseq(1,2) nn(1) enc u
      by (cases ?prio) (auto simp: AddHeader_def progressed_def hdr_cells_def OI_OBEX_HEADER_PREFIX_LEN_def)
  next
    case (uint8 v)
    have "\<not> OI_OBEX_IS_A_BODY_HEADER (hdr_id h)"
      using body_is_byteseq uint8(1) by fastforce
    then show ?thesis
      using OI_MBUF_add_fragment [of m "[hdr_id h, v]" 2 MBUF_COPY "PRIORITY_HEADER (hdr_id h)"]
        m tot n fit uint8
      by (auto simp: AddHeader_def progressed_def hdr_cells_def cheap_def disposition_ok_def enc_hdr_def)
  next
    case (uint32 v)
    have "\<not> OI_OBEX_IS_A_BODY_HEADER (hdr_id h)"
      using body_is_byteseq uint32(1) by fastforce
    then show ?thesis
      using OI_MBUF_add_fragment [of m "hdr_id h # SetUINT32_BigEndian v" 5 MBUF_COPY "PRIORITY_HEADER (hdr_id h)"]
        m tot n fit uint32
      by (auto simp: AddHeader_def progressed_def hdr_cells_def cheap_def disposition_ok_def enc_hdr_def)
  qed
qed


section \<open>All headers, and the packet\<close>

definition prio_hdr :: "OI_OBEX_HEADER \<Rightarrow> bool" where
  "prio_hdr h \<longleftrightarrow> PRIORITY_HEADER (hdr_id h)"

text \<open>The order on the wire: the required-first headers, last given first, then the others.\<close>

definition wire_order :: "OI_OBEX_HEADER list \<Rightarrow> OI_OBEX_HEADER list" where
  "wire_order hs = rev (filter prio_hdr hs) @ filter (\<lambda>h. \<not> prio_hdr h) hs"

definition wire_len :: "OI_OBEX_HEADER list \<Rightarrow> nat" where
  "wire_len hs = sum_list (map (\<lambda>h. length (enc_hdr h)) hs)"

lemma wire_len_Cons: "wire_len (h # hs) = length (enc_hdr h) + wire_len hs"
  by (simp add: wire_len_def)

definition around :: "OI_OBEX_HEADER list \<Rightarrow> bytes \<Rightarrow> bytes" where
  "around hs mid = concat (map enc_hdr (rev (filter prio_hdr hs))) @ mid @
     concat (map enc_hdr (filter (\<lambda>h. \<not> prio_hdr h) hs))"

lemma around_simps [simp]:
  "around [] mid = mid" "around (h # hs) mid = around hs (placed (prio_hdr h) (enc_hdr h) mid)"
  by (simp_all add: around_def placed_def)

lemma around_Nil: "around hs [] = concat (map enc_hdr (wire_order hs))"
  by (simp add: around_def wire_order_def)

lemma length_around: "length (around hs mid) = wire_len hs + length mid"
  by (induction hs arbitrary: mid) (simp_all add: wire_len_def placed_def)

definition total_cells :: "OI_OBEX_HEADER list \<Rightarrow> nat" where
  "total_cells hs = sum_list (map hdr_cells hs)"

fun progressed_all :: "OBEX_COMMON \<Rightarrow> OI_OBEX_HEADER list \<Rightarrow> OBEX_COMMON" where
  "progressed_all common [] = common"
| "progressed_all common (h # hs) = progressed_all (progressed common (hdr_id h) (length (enc_hdr h))) hs"

lemma progressed_fields [simp]:
  "maxSendPktLen (progressed c i n) = maxSendPktLen c" "currentOpcode (progressed c i n) = currentOpcode c"
  "bodySegment (progressed c i n) = bodySegment c" "mbuf (progressed c i n) = mbuf c"
  "hdrBuf (progressed c i n) = hdrBuf c" "srm (progressed c i n) = srm c"
  by (simp_all add: progressed_def)

lemma progressed_all_fields [simp]:
  "maxSendPktLen (progressed_all c hs) = maxSendPktLen c"
  "currentOpcode (progressed_all c hs) = currentOpcode c"
  "bodySegment (progressed_all c hs) = bodySegment c" "mbuf (progressed_all c hs) = mbuf c"
  "hdrBuf (progressed_all c hs) = hdrBuf c" "srm (progressed_all c hs) = srm c"
  by (induction c hs rule: progressed_all.induct) simp_all

lemma AddHeaders_fit:
  assumes "\<forall>h \<in> set hs. hdr_ok_out h" "mbuf_good m" "total_cells hs \<le> mbuf_room m"
    and "unat pktLen + wire_len hs \<le> unat (maxSendPktLen common)"
    and "length (mbuf_content m) + wire_len hs < 65536" "\<forall>i. mem i"
  shows "\<exists>m'. AddHeaders mem k common m (hs @ hs2) pktLen =
      AddHeaders mem (k + length hs) (progressed_all common hs) m' hs2 (pktLen + of_nat (wire_len hs)) \<and>
    mbuf_good m' \<and> mbuf_content m' = around hs (mbuf_content m) \<and>
    mbuf_room m - total_cells hs \<le> mbuf_room m'"
  using assms
proof (induction hs arbitrary: m pktLen common k)
  case (Cons h hs)
  let ?n = "length (enc_hdr h)" and ?c = "progressed common (hdr_id h) (length (enc_hdr h))"
  have "\<exists>m'. AddHeader True common m h pktLen = Some (OI_OK, ?c, m', pktLen + of_nat ?n) \<and> mbuf_good m' \<and>
      mbuf_content m' = placed (PRIORITY_HEADER (hdr_id h)) (enc_hdr h) (mbuf_content m) \<and>
      mbuf_room m - hdr_cells h \<le> mbuf_room m'"
    using Cons.prems by (intro AddHeader_fits) (auto simp: total_cells_def wire_len_def)
  then obtain m1 where m1: "AddHeader True common m h pktLen = Some (OI_OK, ?c, m1, pktLen + of_nat ?n)"
      "mbuf_good m1" "mbuf_content m1 = placed (prio_hdr h) (enc_hdr h) (mbuf_content m)"
      "mbuf_room m - hdr_cells h \<le> mbuf_room m1"
    by (auto simp: prio_hdr_def)
  have p: "unat (pktLen + of_nat ?n) = unat pktLen + ?n"
  proof -
    have "unat pktLen + ?n < 65536"
      using Cons.prems(4) unat_lt_u16 [of "maxSendPktLen common"] wire_len_Cons [of h hs] by linarith
    then show ?thesis
      by (simp add: unat_add_u16 unat_of_nat_u16)
  qed
  have "\<exists>m'. AddHeaders mem (Suc k) ?c m1 (hs @ hs2) (pktLen + of_nat ?n) =
      AddHeaders mem (Suc k + length hs) (progressed_all ?c hs) m' hs2 (pktLen + of_nat ?n + of_nat (wire_len hs)) \<and>
      mbuf_good m' \<and> mbuf_content m' = around hs (mbuf_content m1) \<and>
      mbuf_room m1 - total_cells hs \<le> mbuf_room m'"
    using Cons.prems m1 p
    by (intro Cons.IH) (auto simp: total_cells_def wire_len_def placed_def)
  then obtain m' where m': "AddHeaders mem (Suc k) ?c m1 (hs @ hs2) (pktLen + of_nat ?n) =
      AddHeaders mem (Suc k + length hs) (progressed_all ?c hs) m' hs2 (pktLen + of_nat ?n + of_nat (wire_len hs))"
      "mbuf_good m'" "mbuf_content m' = around hs (mbuf_content m1)"
      "mbuf_room m1 - total_cells hs \<le> mbuf_room m'"
    by blast
  have "mem k = True"
    using Cons.prems(6) by simp
  moreover have "mbuf_room m - total_cells (h # hs) \<le> mbuf_room m'"
    using m1(4) m'(4) by (simp add: total_cells_def)
  ultimately show ?case
    using m1(1,3) m' by (intro exI [of _ m']) (simp add: wire_len_Cons add.assoc)
next
  case Nil
  then show ?case
    by (intro exI [of _ m]) (simp add: total_cells_def wire_len_def)
qed

lemma count_cells_total:
  "count_cells hs hs2 = of_nat (total_cells (hs @ hs2) + 1)"
proof -
  have "foldl (\<lambda>cells h. if OI_OBEX_HDR_KIND (hdr_id h) = OI_OBEX_HDR_ID_BYTESEQ then cells + 1 else cells) a xs
      = a + of_nat (total_cells xs) - of_nat (length xs)" for a :: u8 and xs
    by (induction xs arbitrary: a) (simp_all add: total_cells_def hdr_cells_def)
  then show ?thesis
    by (simp add: count_cells_def)
qed

text \<open>A packet header under construction: opcode and length to be filled in, then whatever
  fixed fields the command has.\<close>

definition pkt_header :: "OI_BYTE_STREAM \<Rightarrow> bool" where
  "pkt_header bs \<longleftrightarrow> bs_writing bs \<and> 3 \<le> unat (bs_pos bs) \<and> bs_size bs \<le> OI_OBEX_HDR_BUFSIZE"

lemma InitPacket_ok:
  assumes "length (hdrBuf common) = 8"
  shows "\<exists>pkt. OI_OBEXCOMMON_InitPacket common op =
      Some (common\<lparr>currentOpcode := op, bodySegment := (bodySegment common)\<lparr>hdr_id := 0\<rparr>\<rparr>, pkt) \<and>
    pkt_header pkt \<and> bs_pos pkt = 3 \<and> bs_size pkt = 8"
  using assms
  by (simp add: OI_OBEXCOMMON_InitPacket_def Let_def ByteStream_Init_def ByteStream_Open_def monad_simps
      ByteStream_Skip_def bs_advance_def pkt_header_def bs_writing_def bs_wf_def OI_OBEX_HDR_BUFSIZE_def)

lemma bs_data_put: "bs_data (bs_put vs bs) = overwrite (unat (bs_pos bs)) vs (bs_data bs)"
  by (simp add: bs_put_def)

lemma fill_header:
  assumes "pkt_header pkt"
  shows "\<exists>p1 p2 p3 p4. ByteStream_SetPos pkt 0 = Some p1 \<and> ByteStream_PutUINT8 p1 op = Some p2 \<and>
    ByteStream_PutUINT16 p2 n OI_BIG_ENDIAN_BYTE_ORDER = Some p3 \<and>
    ByteStream_SetPos p3 (bs_pos pkt) = Some p4 \<and>
    bs_size (ByteStream_Close p4) = bs_pos pkt \<and>
    unat (bs_pos pkt) \<le> length (bs_data (ByteStream_Close p4)) \<and>
    take (unat (bs_pos pkt)) (bs_data (ByteStream_Close p4)) =
      op # SetUINT16_BigEndian n @ drop 3 (bs_written pkt)"
proof -
  let ?p1 = "pkt\<lparr>bs_pos := 0\<rparr>"
  let ?p2 = "bs_put [op] ?p1"
  let ?p3 = "bs_put (SetUINT16_BigEndian n) ?p2"
  let ?p4 = "?p3\<lparr>bs_pos := bs_pos pkt\<rparr>"
  have w: "bs_writing pkt" "3 \<le> unat (bs_pos pkt)" "unat (bs_pos pkt) \<le> unat (bs_size pkt)"
    using assms by (auto simp: pkt_header_def bs_writing_def bs_wf_def)
  have p1: "bs_writing ?p1" "bs_room ?p1 = unat (bs_size pkt)"
    using w by (auto simp: bs_writing_def bs_wf_def bs_room_def)
  then have p2: "bs_writing ?p2" "bs_room ?p2 = unat (bs_size pkt) - 1" "unat (bs_pos ?p2) = 1"
    using w by (simp_all add: bs_pos_put)
  have data: "bs_data ?p4 = op # SetUINT16_BigEndian n @ drop 3 (bs_data pkt)"
    using w p2(3) by (simp add: bs_data_put overwrite_def bs_writing_def bs_wf_def numeral_3_eq_3)
  have "ByteStream_SetPos pkt 0 = Some ?p1" "ByteStream_PutUINT8 ?p1 op = Some ?p2"
    "ByteStream_PutUINT16 ?p2 n OI_BIG_ENDIAN_BYTE_ORDER = Some ?p3"
    "ByteStream_SetPos ?p3 (bs_pos pkt) = Some ?p4"
    using w p1 p2 by (simp_all add: ByteStream_SetPos_def monad_simps bs_write_simps)
  moreover have "bs_RWFlag ?p4 = BYTESTREAM_WRITE"
    using w by (simp add: bs_writing_def)
  then have "bs_size (ByteStream_Close ?p4) = bs_pos pkt" "bs_data (ByteStream_Close ?p4) = bs_data ?p4"
    by (simp_all add: ByteStream_Close_def)
  moreover have "unat (bs_pos pkt) \<le> length (bs_data pkt)"
    using w by (auto simp: bs_writing_def bs_wf_def)
  then have "take (unat (bs_pos pkt)) (bs_data ?p4) = op # SetUINT16_BigEndian n @ drop 3 (bs_written pkt)"
    "unat (bs_pos pkt) \<le> length (bs_data ?p4)"
    unfolding data using w(2)
    by (simp_all add: bs_written_def drop_take take_Cons' SetUINT16_BigEndian_def numeral_3_eq_3)
  ultimately show ?thesis
    by auto
qed

text \<open>The whole of \<open>OI_OBEXCOMMON_MarshalPacketMbuf\<close> after the headers are in.\<close>

lemma Marshal_finish:
  assumes "hdr_id (bodySegment common) = 0" "pkt_header pkt"
    and add: "AddHeaders mem 0 common (MBUF (zeroed_hdr (count_cells hdrs hs2)) []) (hdrs @ hs2) (bs_pos pkt) =
      Some (OI_OK, common', m, pktLen)"
    and m: "mbuf_good m" "1 \<le> mbuf_room m" "length (mbuf_content m) + unat (bs_pos pkt) < 65536"
    and hs2: "hs2 = (case hdrList of None \<Rightarrow> [] | Some hs \<Rightarrow> hs)"
    and mem: "mem (length hdrs + length hs2)"
  shows "\<exists>m'. OI_OBEXCOMMON_MarshalPacketMbuf True mem common pkt hdrs hdrList = Some (OI_OK, common', Some m') \<and>
    mbuf_good m' \<and>
    mbuf_content m' = PacketOpcode common' # SetUINT16_BigEndian pktLen @ drop 3 (bs_written pkt) @ mbuf_content m"
proof -
  obtain p1 p2 p3 p4 where f: "ByteStream_SetPos pkt 0 = Some p1"
      "ByteStream_PutUINT8 p1 (PacketOpcode common') = Some p2"
      "ByteStream_PutUINT16 p2 pktLen OI_BIG_ENDIAN_BYTE_ORDER = Some p3"
      "ByteStream_SetPos p3 (bs_pos pkt) = Some p4" "bs_size (ByteStream_Close p4) = bs_pos pkt"
      "unat (bs_pos pkt) \<le> length (bs_data (ByteStream_Close p4))"
      "take (unat (bs_pos pkt)) (bs_data (ByteStream_Close p4)) =
         PacketOpcode common' # SetUINT16_BigEndian pktLen @ drop 3 (bs_written pkt)"
    using fill_header [OF assms(2)] by blast
  let ?n = "bs_pos pkt"
  have n: "3 \<le> unat ?n" "unat ?n \<le> 8"
    using assms(2) by (auto simp: pkt_header_def OI_OBEX_HDR_BUFSIZE_def word_le_nat_alt bs_writing_def bs_wf_def)
  then have "?n \<noteq> 0" "?n \<le> 8"
    by (auto simp: word_le_nat_alt)
  moreover have "usedCells m < unat (allocCells (mbuf_hdr m))"
    using m(2) by (simp add: mbuf_room_def)
  moreover have "addable m (bs_data (ByteStream_Close p4)) ?n MBUF_COPY"
    using m f(6) by (simp add: addable_def mbuf_good_def disposition_ok_def)
  ultimately obtain m' where "OI_MBUF_Prepend True m (Some (bs_data (ByteStream_Close p4))) ?n MBUF_COPY = Some (OI_OK, m')"
      "mbuf_ok m'" "\<not> MBUF_IS_WINDOWED (mbuf_hdr m')"
      "mbuf_content m' = take (unat ?n) (bs_data (ByteStream_Close p4)) @ mbuf_content m"
    using OI_MBUF_Prepend_ok [of m "bs_data (ByteStream_Close p4)" ?n MBUF_COPY True] by blast
  then show ?thesis
    using assms f by (simp add: OI_OBEXCOMMON_MarshalPacketMbuf_def OI_MBUF_Alloc_def Let_def mbuf_good_def)
qed

lemma empty_mbuf:
  "mbuf_good (MBUF (zeroed_hdr n) [])" "mbuf_content (MBUF (zeroed_hdr n) []) = []"
  "mbuf_room (MBUF (zeroed_hdr n) []) = unat n"
  by (simp_all add: mbuf_good_def zeroed_hdr_def hdr_dirty_def hdr_ok_def full_bytes_def
      MBUF_IS_WINDOWED_def mbuf_content_def mbuf_room_def usedCells_def)

lemma Marshal_fits:
  assumes "hdr_id (bodySegment common) = 0" "pkt_header pkt" "\<forall>i. mem i"
    and "\<forall>h \<in> set hs. hdr_ok_out h" "total_cells hs < 255"
    and "unat (bs_pos pkt) + wire_len hs \<le> unat (maxSendPktLen common)"
    and hs: "hs = hdrs @ (case hdrList of None \<Rightarrow> [] | Some l \<Rightarrow> l)"
  shows "\<exists>m. OI_OBEXCOMMON_MarshalPacketMbuf True mem common pkt hdrs hdrList =
      Some (OI_OK, progressed_all common hs, Some m) \<and> mbuf_good m \<and>
    mbuf_content m = currentOpcode common # SetUINT16_BigEndian (of_nat (length (mbuf_content m)) :: u16) @
      drop 3 (bs_written pkt) @ concat (map enc_hdr (wire_order hs))"
proof -
  define hs2 where "hs2 = (case hdrList of None \<Rightarrow> [] | Some l \<Rightarrow> l)"
  let ?m0 = "MBUF (zeroed_hdr (count_cells hdrs hs2)) []"
  have cells: "unat (count_cells hdrs hs2) = total_cells hs + 1"
    using assms(5) by (simp add: count_cells_total hs hs2_def [symmetric] unat_of_nat_u8 del: of_nat_Suc)
  have max: "unat (maxSendPktLen common) < 65536" and p3: "3 \<le> unat (bs_pos pkt)"
    using assms(2) by (simp_all add: pkt_header_def)
  obtain m1 where m1: "AddHeaders mem 0 common ?m0 hs (bs_pos pkt) =
      Some (OI_OK, progressed_all common hs, m1, bs_pos pkt + of_nat (wire_len hs))"
      "mbuf_good m1" "mbuf_content m1 = around hs []" "1 \<le> mbuf_room m1"
    using AddHeaders_fit [of hs ?m0 "bs_pos pkt" common mem 0 "[]"] assms(3-6) cells max p3
    by (auto simp: empty_mbuf)
  have len: "length (mbuf_content m1) = wire_len hs" "unat (bs_pos pkt) \<le> 8"
    using m1(3) assms(2)
    by (auto simp: length_around pkt_header_def OI_OBEX_HDR_BUFSIZE_def word_le_nat_alt bs_writing_def bs_wf_def)
  have op: "PacketOpcode (progressed_all common hs) = currentOpcode common"
    using assms(1) by (simp add: PacketOpcode_def OI_OBEX_IS_A_BODY_HEADER_def obex_consts)
  obtain m where m: "OI_OBEXCOMMON_MarshalPacketMbuf True mem common pkt hdrs hdrList =
      Some (OI_OK, progressed_all common hs, Some m)" "mbuf_good m"
      "mbuf_content m = currentOpcode common # SetUINT16_BigEndian (bs_pos pkt + of_nat (wire_len hs)) @
         drop 3 (bs_written pkt) @ mbuf_content m1"
  proof -
    have "AddHeaders mem 0 common ?m0 (hdrs @ hs2) (bs_pos pkt) =
        Some (OI_OK, progressed_all common hs, m1, bs_pos pkt + of_nat (wire_len hs))"
      using m1(1) hs hs2_def by simp
    moreover have "length (mbuf_content m1) + unat (bs_pos pkt) < 65536"
      using assms(6) max len by linarith
    ultimately show thesis
      using Marshal_finish [OF assms(1,2) _ m1(2) m1(4) _ hs2_def] assms(3) op that by metis
  qed
  have "length (bs_written pkt) = unat (bs_pos pkt)"
    using assms(2) closed_written(5) by (simp add: pkt_header_def)
  then have "length (mbuf_content m) = unat (bs_pos pkt) + wire_len hs"
    using m(3) len(1) p3 by simp
  then have "(of_nat (length (mbuf_content m)) :: u16) = bs_pos pkt + of_nat (wire_len hs)"
    by simp
  with m m1(3) show ?thesis
    by (auto simp: around_Nil)
qed


section \<open>Body headers that do not fit\<close>

text \<open>A body header that may be cut: \<open>len\<close> bytes behind a pointer.\<close>

definition body_hdr :: "OI_OBEX_HEADER \<Rightarrow> bytes \<Rightarrow> u16 \<Rightarrow> bool" where
  "body_hdr h b len \<longleftrightarrow> OI_OBEX_IS_A_BODY_HEADER (hdr_id h) \<and> hdr_val h = BYTESEQ (Some b) len \<and>
     unat len \<le> length b \<and> 3 + unat len < 65536"

lemma body_hdr_ok: "body_hdr h b len \<Longrightarrow> hdr_ok_out h \<and> HeaderSize h = Some (3 + len) \<and> hdr_cells h = 2"
  using body_is_byteseq [of "hdr_id h"]
  by (auto simp: body_hdr_def hdr_ok_out_def HeaderSize_def hdr_cells_def OI_OBEX_HEADER_PREFIX_LEN_def)

lemma enc_body_hdr:
  "body_hdr h b len \<Longrightarrow> enc_hdr h = hdr_id h # SetUINT16_BigEndian (3 + len) @ take (unat len) b"
  by (simp add: body_hdr_def enc_hdr_def)

definition rest_of_body :: "OI_OBEX_HEADER \<Rightarrow> bytes \<Rightarrow> u16 \<Rightarrow> u16 \<Rightarrow> OI_OBEX_HEADER" where
  "rest_of_body h b len n = h\<lparr>hdr_val := BYTESEQ (Some (drop (unat n) b)) (len - n)\<rparr>"

lemma AddHeader_no_room:
  assumes "body_hdr h b len"
    and "unat (maxSendPktLen common) < unat pktLen + 3 + unat len"
    and "unat pktLen \<le> unat (maxSendPktLen common)" "unat (maxSendPktLen common) \<le> unat pktLen + 3"
  shows "AddHeader malloc_ok common m h pktLen = Some (OI_OK, common, m, pktLen)"
proof -
  have "3 + len \<noteq> 0"
    using assms(1) unat_prefix(1) [of len] by (auto simp: body_hdr_def simp flip: unat_eq_zero)
  moreover have "unat (maxSendPktLen common - pktLen) \<le> 3"
    using assms(3,4) by (simp add: unat_sub_u16)
  ultimately show ?thesis
    using assms(1,2) body_hdr_ok [OF assms(1)] unat_prefix(1) [of len]
    by (simp add: AddHeader_def FitHeader_def body_hdr_def OI_OBEX_HEADER_PREFIX_LEN_def word_le_nat_alt add.assoc)
qed

lemma AddHeader_segment:
  assumes h: "body_hdr h b len" and m: "mbuf_good m" "2 \<le> mbuf_room m"
    and over: "unat (maxSendPktLen common) < unat pktLen + 3 + unat len"
    and room: "unat pktLen + 3 < unat (maxSendPktLen common)"
    and tot: "length (mbuf_content m) + (unat (maxSendPktLen common) - unat pktLen) < 65536"
  shows "\<exists>m' common'. AddHeader malloc_ok common m h pktLen =
      Some (OI_OK, common', m', maxSendPktLen common) \<and> mbuf_good m' \<and>
    mbuf_content m' = mbuf_content m @ OI_OBEX_HDR_BODY # SetUINT16_BigEndian (maxSendPktLen common - pktLen) @
      take (unat (maxSendPktLen common) - unat pktLen - 3) b \<and> mbuf_room m - 2 \<le> mbuf_room m' \<and>
    common' = common\<lparr>bodySegment := rest_of_body h b len (maxSendPktLen common - pktLen - 3),
      progressBytes := progressBytes common + ucast (maxSendPktLen common - pktLen)\<rparr>"
proof -
  let ?n = "maxSendPktLen common - pktLen"
  have n: "unat ?n = unat (maxSendPktLen common) - unat pktLen"
    using room by (simp add: unat_sub_u16)
  then have n3: "unat (?n - 3) = unat ?n - 3" "\<not> ?n \<le> 3"
    using room by (simp_all add: unat_sub_u16 word_le_nat_alt)
  have b: "unat (?n - 3) \<le> length b" "unat (?n - 3) \<le> unat len"
    unfolding n3(1) n using over h unfolding body_hdr_def by linarith+
  let ?tmp = "OI_OBEX_HDR_BODY # SetUINT16_BigEndian ?n"
  obtain m1 m2 where mm: "OI_MBUF_Append False m (Some ?tmp) 3 MBUF_COPY = Some (OI_OK, m1)"
      "OI_MBUF_Append False m1 (Some b) (?n - 3) MBUF_KEEP = Some (OI_OK, m2)" "mbuf_good m2"
      "mbuf_content m2 = mbuf_content m @ ?tmp @ take (unat (?n - 3)) b" "mbuf_room m - 2 \<le> mbuf_room m2"
    using mb.append_pair [of m ?tmp "?n - 3" b "Some b"] m b tot n n3 room by auto
  have nz: "3 + len \<noteq> 0"
    using h unat_prefix(1) [of len] by (auto simp: body_hdr_def simp flip: unat_eq_zero)
  have fit: "FitHeader common h pktLen (3 + len) =
      Some (Inr (common\<lparr>bodySegment := rest_of_body h b len (?n - 3)\<rparr>, OI_OBEX_HDR_BODY, ?n))"
    using h over n3(2) b unat_prefix(1) [of len]
    by (simp add: FitHeader_def body_hdr_def OI_OBEX_HEADER_PREFIX_LEN_def rest_of_body_def Let_def add.assoc)
  have len: "pktLen + ?n = maxSendPktLen common"
    by simp
  have "\<not> PRIORITY_HEADER OI_OBEX_HDR_BODY" "OI_OBEX_IS_A_BODY_HEADER OI_OBEX_HDR_BODY"
    by (simp_all add: PRIORITY_HEADER_def OI_OBEX_IS_A_BODY_HEADER_def obex_consts)
  then show ?thesis
    using h mm fit nz body_hdr_ok [OF h] n n3
    by (simp add: AddHeader_def body_hdr_def OI_OBEX_HEADER_PREFIX_LEN_def)
qed

text \<open>A packet of headers that fit and, last, a body header that does not.\<close>

definition not_final :: "u8 \<Rightarrow> u8" where
  "not_final op = (if op = OI_OBEX_FINAL OI_OBEX_RSP_OK \<or> op = OI_OBEX_FINAL OI_OBEX_RSP_CONTINUE
     then OI_OBEX_FINAL OI_OBEX_RSP_CONTINUE else op AND NOT OI_OBEX_FINAL_BIT)"

lemma wire_total_append [simp]:
  "wire_len (xs @ ys) = wire_len xs + wire_len ys" "total_cells (xs @ ys) = total_cells xs + total_cells ys"
  by (simp_all add: wire_len_def total_cells_def)

lemma total_cells_simps [simp]: "total_cells [] = 0" "total_cells (h # hs) = hdr_cells h + total_cells hs"
  by (simp_all add: total_cells_def)

text \<open>The headers up to a body header of which only a part fits.\<close>

lemma AddHeaders_segment:
  assumes mem: "\<forall>i. mem i" and ok: "\<forall>h \<in> set hs. hdr_ok_out h" "total_cells hs + 3 \<le> unat cells" and h: "body_hdr h b len"
    and room: "unat pos + wire_len hs + 3 < unat (maxSendPktLen common)"
    and over: "unat (maxSendPktLen common) < unat pos + wire_len hs + 3 + unat len"
    and n: "n = maxSendPktLen common - (pos + of_nat (wire_len hs))"
  shows "\<exists>m c. AddHeaders mem 0 common (MBUF (zeroed_hdr cells) []) (hs @ h # post) pos =
      AddHeaders mem (Suc (length hs)) c m post (maxSendPktLen common) \<and> mbuf_good m \<and> 1 \<le> mbuf_room m \<and>
    mbuf_content m = around hs [] @ OI_OBEX_HDR_BODY # SetUINT16_BigEndian n @ take (unat n - 3) b \<and>
    c = (progressed_all common hs)\<lparr>bodySegment := rest_of_body h b len (n - 3),
      progressBytes := progressBytes (progressed_all common hs) + ucast n\<rparr> \<and>
    unat n = unat (maxSendPktLen common) - unat pos - wire_len hs"
proof -
  let ?c = "progressed_all common hs" and ?l = "pos + of_nat (wire_len hs) :: u16"
  have max: "unat (maxSendPktLen common) < 65536"
    by simp
  have fits: "unat pos + wire_len hs \<le> unat (maxSendPktLen common)" "wire_len hs < 65536" "unat pos + wire_len hs < 65536"
    using room max by linarith+
  then obtain m1 where m1: "AddHeaders mem 0 common (MBUF (zeroed_hdr cells) []) (hs @ h # post) pos =
      AddHeaders mem (length hs) ?c m1 (h # post) ?l" "mbuf_good m1" "mbuf_content m1 = around hs []" "3 \<le> mbuf_room m1"
    using AddHeaders_fit [of hs "MBUF (zeroed_hdr cells) []" pos common mem 0 "h # post"] mem ok by (auto simp: empty_mbuf)
  have len1: "length (mbuf_content m1) = wire_len hs"
    using m1(3) by (simp add: length_around)
  have l: "unat ?l = unat pos + wire_len hs"
    using fits by (simp add: unat_add_u16 unat_of_nat_u16)
  have nn: "unat n = unat (maxSendPktLen common) - unat pos - wire_len hs"
    using room l by (simp add: n unat_sub_u16)
  have "length (mbuf_content m1) + (unat (maxSendPktLen ?c) - unat ?l) < 65536"
    unfolding progressed_all_fields len1 l using max room by linarith
  moreover have "unat (maxSendPktLen ?c) - unat ?l = unat n"
    using l nn by simp
  ultimately obtain m2 where m2: "AddHeader (mem (length hs)) ?c m1 h ?l = Some (OI_OK,
        ?c\<lparr>bodySegment := rest_of_body h b len (n - 3), progressBytes := progressBytes ?c + ucast n\<rparr>, m2, maxSendPktLen common)"
      "mbuf_good m2" "mbuf_content m2 = mbuf_content m1 @ OI_OBEX_HDR_BODY # SetUINT16_BigEndian n @ take (unat n - 3) b"
      "mbuf_room m1 - 2 \<le> mbuf_room m2"
    using AddHeader_segment [OF h m1(2), of ?c ?l "mem (length hs)"] m1(4) room over l
    unfolding progressed_all_fields n [symmetric] by fastforce
  have "AddHeaders mem 0 common (MBUF (zeroed_hdr cells) []) (hs @ h # post) pos =
      AddHeaders mem (Suc (length hs)) (?c\<lparr>bodySegment := rest_of_body h b len (n - 3), progressBytes := progressBytes ?c + ucast n\<rparr>)
        m2 post (maxSendPktLen common)"
    using m1(1) m2(1) by simp
  moreover have "1 \<le> mbuf_room m2"
    using m1(4) m2(4) by linarith
  ultimately show ?thesis
    using m2(2,3) m1(3) nn by auto
qed

lemma Marshal_segments:
  assumes "hdr_id (bodySegment common) = 0" "pkt_header pkt" "\<forall>i. mem i"
    and ok: "\<forall>h \<in> set hs. hdr_ok_out h" "total_cells hs + 2 < 255" and h: "body_hdr h b len"
    and room: "unat (bs_pos pkt) + wire_len hs + 3 < unat (maxSendPktLen common)"
    and over: "unat (maxSendPktLen common) < unat (bs_pos pkt) + wire_len hs + 3 + unat len"
    and n: "n = maxSendPktLen common - (bs_pos pkt + of_nat (wire_len hs))"
  shows "\<exists>m common'. OI_OBEXCOMMON_MarshalPacketMbuf True mem common pkt (hs @ [h]) None =
      Some (OI_OK, common', Some m) \<and> mbuf_good m \<and>
    mbuf_content m = not_final (currentOpcode common) # SetUINT16_BigEndian (maxSendPktLen common) @
      drop 3 (bs_written pkt) @ concat (map enc_hdr (wire_order hs)) @
      OI_OBEX_HDR_BODY # SetUINT16_BigEndian n @ take (unat n - 3) b \<and>
    common' = (progressed_all common hs)\<lparr>bodySegment := rest_of_body h b len (n - 3),
      progressBytes := progressBytes (progressed_all common hs) + ucast n\<rparr> \<and>
    unat n = unat (maxSendPktLen common) - unat (bs_pos pkt) - wire_len hs"
proof -
  let ?c = "(progressed_all common hs)\<lparr>bodySegment := rest_of_body h b len (n - 3),
    progressBytes := progressBytes (progressed_all common hs) + ucast n\<rparr>"
  have cells: "unat (count_cells (hs @ [h]) []) = total_cells hs + 3"
    using ok(2) body_hdr_ok [OF h] by (simp add: count_cells_total unat_of_nat_u8 del: of_nat_Suc)
  then obtain m where m: "AddHeaders mem 0 common (MBUF (zeroed_hdr (count_cells (hs @ [h]) [])) []) ((hs @ [h]) @ []) (bs_pos pkt) =
      Some (OI_OK, ?c, m, maxSendPktLen common)" "mbuf_good m" "1 \<le> mbuf_room m"
      "mbuf_content m = around hs [] @ OI_OBEX_HDR_BODY # SetUINT16_BigEndian n @ take (unat n - 3) b"
      "unat n = unat (maxSendPktLen common) - unat (bs_pos pkt) - wire_len hs"
    using AddHeaders_segment [OF assms(3) ok(1) _ h room over n, of "count_cells (hs @ [h]) []" "[]"] by auto
  have "unat (maxSendPktLen common) < 65536"
    by simp
  moreover have "length (mbuf_content m) = wire_len hs + unat n"
    using m(4,5) room over h by (auto simp: length_around body_hdr_def min_def)
  ultimately have "length (mbuf_content m) + unat (bs_pos pkt) < 65536"
    using m(5) room by linarith
  moreover have "PacketOpcode ?c = not_final (currentOpcode common)"
    using h by (simp add: PacketOpcode_def rest_of_body_def body_hdr_def not_final_def Let_def)
  ultimately show ?thesis
    using Marshal_finish [OF assms(1,2), of mem "hs @ [h]" "[]" ?c m "maxSendPktLen common" None] m assms(3)
    by (auto simp: around_Nil)
qed

lemma Clear_cells_ok:
  "\<forall>c \<in> set cs. cell_ok c \<Longrightarrow> \<exists>x. Clear_cells cs len = Some x"
proof (induction cs arbitrary: len)
  case (Cons c cs)
  have IH: "\<exists>x. Clear_cells cs k = Some x" for k
    using Cons by auto
  show ?case
  proof (cases c)
    case (CELL_NESTED l ws m)
    then obtain n where "Clean m = Some (n, pristine m)"
      using Cons.prems Clean_pull [of m] by auto
    moreover obtain x where "Clear_cells cs (len + n) = Some x"
      using IH by blast
    ultimately show ?thesis
      using CELL_NESTED by (cases x) auto
  next
    case (CELL_PTR d l p)
    moreover obtain x where "Clear_cells cs (len + l) = Some x"
      using IH by blast
    ultimately show ?thesis
      by (cases x) auto
  qed (use IH in auto)
qed simp

lemma OI_MBUF_Free_ok: "mbuf_good m \<Longrightarrow> \<exists>x. OI_MBUF_Free m = Some x"
  using Clear_cells_ok [of "mbuf_cells m" 0]
  by (cases m) (auto simp: mbuf_good_def OI_MBUF_Free_def OI_MBUF_Clear_def)

text \<open>A header other than a body after a body that is segmented does not fit, and the rest of the body stays
  noted in the connection although no packet is left.\<close>

lemma Marshal_segment_overflow:
  assumes "hdr_id (bodySegment common) = 0" "\<forall>i. mem i"
    and ok: "\<forall>h \<in> set hs. hdr_ok_out h" "total_cells (hs @ h # g # gs) < 255" and h: "body_hdr h b len"
    and room: "unat (bs_pos pkt) + wire_len hs + 3 < unat (maxSendPktLen common)"
    and over: "unat (maxSendPktLen common) < unat (bs_pos pkt) + wire_len hs + 3 + unat len"
    and g: "hdr_ok_out g" "\<not> OI_OBEX_IS_A_BODY_HEADER (hdr_id g)"
  shows "\<exists>common'. OI_OBEXCOMMON_MarshalPacketMbuf True mem common pkt (hs @ h # g # gs) None =
      Some (OI_OBEX_PACKET_OVERFLOW, common', None) \<and> hdr_id (bodySegment common') = hdr_id h"
proof -
  let ?c = "count_cells (hs @ h # g # gs) []"
  have "unat ?c = total_cells (hs @ h # g # gs) + 1"
    using ok(2) by (simp add: count_cells_total unat_of_nat_u8 del: of_nat_Suc)
  moreover have "hdr_cells h = 2"
    using body_hdr_ok [OF h] by simp
  ultimately have "total_cells hs + 3 \<le> unat ?c"
    by simp
  from AddHeaders_segment [OF assms(2) ok(1) this h room over refl, of "g # gs"] obtain m c where
    m: "AddHeaders mem 0 common (MBUF (zeroed_hdr ?c) []) (hs @ h # g # gs) (bs_pos pkt) =
        AddHeaders mem (Suc (length hs)) c m (g # gs) (maxSendPktLen common)" "mbuf_good m"
      and c: "maxSendPktLen c = maxSendPktLen common" "hdr_id (bodySegment c) = hdr_id h"
    by (auto simp: rest_of_body_def)
  have "HeaderSize g = Some (of_nat (length (enc_hdr g)))" "(of_nat (length (enc_hdr g)) :: u16) \<noteq> 0"
    using length_enc_hdr [OF g(1)] by (auto simp: unat_of_nat_u16 simp flip: unat_eq_zero)
  then have "AddHeader (mem (Suc (length hs))) c m g (maxSendPktLen common) = Some (OI_OBEX_PACKET_OVERFLOW, c, m, maxSendPktLen common)"
    using g(2) c(1) by (auto simp: AddHeader_def FitHeader_def word_gt_0 simp flip: unat_eq_zero)
  then have "AddHeaders mem 0 common (MBUF (zeroed_hdr ?c) []) (hs @ h # g # gs) (bs_pos pkt) =
      Some (OI_OBEX_PACKET_OVERFLOW, c, m, maxSendPktLen common)"
    using m(1) by (simp add: OI_SUCCESS_def)
  then show ?thesis
    using assms(1) OI_MBUF_Free_ok [OF m(2)] c(2)
    by (auto simp: OI_OBEXCOMMON_MarshalPacketMbuf_def OI_MBUF_Alloc_def OI_SUCCESS_def)
qed

lemma Marshal_concat:
  "OI_OBEXCOMMON_MarshalPacketMbuf calloc_ok mem common pkt hdrs (Some l) =
     OI_OBEXCOMMON_MarshalPacketMbuf calloc_ok mem common pkt (hdrs @ l) None"
  by (simp only: OI_OBEXCOMMON_MarshalPacketMbuf_def count_cells_total option.case append_Nil2 append_assoc length_append
      list.size add_0_right Let_def)

section \<open>The rest of a body\<close>

text \<open>One packet of the rest of a body.\<close>

definition body_state :: "OBEX_COMMON \<Rightarrow> bytes \<Rightarrow> u16 \<Rightarrow> bool" where
  "body_state common b len \<longleftrightarrow> body_hdr (bodySegment common) b len \<and> length (hdrBuf common) = 8 \<and>
     mbuf common = None \<and> 6 < unat (maxSendPktLen common)"

lemma MarshalBodySegment_step:
  assumes st: "body_state common b len" and mem: "\<forall>i. mem i"
  defines "mx \<equiv> maxSendPktLen common" and "op \<equiv> currentOpcode common"
  shows "\<exists>m common'. OI_OBEXCOMMON_MarshalBodySegment True mem common = Some (OI_OK, common'\<lparr>mbuf := Some m\<rparr>) \<and>
    maxSendPktLen common' = mx \<and> currentOpcode common' = op \<and> hdrBuf common' = hdrBuf common \<and>
    (if 6 + unat len \<le> unat mx
     then hdr_id (bodySegment common') = 0 \<and>
       mbuf_content m = op # SetUINT16_BigEndian (6 + len) @
         hdr_id (bodySegment common) # SetUINT16_BigEndian (3 + len) @ take (unat len) b
     else bodySegment common' = rest_of_body (bodySegment common) b len (mx - 6) \<and>
       mbuf_content m = not_final op # SetUINT16_BigEndian mx @
         OI_OBEX_HDR_BODY # SetUINT16_BigEndian (mx - 3) @ take (unat mx - 6) b)"
proof -
  let ?h = "bodySegment common"
  let ?c = "common\<lparr>currentOpcode := op, bodySegment := ?h\<lparr>hdr_id := 0\<rparr>\<rparr>"
  have h: "body_hdr ?h b len" and hb: "length (hdrBuf common) = 8" and mb: "mbuf common = None"
    and mx6: "6 < unat mx"
    using st by (auto simp: body_state_def mx_def)
  obtain pkt where pkt: "OI_OBEXCOMMON_InitPacket (common\<lparr>bodySegment := ?h\<lparr>hdr_id := 0\<rparr>\<rparr>) op = Some (?c, pkt)"
      "pkt_header pkt" "bs_pos pkt = 3"
    using InitPacket_ok [of "common\<lparr>bodySegment := ?h\<lparr>hdr_id := 0\<rparr>\<rparr>" op] hb by auto
  have w: "drop 3 (bs_written pkt) = []"
    using closed_written(5) [of pkt] pkt(2,3) by (simp add: pkt_header_def)
  have start: "OI_OBEXCOMMON_MarshalBodySegment True mem common =
      OI_OBEXCOMMON_MarshalPacket True mem ?c pkt [?h] None"
    using h pkt(1) by (simp add: OI_OBEXCOMMON_MarshalBodySegment_def Let_def body_hdr_def op_def)
  have len: "unat (3 + len) = 3 + unat len"
    using h by (intro unat_prefix(1)) (simp add: body_hdr_def)
  have enc: "length (enc_hdr ?h) = 3 + unat len"
    using enc_body_hdr [OF h] h by (simp add: body_hdr_def)
  show ?thesis
  proof (cases "6 + unat len \<le> unat mx")
    case True
    have m: "\<exists>m. OI_OBEXCOMMON_MarshalPacketMbuf True mem ?c pkt [?h] None =
        Some (OI_OK, progressed_all ?c [?h], Some m) \<and> mbuf_good m \<and>
      mbuf_content m = currentOpcode ?c # SetUINT16_BigEndian (of_nat (length (mbuf_content m)) :: u16) @
        drop 3 (bs_written pkt) @ concat (map enc_hdr (wire_order [?h]))"
      using mem pkt body_hdr_ok [OF h] True enc
      by (intro Marshal_fits) (auto simp: wire_len_def mx_def)
    then obtain m where m: "OI_OBEXCOMMON_MarshalPacketMbuf True mem ?c pkt [?h] None =
        Some (OI_OK, progressed_all ?c [?h], Some m)"
      "mbuf_content m = op # SetUINT16_BigEndian (of_nat (length (mbuf_content m)) :: u16) @ enc_hdr ?h"
      using body_is_byteseq [of "hdr_id ?h"] h
      by (auto simp: w wire_order_def prio_hdr_def body_hdr_def)
    have "length (mbuf_content m) = 6 + unat len"
    proof -
      have "length (mbuf_content m) =
          length (op # SetUINT16_BigEndian (of_nat (length (mbuf_content m)) :: u16) @ enc_hdr ?h)"
        using m(2) by (rule arg_cong)
      then show ?thesis
        using enc by (simp del: of_nat_numeral)
    qed
    then have "(of_nat (length (mbuf_content m)) :: u16) = 6 + len"
      by simp
    then have "mbuf_content m = op # SetUINT16_BigEndian (6 + len) @ enc_hdr ?h"
      using m(2) by simp
    then show ?thesis
      using True m(1) mb start h
      by (intro exI [of _ m] exI [of _ "progressed_all ?c [?h]"])
        (auto simp: OI_OBEXCOMMON_MarshalPacket_def enc_body_hdr mx_def op_def progressed_def)
  next
    case False
    have "\<exists>m common'. OI_OBEXCOMMON_MarshalPacketMbuf True mem ?c pkt ([] @ [?h]) None =
        Some (OI_OK, common', Some m) \<and> mbuf_good m \<and>
      mbuf_content m = not_final (currentOpcode ?c) # SetUINT16_BigEndian (maxSendPktLen ?c) @
        drop 3 (bs_written pkt) @ concat (map enc_hdr (wire_order [])) @
        OI_OBEX_HDR_BODY # SetUINT16_BigEndian (mx - 3) @ take (unat (mx - 3) - 3) b \<and>
      common' = (progressed_all ?c [])\<lparr>bodySegment := rest_of_body ?h b len (mx - 3 - 3),
        progressBytes := progressBytes (progressed_all ?c []) + ucast (mx - 3)\<rparr> \<and>
      unat (mx - 3) = unat (maxSendPktLen ?c) - unat (bs_pos pkt) - wire_len []"
      using mem pkt h mx6 False
      by (intro Marshal_segments) (auto simp: wire_len_def mx_def)
    then obtain m c where m: "OI_OBEXCOMMON_MarshalPacketMbuf True mem ?c pkt [?h] None = Some (OI_OK, c, Some m)"
      "mbuf_content m = not_final op # SetUINT16_BigEndian mx @
         OI_OBEX_HDR_BODY # SetUINT16_BigEndian (mx - 3) @ take (unat mx - 6) b"
      "c = ?c\<lparr>bodySegment := rest_of_body ?h b len (mx - 6), progressBytes := progressBytes ?c + ucast (mx - 3)\<rparr>"
      using pkt(3) by (auto simp: w wire_order_def wire_len_def mx_def)
    then show ?thesis
      using False mb start
      by (intro exI [of _ m] exI [of _ c]) (auto simp: OI_OBEXCOMMON_MarshalPacket_def mx_def op_def)
  qed
qed


text \<open>The rest of a body, sent packet by packet: each pass composes a segment and hands the
  mbuf to the lower layer, until no segment is left.\<close>

fun send_body_segments :: "nat \<Rightarrow> (nat \<Rightarrow> bool) \<Rightarrow> OBEX_COMMON \<Rightarrow> bytes list option" where
  "send_body_segments 0 mem common = None"
| "send_body_segments (Suc fuel) mem common = do {
     (status, common) \<leftarrow> OI_OBEXCOMMON_MarshalBodySegment True mem common;
     OI_ASSERT (OI_SUCCESS status);
     m \<leftarrow> mbuf common;
     if OI_OBEX_IS_A_BODY_HEADER (hdr_id (bodySegment common)) then do {
       packets \<leftarrow> send_body_segments fuel mem (common\<lparr>mbuf := None\<rparr>);
       Some (mbuf_content m # packets)
     } else Some [mbuf_content m]
   }"

definition segment_packet :: "u8 \<Rightarrow> u8 \<Rightarrow> u16 \<Rightarrow> bytes \<Rightarrow> bool" where
  "segment_packet op i mx p \<longleftrightarrow> length p \<le> unat mx \<and> 6 \<le> length p \<and> p ! 0 = op \<and> p ! 3 = i \<and>
     GetUINT16_BigEndian (drop 1 p) = of_nat (length p) \<and>
     GetUINT16_BigEndian (drop 4 p) = of_nat (length p - 3)"

lemma Get_Set_append [simp]: "GetUINT16_BigEndian (SetUINT16_BigEndian v @ xs) = v"
  using Get_Set_UINT16_BigEndian [of v] by (simp add: GetUINT16_BigEndian_def SetUINT16_BigEndian_def)

lemma segment_packet_intro:
  assumes "p = op # SetUINT16_BigEndian (l :: u16) @ i # SetUINT16_BigEndian (k :: u16) @ data"
    and "length data + 6 \<le> unat mx" "l = of_nat (length data + 6)" "k = of_nat (length data + 3)"
  shows "segment_packet op i mx p" and "drop 6 p = data"
proof -
  have p: "p = op # (SetUINT16_BigEndian l ! 0) # (SetUINT16_BigEndian l ! 1) # i #
      (SetUINT16_BigEndian k ! 0) # (SetUINT16_BigEndian k ! 1) # data"
    using assms(1) by (simp add: SetUINT16_BigEndian_def)
  then show "drop 6 p = data"
    by simp
  have "GetUINT16_BigEndian (drop 1 p) = l"
    using assms(1) by simp
  moreover have "drop 4 p = SetUINT16_BigEndian k @ data"
    using assms(1) by (simp add: SetUINT16_BigEndian_def)
  then have "GetUINT16_BigEndian (drop 4 p) = k"
    by simp
  moreover have "length p = length data + 6" "p ! 0 = op" "p ! 3 = i"
    by (simp_all add: assms(1) nth_append numeral_3_eq_3)
  ultimately show "segment_packet op i mx p"
    using assms(2-4) by (simp add: segment_packet_def)
qed

lemma send_body_segments_ok:
  assumes "body_state common b len" "\<forall>i. mem i" "unat len < fuel"
  shows "\<exists>packets. send_body_segments fuel mem common = Some packets \<and> packets \<noteq> [] \<and>
    concat (map (drop 6) packets) = take (unat len) b \<and>
    (\<forall>p \<in> set (butlast packets).
       segment_packet (not_final (currentOpcode common)) OI_OBEX_HDR_BODY (maxSendPktLen common) p) \<and>
    segment_packet (currentOpcode common) (hdr_id (bodySegment common)) (maxSendPktLen common) (last packets)"
  using assms
proof (induction fuel arbitrary: common b len)
  case (Suc fuel)
  let ?mx = "maxSendPktLen common" and ?h = "bodySegment common"
  have h: "body_hdr ?h b len" "6 < unat ?mx" "length (hdrBuf common) = 8"
    using Suc.prems(1) by (auto simp: body_state_def)
  obtain m c where mc: "OI_OBEXCOMMON_MarshalBodySegment True mem common = Some (OI_OK, c\<lparr>mbuf := Some m\<rparr>)"
      "maxSendPktLen c = ?mx" "currentOpcode c = currentOpcode common" "hdrBuf c = hdrBuf common"
      "if 6 + unat len \<le> unat ?mx
       then hdr_id (bodySegment c) = 0 \<and> mbuf_content m = currentOpcode common # SetUINT16_BigEndian (6 + len) @
           hdr_id ?h # SetUINT16_BigEndian (3 + len) @ take (unat len) b
       else bodySegment c = rest_of_body ?h b len (?mx - 6) \<and>
         mbuf_content m = not_final (currentOpcode common) # SetUINT16_BigEndian ?mx @
           OI_OBEX_HDR_BODY # SetUINT16_BigEndian (?mx - 3) @ take (unat ?mx - 6) b"
    using MarshalBodySegment_step [OF Suc.prems(1,2)] by blast
  show ?case
  proof (cases "6 + unat len \<le> unat ?mx")
    case True
    have "length (take (unat len) b) = unat len"
      using h(1) by (simp add: body_hdr_def)
    then have "segment_packet (currentOpcode common) (hdr_id ?h) ?mx (mbuf_content m)"
      "drop 6 (mbuf_content m) = take (unat len) b"
      using segment_packet_intro [of "mbuf_content m" "currentOpcode common" "6 + len" "hdr_id ?h" "3 + len"
          "take (unat len) b" ?mx] mc(5) True by (simp_all add: add.commute)
    moreover have "\<not> OI_OBEX_IS_A_BODY_HEADER 0"
      by (simp add: OI_OBEX_IS_A_BODY_HEADER_def obex_consts)
    ultimately show ?thesis
      using mc True by (simp add: OI_SUCCESS_def)
  next
    case False
    let ?n = "?mx - 6"
    have n: "unat ?n = unat ?mx - 6" "unat (?mx - 3) = unat ?mx - 3"
      using h(2) by (simp_all add: unat_sub_u16)
    have lens: "unat (len - ?n) = unat len - unat ?n" "unat ?n < unat len" "0 < unat ?n"
      using n False h(2) by (auto simp: unat_sub_u16)
    have body: "bodySegment c = rest_of_body ?h b len ?n"
      using mc(5) False by simp
    have st: "body_state (c\<lparr>mbuf := None\<rparr>) (drop (unat ?n) b) (len - ?n)"
      using h mc(2,4) lens body by (auto simp: body_state_def body_hdr_def rest_of_body_def)
    obtain ps where ps: "send_body_segments fuel mem (c\<lparr>mbuf := None\<rparr>) = Some ps" "ps \<noteq> []"
        "concat (map (drop 6) ps) = take (unat len - unat ?n) (drop (unat ?n) b)"
        "\<forall>p \<in> set (butlast ps). segment_packet (not_final (currentOpcode common)) OI_OBEX_HDR_BODY ?mx p"
        "segment_packet (currentOpcode common) (hdr_id ?h) ?mx (last ps)"
    proof -
      have "unat (len - ?n) < fuel"
        using Suc.prems(3) lens by linarith
      from Suc.IH [OF st Suc.prems(2) this] show thesis
        using that lens(1) mc(2,3) body by (auto simp: rest_of_body_def)
    qed
    have dl: "length (take (unat ?mx - 6) b) = unat ?mx - 6"
      using h(1) lens(2) n by (simp add: body_hdr_def)
    have "segment_packet (not_final (currentOpcode common)) OI_OBEX_HDR_BODY ?mx (mbuf_content m)"
      "drop 6 (mbuf_content m) = take (unat ?n) b"
      using segment_packet_intro [of "mbuf_content m" "not_final (currentOpcode common)" ?mx
          OI_OBEX_HDR_BODY "?mx - 3" "take (unat ?mx - 6) b" ?mx] mc(5) False dl n h(2)
      by (simp_all add: of_nat_diff)
    moreover have "take (unat len) b = take (unat ?n) b @ take (unat len - unat ?n) (drop (unat ?n) b)"
      using lens(2) take_add [of "unat ?n" "unat len - unat ?n" b] by simp
    moreover have "OI_OBEX_IS_A_BODY_HEADER (hdr_id (bodySegment c))"
      using h(1) body by (simp add: rest_of_body_def body_hdr_def)
    ultimately show ?thesis
      using mc(1) ps by (simp add: OI_SUCCESS_def)
  qed
qed simp

section \<open>Properties\<close>

definition demo_common :: OBEX_COMMON where
  "demo_common = \<lparr>mbuf = None, hdrBuf = [0, 0, 0, 0, 0, 0, 0, 0], srm = 0, maxSendPktLen = 20,
     currentOpcode = 0x82, bodySegment = \<lparr>hdr_id = 0, hdr_val = UINT8 0\<rparr>, progressBytes = 0\<rparr>"

definition demo_pkt :: OI_BYTE_STREAM where
  "demo_pkt = \<lparr>bs_addr = 0, bs_data = [0, 0, 0, 0, 0, 0, 0, 0], bs_trueSize = 8, bs_size = 8, bs_pos = 3,
     bs_RWFlag = BYTESTREAM_WRITE, bs_error = 0\<rparr>"

lemma demo_pkt_facts:
  "pkt_header demo_pkt" "bs_pos demo_pkt = 3" "bs_written demo_pkt = [0, 0, 0]"
  by (simp_all add: demo_pkt_def pkt_header_def bs_writing_def bs_wf_def OI_OBEX_HDR_BUFSIZE_def bs_written_def)

definition demo_name :: OI_OBEX_HEADER where
  "demo_name = \<lparr>hdr_id = 0x01, hdr_val = UNICODE [0x41, 0] 2\<rparr>"

definition demo_conn :: OI_OBEX_HEADER where
  "demo_conn = \<lparr>hdr_id = 0xCB, hdr_val = UINT32 1\<rparr>"

definition demo_body :: OI_OBEX_HEADER where
  "demo_body = \<lparr>hdr_id = 0x49, hdr_val = BYTESEQ (Some [1, 2, 3, 4, 5, 6, 7, 8, 9, 10, 11, 12, 13, 14, 15, 16]) 16\<rparr>"

lemma demo_hdr_facts:
  "hdr_ok_out demo_name" "hdr_ok_out demo_conn" "hdr_ok_out demo_body"
  "enc_hdr demo_name = [0x01, 0, 7, 0, 0x41, 0, 0]" "enc_hdr demo_conn = [0xCB, 0, 0, 0, 1]"
  "hdr_cells demo_name = 1" "hdr_cells demo_conn = 1" "\<not> prio_hdr demo_name" "prio_hdr demo_conn"
  "body_hdr demo_body [1, 2, 3, 4, 5, 6, 7, 8, 9, 10, 11, 12, 13, 14, 15, 16] 16"
  by (simp_all add: demo_name_def demo_conn_def demo_body_def hdr_ok_out_def OI_OBEX_HDR_KIND_def
      enc_hdr_def hdr_cells_def prio_hdr_def PRIORITY_HEADER_def obex_consts SetUINT16_BigEndian_def
      SetUINT32_BigEndian_def body_hdr_def OI_OBEX_IS_A_BODY_HEADER_def)

lemma pkt_header_written:
  "pkt_header pkt \<Longrightarrow> length (bs_written pkt) = unat (bs_pos pkt) \<and> 3 \<le> length (bs_written pkt)"
  using closed_written(5) [of pkt] by (auto simp: pkt_header_def)

text \<open>C17: When every header fits, \<open>OI_OBEXCOMMON_MarshalPacketMbuf\<close> composes exactly the OBEX
  packet: the opcode, the true length of the packet in the length field, the command's fixed
  fields, then the encoded headers, those that must come first (target, connection id, session
  parameters) before all others and the others in the order given. There is memory for each copy, and
  fewer than 255 cells are needed.\<close>

theorem MarshalPacketMbuf_wire:
  assumes "hdr_id (bodySegment common) = 0" and "pkt_header pkt" and "\<forall>i. mem i"
    and "\<forall>h \<in> set hs. hdr_ok_out h" and "total_cells hs < 255"
    and "unat (bs_pos pkt) + wire_len hs \<le> unat (maxSendPktLen common)"
    and "hs = hdrs @ (case hdrList of None \<Rightarrow> [] | Some l \<Rightarrow> l)"
  shows "\<exists>m common'. OI_OBEXCOMMON_MarshalPacketMbuf True mem common pkt hdrs hdrList =
      Some (OI_OK, common', Some m) \<and> mbuf_ok m \<and> length (mbuf_content m) \<le> unat (maxSendPktLen common) \<and>
    mbuf_content m = currentOpcode common # SetUINT16_BigEndian (of_nat (length (mbuf_content m)) :: u16) @
      drop 3 (bs_written pkt) @ concat (map enc_hdr (wire_order hs))"
proof -
  obtain m where m: "OI_OBEXCOMMON_MarshalPacketMbuf True mem common pkt hdrs hdrList =
      Some (OI_OK, progressed_all common hs, Some m)" "mbuf_good m"
    "mbuf_content m = currentOpcode common # SetUINT16_BigEndian (of_nat (length (mbuf_content m)) :: u16) @
      drop 3 (bs_written pkt) @ concat (map enc_hdr (wire_order hs))"
    using Marshal_fits [OF assms] by blast
  have "length (mbuf_content m) = length (currentOpcode common #
      SetUINT16_BigEndian (of_nat (length (mbuf_content m)) :: u16) @
      drop 3 (bs_written pkt) @ around hs [])"
    using m(3) unfolding around_Nil by (rule arg_cong)
  also have "\<dots> = unat (bs_pos pkt) + wire_len hs"
    using pkt_header_written [OF assms(2)] by (auto simp: length_around)
  finally show ?thesis
    using m assms(6) by (auto simp: mbuf_good_def)
qed

lemma MarshalPacketMbuf_wire_witness:
  "\<exists>m common'. OI_OBEXCOMMON_MarshalPacketMbuf True (\<lambda>i. True) demo_common demo_pkt [demo_name, demo_conn] None =
     Some (OI_OK, common', Some m) \<and>
     mbuf_content m = 0x82 # SetUINT16_BigEndian (of_nat (length (mbuf_content m)) :: u16) @
       [0xCB, 0, 0, 0, 1, 0x01, 0, 7, 0, 0x41, 0, 0]"
  using MarshalPacketMbuf_wire [of demo_common demo_pkt "\<lambda>i. True" "[demo_name, demo_conn]" "[demo_name, demo_conn]" None]
  by (auto simp: demo_pkt_facts demo_hdr_facts wire_len_def wire_order_def demo_common_def)

text \<open>C19: When a body header, of the headers of the call itself or of the list, does not fit but at least
  one byte of it does, and it is the last header, the packet is filled to \<open>maxSendPktLen\<close> exactly: it carries the
  headers before it and a \<open>BODY\<close> header with as many bytes as there is room for, its opcode is not final, and the
  bytes not sent are kept as the body segment. When the next header is not a body header the call fails with
  \<open>OI_OBEX_PACKET_OVERFLOW\<close> and leaves no packet, but the body segment. There is memory for each copy, and
  fewer than 255 cells are needed.\<close>

theorem MarshalPacketMbuf_segments_body:
  assumes "hdr_id (bodySegment common) = 0" and "pkt_header pkt" and "\<forall>i. mem i"
    and "hdrs @ (case hdrList of None \<Rightarrow> [] | Some l \<Rightarrow> l) = hs @ h # post"
    and "\<forall>h \<in> set hs. hdr_ok_out h" and "total_cells (hs @ h # post) < 255" and "body_hdr h b len"
    and "unat (bs_pos pkt) + wire_len hs + 3 < unat (maxSendPktLen common)"
    and "unat (maxSendPktLen common) < unat (bs_pos pkt) + wire_len hs + 3 + unat len"
    and "n = maxSendPktLen common - (bs_pos pkt + of_nat (wire_len hs))"
  shows "case post of
      [] \<Rightarrow> \<exists>m common'. OI_OBEXCOMMON_MarshalPacketMbuf True mem common pkt hdrs hdrList = Some (OI_OK, common', Some m) \<and>
        length (mbuf_content m) = unat (maxSendPktLen common) \<and>
        mbuf_content m = not_final (currentOpcode common) # SetUINT16_BigEndian (maxSendPktLen common) @
          drop 3 (bs_written pkt) @ concat (map enc_hdr (wire_order hs)) @
          OI_OBEX_HDR_BODY # SetUINT16_BigEndian n @ take (unat n - 3) b \<and>
        bodySegment common' = h\<lparr>hdr_val := BYTESEQ (Some (drop (unat n - 3) b)) (len - (n - 3))\<rparr>
    | g # _ \<Rightarrow> hdr_ok_out g \<and> \<not> OI_OBEX_IS_A_BODY_HEADER (hdr_id g) \<longrightarrow>
        (\<exists>common'. OI_OBEXCOMMON_MarshalPacketMbuf True mem common pkt hdrs hdrList =
           Some (OI_OBEX_PACKET_OVERFLOW, common', None) \<and> hdr_id (bodySegment common') = hdr_id h)"
proof -
  have call: "OI_OBEXCOMMON_MarshalPacketMbuf True mem common pkt hdrs hdrList =
      OI_OBEXCOMMON_MarshalPacketMbuf True mem common pkt (hs @ h # post) None"
    using assms(4) Marshal_concat [of True mem common pkt hdrs] by (cases hdrList) simp_all
  show ?thesis
  proof (cases post)
    case Nil
    have "total_cells hs + 2 < 255"
      using assms(6) body_hdr_ok [OF assms(7)] Nil by simp
    then obtain m common' where m: "OI_OBEXCOMMON_MarshalPacketMbuf True mem common pkt (hs @ [h]) None =
        Some (OI_OK, common', Some m)"
      "mbuf_content m = not_final (currentOpcode common) # SetUINT16_BigEndian (maxSendPktLen common) @
        drop 3 (bs_written pkt) @ concat (map enc_hdr (wire_order hs)) @
        OI_OBEX_HDR_BODY # SetUINT16_BigEndian n @ take (unat n - 3) b"
      "bodySegment common' = rest_of_body h b len (n - 3)"
      "unat n = unat (maxSendPktLen common) - unat (bs_pos pkt) - wire_len hs"
      using Marshal_segments [OF assms(1-3,5) _ assms(7-10)] by auto
    have "unat n - 3 \<le> length b"
      unfolding m(4) using assms(7,9) unfolding body_hdr_def by linarith
    then have "length (mbuf_content m) = unat (bs_pos pkt) + wire_len hs + 3 + (unat n - 3)"
      using m(2) pkt_header_written [OF assms(2)] by (simp add: around_Nil [symmetric] length_around)
    then have len: "length (mbuf_content m) = unat (maxSendPktLen common)"
      using m(4) assms(8) by simp
    have "3 \<le> unat n"
      using m(4) assms(8) by simp
    then have "unat (n - 3) = unat n - 3"
      by (simp add: unat_sub_u16)
    with m len Nil show ?thesis
      by (auto simp: rest_of_body_def call)
  next
    case (Cons g gs)
    then show ?thesis
      using Marshal_segment_overflow [OF assms(1,3,5) _ assms(7-9), of g gs] assms(6) by (auto simp: call)
  qed
qed

lemma MarshalPacketMbuf_segments_body_witness:
  "\<exists>m common'. OI_OBEXCOMMON_MarshalPacketMbuf True (\<lambda>i. True) demo_common demo_pkt [demo_name] (Some [demo_body]) =
     Some (OI_OK, common', Some m) \<and>
     mbuf_content m = [0x02, 0, 20, 0x01, 0, 7, 0, 0x41, 0, 0, 0x48, 0, 10, 1, 2, 3, 4, 5, 6, 7] \<and>
     hdr_val (bodySegment common') = BYTESEQ (Some [8, 9, 10, 11, 12, 13, 14, 15, 16]) 9"
  using MarshalPacketMbuf_segments_body [of demo_common demo_pkt "\<lambda>i. True" "[demo_name]" "Some [demo_body]" "[demo_name]" demo_body
      "[]" "[1, 2, 3, 4, 5, 6, 7, 8, 9, 10, 11, 12, 13, 14, 15, 16]" 16 10]
  by (auto simp: demo_pkt_facts demo_hdr_facts body_hdr_ok [OF demo_hdr_facts(10)] wire_len_def wire_order_def demo_common_def not_final_def
      obex_consts OI_OBEX_FINAL_def SetUINT16_BigEndian_def)

text \<open>C18: Sending the rest of a body, packet after packet, terminates and delivers it: the
  payloads put together are the bytes that were left, every packet is at most
  \<open>maxSendPktLen\<close> long with true length fields, all but the last are non-final \<open>BODY\<close> packets,
  and the last has the operation's opcode and the header id the application gave.\<close>

theorem MarshalBodySegment_delivers:
  assumes "body_state common b len" and "\<forall>i. mem i"
  shows "\<exists>packets. send_body_segments (Suc (unat len)) mem common = Some packets \<and>
    concat (map (drop 6) packets) = take (unat len) b \<and>
    (\<forall>p \<in> set (butlast packets).
       segment_packet (not_final (currentOpcode common)) OI_OBEX_HDR_BODY (maxSendPktLen common) p) \<and>
    segment_packet (currentOpcode common) (hdr_id (bodySegment common)) (maxSendPktLen common) (last packets)"
  using send_body_segments_ok [OF assms, of "Suc (unat len)"] by auto

lemma MarshalBodySegment_delivers_witness:
  "\<exists>packets. send_body_segments 17 (\<lambda>i. True) (demo_common\<lparr>bodySegment := demo_body\<rparr>) = Some packets \<and>
     concat (map (drop 6) packets) = [1, 2, 3, 4, 5, 6, 7, 8, 9, 10, 11, 12, 13, 14, 15, 16] \<and>
     segment_packet 0x82 0x49 20 (last packets)"
proof -
  have "body_state (demo_common\<lparr>bodySegment := demo_body\<rparr>) [1, 2, 3, 4, 5, 6, 7, 8, 9, 10, 11, 12, 13, 14, 15, 16] 16"
    using demo_hdr_facts(10) by (simp add: body_state_def demo_common_def)
  from MarshalBodySegment_delivers [OF this, of "\<lambda>i. True"] show ?thesis
    by (auto simp: demo_common_def demo_body_def)
qed

text \<open>A header other than a body that does not fit makes the whole packet fail with
  \<open>OI_OBEX_PACKET_OVERFLOW\<close>; the mbuf composed so far is released and no packet is left.\<close>

theorem MarshalPacketMbuf_overflow:
  assumes "hdr_id (bodySegment common) = 0" and "pkt_header pkt" and "\<forall>i. mem i"
    and "\<forall>h \<in> set hs. hdr_ok_out h" and "total_cells (hs @ h # post) < 255"
    and "unat (bs_pos pkt) + wire_len hs \<le> unat (maxSendPktLen common)"
    and "hdr_ok_out h" and "\<not> OI_OBEX_IS_A_BODY_HEADER (hdr_id h)"
    and "unat (maxSendPktLen common) < unat (bs_pos pkt) + wire_len hs + length (enc_hdr h)"
  shows "\<exists>common'. OI_OBEXCOMMON_MarshalPacketMbuf True mem common pkt (hs @ h # post) None =
    Some (OI_OBEX_PACKET_OVERFLOW, common', None)"
proof -
  let ?m0 = "MBUF (zeroed_hdr (count_cells (hs @ h # post) [])) []"
  have cells: "unat (count_cells (hs @ h # post) []) = total_cells (hs @ h # post) + 1"
    using assms(5) by (simp add: count_cells_total unat_of_nat_u8 del: of_nat_Suc)
  have mx: "unat (maxSendPktLen common) < 65536"
    by simp
  obtain m1 where m1: "AddHeaders mem 0 common ?m0 (hs @ h # post) (bs_pos pkt) =
      AddHeaders mem (length hs) (progressed_all common hs) m1 (h # post) (bs_pos pkt + of_nat (wire_len hs))"
      "mbuf_good m1"
    using AddHeaders_fit [of hs ?m0 "bs_pos pkt" common mem 0 "h # post"] assms(3-6) cells mx
    by (auto simp: empty_mbuf)
  have pos: "unat (bs_pos pkt + of_nat (wire_len hs)) = unat (bs_pos pkt) + wire_len hs"
  proof -
    have "unat (bs_pos pkt) + wire_len hs < 65536"
      using assms(6) mx by linarith
    then show ?thesis
      by (simp add: unat_add_u16 unat_of_nat_u16)
  qed
  have "HeaderSize h = Some (of_nat (length (enc_hdr h)))" "unat (of_nat (length (enc_hdr h)) :: u16) = length (enc_hdr h)"
    "(of_nat (length (enc_hdr h)) :: u16) \<noteq> 0"
    using length_enc_hdr [OF assms(7)] by (auto simp: unat_of_nat_u16 simp flip: unat_eq_zero)
  then have "AddHeader (mem (length hs)) (progressed_all common hs) m1 h (bs_pos pkt + of_nat (wire_len hs)) =
      Some (OI_OBEX_PACKET_OVERFLOW, progressed_all common hs, m1, bs_pos pkt + of_nat (wire_len hs))"
    using assms(8,9) pos by (simp add: AddHeader_def FitHeader_def)
  then have "AddHeaders mem 0 common ?m0 (hs @ h # post) (bs_pos pkt) =
      Some (OI_OBEX_PACKET_OVERFLOW, progressed_all common hs, m1, bs_pos pkt + of_nat (wire_len hs))"
    using m1(1) by (simp add: OI_SUCCESS_def)
  then show ?thesis
    using assms(1) OI_MBUF_Free_ok [OF m1(2)]
    by (auto simp: OI_OBEXCOMMON_MarshalPacketMbuf_def OI_MBUF_Alloc_def OI_SUCCESS_def)
qed

lemma MarshalPacketMbuf_overflow_witness:
  "\<exists>common'. OI_OBEXCOMMON_MarshalPacketMbuf True (\<lambda>i. True) demo_common demo_pkt
     ([demo_name, demo_name] @ demo_name # []) None = Some (OI_OBEX_PACKET_OVERFLOW, common', None)"
  by (rule MarshalPacketMbuf_overflow)
    (simp_all add: demo_pkt_facts demo_hdr_facts wire_len_def demo_common_def,
      simp_all add: demo_name_def OI_OBEX_IS_A_BODY_HEADER_def obex_consts)

text \<open>When the headers before a body header leave at most three bytes, the body is lost: the
  packet is composed without it, final opcode and all, the call succeeds, and no body segment
  is kept to be sent later.\<close>

theorem MarshalPacketMbuf_drops_body:
  assumes "hdr_id (bodySegment common) = 0" and "pkt_header pkt" and "\<forall>i. mem i"
    and "\<forall>h \<in> set hs. hdr_ok_out h" and "total_cells hs + 2 < 255" and "body_hdr h b len" and "0 < len"
    and "unat (bs_pos pkt) + wire_len hs \<le> unat (maxSendPktLen common)"
    and "unat (maxSendPktLen common) \<le> unat (bs_pos pkt) + wire_len hs + 3"
  shows "\<exists>m common'. OI_OBEXCOMMON_MarshalPacketMbuf True mem common pkt (hs @ [h]) None =
      Some (OI_OK, common', Some m) \<and> hdr_id (bodySegment common') = 0 \<and>
    mbuf_content m = currentOpcode common # SetUINT16_BigEndian (bs_pos pkt + of_nat (wire_len hs)) @
      drop 3 (bs_written pkt) @ concat (map enc_hdr (wire_order hs))"
proof -
  let ?m0 = "MBUF (zeroed_hdr (count_cells (hs @ [h]) [])) []"
  let ?c = "progressed_all common hs" and ?l = "bs_pos pkt + of_nat (wire_len hs) :: u16"
  have cells: "unat (count_cells (hs @ [h]) []) = total_cells hs + 3"
    using assms(5) body_hdr_ok [OF assms(6)] by (simp add: count_cells_total unat_of_nat_u8 del: of_nat_Suc)
  have mx: "unat (maxSendPktLen common) < 65536"
    by simp
  obtain m1 where m1: "AddHeaders mem 0 common ?m0 (hs @ [h]) (bs_pos pkt) =
      AddHeaders mem (length hs) ?c m1 [h] ?l" "mbuf_good m1" "mbuf_content m1 = around hs []" "3 \<le> mbuf_room m1"
    using AddHeaders_fit [of hs ?m0 "bs_pos pkt" common mem 0 "[h]"] assms(3,4,8) cells mx
    by (auto simp: empty_mbuf)
  have l: "unat ?l = unat (bs_pos pkt) + wire_len hs"
  proof -
    have "unat (bs_pos pkt) + wire_len hs < 65536"
      using assms(8) mx by linarith
    then show ?thesis
      by (simp add: unat_add_u16 unat_of_nat_u16)
  qed
  have "0 < unat len"
    using assms(7) by (simp add: word_less_nat_alt)
  then have "AddHeader (mem (length hs)) ?c m1 h ?l = Some (OI_OK, ?c, m1, ?l)"
    using l assms(8,9) by (intro AddHeader_no_room [OF assms(6)]) simp_all
  then have add: "AddHeaders mem 0 common ?m0 ((hs @ [h]) @ []) (bs_pos pkt) = Some (OI_OK, ?c, m1, ?l)"
    using m1(1) by simp
  have "length (mbuf_content m1) + unat (bs_pos pkt) < 65536"
    unfolding m1(3) length_around using assms(8) mx by (simp del: unat_lt_u16 unat_le_u16)
  moreover have "PacketOpcode ?c = currentOpcode common"
    using assms(1) by (simp add: PacketOpcode_def OI_OBEX_IS_A_BODY_HEADER_def obex_consts)
  ultimately show ?thesis
    using Marshal_finish [OF assms(1,2) add m1(2), of None] m1(3,4) assms(1,3) by (auto simp: around_Nil)
qed

lemma MarshalPacketMbuf_drops_body_witness:
  "\<exists>m common'. OI_OBEXCOMMON_MarshalPacketMbuf True (\<lambda>i. True) (demo_common\<lparr>maxSendPktLen := 13\<rparr>) demo_pkt
     ([demo_name] @ [demo_body]) None = Some (OI_OK, common', Some m) \<and>
     mbuf_content m = [0x82, 0, 10, 0x01, 0, 7, 0, 0x41, 0, 0]"
  using MarshalPacketMbuf_drops_body [of "demo_common\<lparr>maxSendPktLen := 13\<rparr>" demo_pkt "\<lambda>i. True" "[demo_name]"
      demo_body "[1, 2, 3, 4, 5, 6, 7, 8, 9, 10, 11, 12, 13, 14, 15, 16]" 16]
  by (auto simp: demo_pkt_facts demo_hdr_facts wire_len_def wire_order_def demo_common_def SetUINT16_BigEndian_def)

end
