(* ===== verification/ObexParse.thy ===== *)
theory ObexParse
  imports ObexHeaders
begin

text \<open>
  The receiving half of \<open>obexcommon.c\<close>: scanning and parsing the headers of a packet, the
  operations on header lists, and the application-parameter lists inside a header.

  Parsed headers refer into the packet; the model keeps the bytes (after the in-place byte
  swap, the characters) they refer to. The swap itself is done on the stream's buffer as the
  code does it, two bytes at a time at the 16-bit boundary at or before the string, native
  order being little-endian. The counter of headers has 8 bits, as in \<open>OI_OBEX_HEADER_LIST\<close>.
\<close>

unbundle bit_operations_syntax

section \<open>Scanning\<close>

text \<open>The \<open>switch\<close> over the header's kind: the length of its value, or the early error.\<close>

definition ScanLength :: "OBEX_KIND \<Rightarrow> OI_BYTE_STREAM \<Rightarrow> (OI_STATUS \<times> u16 \<times> OI_BYTE_STREAM) option" where
  "ScanLength kind bs =
     (case kind of
        OI_OBEX_HDR_ID_UINT8 \<Rightarrow> Some (OI_OK, 1, bs)
      | OI_OBEX_HDR_ID_UINT32 \<Rightarrow> Some (OI_OK, 4, bs)
      | _ \<Rightarrow> do {
          (len, bs) \<leftarrow> ByteStream_GetUINT16_Checked bs 0 OI_BIG_ENDIAN_BYTE_ORDER;
          let len = len - OI_OBEX_HEADER_PREFIX_LEN;
          Some (if len AND 1 \<noteq> 0 \<and> kind = OI_OBEX_HDR_ID_UNICODE then OI_OBEX_ERROR else OI_OK, len, bs)
        })"

definition ScanHeader :: "OI_BYTE_STREAM \<Rightarrow> (OI_STATUS \<times> OI_BYTE_STREAM) option" where
  "ScanHeader bs = do {
     (i, bs) \<leftarrow> ByteStream_GetUINT8_Checked bs 0;
     (status, len, bs) \<leftarrow> ScanLength (OI_OBEX_HDR_KIND i) bs;
     if \<not> OI_SUCCESS status then Some (status, bs)
     else do {
       let bs = ByteStream_Skip_Checked bs (unat len);
       Some (if ByteStream_Error bs then OI_OBEX_ERROR else OI_OK, bs)
     }
   }"

definition bs_left :: "OI_BYTE_STREAM \<Rightarrow> nat" where
  "bs_left bs = unat (bs_size bs) - unat (bs_pos bs)"

text \<open>Every header scanned takes the stream further, so the scan ends.\<close>

lemma bs_advance_left:
  "unat (bs_pos bs) + n \<le> unat (bs_size bs) \<Longrightarrow> bs_left (bs_advance n bs) = bs_left bs - n"
  by (simp add: bs_left_def bs_pos_advance)

lemma bs_left_error [simp]: "bs_left (bs\<lparr>bs_error := e\<rparr>) = bs_left bs"
  by (simp add: bs_left_def)

lemma GetUINT8_Checked_left:
  assumes "ByteStream_GetUINT8_Checked bs v = Some (i, bs')"
  shows "bs_left bs' \<le> bs_left bs \<and> (\<not> ByteStream_Error bs' \<longrightarrow> bs_left bs' < bs_left bs)"
proof (cases "unat (bs_pos bs) + 1 \<le> unat (bs_size bs)")
  case True
  then have "bs_left (bs_advance 1 bs) = bs_left bs - 1" "0 < bs_left bs"
    by (rule bs_advance_left) (use True in \<open>simp add: bs_left_def\<close>)
  with True assms show ?thesis
    by (auto simp: ByteStream_GetUINT8_Checked_def monad_simps split: if_splits)
next
  case False
  with assms show ?thesis
    by (auto simp: ByteStream_GetUINT8_Checked_def monad_simps ByteStream_Error_def split: if_splits)
qed

lemma GetUINT16_Checked_left:
  assumes "ByteStream_GetUINT16_Checked bs v bo = Some (i, bs')"
  shows "bs_left bs' \<le> bs_left bs \<and> (ByteStream_Error bs \<longrightarrow> ByteStream_Error bs')"
proof (cases "unat (bs_pos bs) + 2 \<le> unat (bs_size bs)")
  case True
  with bs_advance_left [OF True] assms show ?thesis
    by (auto simp: ByteStream_GetUINT16_Checked_def monad_simps ByteStream_Error_def split: if_splits)
next
  case False
  with assms show ?thesis
    by (auto simp: ByteStream_GetUINT16_Checked_def monad_simps ByteStream_Error_def split: if_splits)
qed

lemma Skip_Checked_left:
  "bs_left (ByteStream_Skip_Checked bs n) \<le> bs_left bs \<and>
     (ByteStream_Error bs \<longrightarrow> ByteStream_Error (ByteStream_Skip_Checked bs n))"
  by (cases "unat (bs_pos bs) + n \<le> unat (bs_size bs)")
    (auto simp: ByteStream_Skip_Checked_def bs_advance_left ByteStream_Error_def)

lemma ScanLength_left:
  "ScanLength kind bs = Some (status, len, bs') \<Longrightarrow>
     bs_left bs' \<le> bs_left bs \<and> (ByteStream_Error bs \<longrightarrow> ByteStream_Error bs')"
  by (auto simp: ScanLength_def monad_simps Let_def dest: GetUINT16_Checked_left split: OBEX_KIND.splits)

lemma ScanHeader_progress:
  assumes "ScanHeader bs = Some (OI_OK, bs')"
  shows "bs_left bs' < bs_left bs"
proof -
  obtain i bs1 where 1: "ByteStream_GetUINT8_Checked bs 0 = Some (i, bs1)"
    using assms by (auto simp: ScanHeader_def monad_simps)
  obtain len bs2 where 2: "ScanLength (OI_OBEX_HDR_KIND i) bs1 = Some (OI_OK, len, bs2)"
      "bs' = ByteStream_Skip_Checked bs2 (unat len)" "\<not> ByteStream_Error bs'"
    using assms 1 by (auto simp: ScanHeader_def monad_simps OI_SUCCESS_def Let_def split: if_splits)
  then have "\<not> ByteStream_Error bs1" "bs_left bs' \<le> bs_left bs1"
    using Skip_Checked_left [of bs2 "unat len"] ScanLength_left [OF 2(1)] by auto
  with GetUINT8_Checked_left [OF 1] show ?thesis
    by linarith
qed

function scan_headers :: "OI_BYTE_STREAM \<Rightarrow> u8 \<Rightarrow> (OI_STATUS \<times> u8 \<times> OI_BYTE_STREAM) option" where
  "scan_headers bs count =
     (if ByteStream_NumReadBytesAvail bs > 0 then
        case ScanHeader bs of
          None \<Rightarrow> None
        | Some (status, bs) \<Rightarrow>
            if status = OI_OK then scan_headers bs (count + 1) else Some (OI_OBEX_BAD_PACKET, 0, bs)
      else Some (OI_OK, count, bs))"
  by pat_completeness auto
termination
  by (relation "measure (\<lambda>(bs, count). bs_left bs)") (auto dest: ScanHeader_progress)

declare scan_headers.simps [simp del]

section \<open>Parsing\<close>

text \<open>The in-place conversion: \<open>str[i] = dchar\<close> with \<open>str\<close> at offset \<open>base\<close> of the buffer.\<close>

fun swap_chars :: "nat \<Rightarrow> nat \<Rightarrow> OI_BYTE_STREAM \<Rightarrow> OI_BYTE_STREAM option" where
  "swap_chars 0 base bs = Some bs"
| "swap_chars (Suc n) base bs = do {
     (dchar, bs) \<leftarrow> ByteStream_GetUINT16 bs OI_BIG_ENDIAN_BYTE_ORDER;
     OI_ASSERT (base + 2 \<le> length (bs_data bs));
     swap_chars n (base + 2) (bs\<lparr>bs_data := overwrite base (SetUINT16_LittleEndian dchar) (bs_data bs)\<rparr>)
   }"

text \<open>The array of characters at an offset of the buffer.\<close>

fun load_chars :: "nat \<Rightarrow> nat \<Rightarrow> bytes \<Rightarrow> u16 list" where
  "load_chars 0 base data = []"
| "load_chars (Suc n) base data = GetUINT16_LittleEndian (drop base data) # load_chars n (base + 2) data"

text \<open>Where the string is put: the current byte pointer, or the byte before it when the
  pointer's address is odd.\<close>

definition char_base :: "OI_BYTE_STREAM \<Rightarrow> nat" where
  "char_base bs =
     (if (bs_addr bs + ucast (bs_pos bs)) AND 1 \<noteq> 0 then unat (bs_pos bs) - 1 else unat (bs_pos bs))"

definition ParseHeader ::
    "OBEX_COMMON \<Rightarrow> OI_BYTE_STREAM \<Rightarrow> (OI_OBEX_HEADER \<times> OBEX_COMMON \<times> OI_BYTE_STREAM) option" where
  "ParseHeader common bs = do {
     (i, bs) \<leftarrow> ByteStream_GetUINT8 bs;
     case OI_OBEX_HDR_KIND i of
       OI_OBEX_HDR_ID_UNICODE \<Rightarrow> do {
         (len, bs) \<leftarrow> ByteStream_GetUINT16 bs OI_BIG_ENDIAN_BYTE_ORDER;
         let len = len - OI_OBEX_HEADER_PREFIX_LEN;
         OI_ASSERT (len mod 2 = 0);
         let ulen = len div 2;
         if ulen \<noteq> 0 then do {
           let base = char_base bs;
           bs \<leftarrow> swap_chars (unat ulen) base bs;
           Some (\<lparr>hdr_id = i, hdr_val = UNICODE (load_chars (unat ulen) base (bs_data bs)) ulen\<rparr>, common, bs)
         } else Some (\<lparr>hdr_id = i, hdr_val = UNICODE [] ulen\<rparr>, common, bs)
       }
     | OI_OBEX_HDR_ID_BYTESEQ \<Rightarrow> do {
         (len, bs) \<leftarrow> ByteStream_GetUINT16 bs OI_BIG_ENDIAN_BYTE_ORDER;
         let len = len - OI_OBEX_HEADER_PREFIX_LEN;
         bs' \<leftarrow> ByteStream_Skip bs (unat len);
         data \<leftarrow> (if len \<noteq> 0 then map_option Some (bs_peek (unat len) bs) else Some None);
         Some (\<lparr>hdr_id = i, hdr_val = BYTESEQ data len\<rparr>,
               if OI_OBEX_IS_A_BODY_HEADER i
               then common\<lparr>progressBytes := progressBytes common + ucast len\<rparr> else common, bs')
       }
     | OI_OBEX_HDR_ID_UINT8 \<Rightarrow> do {
         (v, bs) \<leftarrow> ByteStream_GetUINT8 bs;
         Some (\<lparr>hdr_id = i, hdr_val = UINT8 v\<rparr>, common, bs)
       }
     | OI_OBEX_HDR_ID_UINT32 \<Rightarrow> do {
         (v, bs) \<leftarrow> ByteStream_GetUINT32 bs OI_BIG_ENDIAN_BYTE_ORDER;
         Some (\<lparr>hdr_id = i, hdr_val = UINT32 v\<rparr>, common, bs)
       }
   }"

fun parse_headers ::
    "nat \<Rightarrow> OBEX_COMMON \<Rightarrow> OI_BYTE_STREAM \<Rightarrow> (OI_OBEX_HEADER list \<times> OBEX_COMMON \<times> OI_BYTE_STREAM) option" where
  "parse_headers 0 common bs = Some ([], common, bs)"
| "parse_headers (Suc n) common bs = do {
     (h, common, bs) \<leftarrow> ParseHeader common bs;
     (hs, common, bs) \<leftarrow> parse_headers n common bs;
     Some (h # hs, common, bs)
   }"

text \<open>The header list the caller passes in: its count and its list, \<open>NULL\<close> or not.\<close>

record OI_OBEX_HEADER_LIST =
  hl_count :: u8
  hl_list :: "OI_OBEX_HEADER list option"

definition OI_OBEXCOMMON_ParseHeaderList ::
    "bool \<Rightarrow> OBEX_COMMON \<Rightarrow> OI_BYTE_STREAM \<Rightarrow>
       (OI_STATUS \<times> OI_OBEX_HEADER_LIST \<times> OBEX_COMMON \<times> OI_BYTE_STREAM) option" where
  "OI_OBEXCOMMON_ParseHeaderList malloc_ok common bs = do {
     let pos = bs_pos bs;
     (status, count, bs) \<leftarrow> scan_headers bs 0;
     if \<not> OI_SUCCESS status then Some (OI_OBEX_BAD_PACKET, \<lparr>hl_count = 0, hl_list = None\<rparr>, common, bs)
     else do {
       bs \<leftarrow> ByteStream_SetPos bs pos;
       if count > 0 then
         if \<not> malloc_ok
         then Some (OI_STATUS_OUT_OF_MEMORY, \<lparr>hl_count = count, hl_list = None\<rparr>, common, bs)
         else do {
           (hs, common, bs) \<leftarrow> parse_headers (unat count) common bs;
           Some (OI_OK, \<lparr>hl_count = count, hl_list = Some hs\<rparr>, common, ByteStream_Close bs)
         }
       else Some (OI_OK, \<lparr>hl_count = count, hl_list = None\<rparr>, common, ByteStream_Close bs)
     }
   }"

section \<open>Header lists\<close>

text \<open>The first index with the id, or the count.\<close>

fun find_index :: "nat \<Rightarrow> u8 \<Rightarrow> OI_OBEX_HEADER list \<Rightarrow> nat" where
  "find_index i headerId [] = i"
| "find_index i headerId (h # hs) = (if hdr_id h = headerId then i else find_index (Suc i) headerId hs)"

text \<open>\<open>headers->list[i] = headers->list[i + 1]\<close> for the indices left.\<close>

fun close_gap :: "nat \<Rightarrow> nat \<Rightarrow> OI_OBEX_HEADER list \<Rightarrow> OI_OBEX_HEADER list" where
  "close_gap 0 i hs = hs"
| "close_gap (Suc n) i hs = close_gap n (Suc i) (hs[i := hs ! Suc i])"

definition OI_OBEXCOMMON_DeleteHeaderFromList ::
    "OI_OBEX_HEADER list \<Rightarrow> u8 \<Rightarrow> OI_STATUS \<times> OI_OBEX_HEADER list" where
  "OI_OBEXCOMMON_DeleteHeaderFromList hs headerId =
     (let i = find_index 0 headerId hs in
      if i = length hs then (OI_STATUS_NOT_FOUND, hs)
      else let count = length hs - 1 in (OI_OK, take count (close_gap (count - i) i hs)))"

definition OI_OBEX_FindHeader :: "OI_OBEX_HEADER list \<Rightarrow> u8 \<Rightarrow> OI_OBEX_HEADER option" where
  "OI_OBEX_FindHeader hs headerId =
     (let i = find_index 0 headerId hs in if i < length hs then Some (hs ! i) else None)"

section \<open>Application parameters\<close>

record OI_OBEX_APP_PARAM =
  ap_tag :: u8
  ap_len :: u8
  ap_data :: bytes

definition ScanAppParamsEntry :: "OI_BYTE_STREAM \<Rightarrow> (OI_STATUS \<times> OI_BYTE_STREAM) option" where
  "ScanAppParamsEntry bs = do {
     let bs = ByteStream_Skip_Checked bs 1;
     (len, bs) \<leftarrow> ByteStream_GetUINT8_Checked bs 0;
     let bs = ByteStream_Skip_Checked bs (unat len);
     Some (if ByteStream_Error bs then OI_OBEX_ERROR else OI_OK, bs)
   }"

definition ParseAppParamsEntry :: "OI_BYTE_STREAM \<Rightarrow> (OI_OBEX_APP_PARAM \<times> OI_BYTE_STREAM) option" where
  "ParseAppParamsEntry bs = do {
     (tag, bs) \<leftarrow> ByteStream_GetUINT8 bs;
     (len, bs) \<leftarrow> ByteStream_GetUINT8 bs;
     bs' \<leftarrow> ByteStream_Skip bs (unat len);
     data \<leftarrow> bs_peek (unat len) bs;
     Some (\<lparr>ap_tag = tag, ap_len = len, ap_data = data\<rparr>, bs')
   }"

lemma ScanAppParamsEntry_progress:
  assumes "ScanAppParamsEntry bs = Some (OI_OK, bs')"
  shows "bs_left bs' < bs_left bs"
proof -
  let ?bs1 = "ByteStream_Skip_Checked bs 1"
  obtain len bs2 where 2: "ByteStream_GetUINT8_Checked ?bs1 0 = Some (len, bs2)"
      "bs' = ByteStream_Skip_Checked bs2 (unat len)" "\<not> ByteStream_Error bs'"
    using assms by (auto simp: ScanAppParamsEntry_def monad_simps Let_def simp del: One_nat_def split: if_splits)
  then have "\<not> ByteStream_Error bs2" "bs_left bs' \<le> bs_left bs2"
    using Skip_Checked_left [of bs2 "unat len"] by auto
  with GetUINT8_Checked_left [OF 2(1)] Skip_Checked_left [of bs 1] show ?thesis
    by linarith
qed

function scan_params :: "OI_BYTE_STREAM \<Rightarrow> u8 \<Rightarrow> (OI_STATUS \<times> u8 \<times> OI_BYTE_STREAM) option" where
  "scan_params bs count =
     (if ByteStream_NumReadBytesAvail bs > 0 then
        case ScanAppParamsEntry bs of
          None \<Rightarrow> None
        | Some (status, bs) \<Rightarrow>
            if status = OI_OK then scan_params bs (count + 1) else Some (OI_OBEX_BAD_PACKET, 0, bs)
      else Some (OI_OK, count, bs))"
  by pat_completeness auto
termination
  by (relation "measure (\<lambda>(bs, count). bs_left bs)") (auto dest: ScanAppParamsEntry_progress)

declare scan_params.simps [simp del]

fun parse_params :: "nat \<Rightarrow> OI_BYTE_STREAM \<Rightarrow> (OI_OBEX_APP_PARAM list \<times> OI_BYTE_STREAM) option" where
  "parse_params 0 bs = Some ([], bs)"
| "parse_params (Suc n) bs = do {
     (p, bs) \<leftarrow> ParseAppParamsEntry bs;
     (ps, bs) \<leftarrow> parse_params n bs;
     Some (p # ps, bs)
   }"

definition OI_OBEX_ParseAppParamsHeader ::
    "bool \<Rightarrow> bytes \<Rightarrow> u16 \<Rightarrow> (OI_STATUS \<times> u8 \<times> OI_OBEX_APP_PARAM list option) option" where
  "OI_OBEX_ParseAppParamsHeader malloc_ok data len = do {
     bs \<leftarrow> ByteStream_Init blank_stream 0 data len;
     bs \<leftarrow> ByteStream_Open bs BYTESTREAM_READ;
     (status, count, bs) \<leftarrow> scan_params bs 0;
     if \<not> OI_SUCCESS status then Some (OI_OBEX_BAD_PACKET, 0, None)
     else do {
       bs \<leftarrow> ByteStream_SetPos bs 0;
       if count > 0 then
         if \<not> malloc_ok then Some (OI_STATUS_OUT_OF_MEMORY, count, None)
         else do {
           (ps, bs) \<leftarrow> parse_params (unat count) bs;
           Some (OI_OK, count, Some ps)
         }
       else Some (OI_OK, count, None)
     }
   }"

fun put_params :: "OI_OBEX_APP_PARAM list \<Rightarrow> OI_BYTE_STREAM \<Rightarrow> OI_BYTE_STREAM option" where
  "put_params [] bs = Some bs"
| "put_params (p # ps) bs = do {
     bs \<leftarrow> ByteStream_PutUINT8 bs (ap_tag p);
     bs \<leftarrow> ByteStream_PutUINT8 bs (ap_len p);
     bs \<leftarrow> ByteStream_PutBytes bs (ap_data p) (unat (ap_len p));
     put_params ps bs
   }"

text \<open>\<open>OI_OBEXCOMMON_BuildAppParamsHeader\<close> gives back the byte sequence; the memory it gets is
  uninitialised, zeros here.\<close>

definition OI_OBEXCOMMON_BuildAppParamsHeader ::
    "bool \<Rightarrow> OI_OBEX_APP_PARAM list \<Rightarrow> (OI_STATUS \<times> bytes \<times> u16) option" where
  "OI_OBEXCOMMON_BuildAppParamsHeader malloc_ok params = do {
     let len = foldl (\<lambda>len p. len + 2 + ucast (ap_len p)) (0 :: u16) params;
     if \<not> malloc_ok then Some (OI_STATUS_OUT_OF_MEMORY, [], len)
     else do {
       bs \<leftarrow> ByteStream_Init blank_stream 0 (replicate (unat len) 0) len;
       bs \<leftarrow> ByteStream_Open bs BYTESTREAM_WRITE;
       bs \<leftarrow> put_params params bs;
       OI_ASSERT (ByteStream_NumWriteBytesAllowed bs = 0);
       Some (OI_OK, bs_data bs, len)
     }
   }"

section \<open>A reference decoder\<close>

text \<open>The grammar of headers on plain bytes: the next header and what follows it.\<close>

fun decode_chars :: "nat \<Rightarrow> bytes \<Rightarrow> u16 list" where
  "decode_chars 0 xs = []"
| "decode_chars (Suc n) xs = GetUINT16_BigEndian xs # decode_chars n (drop 2 xs)"

definition next_hdr :: "bytes \<Rightarrow> (OI_OBEX_HEADER \<times> bytes) option" where
  "next_hdr bytes =
     (case bytes of [] \<Rightarrow> None
      | i # xs \<Rightarrow>
        (let n = unat (GetUINT16_BigEndian xs) in
         case OI_OBEX_HDR_KIND i of
           OI_OBEX_HDR_ID_UINT8 \<Rightarrow>
             if xs \<noteq> [] then Some (\<lparr>hdr_id = i, hdr_val = UINT8 (xs ! 0)\<rparr>, drop 1 xs) else None
         | OI_OBEX_HDR_ID_UINT32 \<Rightarrow>
             if 4 \<le> length xs then Some (\<lparr>hdr_id = i, hdr_val = UINT32 (GetUINT32_BigEndian xs)\<rparr>, drop 4 xs)
             else None
         | OI_OBEX_HDR_ID_BYTESEQ \<Rightarrow>
             if 2 \<le> length xs \<and> 3 \<le> n \<and> n \<le> length xs + 1
             then Some (\<lparr>hdr_id = i, hdr_val = BYTESEQ (if n = 3 then None else Some (take (n - 3) (drop 2 xs))) (of_nat (n - 3))\<rparr>,
                    drop (n - 1) xs)
             else None
         | OI_OBEX_HDR_ID_UNICODE \<Rightarrow>
             if 2 \<le> length xs \<and> 3 \<le> n \<and> n \<le> length xs + 1 \<and> odd n
             then Some (\<lparr>hdr_id = i, hdr_val = UNICODE (decode_chars ((n - 3) div 2) (drop 2 xs)) (of_nat ((n - 3) div 2))\<rparr>,
                    drop (n - 1) xs)
             else None))"

lemma next_hdr_shorter: "next_hdr xs = Some (h, r) \<Longrightarrow> length r < length xs"
  by (auto simp: next_hdr_def Let_def split: list.splits OBEX_KIND.splits if_splits)

function decode_hdrs :: "bytes \<Rightarrow> OI_OBEX_HEADER list option" where
  "decode_hdrs xs =
     (if xs = [] then Some []
      else case next_hdr xs of None \<Rightarrow> None | Some (h, r) \<Rightarrow> map_option ((#) h) (decode_hdrs r))"
  by pat_completeness auto
termination
  by (relation "measure length") (auto dest: next_hdr_shorter)

declare decode_hdrs.simps [simp del]

section \<open>The scan agrees with the decoder\<close>

text \<open>The stream moved on, everything else unchanged.\<close>

definition moved :: "OI_BYTE_STREAM \<Rightarrow> OI_BYTE_STREAM \<Rightarrow> bool" where
  "moved bs bs' \<longleftrightarrow> bs_reading bs' \<and> (\<exists>p. bs' = bs\<lparr>bs_pos := p\<rparr>)"

lemma moved_advance: "bs_reading bs \<Longrightarrow> n \<le> length (bs_rest bs) \<Longrightarrow> moved bs (bs_advance n bs)"
  unfolding moved_def using bs_reading_advance [of bs n] by (auto simp: bs_advance_def intro!: exI)

lemma moved_trans: "moved a b \<Longrightarrow> moved b c \<Longrightarrow> moved a c"
  by (auto simp: moved_def)

lemma moved_error: "moved a b \<Longrightarrow> ByteStream_Error b = ByteStream_Error a"
  by (auto simp: moved_def ByteStream_Error_def)

lemma bs_rest_bound: "bs_reading bs \<Longrightarrow> length (bs_rest bs) < 65536"
  by (simp add: length_bs_rest) (metis diff_le_self le_less_trans unat_lt_u16)

lemma Skip_Checked_fits:
  "bs_reading bs \<Longrightarrow> \<not> ByteStream_Error bs \<Longrightarrow> n \<le> length (bs_rest bs) \<Longrightarrow>
     moved bs (ByteStream_Skip_Checked bs n) \<and> bs_rest (ByteStream_Skip_Checked bs n) = drop n (bs_rest bs)"
  by (simp add: bs_read_simps moved_advance)

lemma Skip_Checked_over:
  "bs_reading bs \<Longrightarrow> length (bs_rest bs) < n \<Longrightarrow> ByteStream_Error (ByteStream_Skip_Checked bs n)"
  by (simp add: bs_read_simps ByteStream_Error_def)

definition scanned :: "OI_BYTE_STREAM \<Rightarrow> (OI_STATUS \<times> OI_BYTE_STREAM) option \<Rightarrow> bool" where
  "scanned bs result \<longleftrightarrow> (\<exists>status bs'. result = Some (status, bs') \<and>
     (case next_hdr (bs_rest bs) of
        None \<Rightarrow> status \<noteq> OI_OK
      | Some (h, r) \<Rightarrow> status = OI_OK \<and> moved bs bs' \<and> bs_rest bs' = r))"

lemma ScanHeader_skip:
  assumes "bs_reading bs1" "\<not> ByteStream_Error bs1"
    and "ScanLength (OI_OBEX_HDR_KIND i) bs1 = Some (OI_OK, len, bs2)" "moved bs1 bs2"
    and "ByteStream_GetUINT8_Checked bs 0 = Some (i, bs1)"
  shows "ScanHeader bs =
    Some (if unat len \<le> length (bs_rest bs2) then OI_OK else OI_OBEX_ERROR, ByteStream_Skip_Checked bs2 (unat len))"
proof -
  have r: "bs_reading bs2" and e: "\<not> ByteStream_Error bs2"
    using assms(2,4) moved_error [OF assms(4)] by (auto simp: moved_def)
  show ?thesis
  proof (cases "unat len \<le> length (bs_rest bs2)")
    case True
    then have "\<not> ByteStream_Error (ByteStream_Skip_Checked bs2 (unat len))"
      using Skip_Checked_fits [OF r e True] e by (auto dest: moved_error)
    with True assms(3,5) show ?thesis
      by (simp add: ScanHeader_def OI_SUCCESS_def Let_def)
  next
    case False
    then show ?thesis
      using Skip_Checked_over [OF r, of "unat len"] assms(3,5)
      by (simp add: ScanHeader_def OI_SUCCESS_def Let_def)
  qed
qed

lemma odd_len: "(len :: u16) AND 1 \<noteq> 0 \<longleftrightarrow> odd (unat len)"
proof -
  have "unat (len mod 2) = unat len mod 2"
    by (simp add: unat_mod)
  then have "(len mod 2 = 1) = (unat len mod 2 = 1)"
    using word_unat_eqI [of "len mod 2" 1] by fastforce
  then show ?thesis
    by (simp add: and_one_eq odd_iff_mod_2_eq_one)
qed

lemma ScanHeader_decodes:
  assumes bs: "bs_reading bs" "\<not> ByteStream_Error bs" and ne: "bs_rest bs \<noteq> []"
  shows "scanned bs (ScanHeader bs)"
proof -
  obtain i xs where rest: "bs_rest bs = i # xs"
    using ne by (cases "bs_rest bs") auto
  let ?bs1 = "bs_advance 1 bs"
  have get: "ByteStream_GetUINT8_Checked bs 0 = Some (i, ?bs1)"
    using bs(1) rest by (simp add: bs_read_simps)
  have bs1: "bs_reading ?bs1" "bs_rest ?bs1 = xs" "moved bs ?bs1" "\<not> ByteStream_Error ?bs1"
    using bs rest moved_advance [of bs 1] by (auto simp: ByteStream_Error_def)
  have len: "length xs \<le> 65534"
    using bs_rest_bound [OF bs(1)] rest by simp
  have fixed: ?thesis if "ScanLength (OI_OBEX_HDR_KIND i) ?bs1 = Some (OI_OK, n, ?bs1)"
    and "next_hdr (i # xs) = (if unat n \<le> length xs then Some (h, drop (unat n) xs) else None)" for n h
    using ScanHeader_skip [OF bs1(1,4) that(1) _ get] that(2) Skip_Checked_fits [OF bs1(1,4), of "unat n"]
      bs1 moved_advance [OF bs1(1), of 0] rest
    by (auto simp: scanned_def moved_def bs_advance_def intro: moved_trans)
  have prefixed: ?thesis if k: "OI_OBEX_HDR_KIND i = OI_OBEX_HDR_ID_BYTESEQ \<or> OI_OBEX_HDR_KIND i = OI_OBEX_HDR_ID_UNICODE"
  proof (cases "2 \<le> length xs")
    case False
    then have "ByteStream_GetUINT16_Checked ?bs1 0 OI_BIG_ENDIAN_BYTE_ORDER = Some (0, ?bs1\<lparr>bs_error := 1\<rparr>)"
      using bs1 by (simp add: bs_read_simps)
    then have l: "ScanLength (OI_OBEX_HDR_KIND i) ?bs1 =
        Some (if OI_OBEX_HDR_KIND i = OI_OBEX_HDR_ID_UNICODE then OI_OBEX_ERROR else OI_OK, 65533, ?bs1\<lparr>bs_error := 1\<rparr>)"
      using k by (auto simp: ScanLength_def OI_OBEX_HEADER_PREFIX_LEN_def Let_def)
    moreover have "ByteStream_Error (ByteStream_Skip_Checked (?bs1\<lparr>bs_error := 1\<rparr>) 65533)"
      using Skip_Checked_left [of "?bs1\<lparr>bs_error := 1\<rparr>" 65533] by (simp add: ByteStream_Error_def)
    moreover have "next_hdr (i # xs) = None"
      using False k by (auto simp: next_hdr_def Let_def)
    ultimately show ?thesis
      using get rest by (auto simp: scanned_def ScanHeader_def OI_SUCCESS_def Let_def)
  next
    case True
    let ?L = "GetUINT16_BigEndian xs" and ?bs2 = "bs_advance 2 ?bs1"
    have bs2: "bs_reading ?bs2" "bs_rest ?bs2 = drop 2 xs" "moved ?bs1 ?bs2"
      using True bs1 by (simp_all add: moved_advance)
    have get2: "ByteStream_GetUINT16_Checked ?bs1 0 OI_BIG_ENDIAN_BYTE_ORDER = Some (?L, ?bs2)"
      using True bs1 by (simp add: bs_read_simps)
    show ?thesis
    proof (cases "3 \<le> unat ?L")
      case False
      then have "unat (?L - 3) = unat ?L + 65533"
        by (subst unat_sub_if') (simp add: word_le_nat_alt)
      then have big: "length (bs_rest ?bs2) < unat (?L - 3)"
        using bs2(2) len by simp
      have nh: "next_hdr (i # xs) = None"
        using False k by (auto simp: next_hdr_def Let_def)
      show ?thesis
      proof (cases "OI_OBEX_HDR_KIND i = OI_OBEX_HDR_ID_UNICODE \<and> odd (unat (?L - 3))")
        case True
        then show ?thesis
          using get get2 nh rest
          by (auto simp: scanned_def ScanHeader_def ScanLength_def OI_SUCCESS_def Let_def odd_len
              OI_OBEX_HEADER_PREFIX_LEN_def)
      next
        case False
        then have "ScanLength (OI_OBEX_HDR_KIND i) ?bs1 = Some (OI_OK, ?L - 3, ?bs2)"
          using k get2 by (auto simp: ScanLength_def Let_def odd_len OI_OBEX_HEADER_PREFIX_LEN_def)
        from ScanHeader_skip [OF bs1(1,4) this bs2(3) get] nh big rest show ?thesis
          by (simp add: scanned_def)
      qed
    next
      case L3: True
      then have L: "unat (?L - 3) = unat ?L - 3"
        by (simp add: unat_sub_u16)
      show ?thesis
      proof (cases "OI_OBEX_HDR_KIND i = OI_OBEX_HDR_ID_UNICODE \<and> odd (unat (?L - 3))")
        case True
        moreover have "next_hdr (i # xs) = None"
          using True L L3 by (auto simp: next_hdr_def Let_def)
        ultimately show ?thesis
          using get get2 rest
          by (auto simp: scanned_def ScanHeader_def ScanLength_def OI_SUCCESS_def Let_def odd_len
              OI_OBEX_HEADER_PREFIX_LEN_def)
      next
        case False
        then have l: "ScanLength (OI_OBEX_HDR_KIND i) ?bs1 = Some (OI_OK, ?L - 3, ?bs2)"
          using k get2 by (auto simp: ScanLength_def Let_def odd_len OI_OBEX_HEADER_PREFIX_LEN_def)
        have "\<exists>h. next_hdr (i # xs) =
            (if unat ?L - 3 \<le> length xs - 2 then Some (h, drop (unat ?L - 1) xs) else None)"
          using False L L3 k True by (auto simp: next_hdr_def Let_def)
        then obtain h where h: "next_hdr (i # xs) =
            (if unat ?L - 3 \<le> length xs - 2 then Some (h, drop (unat ?L - 1) xs) else None)"
          by blast
        have "unat ?L - 3 + 2 = unat ?L - 1"
          using L3 by simp
        then have d: "drop (unat ?L - 3) (drop 2 xs) = drop (unat ?L - 1) xs"
          by (simp only: drop_drop)
        have e2: "\<not> ByteStream_Error ?bs2"
          using moved_error [OF bs2(3)] bs1(4) by simp
        have sc: "ScanHeader bs = Some (if unat ?L - 3 \<le> length xs - 2 then OI_OK else OI_OBEX_ERROR,
            ByteStream_Skip_Checked ?bs2 (unat ?L - 3))"
          using ScanHeader_skip [OF bs1(1,4) l bs2(3) get] bs2(2) unfolding L by simp
        show ?thesis
        proof (cases "unat ?L - 3 \<le> length xs - 2")
          case fit: True
          have "moved ?bs2 (ByteStream_Skip_Checked ?bs2 (unat ?L - 3))"
            "bs_rest (ByteStream_Skip_Checked ?bs2 (unat ?L - 3)) = drop (unat ?L - 1) xs"
            using Skip_Checked_fits [OF bs2(1) e2, of "unat ?L - 3"] fit bs2(2) d by auto
          moreover from this(1) have "moved bs (ByteStream_Skip_Checked ?bs2 (unat ?L - 3))"
            using moved_trans [OF bs1(3) moved_trans [OF bs2(3)]] by blast
          ultimately show ?thesis
            using sc h fit rest by (simp add: scanned_def)
        next
          case False
          then show ?thesis
            using sc h rest by (simp add: scanned_def)
        qed
      qed
    qed
  qed
  show ?thesis
  proof (cases "OI_OBEX_HDR_KIND i")
    case OI_OBEX_HDR_ID_UINT8
    then show ?thesis
      by (intro fixed [of 1 "\<lparr>hdr_id = i, hdr_val = UINT8 (xs ! 0)\<rparr>"])
        (simp_all add: ScanLength_def next_hdr_def Let_def Suc_le_eq)
  next
    case OI_OBEX_HDR_ID_UINT32
    then show ?thesis
      by (intro fixed [of 4 "\<lparr>hdr_id = i, hdr_val = UINT32 (GetUINT32_BigEndian xs)\<rparr>"])
        (simp_all add: ScanLength_def next_hdr_def Let_def)
  qed (use prefixed in auto)
qed

text \<open>The whole scan counts the headers of a well-formed packet, at eight bits.\<close>

lemma scan_headers_decodes:
  "bs_reading bs \<Longrightarrow> \<not> ByteStream_Error bs \<Longrightarrow>
     \<exists>status n bs'. scan_headers bs count = Some (status, n, bs') \<and>
       (case decode_hdrs (bs_rest bs) of
          None \<Rightarrow> status = OI_OBEX_BAD_PACKET \<and> n = 0
        | Some hs \<Rightarrow> status = OI_OK \<and> n = count + of_nat (length hs) \<and> moved bs bs')"
proof (induction bs count rule: scan_headers.induct)
  case (1 bs count)
  have avail: "ByteStream_NumReadBytesAvail bs > 0 \<longleftrightarrow> bs_rest bs \<noteq> []"
    using 1(2) by (simp add: bs_avail)
  show ?case
  proof (cases "bs_rest bs = []")
    case True
    then show ?thesis
      using 1(2) avail moved_advance [of bs 0]
      by (subst scan_headers.simps) (simp add: decode_hdrs.simps bs_advance_def)
  next
    case False
    obtain status bs' where sc: "ScanHeader bs = Some (status, bs')"
        "case next_hdr (bs_rest bs) of None \<Rightarrow> status \<noteq> OI_OK
         | Some (h, r) \<Rightarrow> status = OI_OK \<and> moved bs bs' \<and> bs_rest bs' = r"
      using ScanHeader_decodes [OF 1(2,3) False] by (auto simp: scanned_def)
    show ?thesis
    proof (cases "next_hdr (bs_rest bs)")
      case None
      then show ?thesis
        using False sc avail by (subst scan_headers.simps) (simp add: decode_hdrs.simps)
    next
      case (Some hr)
      then obtain h where h: "next_hdr (bs_rest bs) = Some (h, bs_rest bs')" "status = OI_OK" "moved bs bs'"
        using sc(2) by (cases hr) auto
      have "bs_reading bs'" "\<not> ByteStream_Error bs'"
        using h(3) 1(3) moved_error [OF h(3)] by (auto simp: moved_def)
      then obtain st n bs2 where "scan_headers bs' (count + 1) = Some (st, n, bs2)"
          "case decode_hdrs (bs_rest bs') of None \<Rightarrow> st = OI_OBEX_BAD_PACKET \<and> n = 0
           | Some hs \<Rightarrow> st = OI_OK \<and> n = count + 1 + of_nat (length hs) \<and> moved bs' bs2"
        using 1(1) False avail sc(1) h(2) by fastforce
      moreover have "scan_headers bs count = scan_headers bs' (count + 1)"
        using False avail sc(1) h(2) by (subst scan_headers.simps) simp
      moreover have "decode_hdrs (bs_rest bs) = map_option ((#) h) (decode_hdrs (bs_rest bs'))"
        using False h(1) by (subst decode_hdrs.simps) simp
      ultimately show ?thesis
        using moved_trans [OF h(3)] by (auto split: option.splits)
    qed
  qed
qed


section \<open>The parser agrees with the decoder\<close>

lemma decode_chars_length [simp]: "length (decode_chars n xs) = n"
  by (induction n arbitrary: xs) simp_all

lemma load_chars_concat:
  "load_chars (length cs) (length pre) (pre @ concat (map SetUINT16_LittleEndian cs) @ post) = cs"
proof (induction cs arbitrary: pre)
  case (Cons c cs)
  have g: "GetUINT16_LittleEndian (SetUINT16_LittleEndian c @ zs) = c" for zs
    using Get_Set_UINT16_LittleEndian [of c]
    by (simp add: GetUINT16_LittleEndian_def SetUINT16_LittleEndian_def)
  show ?case
    using Cons.IH [of "pre @ SetUINT16_LittleEndian c"] by (simp add: g)
qed simp

lemma load_chars_overwrite:
  assumes "base \<le> length d"
  shows "load_chars (length cs) base (overwrite base (concat (map SetUINT16_LittleEndian cs)) d) = cs"
proof -
  have "length (take base d) = base"
    using assms by simp
  then show ?thesis
    using load_chars_concat [of cs "take base d" "drop (base + length (concat (map SetUINT16_LittleEndian cs))) d"]
    by (simp only: overwrite_def)
qed

lemma swap_chars_ok:
  assumes "bs_reading bs" "2 * n \<le> length (bs_rest bs)" "base \<le> unat (bs_pos bs)"
  shows "\<exists>bs'. swap_chars n base bs = Some bs' \<and> bs_reading bs' \<and> bs_rest bs' = drop (2 * n) (bs_rest bs) \<and>
    bs_error bs' = bs_error bs \<and> bs_addr bs' = bs_addr bs \<and>
    bs_data bs' = overwrite base (concat (map SetUINT16_LittleEndian (decode_chars n (bs_rest bs)))) (bs_data bs)"
  using assms
proof (induction n arbitrary: base bs)
  case (Suc n)
  let ?bs1 = "bs_advance 2 bs" and ?c = "GetUINT16_BigEndian (bs_rest bs)"
  let ?bs2 = "?bs1\<lparr>bs_data := overwrite base (SetUINT16_LittleEndian ?c) (bs_data bs)\<rparr>"
  have get: "ByteStream_GetUINT16 bs OI_BIG_ENDIAN_BYTE_ORDER = Some (?c, ?bs1)"
    using Suc.prems by (simp add: bs_read_simps)
  have lim: "unat (bs_pos bs) + 2 \<le> unat (bs_size bs)" "unat (bs_size bs) \<le> length (bs_data bs)"
    using Suc.prems bs_wf_limit [of bs 2] by (auto simp: bs_reading_def bs_wf_def)
  then have b: "base + 2 \<le> length (bs_data bs)" "unat (bs_pos ?bs1) = unat (bs_pos bs) + 2"
    using Suc.prems(3) bs_pos_advance [of bs 2] by auto
  have r1: "bs_reading ?bs1" "bs_rest ?bs1 = drop 2 (bs_rest bs)"
    using Suc.prems by simp_all
  have len: "length (overwrite base (SetUINT16_LittleEndian ?c) (bs_data bs)) = length (bs_data bs)"
    using b by simp
  have r2: "bs_reading ?bs2"
    using r1(1) len by (simp add: bs_reading_def bs_wf_def)
  have "drop (unat (bs_pos ?bs1)) (overwrite base (SetUINT16_LittleEndian ?c) (bs_data bs)) =
      drop (unat (bs_pos ?bs1)) (bs_data bs)"
    using b Suc.prems(3) by (intro drop_overwrite_after) simp_all
  then have r3: "bs_rest ?bs2 = drop 2 (bs_rest bs)"
    using r1(2) by (simp add: bs_rest_def drop_take)
  obtain bs' where bs': "swap_chars n (base + 2) ?bs2 = Some bs'" "bs_reading bs'"
      "bs_rest bs' = drop (2 * n) (bs_rest ?bs2)" "bs_error bs' = bs_error bs" "bs_addr bs' = bs_addr bs"
      "bs_data bs' = overwrite (base + 2) (concat (map SetUINT16_LittleEndian (decode_chars n (bs_rest ?bs2)))) (bs_data ?bs2)"
  proof -
    have "2 * n \<le> length (bs_rest ?bs2)" "base + 2 \<le> unat (bs_pos ?bs2)"
      using Suc.prems r3 b(2) by simp_all
    from Suc.IH [OF r2 this] show thesis
      by (elim exE conjE) (rule that, simp_all)
  qed
  have "base + 2 + 2 * n \<le> length (bs_data bs)"
  proof -
    have "unat (bs_pos bs) + 2 * Suc n \<le> unat (bs_size bs)"
      using Suc.prems bs_wf_limit [of bs "2 * Suc n"] by (simp add: bs_reading_def)
    then show ?thesis
      using lim(2) Suc.prems(3) by simp
  qed
  then have "bs_data bs' = overwrite base (concat (map SetUINT16_LittleEndian (decode_chars (Suc n) (bs_rest bs)))) (bs_data bs)"
    using overwrite_overwrite_next [of base "SetUINT16_LittleEndian ?c"
        "concat (map SetUINT16_LittleEndian (decode_chars n (drop 2 (bs_rest bs))))" "bs_data bs"] bs'(6) r3
    by (simp add: length_concat comp_def sum_list_triv)
  with get b(1) bs' r3 show ?case
    by (auto simp: monad_simps)
qed simp

lemma ParseHeader_decodes:
  assumes bs: "bs_reading bs" and next_h: "next_hdr (bs_rest bs) = Some (h, r)"
  shows "\<exists>common' bs'. ParseHeader common bs = Some (h, common', bs') \<and> bs_reading bs' \<and> bs_rest bs' = r"
proof -
  obtain i xs where rest: "bs_rest bs = i # xs"
    using next_h by (cases "bs_rest bs") (auto simp: next_hdr_def)
  let ?bs1 = "bs_advance 1 bs"
  have get: "ByteStream_GetUINT8 bs = Some (i, ?bs1)"
    using bs rest by (simp add: bs_read_simps)
  have bs1: "bs_reading ?bs1" "bs_rest ?bs1 = xs"
    using bs rest by auto
  let ?L = "GetUINT16_BigEndian xs" and ?bs2 = "bs_advance 2 ?bs1"
  have pos1: "unat (bs_pos ?bs1) = unat (bs_pos bs) + 1"
    using bs rest bs_wf_limit [of bs 1] by (intro bs_pos_advance) (simp add: bs_reading_def)
  have prefix: "ByteStream_GetUINT16 ?bs1 OI_BIG_ENDIAN_BYTE_ORDER = Some (?L, ?bs2)"
    "bs_reading ?bs2" "bs_rest ?bs2 = drop 2 xs" "1 \<le> unat (bs_pos ?bs2)" if "2 \<le> length xs"
  proof -
    have "unat (bs_pos ?bs1) + 2 \<le> unat (bs_size ?bs1)"
      using bs1 that bs_wf_limit [of ?bs1 2] by (simp add: bs_reading_def del: bs_advance_fields)
    then have "unat (bs_pos ?bs2) = unat (bs_pos ?bs1) + 2"
      by (rule bs_pos_advance)
    then show "1 \<le> unat (bs_pos ?bs2)"
      by simp
  qed (use bs1 that in \<open>simp_all add: bs_read_simps\<close>)
  have L3: "unat (?L - 3) = unat ?L - 3" if "3 \<le> unat ?L"
    using that by (simp add: unat_sub_u16)
  have d: "drop (unat ?L - 3) (drop 2 xs) = drop (unat ?L - 1) xs" if "3 \<le> unat ?L"
  proof -
    have "unat ?L - 3 + 2 = unat ?L - 1"
      using that by simp
    then show ?thesis
      by (simp only: drop_drop)
  qed
  show ?thesis
  proof (cases "OI_OBEX_HDR_KIND i")
    case OI_OBEX_HDR_ID_UNICODE
    then have u: "2 \<le> length xs" "3 \<le> unat ?L" "unat ?L \<le> length xs + 1" "odd (unat ?L)"
        "h = \<lparr>hdr_id = i, hdr_val = UNICODE (decode_chars ((unat ?L - 3) div 2) (drop 2 xs)) (of_nat ((unat ?L - 3) div 2))\<rparr>"
        "r = drop (unat ?L - 1) xs"
      using next_h rest by (auto simp: next_hdr_def Let_def split: if_splits)
    let ?n = "(unat ?L - 3) div 2"
    have ev: "even (unat ?L - 3)"
      using u(2,4) by presburger
    have n: "unat ((?L - 3) div 2) = ?n" "2 * ?n = unat ?L - 3" "(?L - 3) mod 2 = 0"
      using L3 [OF u(2)] ev by (auto simp: unat_div unat_mod intro: word_unat_eqI)
    have w: "(of_nat ?n :: u16) = (?L - 3) div 2"
      unfolding n(1) [symmetric] by simp
    show ?thesis
    proof (cases "?n = 0")
      case True
      moreover have "(?L - 3) div 2 = 0" "unat ?L = 3"
        using True n u(2) by (auto intro: word_unat_eqI)
      ultimately show ?thesis
        using get prefix [OF u(1)] u n OI_OBEX_HDR_ID_UNICODE
        by (auto simp: ParseHeader_def Let_def OI_OBEX_HEADER_PREFIX_LEN_def monad_simps)
    next
      case False
      then have nz: "(?L - 3) div 2 \<noteq> 0"
        using n(1) by auto
      define base where "base = char_base ?bs2"
      have b: "base \<le> unat (bs_pos ?bs2)"
        by (simp add: base_def char_base_def)
      have fits: "2 * ?n \<le> length (bs_rest ?bs2)"
        using n(2) u prefix [OF u(1)] by simp
      obtain bs' where bs': "swap_chars ?n base ?bs2 = Some bs'" "bs_reading bs'"
          "bs_rest bs' = drop (2 * ?n) (bs_rest ?bs2)"
          "bs_data bs' = overwrite base (concat (map SetUINT16_LittleEndian (decode_chars ?n (bs_rest ?bs2)))) (bs_data ?bs2)"
        using swap_chars_ok [OF prefix(2) [OF u(1)] fits b] by blast
      have "base \<le> length (bs_data ?bs2)"
        using b prefix(2) [OF u(1)] by (auto simp: bs_reading_def bs_wf_def)
      then have "load_chars ?n base (bs_data bs') = decode_chars ?n (drop 2 xs)"
        using load_chars_overwrite [of base "bs_data ?bs2" "decode_chars ?n (drop 2 xs)"] prefix(3) [OF u(1)]
        by (simp add: bs'(4))
      then show ?thesis
        using get prefix [OF u(1)] u n w nz bs' d OI_OBEX_HDR_ID_UNICODE
        by (simp add: ParseHeader_def Let_def OI_OBEX_HEADER_PREFIX_LEN_def monad_simps base_def)
    qed
  next
    case OI_OBEX_HDR_ID_BYTESEQ
    then have u: "2 \<le> length xs" "3 \<le> unat ?L" "unat ?L \<le> length xs + 1"
        "h = \<lparr>hdr_id = i, hdr_val = BYTESEQ (if unat ?L = 3 then None else Some (take (unat ?L - 3) (drop 2 xs))) (of_nat (unat ?L - 3))\<rparr>"
        "r = drop (unat ?L - 1) xs"
      using next_h rest word_unat_eqI [of ?L 3] by (auto simp: next_hdr_def Let_def split: if_splits)
    have fits: "unat (?L - 3) \<le> length (bs_rest ?bs2)"
      using u prefix L3 by simp
    have w: "(of_nat (unat ?L - 3) :: u16) = ?L - 3"
      unfolding L3 [OF u(2), symmetric] by simp
    have z: "?L - 3 = 0 \<longleftrightarrow> unat ?L = 3"
    proof -
      have "unat (?L - 3) = 0 \<longleftrightarrow> unat ?L = 3"
        using L3 [OF u(2)] u(2) by auto
      then show ?thesis
        by (simp only: unat_eq_zero)
    qed
    have "?L = 3" if "unat ?L = 3"
      using that by (intro word_unat_eqI) simp
    then show ?thesis
      using get prefix [OF u(1)] u fits L3 w z d OI_OBEX_HDR_ID_BYTESEQ bs_peek_rest [of ?bs2 "unat ?L - 3"]
      by (simp add: ParseHeader_def Let_def OI_OBEX_HEADER_PREFIX_LEN_def bs_read_simps)
  next
    case OI_OBEX_HDR_ID_UINT8
    then have "h = \<lparr>hdr_id = i, hdr_val = UINT8 (xs ! 0)\<rparr>" "r = drop 1 xs" "1 \<le> length xs"
      using next_h rest by (auto simp: next_hdr_def Let_def Suc_le_eq split: if_splits)
    with OI_OBEX_HDR_ID_UINT8 get bs1 show ?thesis
      by (auto simp: ParseHeader_def bs_read_simps)
  next
    case OI_OBEX_HDR_ID_UINT32
    then have "h = \<lparr>hdr_id = i, hdr_val = UINT32 (GetUINT32_BigEndian xs)\<rparr>" "r = drop 4 xs" "4 \<le> length xs"
      using next_h rest by (auto simp: next_hdr_def Let_def split: if_splits)
    with OI_OBEX_HDR_ID_UINT32 get bs1 show ?thesis
      by (auto simp: ParseHeader_def bs_read_simps)
  qed
qed

lemma decode_hdrs_Cons:
  "decode_hdrs xs = Some (h # hs) \<Longrightarrow> \<exists>r. next_hdr xs = Some (h, r) \<and> decode_hdrs r = Some hs"
  by (subst (asm) decode_hdrs.simps) (auto split: if_splits option.splits)

lemma parse_headers_decodes:
  "decode_hdrs (bs_rest bs) = Some hs \<Longrightarrow> bs_reading bs \<Longrightarrow> n \<le> length hs \<Longrightarrow>
     \<exists>common' bs'. parse_headers n common bs = Some (take n hs, common', bs')"
proof (induction n arbitrary: bs hs common)
  case (Suc n)
  then obtain h hs' where hs: "hs = h # hs'"
    by (cases hs) auto
  then obtain r where r: "next_hdr (bs_rest bs) = Some (h, r)" "decode_hdrs r = Some hs'"
    using Suc.prems(1) decode_hdrs_Cons by blast
  then obtain common' bs' where p: "ParseHeader common bs = Some (h, common', bs')" "bs_reading bs'" "bs_rest bs' = r"
    using ParseHeader_decodes [OF Suc.prems(2)] by blast
  then show ?case
    using Suc.IH [of bs' hs' common'] r hs Suc.prems(3) by auto
qed simp

section \<open>Decoding what was encoded\<close>

text \<open>A header as its receiver sees it: exactly the bytes and characters its length covers.\<close>

definition hdr_norm :: "OI_OBEX_HEADER \<Rightarrow> OI_OBEX_HEADER" where
  "hdr_norm h = h\<lparr>hdr_val :=
     (case hdr_val h of
        UNICODE str len \<Rightarrow> UNICODE (take (unat len) str) len
      | BYTESEQ data len \<Rightarrow> BYTESEQ (if len = 0 then None else map_option (take (unat len)) data) len
      | v \<Rightarrow> v)\<rparr>"

lemma decode_chars_concat: "decode_chars (length cs) (concat (map SetUINT16_BigEndian cs) @ r) = cs"
  by (induction cs) (simp_all add: SetUINT16_BigEndian_def [symmetric])

lemma Get32_Set_append [simp]: "GetUINT32_BigEndian (SetUINT32_BigEndian v @ xs) = v"
  using Get_Set_UINT32_BigEndian [of v] by (simp add: GetUINT32_BigEndian_def SetUINT32_BigEndian_def)

lemma next_hdr_enc:
  assumes "hdr_ok_out h"
  shows "next_hdr (enc_hdr h @ r) = Some (hdr_norm h, r)"
  using assms
proof (cases rule: hdr_ok_out_cases)
  case (unicode str len)
  have n: "unat (3 + len * 2) = 3 + 2 * unat len"
    using unicode(4) by (rule unat_prefix)
  let ?cs = "take (unat len) str"
  have "decode_chars (unat len) (concat (map SetUINT16_BigEndian ?cs) @ r) = ?cs"
    using decode_chars_concat [of ?cs r] unicode(3) by simp
  with n unicode show ?thesis
    by (simp add: enc_hdr_def next_hdr_def Let_def hdr_norm_def OI_OBEX_HEADER.equality)
next
  case (byteseq data len)
  have n: "unat (3 + len) = 3 + unat len"
    using byteseq(3) by (rule unat_prefix)
  show ?thesis
  proof (cases "len = 0")
    case True
    with byteseq show ?thesis
      by (simp add: enc_hdr_def next_hdr_def Let_def hdr_norm_def OI_OBEX_HEADER.equality)
  next
    case False
    then obtain b where "data = Some b" "unat len \<le> length b"
      using byteseq(4) by auto
    moreover have "unat len \<noteq> 0"
      using False by (simp add: unat_eq_zero)
    ultimately show ?thesis
      using byteseq(1,2) n False
      by (simp add: enc_hdr_def next_hdr_def Let_def hdr_norm_def OI_OBEX_HEADER.equality)
  qed
next
  case (uint8 v)
  then show ?thesis
    by (simp add: enc_hdr_def next_hdr_def Let_def hdr_norm_def OI_OBEX_HEADER.equality)
next
  case (uint32 v)
  then show ?thesis
    by (simp add: enc_hdr_def next_hdr_def Let_def hdr_norm_def OI_OBEX_HEADER.equality)
qed

lemma decode_hdrs_enc:
  "\<forall>h \<in> set hs. hdr_ok_out h \<Longrightarrow> decode_hdrs (concat (map enc_hdr hs)) = Some (map hdr_norm hs)"
proof (induction hs)
  case Nil
  then show ?case
    by (simp add: decode_hdrs.simps)
next
  case (Cons h hs)
  have "enc_hdr h \<noteq> []"
    by (simp add: enc_hdr_def)
  then show ?case
    using Cons next_hdr_enc [of h "concat (map enc_hdr hs)"] by (subst decode_hdrs.simps) simp
qed

lemma ParseHeaderList_decodes:
  assumes bs: "bs_reading bs" "\<not> ByteStream_Error bs"
  shows "case decode_hdrs (bs_rest bs) of
      None \<Rightarrow> \<exists>bs'. OI_OBEXCOMMON_ParseHeaderList malloc_ok common bs =
        Some (OI_OBEX_BAD_PACKET, \<lparr>hl_count = 0, hl_list = None\<rparr>, common, bs')
    | Some hs \<Rightarrow>
        let n = length hs mod 256 in
        \<exists>common' bs'. OI_OBEXCOMMON_ParseHeaderList malloc_ok common bs =
          Some (if n \<noteq> 0 \<and> \<not> malloc_ok then OI_STATUS_OUT_OF_MEMORY else OI_OK,
            \<lparr>hl_count = of_nat n, hl_list = if n \<noteq> 0 \<and> malloc_ok then Some (take n hs) else None\<rparr>,
            common', bs')"
proof -
  obtain status n bs1 where sc: "scan_headers bs 0 = Some (status, n, bs1)"
      "case decode_hdrs (bs_rest bs) of
          None \<Rightarrow> status = OI_OBEX_BAD_PACKET \<and> n = 0
        | Some hs \<Rightarrow> status = OI_OK \<and> n = 0 + of_nat (length hs) \<and> moved bs bs1"
    using scan_headers_decodes [OF bs, of 0] by blast
  show ?thesis
  proof (cases "decode_hdrs (bs_rest bs)")
    case None
    with sc show ?thesis
      by (simp add: OI_OBEXCOMMON_ParseHeaderList_def OI_SUCCESS_def Let_def)
  next
    case (Some hs)
    then have mv: "moved bs bs1" and n: "n = of_nat (length hs)" "status = OI_OK"
      using sc(2) by auto
    have nat: "unat n = length hs mod 256" "n = of_nat (length hs mod 256)"
    proof -
      show "unat n = length hs mod 256"
        unfolding n(1) by (simp add: unat_of_nat take_bit_eq_mod)
      show "n = of_nat (length hs mod 256)"
        unfolding n(1) by (rule word_unat_eqI) (simp add: unat_of_nat take_bit_eq_mod)
    qed
    have rewind: "ByteStream_SetPos bs1 (bs_pos bs) = Some bs"
      using mv bs by (auto simp: moved_def ByteStream_SetPos_def monad_simps bs_reading_def bs_wf_def)
    obtain common' bs' where "parse_headers (unat n) common bs = Some (take (unat n) hs, common', bs')"
      using parse_headers_decodes [OF Some bs(1), of "unat n"] nat(1) by fastforce
    moreover have "0 < n \<longleftrightarrow> length hs mod 256 \<noteq> 0"
      using nat(1) by (simp add: word_less_nat_alt)
    ultimately show ?thesis
      using Some sc(1) n rewind nat
      by (cases malloc_ok) (auto simp: OI_OBEXCOMMON_ParseHeaderList_def OI_SUCCESS_def Let_def)
  qed
qed

section \<open>Header lists as lists\<close>

lemma find_index_eq: "find_index i x hs = i + length (takeWhile (\<lambda>h. hdr_id h \<noteq> x) hs)"
  by (induction hs arbitrary: i) auto

lemma close_gap_eq:
  "i + n + 1 = length hs \<Longrightarrow> close_gap n i hs = take i hs @ drop (Suc i) hs @ [last hs]"
proof (induction n arbitrary: i hs)
  case 0
  then have "i = length hs - 1" "hs \<noteq> []"
    by auto
  then show ?case
    using append_butlast_last_id [of hs] by (simp add: butlast_conv_take)
next
  case (Suc n)
  let ?hs = "hs[i := hs ! Suc i]"
  have i: "Suc i < length hs" "i < length hs - 1"
    using Suc.prems by auto
  have "close_gap n (Suc i) ?hs = take (Suc i) ?hs @ drop (Suc (Suc i)) ?hs @ [last ?hs]"
    using Suc.prems by (intro Suc.IH) simp
  moreover have "take (Suc i) ?hs = take i hs @ [hs ! Suc i]"
    using i by (simp add: take_Suc_conv_app_nth)
  moreover have "last ?hs = last hs"
    using i by (cases "hs = []") (auto simp: last_conv_nth)
  ultimately show ?case
    using i by (simp add: Cons_nth_drop_Suc)
qed

section \<open>Application parameters as bytes\<close>

definition enc_param :: "OI_OBEX_APP_PARAM \<Rightarrow> bytes" where
  "enc_param p = ap_tag p # ap_len p # take (unat (ap_len p)) (ap_data p)"

definition param_ok :: "OI_OBEX_APP_PARAM \<Rightarrow> bool" where
  "param_ok p \<longleftrightarrow> unat (ap_len p) \<le> length (ap_data p)"

definition param_norm :: "OI_OBEX_APP_PARAM \<Rightarrow> OI_OBEX_APP_PARAM" where
  "param_norm p = p\<lparr>ap_data := take (unat (ap_len p)) (ap_data p)\<rparr>"

fun next_param :: "bytes \<Rightarrow> (OI_OBEX_APP_PARAM \<times> bytes) option" where
  "next_param (t # l # xs) =
     (if unat l \<le> length xs then Some (\<lparr>ap_tag = t, ap_len = l, ap_data = take (unat l) xs\<rparr>, drop (unat l) xs)
      else None)"
| "next_param [] = None"
| "next_param [t] = None"

lemma next_param_shorter: "next_param xs = Some (p, r) \<Longrightarrow> length r < length xs"
  by (cases xs rule: next_param.cases) (auto split: if_splits)

function decode_params :: "bytes \<Rightarrow> OI_OBEX_APP_PARAM list option" where
  "decode_params xs =
     (if xs = [] then Some []
      else case next_param xs of None \<Rightarrow> None | Some (p, r) \<Rightarrow> map_option ((#) p) (decode_params r))"
  by pat_completeness auto
termination
  by (relation "measure length") (auto dest: next_param_shorter)

declare decode_params.simps [simp del]

lemma next_param_enc: "param_ok p \<Longrightarrow> next_param (enc_param p @ r) = Some (param_norm p, r)"
  by (simp add: enc_param_def param_ok_def param_norm_def)

lemma decode_params_enc:
  "\<forall>p \<in> set ps. param_ok p \<Longrightarrow> decode_params (concat (map enc_param ps)) = Some (map param_norm ps)"
proof (induction ps)
  case (Cons p ps)
  have "enc_param p \<noteq> []"
    by (simp add: enc_param_def)
  then show ?case
    using Cons next_param_enc [of p "concat (map enc_param ps)"] by (subst decode_params.simps) simp
qed (simp add: decode_params.simps)

lemma ScanAppParamsEntry_decodes:
  assumes bs: "bs_reading bs" "\<not> ByteStream_Error bs" and ne: "bs_rest bs \<noteq> []"
  shows "\<exists>status bs'. ScanAppParamsEntry bs = Some (status, bs') \<and>
     (case next_param (bs_rest bs) of
        None \<Rightarrow> status \<noteq> OI_OK
      | Some (p, r) \<Rightarrow> status = OI_OK \<and> moved bs bs' \<and> bs_rest bs' = r)"
proof -
  let ?bs1 = "bs_advance 1 bs"
  have s1: "ByteStream_Skip_Checked bs 1 = ?bs1"
    using bs ne by (simp add: bs_read_simps Suc_le_eq)
  have bs1: "bs_reading ?bs1" "\<not> ByteStream_Error ?bs1" "bs_rest ?bs1 = drop 1 (bs_rest bs)" "moved bs ?bs1"
    using bs ne moved_advance [of bs 1] by (auto simp: ByteStream_Error_def Suc_le_eq)
  show ?thesis
  proof (cases "bs_rest bs" rule: next_param.cases)
    case (1 t l xs)
    let ?bs2 = "bs_advance 1 ?bs1"
    have get: "ByteStream_GetUINT8_Checked ?bs1 0 = Some (l, ?bs2)"
      using bs1 1 by (simp add: bs_read_simps)
    have bs2: "bs_reading ?bs2" "bs_rest ?bs2 = xs" "moved ?bs1 ?bs2" "\<not> ByteStream_Error ?bs2"
      using bs1 1 moved_advance [of ?bs1 1] by (auto simp: ByteStream_Error_def)
    show ?thesis
    proof (cases "unat l \<le> length xs")
      case True
      then show ?thesis
        using Skip_Checked_fits [of ?bs2 "unat l"] bs2 bs1(4) s1 get 1 moved_error [of ?bs2]
          moved_trans [OF bs1(4) bs2(3)]
        by (auto simp: ScanAppParamsEntry_def Let_def simp del: One_nat_def dest: moved_trans)
    next
      case False
      then show ?thesis
        using Skip_Checked_over [of ?bs2 "unat l"] bs2 s1 get 1
        by (simp add: ScanAppParamsEntry_def Let_def del: One_nat_def)
    qed
  next
    case 2
    with ne show ?thesis
      by simp
  next
    case (3 v)
    have "ByteStream_GetUINT8_Checked ?bs1 0 = Some (0, ?bs1\<lparr>bs_error := 1\<rparr>)"
      using bs1 3 by (simp add: bs_read_simps)
    then show ?thesis
      using s1 3 Skip_Checked_left [of "?bs1\<lparr>bs_error := 1\<rparr>" 0]
      by (simp add: ScanAppParamsEntry_def Let_def ByteStream_Error_def del: One_nat_def)
  qed
qed

lemma scan_params_decodes:
  "bs_reading bs \<Longrightarrow> \<not> ByteStream_Error bs \<Longrightarrow>
     \<exists>status n bs'. scan_params bs count = Some (status, n, bs') \<and>
       (case decode_params (bs_rest bs) of
          None \<Rightarrow> status = OI_OBEX_BAD_PACKET \<and> n = 0
        | Some ps \<Rightarrow> status = OI_OK \<and> n = count + of_nat (length ps) \<and> moved bs bs')"
proof (induction bs count rule: scan_params.induct)
  case (1 bs count)
  have avail: "ByteStream_NumReadBytesAvail bs > 0 \<longleftrightarrow> bs_rest bs \<noteq> []"
    using 1(2) by (simp add: bs_avail)
  show ?case
  proof (cases "bs_rest bs = []")
    case True
    then show ?thesis
      using 1(2) avail moved_advance [of bs 0]
      by (subst scan_params.simps) (simp add: decode_params.simps bs_advance_def)
  next
    case False
    obtain status bs' where sc: "ScanAppParamsEntry bs = Some (status, bs')"
        "case next_param (bs_rest bs) of None \<Rightarrow> status \<noteq> OI_OK
         | Some (h, r) \<Rightarrow> status = OI_OK \<and> moved bs bs' \<and> bs_rest bs' = r"
      using ScanAppParamsEntry_decodes [OF 1(2,3) False] by auto
    show ?thesis
    proof (cases "next_param (bs_rest bs)")
      case None
      then show ?thesis
        using False sc avail by (subst scan_params.simps) (simp add: decode_params.simps)
    next
      case (Some hr)
      then obtain h where h: "next_param (bs_rest bs) = Some (h, bs_rest bs')" "status = OI_OK" "moved bs bs'"
        using sc(2) by (cases hr) auto
      have "bs_reading bs'" "\<not> ByteStream_Error bs'"
        using h(3) 1(3) moved_error [OF h(3)] by (auto simp: moved_def)
      then obtain st n bs2 where "scan_params bs' (count + 1) = Some (st, n, bs2)"
          "case decode_params (bs_rest bs') of None \<Rightarrow> st = OI_OBEX_BAD_PACKET \<and> n = 0
           | Some hs \<Rightarrow> st = OI_OK \<and> n = count + 1 + of_nat (length hs) \<and> moved bs' bs2"
        using 1(1) False avail sc(1) h(2) by fastforce
      moreover have "scan_params bs count = scan_params bs' (count + 1)"
        using False avail sc(1) h(2) by (subst scan_params.simps) simp
      moreover have "decode_params (bs_rest bs) = map_option ((#) h) (decode_params (bs_rest bs'))"
        using False h(1) by (subst decode_params.simps) simp
      ultimately show ?thesis
        using moved_trans [OF h(3)] by (auto split: option.splits)
    qed
  qed
qed

lemma decode_params_Cons:
  "decode_params xs = Some (p # ps) \<Longrightarrow> \<exists>r. next_param xs = Some (p, r) \<and> decode_params r = Some ps"
  by (subst (asm) decode_params.simps) (auto split: if_splits option.splits)

lemma ParseAppParamsEntry_decodes:
  assumes bs: "bs_reading bs" and n: "next_param (bs_rest bs) = Some (p, r)"
  shows "\<exists>bs'. ParseAppParamsEntry bs = Some (p, bs') \<and> bs_reading bs' \<and> bs_rest bs' = r"
  using n
proof (cases "bs_rest bs" rule: next_param.cases)
  case (1 t l xs)
  have bs1: "bs_reading (bs_advance 1 bs)" "bs_rest (bs_advance 1 bs) = l # xs"
    using bs 1 by simp_all
  then have bs2: "bs_reading (bs_advance 1 (bs_advance 1 bs))" "bs_rest (bs_advance 1 (bs_advance 1 bs)) = xs"
    by (simp_all del: bs_advance_fields)
  with bs bs1 1 n show ?thesis
    using bs_peek_rest [of "bs_advance 1 (bs_advance 1 bs)" "unat l"]
    by (auto simp: ParseAppParamsEntry_def bs_read_simps split: if_splits)
qed (use n in auto)

lemma parse_params_decodes:
  "decode_params (bs_rest bs) = Some ps \<Longrightarrow> bs_reading bs \<Longrightarrow> n \<le> length ps \<Longrightarrow>
     \<exists>bs'. parse_params n bs = Some (take n ps, bs')"
proof (induction n arbitrary: bs ps)
  case (Suc n)
  then obtain p ps' where ps: "ps = p # ps'"
    by (cases ps) auto
  then obtain r where r: "next_param (bs_rest bs) = Some (p, r)" "decode_params r = Some ps'"
    using Suc.prems(1) decode_params_Cons by blast
  then obtain bs' where "ParseAppParamsEntry bs = Some (p, bs')" "bs_reading bs'" "bs_rest bs' = r"
    using ParseAppParamsEntry_decodes [OF Suc.prems(2)] by blast
  then show ?case
    using Suc.IH [of bs' ps'] r ps Suc.prems(3) by auto
qed simp

lemma of_nat_u8_mod: "(of_nat k :: u8) = of_nat (k mod 256)" and unat_of_nat_u8_mod: "unat (of_nat k :: u8) = k mod 256"
proof -
  show "unat (of_nat k :: u8) = k mod 256"
    by (simp add: unat_of_nat take_bit_eq_mod)
  then show "(of_nat k :: u8) = of_nat (k mod 256)"
    by (intro word_unat_eqI) (simp add: unat_of_nat take_bit_eq_mod)
qed

lemma ParseAppParams_decodes:
  assumes "0 < len" "unat len \<le> length data"
  shows "case decode_params (take (unat len) data) of
      None \<Rightarrow> OI_OBEX_ParseAppParamsHeader malloc_ok data len = Some (OI_OBEX_BAD_PACKET, 0, None)
    | Some ps \<Rightarrow>
        let n = length ps mod 256 in
        OI_OBEX_ParseAppParamsHeader malloc_ok data len =
          Some (if n \<noteq> 0 \<and> \<not> malloc_ok then OI_STATUS_OUT_OF_MEMORY else OI_OK,
            of_nat n, if n \<noteq> 0 \<and> malloc_ok then Some (take n ps) else None)"
proof -
  obtain bs where bs: "(do { bs \<leftarrow> ByteStream_Init blank_stream 0 data len; ByteStream_Open bs BYTESTREAM_READ }) = Some bs"
      "bs_reading bs" "bs_rest bs = take (unat len) data" "\<not> ByteStream_Error bs" "bs_pos bs = 0"
    using assms by (auto simp: ByteStream_Init_def ByteStream_Open_def monad_simps word_less_nat_alt
        bs_reading_def bs_wf_def bs_rest_def ByteStream_Error_def)
  obtain status n bs1 where sc: "scan_params bs 0 = Some (status, n, bs1)"
      "case decode_params (bs_rest bs) of
          None \<Rightarrow> status = OI_OBEX_BAD_PACKET \<and> n = 0
        | Some ps \<Rightarrow> status = OI_OK \<and> n = 0 + of_nat (length ps) \<and> moved bs bs1"
    using scan_params_decodes [OF bs(2,4), of 0] by blast
  have start: "OI_OBEX_ParseAppParamsHeader malloc_ok data len = do {
     (status, count, bs) \<leftarrow> scan_params bs 0;
     if \<not> OI_SUCCESS status then Some (OI_OBEX_BAD_PACKET, 0, None)
     else do {
       bs \<leftarrow> ByteStream_SetPos bs 0;
       if count > 0 then
         if \<not> malloc_ok then Some (OI_STATUS_OUT_OF_MEMORY, count, None)
         else do {
           (ps, bs) \<leftarrow> parse_params (unat count) bs;
           Some (OI_OK, count, Some ps)
         }
       else Some (OI_OK, count, None)
     }
   }"
    using bs(1) by (simp add: OI_OBEX_ParseAppParamsHeader_def bind_assoc [symmetric] del: Option.bind_assoc)
  show ?thesis
  proof (cases "decode_params (bs_rest bs)")
    case None
    with sc bs(3) show ?thesis
      by (simp add: start OI_SUCCESS_def)
  next
    case (Some ps)
    then have mv: "moved bs bs1" and n: "n = of_nat (length ps)" "status = OI_OK"
      using sc(2) by auto
    have nat: "unat n = length ps mod 256" "n = of_nat (length ps mod 256)"
      unfolding n(1) using of_nat_u8_mod unat_of_nat_u8_mod by blast+
    have rewind: "ByteStream_SetPos bs1 0 = Some bs"
      using mv bs(2,5) by (auto simp: moved_def ByteStream_SetPos_def monad_simps bs_reading_def bs_wf_def)
    obtain bs' where "parse_params (unat n) bs = Some (take (unat n) ps, bs')"
      using parse_params_decodes [OF Some bs(2), of "unat n"] nat(1) by fastforce
    moreover have "0 < n \<longleftrightarrow> length ps mod 256 \<noteq> 0"
      using nat(1) by (simp add: word_less_nat_alt)
    ultimately show ?thesis
      using Some sc(1) n rewind nat bs(3)
      unfolding start by (cases malloc_ok) (auto simp: OI_SUCCESS_def Let_def)
  qed
qed

lemma length_bs_data_put [simp]:
  "bs_wf bs \<Longrightarrow> length vs \<le> bs_room bs \<Longrightarrow> length (bs_data (bs_put vs bs)) = length (bs_data bs)"
  using bs_room_limit [of bs "length vs"] by (auto simp: bs_put_def bs_wf_def)

lemma put_params_written:
  "bs_writing bs \<Longrightarrow> \<forall>p \<in> set ps. param_ok p \<Longrightarrow> length (concat (map enc_param ps)) \<le> bs_room bs \<Longrightarrow>
     \<exists>bs'. put_params ps bs = Some bs' \<and> bs_writing bs' \<and>
       bs_room bs' = bs_room bs - length (concat (map enc_param ps)) \<and>
       bs_written bs' = bs_written bs @ concat (map enc_param ps) \<and> bs_size bs' = bs_size bs \<and>
       length (bs_data bs') = length (bs_data bs)"
proof (induction ps arbitrary: bs)
  case (Cons p ps)
  let ?d = "take (unat (ap_len p)) (ap_data p)"
  let ?b3 = "bs_put ?d (bs_put [ap_len p] (bs_put [ap_tag p] bs))"
  have d: "length ?d = unat (ap_len p)" "unat (ap_len p) \<le> length (ap_data p)"
    using Cons.prems by (auto simp: param_ok_def)
  have l: "length (enc_param p) = 2 + unat (ap_len p)"
    using d by (simp add: enc_param_def)
  have room: "2 + unat (ap_len p) + length (concat (map enc_param ps)) \<le> bs_room bs"
    using Cons.prems(3) l by simp
  have b3: "bs_writing ?b3" "bs_room ?b3 = bs_room bs - (2 + unat (ap_len p))"
    "bs_written ?b3 = bs_written bs @ enc_param p" "bs_size ?b3 = bs_size bs"
    "length (bs_data ?b3) = length (bs_data bs)"
    using Cons.prems(1) room d by (simp_all add: enc_param_def)
  have "put_params (p # ps) bs = put_params ps ?b3"
    using Cons.prems(1) room d(2) by (simp add: bs_write_simps) linarith
  moreover have "\<exists>bs'. put_params ps ?b3 = Some bs' \<and> bs_writing bs' \<and>
       bs_room bs' = bs_room ?b3 - length (concat (map enc_param ps)) \<and>
       bs_written bs' = bs_written ?b3 @ concat (map enc_param ps) \<and> bs_size bs' = bs_size ?b3 \<and>
       length (bs_data bs') = length (bs_data ?b3)"
    using Cons.prems b3 room by (intro Cons.IH) simp_all
  ultimately show ?case
    using b3 l by auto
qed simp

lemma params_length:
  "\<forall>p \<in> set ps. param_ok p \<Longrightarrow> length ps \<le> 255 \<Longrightarrow>
     length (concat (map enc_param ps)) \<le> 65535 \<and>
     foldl (\<lambda>len p. len + 2 + ucast (ap_len p)) a ps = (a + of_nat (length (concat (map enc_param ps))) :: u16)"
proof -
  have one: "param_ok p \<Longrightarrow> length (enc_param p) = 2 + unat (ap_len p)" for p
    by (simp add: enc_param_def param_ok_def)
  have sum: "\<forall>p \<in> set ps. param_ok p \<Longrightarrow> length (concat (map enc_param ps)) \<le> 257 * length ps" for ps
  proof (induction ps)
    case (Cons p ps)
    then show ?case
      using one [of p] unat_lt_u8 [of "ap_len p"] by (simp del: unat_lt_u8)
  qed simp
  have fold: "\<forall>p \<in> set ps. param_ok p \<Longrightarrow> foldl (\<lambda>len p. len + 2 + ucast (ap_len p)) a ps =
      (a + of_nat (length (concat (map enc_param ps))) :: u16)" for ps a
    by (induction ps arbitrary: a) (auto simp: one add.assoc)
  show "\<forall>p \<in> set ps. param_ok p \<Longrightarrow> length ps \<le> 255 \<Longrightarrow> ?thesis"
    using sum [of ps] fold by fastforce
qed

lemma BuildAppParams_ok:
  assumes "\<forall>p \<in> set ps. param_ok p" "ps \<noteq> []" "length ps \<le> 255"
  shows "OI_OBEXCOMMON_BuildAppParamsHeader True ps =
    Some (OI_OK, concat (map enc_param ps), of_nat (length (concat (map enc_param ps)))) \<and>
    0 < length (concat (map enc_param ps)) \<and> length (concat (map enc_param ps)) \<le> 65535"
proof -
  define enc where "enc = concat (map enc_param ps)"
  define len where "len = (of_nat (length enc) :: u16)"
  have l: "length enc \<le> 65535" "foldl (\<lambda>len p. len + 2 + ucast (ap_len p)) (0 :: u16) ps = len"
    using params_length [OF assms(1,3), of 0] by (auto simp: enc_def len_def)
  then have n: "unat len = length enc"
    by (simp add: len_def unat_of_nat_u16)
  have pos: "0 < length enc"
    using assms(2) by (cases ps) (simp_all add: enc_def enc_param_def)
  obtain bs0 where bs0: "(do { bs \<leftarrow> ByteStream_Init blank_stream 0 (replicate (unat len) 0) len; ByteStream_Open bs BYTESTREAM_WRITE }) = Some bs0"
      "bs_writing bs0" "bs_room bs0 = unat len" "bs_written bs0 = []" "bs_size bs0 = len" "bs_data bs0 = replicate (unat len) 0"
    using open_write_stream [of len "replicate (unat len) 0"] n pos by (auto simp: word_less_nat_alt)
  obtain bs' where bs': "put_params ps bs0 = Some bs'" "bs_writing bs'" "bs_room bs' = 0" "bs_written bs' = enc" "bs_size bs' = len"
      "length (bs_data bs') = unat len"
    using put_params_written [OF bs0(2) assms(1)] bs0 n by (auto simp: enc_def)
  have p: "unat (bs_pos bs') = unat (bs_size bs')"
    using bs'(2,3) by (simp add: bs_writing_def bs_wf_def bs_room_def)
  have "bs_data bs' = enc" "ByteStream_NumWriteBytesAllowed bs' = 0"
    using bs'(4,5,6) p n by (simp_all add: bs_written_def ByteStream_NumWriteBytesAllowed_def)
  moreover have "OI_OBEXCOMMON_BuildAppParamsHeader True ps = do {
       bs \<leftarrow> put_params ps bs0;
       OI_ASSERT (ByteStream_NumWriteBytesAllowed bs = 0);
       Some (OI_OK, bs_data bs, len) }"
    using bs0(1) by (simp add: OI_OBEXCOMMON_BuildAppParamsHeader_def l(2) Let_def bind_assoc [symmetric]
        del: Option.bind_assoc)
  ultimately show ?thesis
    using bs'(1) pos l(1) by (simp add: monad_simps enc_def len_def)
qed

section \<open>Properties\<close>

lemma takeWhile_find:
  "(let i = length (takeWhile (\<lambda>h. hdr_id h \<noteq> x) hs) in
    case List.find (\<lambda>h. hdr_id h = x) hs of
      None \<Rightarrow> i = length hs
    | Some h \<Rightarrow> hdr_id h = x \<and> i < length hs \<and> hs ! i = h \<and> remove1 h hs = take i hs @ drop (Suc i) hs)"
  by (induction hs) (auto simp: Let_def split: option.splits)

text \<open>C9: \<open>OI_OBEXCOMMON_ParseHeaderList\<close> is total and memory-safe on every packet: it runs to
  its end on any bytes (no read past the packet, no failed assertion, in the byte-swapping
  loop of unaligned strings too) and agrees with the grammar of OBEX headers. A packet outside
  the grammar is refused with \<open>OI_OBEX_BAD_PACKET\<close> and no list; otherwise the headers are those
  the grammar decodes, as many as the 8-bit counter counts (a packet with 256 headers is read
  as one without any).\<close>

theorem ParseHeaderList_refines:
  assumes "bs_reading bs" "\<not> ByteStream_Error bs"
  shows "\<exists>common' bs'. OI_OBEXCOMMON_ParseHeaderList malloc_ok common bs =
    Some (case decode_hdrs (bs_rest bs) of
        None \<Rightarrow> (OI_OBEX_BAD_PACKET, \<lparr>hl_count = 0, hl_list = None\<rparr>, common, bs')
      | Some hs \<Rightarrow>
          (let n = length hs mod 256 in
           (if n \<noteq> 0 \<and> \<not> malloc_ok then OI_STATUS_OUT_OF_MEMORY else OI_OK,
            \<lparr>hl_count = of_nat n, hl_list = if n \<noteq> 0 \<and> malloc_ok then Some (take n hs) else None\<rparr>,
            common', bs')))"
  using ParseHeaderList_decodes [OF assms, of malloc_ok common]
  by (cases "decode_hdrs (bs_rest bs)") (simp_all add: Let_def)

text \<open>A packet at an odd address: a name of two characters, then a connection id.\<close>

definition demo_packet :: OI_BYTE_STREAM where
  "demo_packet = \<lparr>bs_addr = 1, bs_data = [0x80, 0x01, 0, 7, 0, 0x41, 0, 0, 0xCB, 0, 0, 0, 1], bs_trueSize = 13,
     bs_size = 13, bs_pos = 1, bs_RWFlag = BYTESTREAM_READ, bs_error = 0\<rparr>"

lemma demo_packet_facts:
  "bs_reading demo_packet" "\<not> ByteStream_Error demo_packet"
  "bs_rest demo_packet = concat (map enc_hdr [demo_name, demo_conn])"
  by (simp_all add: demo_packet_def bs_reading_def bs_wf_def ByteStream_Error_def bs_rest_def demo_hdr_facts)

lemma ParseHeaderList_refines_witness:
  "\<exists>common' bs'. OI_OBEXCOMMON_ParseHeaderList True demo_common demo_packet =
    Some (OI_OK, \<lparr>hl_count = 2, hl_list = Some [demo_name, demo_conn]\<rparr>, common', bs')"
proof -
  have "decode_hdrs (bs_rest demo_packet) = Some [demo_name, demo_conn]"
    unfolding demo_packet_facts(3)
    by (subst decode_hdrs_enc) (simp_all add: demo_hdr_facts, simp_all add: hdr_norm_def demo_name_def demo_conn_def)
  then show ?thesis
    using ParseHeaderList_refines [OF demo_packet_facts(1,2), of True demo_common]
    by (simp add: Let_def numeral_2_eq_2 [symmetric])
qed

text \<open>C8: What one side marshals the other side parses: when every header fits, the header
  list the receiver gets from the packet after its fixed fields is the sender's list in wire
  order, each header with exactly the bytes and characters its length covers. There is memory for each copy,
  and fewer than 255 cells are needed.\<close>

theorem marshal_parse_roundtrip:
  assumes "hdr_id (bodySegment common) = 0" and "pkt_header pkt" and "\<forall>i. mem i"
    and "\<forall>h \<in> set hs. hdr_ok_out h" and "total_cells hs < 255" and "hs \<noteq> []" and "length hs < 256"
    and "unat (bs_pos pkt) + wire_len hs \<le> unat (maxSendPktLen common)"
    and "hs = hdrs @ (case hdrList of None \<Rightarrow> [] | Some l \<Rightarrow> l)"
    and "bs_reading bs" "\<not> ByteStream_Error bs"
    and "OI_OBEXCOMMON_MarshalPacketMbuf True mem common pkt hdrs hdrList = Some (OI_OK, sent, Some m)"
    and "bs_rest bs = drop (unat (bs_pos pkt)) (mbuf_content m)"
  shows "\<exists>common' bs'. OI_OBEXCOMMON_ParseHeaderList True receiver bs =
      Some (OI_OK, \<lparr>hl_count = of_nat (length hs), hl_list = Some (map hdr_norm (wire_order hs))\<rparr>, common', bs')"
proof -
  obtain m' where m': "OI_OBEXCOMMON_MarshalPacketMbuf True mem common pkt hdrs hdrList =
      Some (OI_OK, progressed_all common hs, Some m')"
    "mbuf_content m' = currentOpcode common # SetUINT16_BigEndian (of_nat (length (mbuf_content m')) :: u16) @
      drop 3 (bs_written pkt) @ concat (map enc_hdr (wire_order hs))"
    using Marshal_fits [OF assms(1-5,8,9)] by blast
  then have m: "mbuf_content m = currentOpcode common # SetUINT16_BigEndian (of_nat (length (mbuf_content m)) :: u16) @
      drop 3 (bs_written pkt) @ concat (map enc_hdr (wire_order hs))"
    using assms(12) by auto
  have pos: "unat (bs_pos pkt) = 3 + length (drop 3 (bs_written pkt))"
    using pkt_header_written [OF assms(2)] by auto
  have rest: "bs_rest bs = concat (map enc_hdr (wire_order hs))"
    unfolding assms(13) by (subst m) (simp add: pos SetUINT16_BigEndian_def numeral_3_eq_3)
  have wo: "\<forall>h \<in> set (wire_order hs). hdr_ok_out h" "length (wire_order hs) = length hs"
    using assms(4) sum_length_filter_compl [of prio_hdr hs] by (auto simp: wire_order_def)
  have "decode_hdrs (bs_rest bs) = Some (map hdr_norm (wire_order hs))"
    unfolding rest using wo(1) by (rule decode_hdrs_enc)
  then show ?thesis
    using ParseHeaderList_decodes [OF assms(10,11), of True receiver] wo(2) assms(6,7) by (simp add: Let_def)
qed

lemma marshal_parse_roundtrip_witness:
  "\<exists>sent m. OI_OBEXCOMMON_MarshalPacketMbuf True (\<lambda>i. True) demo_common demo_pkt [demo_conn, demo_name] None =
       Some (OI_OK, sent, Some m) \<and>
     (\<exists>bs common' bs'. bs_rest bs = drop 3 (mbuf_content m) \<and> OI_OBEXCOMMON_ParseHeaderList True demo_common bs =
       Some (OI_OK, \<lparr>hl_count = 2, hl_list = Some [demo_conn, demo_name]\<rparr>, common', bs'))"
proof -
  let ?hs = "[demo_conn, demo_name]"
  have hyps: "hdr_id (bodySegment demo_common) = 0" "\<forall>h \<in> set ?hs. hdr_ok_out h" "total_cells ?hs < 255"
    "unat (bs_pos demo_pkt) + wire_len ?hs \<le> unat (maxSendPktLen demo_common)"
    "?hs = ?hs @ (case None of None \<Rightarrow> [] | Some l \<Rightarrow> l)" "wire_order ?hs = ?hs"
    "map hdr_norm ?hs = ?hs"
    by (auto simp: demo_pkt_facts demo_hdr_facts wire_len_def wire_order_def demo_common_def)
      (simp_all add: hdr_norm_def demo_name_def demo_conn_def)
  obtain m where m: "OI_OBEXCOMMON_MarshalPacketMbuf True (\<lambda>i. True) demo_common demo_pkt ?hs None =
      Some (OI_OK, progressed_all demo_common ?hs, Some m)"
    "mbuf_content m = currentOpcode demo_common # SetUINT16_BigEndian (of_nat (length (mbuf_content m)) :: u16) @
      drop 3 (bs_written demo_pkt) @ concat (map enc_hdr (wire_order ?hs))"
    using Marshal_fits [OF hyps(1) demo_pkt_facts(1) _ hyps(2,3,4,5), of "\<lambda>i. True"] by blast
  let ?bs = "\<lparr>bs_addr = 0, bs_data = concat (map enc_hdr ?hs), bs_trueSize = 12,
     bs_size = 12, bs_pos = 0, bs_RWFlag = BYTESTREAM_READ, bs_error = 0\<rparr>"
  have rest: "bs_rest ?bs = drop (unat (bs_pos demo_pkt)) (mbuf_content m)"
    by (subst m(2)) (simp add: hyps(6) demo_pkt_facts SetUINT16_BigEndian_def bs_rest_def demo_hdr_facts)
  have "bs_reading ?bs" "\<not> ByteStream_Error ?bs"
    by (simp_all add: bs_reading_def bs_wf_def ByteStream_Error_def demo_hdr_facts)
  from marshal_parse_roundtrip [OF hyps(1) demo_pkt_facts(1) _ hyps(2,3) _ _ hyps(4,5) this m(1) rest, of demo_common]
  obtain common' bs' where "OI_OBEXCOMMON_ParseHeaderList True demo_common ?bs =
      Some (OI_OK, \<lparr>hl_count = 2, hl_list = Some ?hs\<rparr>, common', bs')"
    using hyps(6,7) by auto
  with m(1) rest show ?thesis
    unfolding demo_pkt_facts(2) by (intro exI conjI) simp_all
qed

text \<open>On every list and id, \<open>OI_OBEX_FindHeader\<close> returns the first header with the id, and
  \<open>OI_OBEXCOMMON_DeleteHeaderFromList\<close> removes exactly that header, keeping the others in order,
  or reports \<open>OI_STATUS_NOT_FOUND\<close> and leaves the list alone.\<close>

theorem header_list_spec:
  "OI_OBEX_FindHeader hs x = List.find (\<lambda>h. hdr_id h = x) hs \<and>
   OI_OBEXCOMMON_DeleteHeaderFromList hs x =
     (case List.find (\<lambda>h. hdr_id h = x) hs of
        None \<Rightarrow> (OI_STATUS_NOT_FOUND, hs)
      | Some h \<Rightarrow> (OI_OK, remove1 h hs))"
proof (cases "List.find (\<lambda>h. hdr_id h = x) hs")
  case None
  then show ?thesis
    using takeWhile_find [of x hs]
    by (simp add: OI_OBEX_FindHeader_def OI_OBEXCOMMON_DeleteHeaderFromList_def find_index_eq)
next
  case (Some h)
  let ?i = "length (takeWhile (\<lambda>h. hdr_id h \<noteq> x) hs)"
  have i: "?i < length hs" "hs ! ?i = h" "remove1 h hs = take ?i hs @ drop (Suc ?i) hs"
    using takeWhile_find [of x hs] Some by (simp_all add: Let_def)
  then have "close_gap (length hs - 1 - ?i) ?i hs = take ?i hs @ drop (Suc ?i) hs @ [last hs]"
    by (intro close_gap_eq) simp
  then have "take (length hs - 1) (close_gap (length hs - 1 - ?i) ?i hs) = remove1 h hs"
    using i by simp
  then show ?thesis
    using i(1,2) Some by (simp add: OI_OBEX_FindHeader_def OI_OBEXCOMMON_DeleteHeaderFromList_def find_index_eq)
qed

text \<open>C26: \<open>OI_OBEX_ParseAppParamsHeader\<close> is total and memory-safe on every header value that is
  not empty and agrees with the tag-length-value grammar: \<open>OI_OBEX_BAD_PACKET\<close> outside it, else
  the parameters in order, as many as the 8-bit counter counts.\<close>

theorem ParseAppParams_refines:
  assumes "0 < len" "unat len \<le> length data"
  shows "OI_OBEX_ParseAppParamsHeader malloc_ok data len =
    Some (case decode_params (take (unat len) data) of
        None \<Rightarrow> (OI_OBEX_BAD_PACKET, 0, None)
      | Some ps \<Rightarrow>
          (let n = length ps mod 256 in
           (if n \<noteq> 0 \<and> \<not> malloc_ok then OI_STATUS_OUT_OF_MEMORY else OI_OK,
            of_nat n, if n \<noteq> 0 \<and> malloc_ok then Some (take n ps) else None)))"
  using ParseAppParams_decodes [OF assms, of malloc_ok]
  by (cases "decode_params (take (unat len) data)") (simp_all add: Let_def)

lemma ParseAppParams_refines_witness:
  "OI_OBEX_ParseAppParamsHeader True [1, 2, 7, 8, 4, 0] 6 =
    Some (OI_OK, 2, Some [\<lparr>ap_tag = 1, ap_len = 2, ap_data = [7, 8]\<rparr>, \<lparr>ap_tag = 4, ap_len = 0, ap_data = []\<rparr>])"
  using ParseAppParams_refines [of 6 "[1, 2, 7, 8, 4, 0]" True]
  by (simp add: decode_params.simps Let_def)

text \<open>C27: Application parameters survive the round trip: the value
  \<open>OI_OBEXCOMMON_BuildAppParamsHeader\<close> composes from 1 to 255 parameters fills its buffer exactly
  and parses back to the same tags, lengths and data.\<close>

theorem app_params_roundtrip:
  assumes "\<forall>p \<in> set ps. param_ok p" "ps \<noteq> []" "length ps \<le> 255"
  shows "\<exists>data len. OI_OBEXCOMMON_BuildAppParamsHeader True ps = Some (OI_OK, data, len) \<and>
    unat len = length data \<and>
    OI_OBEX_ParseAppParamsHeader True data len = Some (OI_OK, of_nat (length ps), Some (map param_norm ps))"
proof -
  let ?data = "concat (map enc_param ps)" and ?len = "of_nat (length (concat (map enc_param ps))) :: u16"
  have b: "OI_OBEXCOMMON_BuildAppParamsHeader True ps = Some (OI_OK, ?data, ?len)"
    "0 < length ?data" "length ?data \<le> 65535"
    using BuildAppParams_ok [OF assms] by auto
  then have l: "unat ?len = length ?data"
    by (simp add: unat_of_nat_u16)
  then have "0 < ?len"
    using b(2) unfolding word_less_nat_alt by simp
  then have "OI_OBEX_ParseAppParamsHeader True ?data ?len = Some (OI_OK, of_nat (length ps), Some (map param_norm ps))"
    using ParseAppParams_decodes [of ?len ?data True] decode_params_enc [OF assms(1)] l assms(2,3)
    by (simp add: Let_def)
  with b(1) l show ?thesis
    by blast
qed

lemma app_params_roundtrip_witness:
  "\<exists>data len. OI_OBEXCOMMON_BuildAppParamsHeader True
       [\<lparr>ap_tag = 1, ap_len = 2, ap_data = [7, 8]\<rparr>, \<lparr>ap_tag = 4, ap_len = 0, ap_data = []\<rparr>] = Some (OI_OK, data, len) \<and>
    unat len = length data \<and>
    OI_OBEX_ParseAppParamsHeader True data len =
      Some (OI_OK, 2, Some [\<lparr>ap_tag = 1, ap_len = 2, ap_data = [7, 8]\<rparr>, \<lparr>ap_tag = 4, ap_len = 0, ap_data = []\<rparr>])"
  using app_params_roundtrip [of "[\<lparr>ap_tag = 1, ap_len = 2, ap_data = [7, 8]\<rparr>, \<lparr>ap_tag = 4, ap_len = 0, ap_data = []\<rparr>]"]
  by (simp add: param_ok_def param_norm_def)

text \<open>Both application-parameter routines open a byte stream on their buffer before looking
  at its size, and \<open>ByteStream_Init\<close> asserts a size above zero: an empty parameter list cannot be
  built, and an empty application-parameter header, which the header parser accepts, stops
  \<open>OI_OBEX_ParseAppParamsHeader\<close> at the assertion.\<close>

theorem app_params_empty_asserts:
  "OI_OBEXCOMMON_BuildAppParamsHeader True [] = None \<and> OI_OBEX_ParseAppParamsHeader malloc_ok data 0 = None \<and>
   decode_hdrs [0x4C, 0, 3] = Some [\<lparr>hdr_id = 0x4C, hdr_val = BYTESEQ None 0\<rparr>]"
  by (simp add: OI_OBEXCOMMON_BuildAppParamsHeader_def OI_OBEX_ParseAppParamsHeader_def ByteStream_Init_def
      monad_simps decode_hdrs.simps next_hdr_def OI_OBEX_HDR_KIND_def GetUINT16_BigEndian_def Let_def obex_consts)

end
