(* ===== verification/Md5.thy ===== *)
theory Md5
  imports ByteStream
begin

text \<open>
  \<open>stack/support/md5_hash.c\<close>: the MD5 accumulation used by OBEX authentication.

  \<open>ctx->in\<close> is modelled as the 64 bytes of memory it is, because the code fills it bytewise and
  reads it wordwise; how a word lies in memory is the parameter \<open>bo\<close>, the byte order of the
  processor, since the code claims to work with either (\<open>ByteSwap\<close> turns the little-endian
  order of the MD5 specification into the native one). A copy outside its arrays is \<open>None\<close>.

  The lemmas compare the routines with the algorithm of RFC 1321 written on byte lists: the 64
  unrolled steps with the table-driven rounds, the streaming update and the final padding with
  the digest of the padded message.
\<close>

unbundle bit_operations_syntax

section \<open>Words in memory\<close>

definition store_word :: "byte_order \<Rightarrow> u32 \<Rightarrow> bytes" where
  "store_word bo v = (if bo = OI_BIG_ENDIAN_BYTE_ORDER then SetUINT32_BigEndian v else SetUINT32_LittleEndian v)"

definition load_word :: "byte_order \<Rightarrow> bytes \<Rightarrow> u32" where
  "load_word bo p = (if bo = OI_BIG_ENDIAN_BYTE_ORDER then GetUINT32_BigEndian p else GetUINT32_LittleEndian p)"

fun load_words :: "byte_order \<Rightarrow> nat \<Rightarrow> bytes \<Rightarrow> u32 list" where
  "load_words bo 0 p = []"
| "load_words bo (Suc n) p = load_word bo p # load_words bo n (drop 4 p)"

text \<open>\<open>OI_MemCopy\<close> of \<open>n\<close> bytes to offset \<open>pos\<close> of an array.\<close>

definition mem_copy :: "nat \<Rightarrow> bytes \<Rightarrow> nat \<Rightarrow> bytes \<Rightarrow> bytes option" where
  "mem_copy pos src n dst =
     (if n \<le> length src \<and> pos + n \<le> length dst then Some (overwrite pos (take n src) dst) else None)"

section \<open>The code\<close>

record MD5_CONTEXT =
  md_buf :: "u32 list"
  md_bytes0 :: u32
  md_bytes1 :: u32
  md_in :: bytes

fun ByteSwap :: "byte_order \<Rightarrow> nat \<Rightarrow> bytes \<Rightarrow> bytes" where
  "ByteSwap bo 0 p = p"
| "ByteSwap bo (Suc count) p =
     store_word bo (push_bit 16 (push_bit 8 (ucast (p ! 3)) OR ucast (p ! 2)) OR
       (push_bit 8 (ucast (p ! 1)) OR ucast (p ! 0))) @ ByteSwap bo count (drop 4 p)"

definition OI_MD5_Init :: "MD5_CONTEXT \<Rightarrow> MD5_CONTEXT" where
  "OI_MD5_Init ctx = ctx\<lparr>md_buf := [0x67452301, 0xefcdab89, 0x98badcfe, 0x10325476],
     md_bytes0 := 0, md_bytes1 := 0\<rparr>"

subsection \<open>The core\<close>

definition F1 :: "u32 \<Rightarrow> u32 \<Rightarrow> u32 \<Rightarrow> u32" where "F1 x y z = z XOR (x AND (y XOR z))"
definition F2 :: "u32 \<Rightarrow> u32 \<Rightarrow> u32 \<Rightarrow> u32" where "F2 x y z = F1 z x y"
definition F3 :: "u32 \<Rightarrow> u32 \<Rightarrow> u32 \<Rightarrow> u32" where "F3 x y z = x XOR y XOR z"
definition F4 :: "u32 \<Rightarrow> u32 \<Rightarrow> u32 \<Rightarrow> u32" where "F4 x y z = y XOR (x OR NOT z)"

text \<open>The four \<open>MD5STEP\<close> macros differ in their function only.\<close>

definition MD5STEP ::
    "(u32 \<Rightarrow> u32 \<Rightarrow> u32 \<Rightarrow> u32) \<Rightarrow> u32 \<Rightarrow> u32 \<Rightarrow> u32 \<Rightarrow> u32 \<Rightarrow> u32 \<Rightarrow> nat \<Rightarrow> u32" where
  "MD5STEP f w x y z i s =
     (let w = w + (f x y z + i) in (push_bit s w OR drop_bit (32 - s) w) + x)"

definition Transform :: "u32 list \<Rightarrow> u32 list \<Rightarrow> u32 list" where
  "Transform buf inp =
     (let
      a = buf ! 0; b = buf ! 1; c = buf ! 2; d = buf ! 3;
      a = MD5STEP F1 a b c d (inp ! 0 + 0xd76aa478) 7;
      d = MD5STEP F1 d a b c (inp ! 1 + 0xe8c7b756) 12;
      c = MD5STEP F1 c d a b (inp ! 2 + 0x242070db) 17;
      b = MD5STEP F1 b c d a (inp ! 3 + 0xc1bdceee) 22;
      a = MD5STEP F1 a b c d (inp ! 4 + 0xf57c0faf) 7;
      d = MD5STEP F1 d a b c (inp ! 5 + 0x4787c62a) 12;
      c = MD5STEP F1 c d a b (inp ! 6 + 0xa8304613) 17;
      b = MD5STEP F1 b c d a (inp ! 7 + 0xfd469501) 22;
      a = MD5STEP F1 a b c d (inp ! 8 + 0x698098d8) 7;
      d = MD5STEP F1 d a b c (inp ! 9 + 0x8b44f7af) 12;
      c = MD5STEP F1 c d a b (inp ! 10 + 0xffff5bb1) 17;
      b = MD5STEP F1 b c d a (inp ! 11 + 0x895cd7be) 22;
      a = MD5STEP F1 a b c d (inp ! 12 + 0x6b901122) 7;
      d = MD5STEP F1 d a b c (inp ! 13 + 0xfd987193) 12;
      c = MD5STEP F1 c d a b (inp ! 14 + 0xa679438e) 17;
      b = MD5STEP F1 b c d a (inp ! 15 + 0x49b40821) 22;
      a = MD5STEP F2 a b c d (inp ! 1 + 0xf61e2562) 5;
      d = MD5STEP F2 d a b c (inp ! 6 + 0xc040b340) 9;
      c = MD5STEP F2 c d a b (inp ! 11 + 0x265e5a51) 14;
      b = MD5STEP F2 b c d a (inp ! 0 + 0xe9b6c7aa) 20;
      a = MD5STEP F2 a b c d (inp ! 5 + 0xd62f105d) 5;
      d = MD5STEP F2 d a b c (inp ! 10 + 0x02441453) 9;
      c = MD5STEP F2 c d a b (inp ! 15 + 0xd8a1e681) 14;
      b = MD5STEP F2 b c d a (inp ! 4 + 0xe7d3fbc8) 20;
      a = MD5STEP F2 a b c d (inp ! 9 + 0x21e1cde6) 5;
      d = MD5STEP F2 d a b c (inp ! 14 + 0xc33707d6) 9;
      c = MD5STEP F2 c d a b (inp ! 3 + 0xf4d50d87) 14;
      b = MD5STEP F2 b c d a (inp ! 8 + 0x455a14ed) 20;
      a = MD5STEP F2 a b c d (inp ! 13 + 0xa9e3e905) 5;
      d = MD5STEP F2 d a b c (inp ! 2 + 0xfcefa3f8) 9;
      c = MD5STEP F2 c d a b (inp ! 7 + 0x676f02d9) 14;
      b = MD5STEP F2 b c d a (inp ! 12 + 0x8d2a4c8a) 20;
      a = MD5STEP F3 a b c d (inp ! 5 + 0xfffa3942) 4;
      d = MD5STEP F3 d a b c (inp ! 8 + 0x8771f681) 11;
      c = MD5STEP F3 c d a b (inp ! 11 + 0x6d9d6122) 16;
      b = MD5STEP F3 b c d a (inp ! 14 + 0xfde5380c) 23;
      a = MD5STEP F3 a b c d (inp ! 1 + 0xa4beea44) 4;
      d = MD5STEP F3 d a b c (inp ! 4 + 0x4bdecfa9) 11;
      c = MD5STEP F3 c d a b (inp ! 7 + 0xf6bb4b60) 16;
      b = MD5STEP F3 b c d a (inp ! 10 + 0xbebfbc70) 23;
      a = MD5STEP F3 a b c d (inp ! 13 + 0x289b7ec6) 4;
      d = MD5STEP F3 d a b c (inp ! 0 + 0xeaa127fa) 11;
      c = MD5STEP F3 c d a b (inp ! 3 + 0xd4ef3085) 16;
      b = MD5STEP F3 b c d a (inp ! 6 + 0x04881d05) 23;
      a = MD5STEP F3 a b c d (inp ! 9 + 0xd9d4d039) 4;
      d = MD5STEP F3 d a b c (inp ! 12 + 0xe6db99e5) 11;
      c = MD5STEP F3 c d a b (inp ! 15 + 0x1fa27cf8) 16;
      b = MD5STEP F3 b c d a (inp ! 2 + 0xc4ac5665) 23;
      a = MD5STEP F4 a b c d (inp ! 0 + 0xf4292244) 6;
      d = MD5STEP F4 d a b c (inp ! 7 + 0x432aff97) 10;
      c = MD5STEP F4 c d a b (inp ! 14 + 0xab9423a7) 15;
      b = MD5STEP F4 b c d a (inp ! 5 + 0xfc93a039) 21;
      a = MD5STEP F4 a b c d (inp ! 12 + 0x655b59c3) 6;
      d = MD5STEP F4 d a b c (inp ! 3 + 0x8f0ccc92) 10;
      c = MD5STEP F4 c d a b (inp ! 10 + 0xffeff47d) 15;
      b = MD5STEP F4 b c d a (inp ! 1 + 0x85845dd1) 21;
      a = MD5STEP F4 a b c d (inp ! 8 + 0x6fa87e4f) 6;
      d = MD5STEP F4 d a b c (inp ! 15 + 0xfe2ce6e0) 10;
      c = MD5STEP F4 c d a b (inp ! 6 + 0xa3014314) 15;
      b = MD5STEP F4 b c d a (inp ! 13 + 0x4e0811a1) 21;
      a = MD5STEP F4 a b c d (inp ! 4 + 0xf7537e82) 6;
      d = MD5STEP F4 d a b c (inp ! 11 + 0xbd3af235) 10;
      c = MD5STEP F4 c d a b (inp ! 2 + 0x2ad7d2bb) 15;
      b = MD5STEP F4 b c d a (inp ! 9 + 0xeb86d391) 21
     in [buf ! 0 + a, buf ! 1 + b, buf ! 2 + c, buf ! 3 + d])"

subsection \<open>Accumulation\<close>

text \<open>\<open>ByteSwap(ctx->in, 16); Transform(ctx->buf, ctx->in)\<close> after a copy into \<open>ctx->in\<close>.\<close>

definition absorb :: "byte_order \<Rightarrow> MD5_CONTEXT \<Rightarrow> MD5_CONTEXT" where
  "absorb bo ctx =
     (let m = ByteSwap bo 16 (md_in ctx) in
      ctx\<lparr>md_in := m, md_buf := Transform (md_buf ctx) (load_words bo 16 m)\<rparr>)"

text \<open>The loop over the 64-byte chunks and the copy of the remaining bytes.\<close>

function md5_chunks :: "byte_order \<Rightarrow> MD5_CONTEXT \<Rightarrow> bytes \<Rightarrow> u16 \<Rightarrow> MD5_CONTEXT option" where
  "md5_chunks bo ctx buf len =
     (if 64 \<le> len then
        case mem_copy 0 buf 64 (md_in ctx) of
          None \<Rightarrow> None
        | Some m \<Rightarrow> md5_chunks bo (absorb bo (ctx\<lparr>md_in := m\<rparr>)) (drop 64 buf) (len - 64)
      else
        case mem_copy 0 buf (unat len) (md_in ctx) of
          None \<Rightarrow> None
        | Some m \<Rightarrow> Some (ctx\<lparr>md_in := m\<rparr>))"
  by pat_completeness auto
termination
  by (relation "measure (\<lambda>(bo, ctx, buf, len). unat len)") (auto simp: word_le_nat_alt unat_sub_u16)

declare md5_chunks.simps [simp del]

definition OI_MD5_Update :: "byte_order \<Rightarrow> MD5_CONTEXT \<Rightarrow> bytes \<Rightarrow> u16 \<Rightarrow> MD5_CONTEXT option" where
  "OI_MD5_Update bo ctx buf len = do {
     let t = md_bytes0 ctx;
     let bytes0 = t + ucast len;
     let ctx = ctx\<lparr>md_bytes0 := bytes0,
                   md_bytes1 := if bytes0 < t then md_bytes1 ctx + 1 else md_bytes1 ctx\<rparr>;
     let t = 64 - (t AND 0x3f);
     if t > ucast len then do {
       m \<leftarrow> mem_copy (64 - unat t) buf (unat len) (md_in ctx);
       Some (ctx\<lparr>md_in := m\<rparr>)
     } else do {
       m \<leftarrow> mem_copy (64 - unat t) buf (unat t) (md_in ctx);
       md5_chunks bo (absorb bo (ctx\<lparr>md_in := m\<rparr>)) (drop (unat t) buf) (len - ucast t)
     }
   }"

text \<open>\<open>OI_MD5_Final\<close> gives the digest and the context it leaves: the last statement zeroes
  \<open>sizeof(ctx)\<close> bytes, the size \<open>psize\<close> of a pointer, at the start of the context.\<close>

definition OI_MD5_Final :: "byte_order \<Rightarrow> nat \<Rightarrow> MD5_CONTEXT \<Rightarrow> (bytes \<times> MD5_CONTEXT) option" where
  "OI_MD5_Final bo psize ctx = do {
     let count = sint (md_bytes0 ctx AND 0x3f);
     m \<leftarrow> mem_copy (nat count) [0x80] 1 (md_in ctx);
     let p = nat count + 1;
     let count = 56 - 1 - count;
     (ctx, p, count) \<leftarrow>
       (if count < 0 then do {
          m \<leftarrow> mem_copy p (replicate (nat (count + 8)) 0) (nat (count + 8)) m;
          Some (absorb bo (ctx\<lparr>md_in := m\<rparr>), 0, 56)
        } else Some (ctx\<lparr>md_in := m\<rparr>, p, count));
     m \<leftarrow> mem_copy p (replicate (nat (count + 8)) 0) (nat (count + 8)) (md_in ctx);
     let m = ByteSwap bo 14 m;
     let m = overwrite 56 (store_word bo (push_bit 3 (md_bytes0 ctx))) m;
     let m = overwrite 60 (store_word bo (push_bit 3 (md_bytes1 ctx) OR drop_bit 29 (md_bytes0 ctx))) m;
     let buf = Transform (md_buf ctx) (load_words bo 16 m);
     let out = ByteSwap bo 4 (concat (map (store_word bo) buf));
     let out' = overwrite 0 (replicate psize 0) out;
     Some (take 16 out, ctx\<lparr>md_buf := load_words bo 4 out', md_in := m\<rparr>)
   }"

section \<open>RFC 1321\<close>

text \<open>The table-driven form: step \<open>i\<close> adds the round function of the last three registers, the
  table entry and a word of the block, and rotates the registers.\<close>

definition md5_K :: "u32 list" where
  "md5_K = [
    0xd76aa478, 0xe8c7b756, 0x242070db, 0xc1bdceee, 0xf57c0faf, 0x4787c62a, 0xa8304613, 0xfd469501,
    0x698098d8, 0x8b44f7af, 0xffff5bb1, 0x895cd7be, 0x6b901122, 0xfd987193, 0xa679438e, 0x49b40821,
    0xf61e2562, 0xc040b340, 0x265e5a51, 0xe9b6c7aa, 0xd62f105d, 0x02441453, 0xd8a1e681, 0xe7d3fbc8,
    0x21e1cde6, 0xc33707d6, 0xf4d50d87, 0x455a14ed, 0xa9e3e905, 0xfcefa3f8, 0x676f02d9, 0x8d2a4c8a,
    0xfffa3942, 0x8771f681, 0x6d9d6122, 0xfde5380c, 0xa4beea44, 0x4bdecfa9, 0xf6bb4b60, 0xbebfbc70,
    0x289b7ec6, 0xeaa127fa, 0xd4ef3085, 0x04881d05, 0xd9d4d039, 0xe6db99e5, 0x1fa27cf8, 0xc4ac5665,
    0xf4292244, 0x432aff97, 0xab9423a7, 0xfc93a039, 0x655b59c3, 0x8f0ccc92, 0xffeff47d, 0x85845dd1,
    0x6fa87e4f, 0xfe2ce6e0, 0xa3014314, 0x4e0811a1, 0xf7537e82, 0xbd3af235, 0x2ad7d2bb, 0xeb86d391]"

definition md5_S :: "nat list" where
  "md5_S = concat (replicate 4 [7, 12, 17, 22]) @ concat (replicate 4 [5, 9, 14, 20]) @
     concat (replicate 4 [4, 11, 16, 23]) @ concat (replicate 4 [6, 10, 15, 21])"

definition md5_F :: "nat \<Rightarrow> u32 \<Rightarrow> u32 \<Rightarrow> u32 \<Rightarrow> u32" where
  "md5_F i x y z =
     (if i < 16 then (x AND y) OR (NOT x AND z)
      else if i < 32 then (x AND z) OR (y AND NOT z)
      else if i < 48 then x XOR y XOR z
      else y XOR (x OR NOT z))"

definition md5_G :: "nat \<Rightarrow> nat" where
  "md5_G i =
     (if i < 16 then i
      else if i < 32 then (5 * i + 1) mod 16
      else if i < 48 then (3 * i + 5) mod 16
      else (7 * i) mod 16)"

fun md5_step :: "u32 list \<Rightarrow> u32 \<times> u32 \<times> u32 \<times> u32 \<Rightarrow> nat \<Rightarrow> u32 \<times> u32 \<times> u32 \<times> u32" where
  "md5_step m (a, b, c, d) i =
     (d, b + word_rotl (md5_S ! i) (a + md5_F i b c d + md5_K ! i + m ! md5_G i), b, c)"

definition md5_compress :: "u32 list \<Rightarrow> u32 list \<Rightarrow> u32 list" where
  "md5_compress h m =
     (case foldl (md5_step m) (h ! 0, h ! 1, h ! 2, h ! 3) [0..<64] of
        (a, b, c, d) \<Rightarrow> [h ! 0 + a, h ! 1 + b, h ! 2 + c, h ! 3 + d])"

definition le_words :: "bytes \<Rightarrow> u32 list" where
  "le_words xs = load_words OI_LITTLE_ENDIAN_BYTE_ORDER 16 xs"

definition md5_iv :: "u32 list" where
  "md5_iv = [0x67452301, 0xefcdab89, 0x98badcfe, 0x10325476]"

text \<open>The whole blocks of a byte string, in order.\<close>

fun md5_blocks :: "nat \<Rightarrow> u32 list \<Rightarrow> bytes \<Rightarrow> u32 list" where
  "md5_blocks 0 h xs = h"
| "md5_blocks (Suc n) h xs = md5_blocks n (md5_compress h (le_words (take 64 xs))) (drop 64 xs)"

definition md5_pad :: "nat \<Rightarrow> bytes" where
  "md5_pad n = 0x80 # replicate ((119 - n mod 64) mod 64) 0 @
     SetUINT32_LittleEndian (of_nat (8 * n)) @ SetUINT32_LittleEndian (of_nat (8 * n div 4294967296))"

definition md5 :: "bytes \<Rightarrow> bytes" where
  "md5 xs =
     (let ys = xs @ md5_pad (length xs) in
      concat (map SetUINT32_LittleEndian (md5_blocks (length ys div 64) md5_iv ys)))"

section \<open>The core is RFC 1321's\<close>

lemma rotl_shifts:
  assumes "0 < s" "s < 32"
  shows "word_rotl s (w :: u32) = push_bit s w OR drop_bit (32 - s) w"
proof (rule bit_word_eqI)
  fix n
  assume n: "n < LENGTH(32)"
  show "bit (word_rotl s w) n = bit (push_bit s w OR drop_bit (32 - s) w) n"
  proof (cases "s \<le> n")
    case True
    then have "(n + (32 - s)) mod 32 = n - s" "\<not> 32 - s + n < 32"
      using n assms by (simp_all add: le_mod_geq)
    with True n assms show ?thesis
      using bit_imp_le_length [of w "32 - s + n"] by (auto simp: bit_word_rotl_iff bit_simps)
  next
    case False
    then have "(n + (32 - s)) mod 32 = 32 - s + n"
      using n assms by simp
    with False n assms show ?thesis
      by (auto simp: bit_word_rotl_iff bit_simps)
  qed
qed

lemma F_select:
  "F1 x y z = (x AND y) OR (NOT x AND z)" "F2 x y z = (x AND z) OR (y AND NOT z)"
  by (rule bit_word_eqI, auto simp: F1_def F2_def bit_simps)+

lemma md5_S_range: "i < 64 \<Longrightarrow> 0 < md5_S ! i \<and> md5_S ! i < 32"
proof -
  have "list_all (\<lambda>s. 0 < s \<and> s < 32) md5_S" "length md5_S = 64"
    by (simp_all add: md5_S_def eval_nat_numeral)
  then show "i < 64 \<Longrightarrow> ?thesis"
    by (simp add: list_all_length)
qed

lemma md5_round:
  assumes "i < 64" "f = md5_F i"
  shows "foldl (md5_step m) (a, b, c, d) (i # is) =
    Let (MD5STEP f a b c d (m ! md5_G i + md5_K ! i) (md5_S ! i)) (\<lambda>w. foldl (md5_step m) (d, w, b, c) is)"
  using md5_S_range [OF assms(1)] by (simp add: assms(2) MD5STEP_def rotl_shifts Let_def ac_simps)

lemma md5_F_rounds:
  "i < 16 \<Longrightarrow> F1 = md5_F i" "16 \<le> i \<Longrightarrow> i < 32 \<Longrightarrow> F2 = md5_F i"
  "32 \<le> i \<Longrightarrow> i < 48 \<Longrightarrow> F3 = md5_F i" "48 \<le> i \<Longrightarrow> F4 = md5_F i"
  by (auto simp: fun_eq_iff md5_F_def F_select F3_def F4_def)

lemma md5_rounds:
  "i < 16 \<Longrightarrow> foldl (md5_step m) (a, b, c, d) (i # is) =
    Let (MD5STEP F1 a b c d (m ! md5_G i + md5_K ! i) (md5_S ! i)) (\<lambda>w. foldl (md5_step m) (d, w, b, c) is)"
  "16 \<le> i \<Longrightarrow> i < 32 \<Longrightarrow> foldl (md5_step m) (a, b, c, d) (i # is) =
    Let (MD5STEP F2 a b c d (m ! md5_G i + md5_K ! i) (md5_S ! i)) (\<lambda>w. foldl (md5_step m) (d, w, b, c) is)"
  "32 \<le> i \<Longrightarrow> i < 48 \<Longrightarrow> foldl (md5_step m) (a, b, c, d) (i # is) =
    Let (MD5STEP F3 a b c d (m ! md5_G i + md5_K ! i) (md5_S ! i)) (\<lambda>w. foldl (md5_step m) (d, w, b, c) is)"
  "48 \<le> i \<Longrightarrow> i < 64 \<Longrightarrow> foldl (md5_step m) (a, b, c, d) (i # is) =
    Let (MD5STEP F4 a b c d (m ! md5_G i + md5_K ! i) (md5_S ! i)) (\<lambda>w. foldl (md5_step m) (d, w, b, c) is)"
  by (rule md5_round; simp add: md5_F_rounds)+

lemma Transform_compress: "Transform buf m = md5_compress buf m"
proof -
  have S: "md5_S = [7, 12, 17, 22, 7, 12, 17, 22, 7, 12, 17, 22, 7, 12, 17, 22,
      5, 9, 14, 20, 5, 9, 14, 20, 5, 9, 14, 20, 5, 9, 14, 20, 4, 11, 16, 23, 4, 11, 16, 23, 4, 11, 16, 23, 4, 11, 16, 23,
      6, 10, 15, 21, 6, 10, 15, 21, 6, 10, 15, 21, 6, 10, 15, 21]"
    by (simp add: md5_S_def eval_nat_numeral)
  have up: "[0..<64] = [0, 1, 2, 3, 4, 5, 6, 7, 8, 9, 10, 11, 12, 13, 14, 15, 16, 17, 18, 19, 20, 21, 22, 23, 24, 25, 26,
     27, 28, 29, 30, 31, 32, 33, 34, 35, 36, 37, 38, 39, 40, 41, 42, 43, 44, 45, 46, 47, 48, 49, 50, 51, 52, 53, 54, 55,
     56, 57, 58, 59, 60, 61, 62, 63]"
    by (simp add: upt_rec del: One_nat_def)
  define L where "L = (Let :: u32 \<Rightarrow> (u32 \<Rightarrow> u32 list) \<Rightarrow> u32 list)"
  define T where "T = (Let :: u32 \<Rightarrow> (u32 \<Rightarrow> u32 \<times> u32 \<times> u32 \<times> u32) \<Rightarrow> u32 \<times> u32 \<times> u32 \<times> u32)"
  have case_T: "(case T w f of (a, b, c, d) \<Rightarrow> g a b c d) = L w (\<lambda>x. case f x of (a, b, c, d) \<Rightarrow> g a b c d)" for w f g
    by (simp add: T_def L_def)
  have start: "L (buf ! 0) (\<lambda>a. L (buf ! 1) (\<lambda>b. L (buf ! 2) (\<lambda>c. L (buf ! 3) (\<lambda>d. f a b c d)))) =
      f (buf ! 0) (buf ! 1) (buf ! 2) (buf ! 3)" for f
    by (simp only: L_def Let_def)
  show ?thesis
    unfolding Transform_def md5_compress_def up L_def [symmetric] start
    by (simp add: md5_rounds [folded T_def] case_T S md5_K_def md5_G_def del: foldl_Cons)
qed

section \<open>Memory\<close>

lemma length_store_word [simp]: "length (store_word bo v) = 4"
  by (simp add: store_word_def)

lemma load_store_word [simp]: "load_word bo (store_word bo v @ r) = v"
proof -
  have "GetUINT32_LittleEndian (SetUINT32_LittleEndian v @ r) = v"
    using Get_Set_UINT32_LittleEndian [of v]
    by (simp add: GetUINT32_LittleEndian_def SetUINT32_LittleEndian_def)
  moreover have "GetUINT32_BigEndian (SetUINT32_BigEndian v @ r) = v"
    using Get_Set_UINT32_BigEndian [of v]
    by (simp add: GetUINT32_BigEndian_def SetUINT32_BigEndian_def)
  ultimately show ?thesis
    by (simp add: load_word_def store_word_def)
qed

lemma ByteSwap_Suc:
  "ByteSwap bo (Suc n) p = store_word bo (GetUINT32_LittleEndian p) @ ByteSwap bo n (drop 4 p)"
  by (simp add: GetUINT32_LittleEndian_def push_bit_or ac_simps)

declare ByteSwap.simps(2) [simp del] ByteSwap_Suc [simp]

lemma GetUINT32_LittleEndian_append [simp]:
  "4 \<le> length p \<Longrightarrow> GetUINT32_LittleEndian (p @ r) = GetUINT32_LittleEndian p"
  by (auto simp: GetUINT32_LittleEndian_def nth_append)

lemma load_words_append: "4 * n \<le> length p \<Longrightarrow> load_words bo n (p @ r) = load_words bo n p"
  by (induction n arbitrary: p)
    (auto simp: load_word_def GetUINT32_LittleEndian_def GetUINT32_BigEndian_def nth_append)

lemma load_words_concat: "load_words bo (m + n) p = load_words bo m p @ load_words bo n (drop (4 * m) p)"
  by (induction m arbitrary: p) (simp_all add: algebra_simps)

lemma length_ByteSwap [simp]: "4 * n \<le> length p \<Longrightarrow> length (ByteSwap bo n p) = length p"
  by (induction bo n p rule: ByteSwap.induct) auto

text \<open>The words in memory after \<open>ByteSwap\<close> are the little-endian ones, whatever the processor.\<close>

lemma load_ByteSwap:
  "4 * n \<le> length p \<Longrightarrow> load_words bo n (ByteSwap bo n p) = load_words OI_LITTLE_ENDIAN_BYTE_ORDER n p"
  by (induction bo n p rule: ByteSwap.induct) (auto simp: load_word_def [of OI_LITTLE_ENDIAN_BYTE_ORDER])

lemma drop_ByteSwap: "4 * n \<le> length p \<Longrightarrow> drop (4 * n) (ByteSwap bo n p) = drop (4 * n) p"
  by (induction bo n p rule: ByteSwap.induct) (auto simp: add.commute)

lemma take_ByteSwap:
  "4 * n \<le> length p \<Longrightarrow> take (4 * n) (ByteSwap bo n p) =
     concat (map (store_word bo) (load_words OI_LITTLE_ENDIAN_BYTE_ORDER n p))"
  by (induction bo n p rule: ByteSwap.induct)
    (auto simp: load_word_def [of OI_LITTLE_ENDIAN_BYTE_ORDER])

text \<open>On a little-endian processor it changes nothing.\<close>

lemma store_load_little: "length p = 4 \<Longrightarrow> store_word OI_LITTLE_ENDIAN_BYTE_ORDER (GetUINT32_LittleEndian p) = p"
proof -
  assume "length p = 4"
  then obtain a b c d where p: "p = [a, b, c, d]"
    by (auto simp: length_Suc_conv eval_nat_numeral)
  have "(ucast (v :: u32) :: u8) = a" "(ucast (drop_bit 8 v) :: u8) = b" "(ucast (drop_bit 16 v) :: u8) = c"
      "(ucast (drop_bit 24 v) :: u8) = d"
    if "v = GetUINT32_LittleEndian p" for v
    unfolding that p by (rule bit_word_eqI, auto simp: GetUINT32_LittleEndian_def bit_simps dest: bit_imp_le_length)+
  then show ?thesis
    by (simp add: store_word_def SetUINT32_LittleEndian_def endian_simps p)
qed

lemma ByteSwap_little: "4 * n \<le> length p \<Longrightarrow> ByteSwap OI_LITTLE_ENDIAN_BYTE_ORDER n p = p"
proof (induction n arbitrary: p)
  case (Suc n)
  then have "GetUINT32_LittleEndian p = GetUINT32_LittleEndian (take 4 p)"
    using GetUINT32_LittleEndian_append [of "take 4 p" "drop 4 p"] by simp
  with Suc show ?case
    using store_load_little [of "take 4 p"] by (simp)
qed simp

lemma ByteSwap_words:
  "concat (map (store_word bo) [a, b, c, d]) = m \<Longrightarrow>
     ByteSwap bo 4 m = concat (map (store_word bo) (load_words OI_LITTLE_ENDIAN_BYTE_ORDER 4 m))"
  using take_ByteSwap [of 4 m bo] drop_ByteSwap [of 4 m bo] by auto

section \<open>Blocks\<close>

lemma md5_blocks_append: "64 * n \<le> length xs \<Longrightarrow> md5_blocks n h (xs @ ys) = md5_blocks n h xs"
  by (induction n arbitrary: h xs) simp_all

lemma md5_blocks_add: "md5_blocks (m + n) h xs = md5_blocks n (md5_blocks m h xs) (drop (64 * m) xs)"
  by (induction m arbitrary: h xs) (simp_all add: algebra_simps)

lemma le_words_take: "64 \<le> length xs \<Longrightarrow> le_words (take 64 xs) = le_words xs"
  using load_words_append [of 16 "take 64 xs" _ "drop 64 xs"] by (simp add: le_words_def)

lemma length_load_words [simp]: "length (load_words bo n p) = n"
  by (induction n arbitrary: p) simp_all

lemma length_Transform [simp]: "length (Transform b m) = 4"
  by (simp add: Transform_compress md5_compress_def split: prod.split)

section \<open>The accumulated state\<close>

definition md5_counts :: "MD5_CONTEXT \<Rightarrow> nat \<Rightarrow> bool" where
  "md5_counts ctx n \<longleftrightarrow> md_bytes0 ctx = of_nat n \<and> md_bytes1 ctx = of_nat (n div 4294967296)"

definition md5_buffered :: "MD5_CONTEXT \<Rightarrow> bytes \<Rightarrow> bool" where
  "md5_buffered ctx xs \<longleftrightarrow> length (md_in ctx) = 64 \<and>
     md_buf ctx = md5_blocks (length xs div 64) md5_iv xs \<and>
     take (length xs mod 64) (md_in ctx) = drop (64 * (length xs div 64)) xs"

definition md5_state :: "MD5_CONTEXT \<Rightarrow> bytes \<Rightarrow> bool" where
  "md5_state ctx xs \<longleftrightarrow> md5_buffered ctx xs \<and> md5_counts ctx (length xs)"

lemma mem_copy_whole: "length dst = n \<Longrightarrow> n \<le> length src \<Longrightarrow> mem_copy 0 src n dst = Some (take n src)"
  by (simp add: mem_copy_def overwrite_def)

lemma absorb_fields [simp]:
  "md_bytes0 (absorb bo ctx) = md_bytes0 ctx" "md_bytes1 (absorb bo ctx) = md_bytes1 ctx"
  "length (md_in ctx) = 64 \<Longrightarrow> length (md_in (absorb bo ctx)) = 64"
  by (simp_all add: absorb_def Let_def)

lemma absorb_compress:
  "length (md_in ctx) = 64 \<Longrightarrow> md_buf (absorb bo ctx) = md5_compress (md_buf ctx) (le_words (md_in ctx))"
  by (simp add: absorb_def Let_def load_ByteSwap le_words_def Transform_compress)

lemma absorb_block:
  assumes "md_buf ctx = md5_blocks n md5_iv xs" "md_in ctx = drop (64 * n) xs" "length xs = 64 * Suc n"
  shows "md_buf (absorb bo ctx) = md5_blocks (Suc n) md5_iv xs"
  using assms md5_blocks_add [of n 1 md5_iv xs] by (simp add: absorb_compress)

lemma md5_chunks_ok:
  assumes "unat len \<le> length buf" "length (md_in ctx) = 64" "64 dvd length xs"
    "md_buf ctx = md5_blocks (length xs div 64) md5_iv xs"
  shows "\<exists>ctx'. md5_chunks bo ctx buf len = Some ctx' \<and> md5_buffered ctx' (xs @ take (unat len) buf) \<and>
    md_bytes0 ctx' = md_bytes0 ctx \<and> md_bytes1 ctx' = md_bytes1 ctx"
  using assms
proof (induction bo ctx buf len arbitrary: xs rule: md5_chunks.induct)
  case (1 bo ctx buf len)
  obtain n where n: "length xs = 64 * n"
    using 1(4) by blast
  show ?case
  proof (cases "64 \<le> len")
    case True
    then have u: "64 \<le> unat len" "unat (len - 64) = unat len - 64"
      by (simp_all add: word_le_nat_alt unat_sub_u16)
    have c: "mem_copy 0 buf 64 (md_in ctx) = Some (take 64 buf)"
      using 1(2,3) u by (simp add: mem_copy_whole)
    let ?c = "ctx\<lparr>md_in := take 64 buf\<rparr>" and ?xs = "xs @ take 64 buf"
    have len': "length (take 64 buf) = 64" "length ?xs = 64 * Suc n"
      using 1(2) u n by simp_all
    have "md_buf (absorb bo ?c) = md5_blocks (Suc n) md5_iv ?xs"
      using 1(5) n len' by (intro absorb_block) (simp_all add: md5_blocks_append)
    then have "\<exists>ctx'. md5_chunks bo (absorb bo ?c) (drop 64 buf) (len - 64) = Some ctx' \<and>
        md5_buffered ctx' (?xs @ take (unat (len - 64)) (drop 64 buf)) \<and>
        md_bytes0 ctx' = md_bytes0 (absorb bo ?c) \<and> md_bytes1 ctx' = md_bytes1 (absorb bo ?c)"
      using 1(2) u len' by (intro 1(1) [OF True c]) simp_all
    moreover have "?xs @ take (unat (len - 64)) (drop 64 buf) = xs @ take (unat len) buf"
      using u take_add [of 64 "unat len - 64" buf] by simp
    ultimately show ?thesis
      using True c by (subst md5_chunks.simps) simp
  next
    case False
    then have u: "unat len < 64"
      by (simp add: word_le_nat_alt)
    then have "length (xs @ take (unat len) buf) div 64 = n" "length (xs @ take (unat len) buf) mod 64 = unat len"
      using n 1(2) by simp_all
    with False u 1(2,3,5) n show ?thesis
      by (subst md5_chunks.simps)
        (auto simp: mem_copy_def md5_buffered_def md5_blocks_append overwrite_def)
  qed
qed

lemma low_six: "unat ((w :: u32) AND 0x3f) = unat w mod 64"
proof -
  have "(63 :: nat) = mask 6"
    by (simp add: mask_eq_exp_minus_1)
  then show ?thesis
    using take_bit_eq_mask [of 6 "unat w"] by (simp add: unsigned_and_eq take_bit_eq_mod)
qed

lemma unat_ucast_u16_u32 [simp]: "unat (ucast (v :: u16) :: u32) = unat v"
  using unat_lt_u16 [of v] by (simp add: unsigned_ucast_eq take_bit_nat_eq_self del: unat_lt_u16)

lemma unat_of_nat_mod_u32: "unat (of_nat n :: u32) = n mod 4294967296"
  by (simp add: unat_of_nat take_bit_eq_mod)

lemma div_add_carry:
  assumes "l < m"
  shows "(n + l) div m = n div m + (if (n + l) mod m < n mod m then 1 else 0 :: nat)"
proof (cases "n mod m + l < m")
  case True
  then have "(n mod m + l) div m = 0" "(n + l) mod m = n mod m + l"
    using mod_add_left_eq [of n m l] by (simp_all del: mod_add_left_eq)
  with assms show ?thesis
    using div_add1_eq [of n l m] by simp
next
  case False
  have r: "n mod m < m"
    using assms by simp
  have "(n + l) mod m = (n mod m + l - m) mod m"
    using False mod_add_left_eq [of n m l] by (simp add: le_mod_geq del: mod_add_left_eq)
  moreover have "n mod m + l - m < m"
    using False assms r by linarith
  ultimately have "(n + l) mod m = n mod m + l - m" "(n mod m + l) div m = 1"
    using False by (simp_all add: le_div_geq)
  moreover have "n mod m + l - m < n mod m"
    using assms False r by linarith
  ultimately show ?thesis
    using div_add1_eq [of n l m] assms by simp
qed

lemma md5_counts_add:
  assumes "md5_counts ctx n"
  shows "md5_counts (ctx\<lparr>md_bytes0 := md_bytes0 ctx + ucast (len :: u16),
      md_bytes1 := if md_bytes0 ctx + ucast len < md_bytes0 ctx then md_bytes1 ctx + 1 else md_bytes1 ctx\<rparr>)
    (n + unat len)"
proof -
  have l: "unat len < 65536" by simp
  have "unat (of_nat n + ucast len :: u32) = (n + unat len) mod 4294967296"
    by (simp add: unat_word_ariths unat_of_nat_mod_u32 mod_simps)
  then have lt: "(of_nat n + ucast len :: u32) < of_nat n \<longleftrightarrow> (n + unat len) mod 4294967296 < n mod 4294967296"
    by (simp add: word_less_nat_alt unat_of_nat_mod_u32)
  have d: "(n + unat len) div 4294967296 = n div 4294967296 +
      (if (n + unat len) mod 4294967296 < n mod 4294967296 then 1 else 0)"
    using l by (intro div_add_carry) linarith
  have "(ucast len :: u32) = of_nat (unat len)"
    by simp
  then show ?thesis
    using assms lt unfolding md5_counts_def by (simp add: d)
qed


lemma md5_state_Init: "length (md_in ctx) = 64 \<Longrightarrow> md5_state (OI_MD5_Init ctx) []"
  by (simp add: md5_state_def md5_buffered_def md5_counts_def OI_MD5_Init_def md5_iv_def)

lemma OI_MD5_Update_ok:
  assumes "md5_state ctx xs" "unat len \<le> length buf"
  shows "\<exists>ctx'. OI_MD5_Update bo ctx buf len = Some ctx' \<and> md5_state ctx' (xs @ take (unat len) buf)"
proof -
  let ?n = "length xs"
  define ctx1 where "ctx1 = ctx\<lparr>md_bytes0 := md_bytes0 ctx + ucast len,
      md_bytes1 := if md_bytes0 ctx + ucast len < md_bytes0 ctx then md_bytes1 ctx + 1 else md_bytes1 ctx\<rparr>"
  have cnt: "md5_counts ctx1 (length (xs @ take (unat len) buf))"
    unfolding ctx1_def using md5_counts_add [of ctx ?n len] assms by (simp add: md5_state_def)
  have buf: "length (md_in ctx) = 64" "md_buf ctx = md5_blocks (?n div 64) md5_iv xs"
    "take (?n mod 64) (md_in ctx) = drop (64 * (?n div 64)) xs"
    using assms(1) by (simp_all add: md5_state_def md5_buffered_def)
  define t :: u32 where "t = 64 - (md_bytes0 ctx AND 0x3f)"
  have "unat (md_bytes0 ctx AND 0x3f) = ?n mod 64"
    using assms(1) mod_mod_cancel [of 64 4294967296 ?n]
    by (simp add: low_six md5_state_def md5_counts_def unat_of_nat_mod_u32)
  then have t: "unat t = 64 - ?n mod 64" "64 - unat t = ?n mod 64"
    unfolding t_def by (simp_all add: unat_sub_u32 less_imp_le_nat)
  have Update: "OI_MD5_Update bo ctx buf len =
     (if t > ucast len then do {
       m \<leftarrow> mem_copy (64 - unat t) buf (unat len) (md_in ctx1);
       Some (ctx1\<lparr>md_in := m\<rparr>)
     } else do {
       m \<leftarrow> mem_copy (64 - unat t) buf (unat t) (md_in ctx1);
       md5_chunks bo (absorb bo (ctx1\<lparr>md_in := m\<rparr>)) (drop (unat t) buf) (len - ucast t)
     })"
    by (simp only: OI_MD5_Update_def Let_def ctx1_def t_def)
  have in1: "md_in ctx1 = md_in ctx" "md_buf ctx1 = md_buf ctx"
    by (simp_all add: ctx1_def)
  show ?thesis
  proof (cases "unat len < unat t")
    case True
    then have "(?n + unat len) div 64 = ?n div 64" "(?n + unat len) mod 64 = ?n mod 64 + unat len"
      using t(1) by (simp_all add: div_add1_eq [of ?n] mod_add_eq [of ?n, symmetric] del: mod_add_eq)
    moreover have "take (?n mod 64 + unat len) (overwrite (?n mod 64) (take (unat len) buf) (md_in ctx)) =
        drop (64 * (?n div 64)) xs @ take (unat len) buf"
      using buf True t(1) assms(2) take_overwrite_upto [of "?n mod 64" "take (unat len) buf" "md_in ctx"] by simp
    moreover have "length (overwrite (?n mod 64) (take (unat len) buf) (md_in ctx)) = 64"
      using buf True t(1) assms(2) by simp
    ultimately have "md5_buffered (ctx1\<lparr>md_in := overwrite (?n mod 64) (take (unat len) buf) (md_in ctx)\<rparr>)
        (xs @ take (unat len) buf)"
      using buf(2) in1(2) assms(2) unfolding md5_buffered_def by (simp add: md5_blocks_append)
    moreover have "mem_copy (?n mod 64) buf (unat len) (md_in ctx) =
        Some (overwrite (?n mod 64) (take (unat len) buf) (md_in ctx))"
      using True t(1) assms(2) buf(1) by (simp add: mem_copy_def)
    ultimately show ?thesis
      using True cnt by (simp add: Update t(2) in1 word_less_nat_alt md5_state_def md5_counts_def)
  next
    case False
    let ?m = "overwrite (?n mod 64) (take (unat t) buf) (md_in ctx)"
      and ?xs = "xs @ take (unat t) buf"
    have tl: "unat t \<le> length buf" "?n mod 64 + unat t = 64"
      using False assms(2) t(1) by simp_all
    have c: "mem_copy (64 - unat t) buf (unat t) (md_in ctx1) = Some ?m"
      using tl buf(1) by (simp add: mem_copy_def t(2) in1)
    have "?n = 64 * (?n div 64) + ?n mod 64" "length (take (unat t) buf) = unat t"
      using tl by simp_all
    then have n': "length ?xs = 64 * Suc (?n div 64)"
      using tl unfolding length_append mult_Suc_right by linarith
    have m: "?m = drop (64 * (?n div 64)) ?xs"
      using buf(1,3) tl by (simp add: overwrite_def)
    define ctx2 where "ctx2 = absorb bo (ctx1\<lparr>md_in := ?m\<rparr>)"
    have "length ?xs div 64 = Suc (?n div 64)" "64 dvd length ?xs"
      unfolding n' by simp_all
    moreover have "md_buf ctx2 = md5_blocks (Suc (?n div 64)) md5_iv ?xs"
      unfolding ctx2_def using m n' buf(2) in1 by (intro absorb_block) (simp_all add: md5_blocks_append)
    moreover have "length (md_in ctx2) = 64"
      using tl buf(1) by (simp add: ctx2_def)
    moreover have u: "unat (len - ucast t) = unat len - unat t"
      using False t(1) by (simp add: unat_sub_u16 unsigned_ucast_eq take_bit_nat_eq_self)
    moreover have "unat (len - ucast t) \<le> length (drop (unat t) buf)"
      using u assms(2) by simp
    ultimately obtain ctx' where ctx': "md5_chunks bo ctx2 (drop (unat t) buf) (len - ucast t) = Some ctx'"
        "md5_buffered ctx' (?xs @ take (unat (len - ucast t)) (drop (unat t) buf))"
        "md_bytes0 ctx' = md_bytes0 ctx2" "md_bytes1 ctx' = md_bytes1 ctx2"
      using md5_chunks_ok [of "len - ucast t" "drop (unat t) buf" ctx2 ?xs bo] by metis
    have "?xs @ take (unat (len - ucast t)) (drop (unat t) buf) = xs @ take (unat len) buf"
      using u False take_add [of "unat t" "unat len - unat t" buf] by simp
    then show ?thesis
      using ctx' cnt False c
      by (simp add: Update word_less_nat_alt md5_state_def md5_counts_def ctx2_def [symmetric])
        (simp add: ctx2_def)
  qed
qed

section \<open>The digest\<close>

lemma store_load_store: "store_word bo (GetUINT32_LittleEndian (store_word bo v)) = SetUINT32_LittleEndian v"
proof (cases "bo = OI_BIG_ENDIAN_BYTE_ORDER")
  case True
  have rev: "SetUINT32_BigEndian w = rev (SetUINT32_LittleEndian w)" for w
    by (simp add: SetUINT32_BigEndian_def SetUINT32_LittleEndian_def)
  have "SetUINT32_LittleEndian (GetUINT32_LittleEndian (SetUINT32_BigEndian v)) = SetUINT32_BigEndian v"
    using store_load_little [of "SetUINT32_BigEndian v"] by (simp add: store_word_def)
  with True show ?thesis
    using rev [of v] rev [of "GetUINT32_LittleEndian (SetUINT32_BigEndian v)"] by (simp add: store_word_def)
qed (simp add: store_word_def)

lemma ByteSwap_stored: "ByteSwap bo n (concat (map (store_word bo) ws) @ r) =
    concat (map SetUINT32_LittleEndian ws) @ r" if "length ws = n"
  using that
proof (induction ws arbitrary: n)
  case (Cons w ws)
  then show ?case
    by (cases n) (simp_all add: store_load_store)
qed simp

text \<open>The length words: the number of bits modulo \<open>2\<^sup>6\<^sup>4\<close>.\<close>

lemma bit_count_words:
  "push_bit 3 (of_nat n :: u32) = of_nat (8 * n)"
  "push_bit 3 (of_nat (n div 4294967296) :: u32) OR drop_bit 29 (of_nat n) = of_nat (8 * n div 4294967296)"
proof -
  show "push_bit 3 (of_nat n :: u32) = of_nat (8 * n)"
    by (simp add: push_bit_eq_mult)
  have "push_bit 3 (of_nat (n div 4294967296) :: u32) OR drop_bit 29 (of_nat n) =
      push_bit 3 (of_nat (n div 4294967296)) + drop_bit 29 (of_nat n)"
    by (rule disjunctive_add [symmetric]) (auto simp: bit_simps dest: bit_imp_le_length)
  also have "\<dots> = of_nat (8 * (n div 4294967296) + (n mod 4294967296) div 536870912)"
  proof -
    have "drop_bit 29 (of_nat n :: u32) = of_nat ((n mod 4294967296) div 536870912)"
      by (rule word_unat_eqI) (simp add: unat_drop_bit_eq drop_bit_eq_div [where ?'a = nat] unat_of_nat_mod_u32)
    then show ?thesis
      by (simp add: push_bit_eq_mult)
  qed
  also have "8 * (n div 4294967296) + (n mod 4294967296) div 536870912 = 8 * n div 4294967296"
  proof -
    have "8 * n = 8 * (n mod 4294967296) + 8 * (n div 4294967296) * 4294967296"
      using mult_div_mod_eq [of 4294967296 n] by linarith
    moreover have "(8 * (n mod 4294967296) + 8 * (n div 4294967296) * 4294967296) div 4294967296 =
        8 * (n div 4294967296) + 8 * (n mod 4294967296) div 4294967296"
      by (rule div_mult_self1) simp
    moreover have "8 * (n mod 4294967296) div 4294967296 = (n mod 4294967296) div 536870912"
      using div_mult_mult1 [of 8 "n mod 4294967296" "536870912 :: nat"] by simp
    ultimately show ?thesis
      by metis
  qed
  finally show "push_bit 3 (of_nat (n div 4294967296) :: u32) OR drop_bit 29 (of_nat n) = of_nat (8 * n div 4294967296)" .
qed

lemma last_block:
  assumes "length m = 64"
  shows "load_words bo 16 (overwrite 60 (store_word bo b) (overwrite 56 (store_word bo a) (ByteSwap bo 14 m))) =
    le_words (take 56 m @ SetUINT32_LittleEndian a @ SetUINT32_LittleEndian b)"
proof -
  let ?s = "take 56 (ByteSwap bo 14 m)"
  have s: "overwrite 60 (store_word bo b) (overwrite 56 (store_word bo a) (ByteSwap bo 14 m)) =
      ?s @ store_word bo a @ store_word bo b"
    using assms by (simp add: overwrite_def)
  have two: "load_words bo 2 (store_word bo a @ store_word bo b @ r) = [a, b]" for bo r
    using load_store_word [of bo b r] by (simp add: numeral_2_eq_2)
  have split: "load_words bo (14 + 2) (y @ z) = load_words bo 14 y @ load_words bo 2 z" if "length y = 56" for bo y z
    using that unfolding load_words_concat by (simp add: load_words_append)
  have "load_words bo 14 ?s = load_words OI_LITTLE_ENDIAN_BYTE_ORDER 14 m"
    using load_ByteSwap [of 14 m bo] load_words_append [of 14 ?s bo "drop 56 (ByteSwap bo 14 m)"] assms by simp
  moreover have "load_words OI_LITTLE_ENDIAN_BYTE_ORDER 14 (take 56 m) = load_words OI_LITTLE_ENDIAN_BYTE_ORDER 14 m"
    using load_words_append [of 14 "take 56 m" OI_LITTLE_ENDIAN_BYTE_ORDER "drop 56 m"] assms by simp
  ultimately show ?thesis
    unfolding s le_words_def
    using split [of ?s bo "store_word bo a @ store_word bo b"] two [of bo "[]"] assms
      split [of "take 56 m" OI_LITTLE_ENDIAN_BYTE_ORDER "SetUINT32_LittleEndian a @ SetUINT32_LittleEndian b"]
      two [of OI_LITTLE_ENDIAN_BYTE_ORDER "[]"] by (simp add: store_word_def [of OI_LITTLE_ENDIAN_BYTE_ORDER])
qed

lemma digest_bytes:
  assumes "length buf = 4"
  shows "take 16 (ByteSwap bo 4 (concat (map (store_word bo) buf))) = concat (map SetUINT32_LittleEndian buf)"
proof -
  obtain a b c d where "buf = [a, b, c, d]"
    using assms by (auto simp: length_Suc_conv eval_nat_numeral)
  then have "length (concat (map SetUINT32_LittleEndian buf)) = 16"
    by simp
  then show ?thesis
    using ByteSwap_stored [OF assms, of bo "[]"] by simp
qed

lemma md5_tail:
  assumes "length xs = 64 * q + r" "length (drop (64 * q) xs @ md5_pad (length xs)) = 64 * k"
  shows "md5 xs = concat (map SetUINT32_LittleEndian
    (md5_blocks k (md5_blocks q md5_iv xs) (drop (64 * q) xs @ md5_pad (length xs))))"
proof -
  have "length (xs @ md5_pad (length xs)) = 64 * (q + k)"
    using assms by (simp add: algebra_simps)
  then have "length (xs @ md5_pad (length xs)) div 64 = q + k"
    by simp
  then show ?thesis
    using assms(1) unfolding md5_def Let_def by (simp add: md5_blocks_add md5_blocks_append)
qed

lemma length_md5_compress [simp]: "length (md5_compress h m) = 4"
  by (simp add: md5_compress_def split: prod.split)

lemma sint_small_u32: "unat (w :: u32) < 2147483648 \<Longrightarrow> sint w = int (unat w)"
proof -
  assume "unat w < 2147483648"
  then have "int (unat w) < 2147483648"
    by (simp only: of_nat_less_numeral_iff)
  then have "uint w < 2 ^ 31"
    by simp
  moreover have "- (2 ^ 31) \<le> uint w"
    by (rule order_trans [of _ 0]) simp_all
  ultimately have "signed_take_bit 31 (uint w) = uint w"
    by (intro signed_take_bit_int_eq_self)
  then show "sint w = int (unat w)"
    by (simp add: sint_uint)
qed

lemma OI_MD5_Final_ok:
  assumes "md5_state ctx xs"
  shows "\<exists>ctx'. OI_MD5_Final bo psize ctx = Some (md5 xs, ctx') \<and>
    (length xs mod 64 < 56 \<longrightarrow> bo = OI_LITTLE_ENDIAN_BYTE_ORDER \<longrightarrow> 
      take (length xs mod 64) (md_in ctx') = drop (64 * (length xs div 64)) xs)"
proof -
  define q r n where "q = length xs div 64" and "r = length xs mod 64" and "n = length xs"
  define tail where "tail = drop (64 * q) xs"
  have len: "length xs = 64 * q + r" "r < 64" "length tail = r"
    by (simp_all add: q_def r_def tail_def minus_mult_div_eq_mod)
  have buf: "length (md_in ctx) = 64" "md_buf ctx = md5_blocks q md5_iv xs" "take r (md_in ctx) = tail"
    using assms by (simp_all add: md5_state_def md5_buffered_def q_def r_def tail_def)
  have cnt: "md_bytes0 ctx = of_nat n" "md_bytes1 ctx = of_nat (n div 4294967296)"
    using assms by (simp_all add: md5_state_def md5_counts_def n_def)
  have "unat (md_bytes0 ctx AND 0x3f) = r"
    using mod_mod_cancel [of 64 4294967296 n] by (simp add: low_six cnt unat_of_nat_mod_u32 r_def n_def)
  then have count: "sint (md_bytes0 ctx AND 0x3f) = int r"
    using len(2) by (simp add: sint_small_u32)
  define a b :: u32 where "a = of_nat (8 * n)" and "b = of_nat (8 * n div 4294967296)"
  have ab: "push_bit 3 (md_bytes0 ctx) = a" "push_bit 3 (md_bytes1 ctx) OR drop_bit 29 (md_bytes0 ctx) = b"
    unfolding a_def b_def cnt by (rule bit_count_words)+
  let ?L = "SetUINT32_LittleEndian a @ SetUINT32_LittleEndian b"
  have pad: "md5_pad n = 0x80 # replicate ((119 - r) mod 64) 0 @ ?L"
    by (simp only: md5_pad_def r_def n_def a_def b_def)
  define m1 where "m1 = tail @ 0x80 # drop (r + 1) (md_in ctx)"
  have m1: "mem_copy r [0x80] 1 (md_in ctx) = Some m1" "length m1 = 64"
    using buf len by (simp_all add: m1_def mem_copy_def overwrite_def)
  have zero: "mem_copy p (replicate k 0) k m = Some (take p m @ replicate k 0)" if "p + k = 64" "length m = 64" for p k and m :: bytes
    using that by (simp add: mem_copy_def overwrite_def)
  have L: "length ?L = 8"
    by simp
  define finish where "finish c m = (do {
       let m = ByteSwap bo 14 m;
       let m = overwrite 56 (store_word bo a) m;
       let m = overwrite 60 (store_word bo b) m;
       let buf = Transform (md_buf c) (load_words bo 16 m);
       let out = ByteSwap bo 4 (concat (map (store_word bo) buf));
       let out' = overwrite 0 (replicate psize 0) out;
       Some (take 16 out, c\<lparr>md_buf := load_words bo 4 out', md_in := m\<rparr>)
     })" for m and c :: MD5_CONTEXT
  have finish: "\<exists>c'. finish c m =
      Some (concat (map SetUINT32_LittleEndian (md5_compress (md_buf c) (le_words (take 56 m @ ?L)))), c') \<and>
      md_in c' = overwrite 60 (store_word bo b)
        (overwrite 56 (store_word bo a) (ByteSwap bo 14 m))"
    if "length m = 64" for m c
    unfolding finish_def Let_def last_block [OF that] Transform_compress by (simp add: digest_bytes)
  show ?thesis
  proof (cases "r < 56")
    case True
    define m where "m = tail @ 0x80 # replicate (63 - r) 0"
    have m: "length m = 64" "take (r + 1) m1 @ replicate (63 - r) 0 = m"
      using len True by (simp_all add: m_def m1_def)
    have "(119 - r) mod 64 = 55 - r" "56 - r = Suc (55 - r)"
      using True by (simp_all add: le_mod_geq)
    then have last: "tail @ md5_pad n = take 56 m @ ?L"
      using True len by (simp add: pad m_def)
    have Final: "OI_MD5_Final bo psize ctx = finish (ctx\<lparr>md_in := m\<rparr>) m"
      using True m1 zero [of "r + 1" "63 - r" m1] m(2)
      by (simp add: OI_MD5_Final_def count ab nat_diff_distrib finish_def Let_def)
    obtain c' where c': "OI_MD5_Final bo psize ctx =
        Some (concat (map SetUINT32_LittleEndian (md5_compress (md_buf ctx) (le_words (take 56 m @ ?L)))), c')"
        "md_in c' = overwrite 60 (store_word bo b)
        (overwrite 56 (store_word bo a) (ByteSwap bo 14 m))"
      unfolding Final using finish [OF m(1), of "ctx\<lparr>md_in := m\<rparr>"] by auto
    have tl: "length (tail @ md5_pad n) = 64"
      unfolding last using m(1) by simp
    have "md5 xs = concat (map SetUINT32_LittleEndian (md5_blocks 1 (md5_blocks q md5_iv xs) (tail @ md5_pad n)))"
      unfolding tail_def n_def by (rule md5_tail [OF len(1)]) (use tl in \<open>simp add: tail_def n_def\<close>)
    also have "\<dots> = concat (map SetUINT32_LittleEndian (md5_compress (md_buf ctx) (le_words (take 56 m @ ?L))))"
      using tl last m(1) buf(2) by simp
    finally have "OI_MD5_Final bo psize ctx = Some (md5 xs, c')"
      using c'(1) by simp
    moreover have "take r (md_in c') = tail" if "bo = OI_LITTLE_ENDIAN_BYTE_ORDER"
      using that True len(3) m(1) ByteSwap_little [of 14 m] by (simp add: c'(2) m_def)
    ultimately show ?thesis
      unfolding r_def q_def tail_def by blast
  next
    case False
    define m where "m = tail @ 0x80 # replicate (63 - r) 0"
    have m: "length m = 64" "take (r + 1) m1 @ replicate (63 - r) 0 = m"
      using len False by (simp_all add: m_def m1_def)
    define c2 where "c2 = absorb bo (ctx\<lparr>md_in := m\<rparr>)"
    have c2: "md_buf c2 = md5_compress (md_buf ctx) (le_words m)" "length (md_in c2) = 64"
        "md_bytes0 c2 = md_bytes0 ctx" "md_bytes1 c2 = md_bytes1 ctx"
      using m(1) by (simp_all add: c2_def absorb_compress)
    let ?z = "replicate 64 0"
    have "(119 - r) mod 64 = 119 - r" "119 - r = (63 - r) + 56"
      using False len(2) by simp_all
    then have "replicate ((119 - r) mod 64) (0 :: u8) = replicate (63 - r) 0 @ replicate 56 0"
      by (simp only: replicate_add)
    then have last: "tail @ md5_pad n = m @ take 56 ?z @ ?L"
      using len by (simp add: pad m_def)
    have Final: "OI_MD5_Final bo psize ctx = finish c2 ?z"
      using False len(2) m1 zero [of "r + 1" "63 - r" m1] zero [of 0 64 "md_in c2"] m(2) c2(2-4)
      by (simp add: OI_MD5_Final_def count ab nat_diff_distrib finish_def Let_def c2_def [symmetric])
    obtain c' where c': "OI_MD5_Final bo psize ctx =
        Some (concat (map SetUINT32_LittleEndian (md5_compress (md_buf c2) (le_words (take 56 ?z @ ?L)))), c')"
      unfolding Final using finish [of ?z c2] by auto
    have tl: "length (tail @ md5_pad n) = 64 * 2"
      unfolding last using m(1) by simp
    have "md5 xs = concat (map SetUINT32_LittleEndian (md5_blocks 2 (md5_blocks q md5_iv xs) (tail @ md5_pad n)))"
      unfolding tail_def n_def by (rule md5_tail [OF len(1)]) (use tl in \<open>simp add: tail_def n_def\<close>)
    also have "\<dots> = concat (map SetUINT32_LittleEndian (md5_compress (md_buf c2) (le_words (take 56 ?z @ ?L))))"
      unfolding last c2(1) using m(1) buf(2) by (simp add: numeral_2_eq_2)
    finally show ?thesis
      using c' False by (auto simp: r_def)
  qed
qed

section \<open>The interface\<close>

text \<open>What the callers rely on: a context is started, fed and finished, and the digest is a
  function of the bytes it was fed with, however they were split.\<close>

fun update_all :: "('c \<Rightarrow> bytes \<Rightarrow> u16 \<Rightarrow> 'c option) \<Rightarrow> 'c \<Rightarrow> (bytes \<times> u16) list \<Rightarrow> 'c option" where
  "update_all update c [] = Some c"
| "update_all update c ((buf, len) # chunks) = do {
     c \<leftarrow> update c buf len;
     update_all update c chunks
   }"

definition fed :: "(bytes \<times> u16) list \<Rightarrow> bytes" where
  "fed chunks = concat (map (\<lambda>(buf, len). take (unat len) buf) chunks)"

definition readable :: "(bytes \<times> u16) list \<Rightarrow> bool" where
  "readable chunks \<longleftrightarrow> list_all (\<lambda>(buf, len). unat len \<le> length buf) chunks"

locale digest =
  fixes init :: "'c \<Rightarrow> 'c"
    and update :: "'c \<Rightarrow> bytes \<Rightarrow> u16 \<Rightarrow> 'c option"
    and final :: "'c \<Rightarrow> (bytes \<times> 'c) option"
    and space :: "'c \<Rightarrow> bool"
    and state :: "'c \<Rightarrow> bytes \<Rightarrow> bool"
    and h :: "bytes \<Rightarrow> bytes"
  assumes init: "space c \<Longrightarrow> state (init c) []"
    and update: "state c xs \<Longrightarrow> unat len \<le> length buf \<Longrightarrow>
      \<exists>c'. update c buf len = Some c' \<and> state c' (xs @ take (unat len) buf)"
    and final: "state c xs \<Longrightarrow> \<exists>c'. final c = Some (h xs, c')"
begin

lemma update_all_state:
  "state c xs \<Longrightarrow> readable chunks \<Longrightarrow> \<exists>c'. update_all update c chunks = Some c' \<and> state c' (xs @ fed chunks)"
proof (induction chunks arbitrary: c xs)
  case (Cons bl chunks)
  obtain buf len where bl: "bl = (buf, len)"
    by (cases bl)
  then have "unat len \<le> length buf" "readable chunks"
    using Cons.prems(2) by (simp_all add: readable_def)
  with update [OF Cons.prems(1)] obtain c' where c': "update c buf len = Some c'" "state c' (xs @ take (unat len) buf)"
    by blast
  with Cons.IH [OF c'(2) \<open>readable chunks\<close>] show ?case
    by (auto simp: bl fed_def)
qed (simp add: fed_def)

lemma digest_fed:
  assumes "space c" "readable chunks"
  shows "\<exists>c1 c2. update_all update (init c) chunks = Some c1 \<and> final c1 = Some (h (fed chunks), c2)"
  using update_all_state [OF init [OF assms(1)] assms(2)] final by fastforce

end

definition md5_space :: "MD5_CONTEXT \<Rightarrow> bool" where
  "md5_space ctx \<longleftrightarrow> length (md_in ctx) = 64"

interpretation md5: digest OI_MD5_Init "OI_MD5_Update bo" "OI_MD5_Final bo psize" md5_space md5_state md5
  for bo psize
proof
  show "\<exists>c'. OI_MD5_Final bo psize c = Some (md5 xs, c')" if "md5_state c xs" for c xs
    using OI_MD5_Final_ok [OF that] by blast
qed (simp_all add: md5_space_def md5_state_Init OI_MD5_Update_ok)

section \<open>Properties\<close>

text \<open>C28: The unrolled \<open>Transform\<close>, with its two optimised round functions, is the compression
  function of RFC 1321 on every chaining value and every block.\<close>

theorem Transform_RFC1321:
  "Transform buf inp = md5_compress buf inp"
  by (rule Transform_compress)

text \<open>C29: On a processor of either byte order, starting a context, feeding it any buffers of any
  sizes and finishing it gives the MD5 digest of their concatenation: the split into calls, the
  64-byte buffering, the carry of the byte count and the padding in one or two blocks make no
  difference, and no copy leaves the context or the buffers.\<close>

theorem OI_MD5_streaming:
  assumes "length (md_in ctx) = 64" and "readable chunks"
  shows "\<exists>ctx1 ctx2. update_all (OI_MD5_Update bo) (OI_MD5_Init ctx) chunks = Some ctx1 \<and>
    OI_MD5_Final bo psize ctx1 = Some (md5 (fed chunks), ctx2)"
  using md5.digest_fed assms by (simp add: md5_space_def)

definition demo_ctx :: MD5_CONTEXT where
  "demo_ctx = \<lparr>md_buf = [0, 0, 0, 0], md_bytes0 = 0, md_bytes1 = 0, md_in = replicate 64 0\<rparr>"

lemma md5_abc:
  "md5 [0x61, 0x62, 0x63] =
     [0x90, 0x01, 0x50, 0x98, 0x3c, 0xd2, 0x4f, 0xb0, 0xd6, 0x96, 0x3f, 0x7d, 0x28, 0xe1, 0x7f, 0x72]"
proof -
  have "map_option fst (do { c \<leftarrow> OI_MD5_Update OI_LITTLE_ENDIAN_BYTE_ORDER (OI_MD5_Init demo_ctx) [0x61, 0x62, 0x63] 3;
      OI_MD5_Final OI_LITTLE_ENDIAN_BYTE_ORDER 4 c }) =
    Some [0x90, 0x01, 0x50, 0x98, 0x3c, 0xd2, 0x4f, 0xb0, 0xd6, 0x96, 0x3f, 0x7d, 0x28, 0xe1, 0x7f, 0x72]"
    by code_simp
  moreover have "\<exists>c1 c2. OI_MD5_Update OI_LITTLE_ENDIAN_BYTE_ORDER (OI_MD5_Init demo_ctx) [0x61, 0x62, 0x63] 3 = Some c1 \<and>
      OI_MD5_Final OI_LITTLE_ENDIAN_BYTE_ORDER 4 c1 = Some (md5 [0x61, 0x62, 0x63], c2)"
    using md5.digest_fed [of demo_ctx "[([0x61, 0x62, 0x63], 3)]" OI_LITTLE_ENDIAN_BYTE_ORDER 4]
    by (simp add: md5_space_def readable_def fed_def) (simp add: demo_ctx_def)
  ultimately show ?thesis
    by auto
qed

lemma OI_MD5_streaming_witness:
  "\<exists>ctx1 ctx2. update_all (OI_MD5_Update OI_BIG_ENDIAN_BYTE_ORDER) (OI_MD5_Init demo_ctx)
      [([0x61], 1), ([0x62, 0x63, 0], 2)] = Some ctx1 \<and>
    OI_MD5_Final OI_BIG_ENDIAN_BYTE_ORDER 4 ctx1 =
      Some ([0x90, 0x01, 0x50, 0x98, 0x3c, 0xd2, 0x4f, 0xb0, 0xd6, 0x96, 0x3f, 0x7d, 0x28, 0xe1, 0x7f, 0x72], ctx2)"
  using OI_MD5_streaming [of demo_ctx "[([0x61], 1), ([0x62, 0x63, 0], 2)]" OI_BIG_ENDIAN_BYTE_ORDER 4]
  by (simp add: demo_ctx_def readable_def fed_def md5_abc)

text \<open>\<open>OI_MD5_Final\<close> means to wipe the context and does not: \<open>sizeof(ctx)\<close> is the size of the
  pointer, so on a little-endian processor a message of fewer than 56 bytes (a nonce and a
  password, say) is still in the context's buffer after the digest was taken.\<close>

theorem OI_MD5_Final_leaves_message:
  assumes "length (md_in ctx) = 64" and "readable chunks" and "length (fed chunks) < 56"
  shows "\<exists>ctx1 digest ctx2.
    update_all (OI_MD5_Update OI_LITTLE_ENDIAN_BYTE_ORDER) (OI_MD5_Init ctx) chunks = Some ctx1 \<and>
    OI_MD5_Final OI_LITTLE_ENDIAN_BYTE_ORDER psize ctx1 = Some (digest, ctx2) \<and>
    take (length (fed chunks)) (md_in ctx2) = fed chunks"
proof -
  obtain ctx1 where 1: "update_all (OI_MD5_Update OI_LITTLE_ENDIAN_BYTE_ORDER) (OI_MD5_Init ctx) chunks = Some ctx1"
      "md5_state ctx1 (fed chunks)"
    using md5.update_all_state [OF md5_state_Init [OF assms(1)] assms(2)] by auto
  from OI_MD5_Final_ok [OF 1(2), of OI_LITTLE_ENDIAN_BYTE_ORDER psize] assms(3) 1(1) show ?thesis
    by auto
qed

lemma OI_MD5_Final_leaves_message_witness:
  "\<exists>ctx1 digest ctx2.
    update_all (OI_MD5_Update OI_LITTLE_ENDIAN_BYTE_ORDER) (OI_MD5_Init demo_ctx) [([0x73, 0x33], 2)] = Some ctx1 \<and>
    OI_MD5_Final OI_LITTLE_ENDIAN_BYTE_ORDER 8 ctx1 = Some (digest, ctx2) \<and> take 2 (md_in ctx2) = [0x73, 0x33]"
  using OI_MD5_Final_leaves_message [of demo_ctx "[([0x73, 0x33], 2)]" 8]
  by (simp add: demo_ctx_def readable_def fed_def flip: numeral_2_eq_2)

end
