(* ===== verification/ObexAuth.thy ===== *)
theory ObexAuth
  imports ObexHeaders Md5
begin

text \<open>
  \<open>profiles/obex/obexauth.c\<close>: the digest authentication of OBEX connections, on top of the MD5
  routines. The authentication block of a connection is a record with the arrays of the C
  structure, as long as they are there; a read or a copy outside an array or a header's bytes
  is \<open>None\<close>. The fields of \<open>OBEX_COMMON\<close> that these functions use, \<open>readOnly\<close> and
  \<open>authentication\<close>, form a record of their own.

  The bytes of the time stamp that go into a challenge and the initial contents of the MD5
  context on the stack are arguments.
\<close>

unbundle bit_operations_syntax

section \<open>Data\<close>

definition OI_OBEX_HDR_AUTHENTICATION_CHALLENGE :: u8 where "OI_OBEX_HDR_AUTHENTICATION_CHALLENGE = 0x4D"
definition OI_OBEX_HDR_AUTHENTICATION_RESPONSE :: u8 where "OI_OBEX_HDR_AUTHENTICATION_RESPONSE = 0x4E"
definition OI_OBEX_CHALLENGE_DIGEST_NONCE_TAG :: u8 where "OI_OBEX_CHALLENGE_DIGEST_NONCE_TAG = 0"
definition OI_OBEX_CHALLENGE_DIGEST_OPTIONS_TAG :: u8 where "OI_OBEX_CHALLENGE_DIGEST_OPTIONS_TAG = 1"
definition OI_OBEX_CHALLENGE_DIGEST_REALM_TAG :: u8 where "OI_OBEX_CHALLENGE_DIGEST_REALM_TAG = 2"
definition OI_OBEX_RESPONSE_DIGEST_REQUEST_TAG :: u8 where "OI_OBEX_RESPONSE_DIGEST_REQUEST_TAG = 0"
definition OI_OBEX_RESPONSE_DIGEST_USERID_TAG :: u8 where "OI_OBEX_RESPONSE_DIGEST_USERID_TAG = 1"
definition OI_OBEX_AUTH_USERID_OPTION :: u8 where "OI_OBEX_AUTH_USERID_OPTION = 1"
definition OI_OBEX_AUTH_READONLY_OPTION :: u8 where "OI_OBEX_AUTH_READONLY_OPTION = 2"
definition OI_OBEX_AUTH_DIGEST_LEN :: u8 where "OI_OBEX_AUTH_DIGEST_LEN = 16"
definition OI_OBEX_MAX_USERID_LEN :: u8 where "OI_OBEX_MAX_USERID_LEN = 20"
definition OI_OBEX_MAX_PASSWORD_LEN :: nat where "OI_OBEX_MAX_PASSWORD_LEN = 16"
definition OI_OBEX_MAX_REALM_LN :: nat where "OI_OBEX_MAX_REALM_LN = 254"

lemmas auth_consts = OI_OBEX_HDR_AUTHENTICATION_CHALLENGE_def OI_OBEX_HDR_AUTHENTICATION_RESPONSE_def
  OI_OBEX_CHALLENGE_DIGEST_NONCE_TAG_def OI_OBEX_CHALLENGE_DIGEST_OPTIONS_TAG_def
  OI_OBEX_CHALLENGE_DIGEST_REALM_TAG_def OI_OBEX_RESPONSE_DIGEST_REQUEST_TAG_def
  OI_OBEX_RESPONSE_DIGEST_USERID_TAG_def OI_OBEX_AUTH_USERID_OPTION_def OI_OBEX_AUTH_READONLY_OPTION_def
  OI_OBEX_AUTH_DIGEST_LEN_def OI_OBEX_MAX_USERID_LEN_def OI_OBEX_MAX_PASSWORD_LEN_def OI_OBEX_MAX_REALM_LN_def

record OI_OBEX_REALM =
  realm_charSet :: u8
  realm_bytes :: bytes
  realm_len :: u8

record OBEX_AUTHENTICATION =
  password :: bytes
  passwordLen :: u8
  userId :: bytes
  userIdLen :: u8
  userIdRemote :: bytes
  userIdRemoteLen :: u8
  auth_realm :: OI_OBEX_REALM
  userIdRequired :: bool
  userIdRequested :: bool
  challengeDigest :: bytes
  responseDigest :: bytes
  responseHeader :: bytes
  challengeHeader :: bytes

record AUTH_COMMON =
  readOnly :: bool
  authentication :: OBEX_AUTHENTICATION

text \<open>The bytes of a C string up to its terminator, which must be there.\<close>

definition OI_StrLen :: "bytes \<Rightarrow> nat option" where
  "OI_StrLen s = (if 0 \<in> set s then Some (length (takeWhile (\<lambda>c. c \<noteq> 0) s)) else None)"

section \<open>Operations\<close>

definition zeroed_auth :: OBEX_AUTHENTICATION where
  "zeroed_auth = \<lparr>password = replicate 16 0, passwordLen = 0, userId = replicate 20 0, userIdLen = 0,
     userIdRemote = replicate 20 0, userIdRemoteLen = 0,
     auth_realm = \<lparr>realm_charSet = 0, realm_bytes = replicate 254 0, realm_len = 0\<rparr>,
     userIdRequired = False, userIdRequested = False, challengeDigest = replicate 16 0,
     responseDigest = replicate 16 0, responseHeader = replicate 41 0, challengeHeader = replicate 278 0\<rparr>"

definition OI_OBEXAUTH_Reset :: "AUTH_COMMON \<Rightarrow> AUTH_COMMON" where
  "OI_OBEXAUTH_Reset common = common\<lparr>authentication := zeroed_auth\<rparr>"

definition OI_OBEXAUTH_SaveAuthInfo ::
    "AUTH_COMMON \<Rightarrow> bytes option \<Rightarrow> u8 \<Rightarrow> bytes \<Rightarrow> (OI_STATUS \<times> AUTH_COMMON) option" where
  "OI_OBEXAUTH_SaveAuthInfo common uid uidLen pw = do {
     len \<leftarrow> OI_StrLen pw;
     if len > OI_OBEX_MAX_PASSWORD_LEN then Some (OI_OBEX_PASSWORD_TOO_LONG, common)
     else do {
       let auth = authentication common;
       p \<leftarrow> mem_copy 0 pw len (password auth);
       let auth = auth\<lparr>password := p, passwordLen := of_nat len\<rparr>;
       if uidLen > OI_OBEX_MAX_USERID_LEN
       then Some (OI_OBEX_USERID_TOO_LONG, common\<lparr>authentication := auth\<rparr>)
       else case uid of
         Some u \<Rightarrow>
           if uidLen > 0 then do {
             u \<leftarrow> mem_copy 0 u (unat uidLen) (userId auth);
             Some (OI_OK, common\<lparr>authentication := auth\<lparr>userId := u, userIdLen := uidLen\<rparr>\<rparr>)
           } else Some (OI_OK, common\<lparr>authentication := auth\<lparr>userIdLen := 0\<rparr>\<rparr>)
       | None \<Rightarrow> Some (OI_OK, common\<lparr>authentication := auth\<lparr>userIdLen := 0\<rparr>\<rparr>)
     }
   }"

text \<open>One item of a challenge: \<open>i\<close> is the offset of its value.\<close>

definition challenge_item ::
    "bytes \<Rightarrow> nat \<Rightarrow> u8 \<Rightarrow> u8 \<Rightarrow> OBEX_AUTHENTICATION \<times> u8 \<times> OI_STATUS \<Rightarrow>
       (OBEX_AUTHENTICATION \<times> u8 \<times> OI_STATUS) option" where
  "challenge_item data i tag len = (\<lambda>(auth, options, status).
     if tag = OI_OBEX_CHALLENGE_DIGEST_REALM_TAG then do {
       let n = len - 1;
       OI_ASSERT (i < length data);
       r \<leftarrow> mem_copy 0 (drop (i + 1) data) (unat n) (realm_bytes (auth_realm auth));
       Some (auth\<lparr>auth_realm := \<lparr>realm_charSet = data ! i, realm_bytes = r, realm_len = n\<rparr>\<rparr>, options, status)
     }
     else if tag = OI_OBEX_CHALLENGE_DIGEST_OPTIONS_TAG then
       if len \<noteq> 1 then Some (auth, options, OI_OBEX_INVALID_AUTH_DIGEST)
       else do {
         OI_ASSERT (i < length data);
         Some (auth, data ! i, status)
       }
     else if tag = OI_OBEX_CHALLENGE_DIGEST_NONCE_TAG then
       if len \<noteq> OI_OBEX_AUTH_DIGEST_LEN then Some (auth, options, OI_OBEX_INVALID_AUTH_DIGEST)
       else do {
         d \<leftarrow> mem_copy 0 (drop i data) (unat OI_OBEX_AUTH_DIGEST_LEN) (challengeDigest auth);
         Some (auth\<lparr>challengeDigest := d\<rparr>, options, status)
       }
     else Some (auth, options, status))"

text \<open>The loop over the items of a header value of \<open>n\<close> bytes, for either of the two switches.\<close>

function item_loop ::
    "(nat \<Rightarrow> u8 \<Rightarrow> u8 \<Rightarrow> 's \<Rightarrow> 's option) \<Rightarrow> bytes \<Rightarrow> u16 \<Rightarrow> nat \<Rightarrow> 's \<Rightarrow> 's option" where
  "item_loop item data n i s =
     (if i < unat n then
        if i + 1 < length data then
          case item (i + 2) (data ! i) (data ! (i + 1)) s of
            None \<Rightarrow> None
          | Some s \<Rightarrow> item_loop item data n (i + 2 + unat (data ! (i + 1))) s
        else None
      else Some s)"
  by pat_completeness auto
termination
  by (relation "measure (\<lambda>(item, data, n, i, s). unat n - i)") auto

declare item_loop.simps [simp del]

text \<open>The data and length of a byte-sequence header; the data pointer of an empty one is never
  followed.\<close>

definition byteseq_of :: "OI_OBEX_HEADER \<Rightarrow> (bytes \<times> u16) option" where
  "byteseq_of h = (case hdr_val h of
     BYTESEQ (Some data) len \<Rightarrow> Some (data, len)
   | BYTESEQ None len \<Rightarrow> Some ([], len)
   | _ \<Rightarrow> None)"

definition OI_OBEXAUTH_SaveChallenge :: "AUTH_COMMON \<Rightarrow> OI_OBEX_HEADER \<Rightarrow> (OI_STATUS \<times> AUTH_COMMON) option" where
  "OI_OBEXAUTH_SaveChallenge common challenge = do {
     OI_ASSERT (hdr_id challenge = OI_OBEX_HDR_AUTHENTICATION_CHALLENGE);
     (data, n) \<leftarrow> byteseq_of challenge;
     (auth, options, status) \<leftarrow> item_loop (challenge_item data) data n 0 (authentication common, 0, OI_OK);
     Some (status, common\<lparr>
       authentication := auth\<lparr>userIdRequested := (options AND OI_OBEX_AUTH_USERID_OPTION \<noteq> 0)\<rparr>,
       readOnly := (options AND OI_OBEX_AUTH_READONLY_OPTION \<noteq> 0)\<rparr>)
   }"

definition response_item ::
    "bytes \<Rightarrow> nat \<Rightarrow> u8 \<Rightarrow> u8 \<Rightarrow> OBEX_AUTHENTICATION \<times> OI_STATUS \<Rightarrow> (OBEX_AUTHENTICATION \<times> OI_STATUS) option" where
  "response_item data i tag len = (\<lambda>(auth, status).
     if tag = OI_OBEX_RESPONSE_DIGEST_REQUEST_TAG then
       if len \<noteq> OI_OBEX_AUTH_DIGEST_LEN then Some (auth, OI_OBEX_INVALID_AUTH_DIGEST)
       else do {
         d \<leftarrow> mem_copy 0 (drop i data) (unat OI_OBEX_AUTH_DIGEST_LEN) (responseDigest auth);
         Some (auth\<lparr>responseDigest := d\<rparr>, status)
       }
     else if tag = OI_OBEX_RESPONSE_DIGEST_USERID_TAG then
       if len > 0 then
         if len > OI_OBEX_MAX_USERID_LEN then Some (auth, OI_OBEX_INVALID_AUTH_DIGEST)
         else do {
           u \<leftarrow> mem_copy 0 (drop i data) (unat len) (userIdRemote auth);
           Some (auth\<lparr>userIdRemote := u, userIdRemoteLen := len\<rparr>, status)
         }
       else Some (auth, status)
     else Some (auth, status))"

definition OI_OBEXAUTH_SaveResponse :: "AUTH_COMMON \<Rightarrow> OI_OBEX_HEADER \<Rightarrow> (OI_STATUS \<times> AUTH_COMMON) option" where
  "OI_OBEXAUTH_SaveResponse common response = do {
     OI_ASSERT (hdr_id response = OI_OBEX_HDR_AUTHENTICATION_RESPONSE);
     (data, n) \<leftarrow> byteseq_of response;
     let auth = (authentication common)\<lparr>userIdRemote := replicate 20 0, userIdRemoteLen := 0\<rparr>;
     (auth, status) \<leftarrow> item_loop (response_item data) data n 0 (auth, OI_OK);
     Some (status, common\<lparr>authentication := auth\<rparr>)
   }"

text \<open>The sequence \<open>OI_MD5_Init\<close>, \<open>OI_MD5_Update\<close> for each buffer, \<open>OI_MD5_Final\<close>.\<close>

definition md5_run :: "byte_order \<Rightarrow> nat \<Rightarrow> MD5_CONTEXT \<Rightarrow> (bytes \<times> u16) list \<Rightarrow> bytes option" where
  "md5_run bo psize ctx chunks = do {
     c \<leftarrow> update_all (OI_MD5_Update bo) (OI_MD5_Init ctx) chunks;
     (d, c) \<leftarrow> OI_MD5_Final bo psize c;
     Some d
   }"

definition OI_OBEXAUTH_ComposeResponse ::
    "byte_order \<Rightarrow> nat \<Rightarrow> MD5_CONTEXT \<Rightarrow> AUTH_COMMON \<Rightarrow> (OI_OBEX_HEADER \<times> AUTH_COMMON) option" where
  "OI_OBEXAUTH_ComposeResponse bo psize ctx common = do {
     let auth = authentication common;
     let len = (0 :: nat);
     d \<leftarrow> md5_run bo psize ctx
       [(challengeDigest auth, ucast OI_OBEX_AUTH_DIGEST_LEN), ([0x3A], 1), (password auth, ucast (passwordLen auth))];
     h \<leftarrow> mem_copy len [OI_OBEX_RESPONSE_DIGEST_REQUEST_TAG, OI_OBEX_AUTH_DIGEST_LEN] 2 (responseHeader auth);
     let len = len + 2;
     h \<leftarrow> mem_copy len d 16 h;
     let len = len + 16;
     (h, len) \<leftarrow>
       (if userIdLen auth > 0 then do {
          h \<leftarrow> mem_copy len [OI_OBEX_RESPONSE_DIGEST_USERID_TAG, userIdLen auth] 2 h;
          let len = len + 2;
          h \<leftarrow> mem_copy len (userId auth) (unat (userIdLen auth)) h;
          Some (h, len + unat (userIdLen auth))
        } else Some (h, len));
     Some (\<lparr>hdr_id = OI_OBEX_HDR_AUTHENTICATION_RESPONSE, hdr_val = BYTESEQ (Some h) (of_nat len)\<rparr>,
       common\<lparr>authentication := auth\<lparr>responseHeader := h\<rparr>\<rparr>)
   }"

definition OI_OBEXAUTH_ComposeChallenge ::
    "byte_order \<Rightarrow> nat \<Rightarrow> MD5_CONTEXT \<Rightarrow> bytes \<Rightarrow> bytes option \<Rightarrow> OI_OBEX_REALM option \<Rightarrow> AUTH_COMMON \<Rightarrow>
       (OI_OBEX_HEADER \<times> AUTH_COMMON) option" where
  "OI_OBEXAUTH_ComposeChallenge bo psize ctx timestamp privateKey realm common = do {
     let auth = authentication common;
     key \<leftarrow> privateKey;
     keyLen \<leftarrow> OI_StrLen key;
     let len = (0 :: nat);
     d \<leftarrow> md5_run bo psize ctx [(timestamp, 8), (key, of_nat keyLen)];
     h \<leftarrow> mem_copy len [OI_OBEX_CHALLENGE_DIGEST_NONCE_TAG, OI_OBEX_AUTH_DIGEST_LEN] 2 (challengeHeader auth);
     let len = len + 2;
     h \<leftarrow> mem_copy len d 16 h;
     let len = len + 16;
     let options = (if readOnly common then OI_OBEX_AUTH_READONLY_OPTION else 0);
     let options = (if userIdRequired auth then options OR OI_OBEX_AUTH_USERID_OPTION else options);
     (h, len) \<leftarrow>
       (if options \<noteq> 0 then do {
          h \<leftarrow> mem_copy len [OI_OBEX_CHALLENGE_DIGEST_OPTIONS_TAG, 1, options] 3 h;
          Some (h, len + 3)
        } else Some (h, len));
     (h, len) \<leftarrow>
       (case realm of
          Some r \<Rightarrow> do {
            h \<leftarrow> mem_copy len [OI_OBEX_CHALLENGE_DIGEST_REALM_TAG, 1 + realm_len r, realm_charSet r] 3 h;
            let len = len + 3;
            h \<leftarrow> mem_copy len (realm_bytes r) (unat (realm_len r)) h;
            Some (h, len + unat (realm_len r))
          }
        | None \<Rightarrow> Some (h, len));
     Some (\<lparr>hdr_id = OI_OBEX_HDR_AUTHENTICATION_CHALLENGE, hdr_val = BYTESEQ (Some h) (of_nat len)\<rparr>,
       common\<lparr>authentication := auth\<lparr>challengeHeader := h\<rparr>\<rparr>)
   }"

definition OI_OBEXAUTH_Authenticate :: "byte_order \<Rightarrow> nat \<Rightarrow> MD5_CONTEXT \<Rightarrow> AUTH_COMMON \<Rightarrow> OI_STATUS option" where
  "OI_OBEXAUTH_Authenticate bo psize ctx common = do {
     let auth = authentication common;
     digest \<leftarrow> md5_run bo psize ctx
       [(drop 2 (challengeHeader auth), ucast OI_OBEX_AUTH_DIGEST_LEN), ([0x3A], 1), (password auth, ucast (passwordLen auth))];
     Some (if take 16 digest = take 16 (responseDigest auth) then OI_OK else OI_OBEX_UNAUTHORIZED)
   }"

section \<open>Items\<close>

text \<open>The tag-length-value items of a challenge or a response.\<close>

definition tlv :: "u8 \<times> bytes \<Rightarrow> bytes" where
  "tlv = (\<lambda>(t, v). t # of_nat (length v) # v)"

definition tlvs :: "(u8 \<times> bytes) list \<Rightarrow> bytes" where
  "tlvs items = concat (map tlv items)"

lemma tlvs_simps [simp]:
  "tlvs [] = []" "tlvs ((t, v) # items) = t # of_nat (length v) # v @ tlvs items"
  "tlvs (xs @ ys) = tlvs xs @ tlvs ys"
  by (simp_all add: tlvs_def tlv_def)

text \<open>The loop runs through items one after the other, whatever the switch does with each, up to one that
  is undefined.\<close>

primrec run_items :: "('s \<Rightarrow> u8 \<times> bytes \<Rightarrow> 's option) \<Rightarrow> 's \<Rightarrow> (u8 \<times> bytes) list \<Rightarrow> 's option" where
  "run_items step s [] = Some s"
| "run_items step s (tv # items) = (case step s tv of None \<Rightarrow> None | Some s \<Rightarrow> run_items step s items)"

lemma item_loop_run:
  assumes item: "\<And>i t v s. (t, v) \<in> set items \<Longrightarrow> take (length v) (drop i data) = v \<Longrightarrow>
      i + length v \<le> length data \<Longrightarrow> good s \<Longrightarrow>
      item i t (of_nat (length v)) s = step s (t, v) \<and> (\<forall>s'. step s (t, v) = Some s' \<longrightarrow> good s')"
    and small: "\<And>t v. (t, v) \<in> set items \<Longrightarrow> length v < 256"
    and data: "take (length (tlvs items)) (drop i data) = tlvs items" "i + length (tlvs items) = unat n" "unat n \<le> length data"
    and good: "good s"
  shows "item_loop item data n i s = run_items step s items \<and> (\<forall>s'. run_items step s items = Some s' \<longrightarrow> good s')"
  using assms
proof (induction items arbitrary: i s)
  case Nil
  then show ?case
    by (subst item_loop.simps) simp
next
  case (Cons tv items)
  obtain t v where tv: "tv = (t, v)"
    by (cases tv)
  have v: "length v < 256" "unat (of_nat (length v) :: u8) = length v"
    using Cons.prems(2) [of t v] tv by (simp_all add: unat_of_nat_u8)
  have len: "i + 2 + length v + length (tlvs items) = unat n"
    using Cons.prems(4) tv by simp
  let ?w = "t # of_nat (length v) # v @ tlvs items"
  define rest where "rest = drop (length ?w) (drop i data)"
  have "drop i data = ?w @ rest"
    using Cons.prems(3) tv append_take_drop_id [of "length ?w" "drop i data"] by (simp add: rest_def)
  then have split: "data = take i data @ ?w @ rest"
    using append_take_drop_id [of i data] by simp
  have i: "length (take i data) = i"
    using len Cons.prems(5) by simp
  have nth: "data ! i = t" "data ! (i + 1) = of_nat (length v)"
    using i by (subst split, simp add: nth_append)+
  have "drop (i + 2) data = drop 2 (drop i data)"
    by (simp add: add.commute)
  also have "\<dots> = v @ tlvs items @ rest"
    using \<open>drop i data = ?w @ rest\<close> by simp
  finally have "drop (i + 2) data = v @ tlvs items @ rest" .
  moreover have "drop (i + 2 + length v) data = drop (length v) (drop (i + 2) data)"
    by (simp add: add.commute)
  ultimately have v': "take (length v) (drop (i + 2) data) = v"
      and r: "take (length (tlvs items)) (drop (i + 2 + length v) data) = tlvs items"
    by simp_all
  have it: "item (i + 2) t (of_nat (length v)) s = step s tv" "step s tv = Some s' \<Longrightarrow> good s'" for s'
    using Cons.prems(1) [of t v "i + 2" s] v' len Cons.prems(5,6) tv by simp_all
  have IH: "item_loop item data n (i + 2 + length v) s' = run_items step s' items \<and>
      (\<forall>s''. run_items step s' items = Some s'' \<longrightarrow> good s'')" if "step s tv = Some s'" for s'
  proof (rule Cons.IH)
    show "item j u (of_nat (length x)) z = step z (u, x) \<and> (\<forall>z'. step z (u, x) = Some z' \<longrightarrow> good z')"
      if "(u, x) \<in> set items" "take (length x) (drop j data) = x" "j + length x \<le> length data" "good z" for j u x z
      by (rule Cons.prems(1)) (use that in simp_all)
    show "length x < 256" if "(u, x) \<in> set items" for u x
      by (rule Cons.prems(2) [of u]) (simp add: that)
  qed (use Cons.prems(5) r len it(2) [OF that] in simp_all)
  have "i < unat n" "i + 1 < length data"
    using len Cons.prems(5) by simp_all
  then have "item_loop item data n i s = (case step s tv of None \<Rightarrow> None | Some s' \<Rightarrow> item_loop item data n (i + 2 + length v) s')"
    using it(1) nth v(2) by (subst item_loop.simps) (simp split: option.split)
  then show ?case
    using IH by (cases "step s tv") simp_all
qed

lemma run_items_total: "run_items (\<lambda>s tv. Some (step s tv)) s items = Some (foldl step s items)"
  by (induction items arbitrary: s) simp_all

lemma item_loop_tlvs:
  assumes "\<And>i t v s. (t, v) \<in> set items \<Longrightarrow> take (length v) (drop i data) = v \<Longrightarrow>
      i + length v \<le> length data \<Longrightarrow> good s \<Longrightarrow>
      item i t (of_nat (length v)) s = Some (step s (t, v)) \<and> good (step s (t, v))"
    and "\<And>t v. (t, v) \<in> set items \<Longrightarrow> length v < 256"
    and "take (length (tlvs items)) (drop i data) = tlvs items" "i + length (tlvs items) = unat n" "unat n \<le> length data"
    and "good s"
  shows "item_loop item data n i s = Some (foldl step s items) \<and> good (foldl step s items)"
  using item_loop_run [of items data good item "\<lambda>s tv. Some (step s tv)" i n s] assms by (simp add: run_items_total)

section \<open>The authentication block\<close>

definition auth_ok :: "OBEX_AUTHENTICATION \<Rightarrow> bool" where
  "auth_ok a \<longleftrightarrow> length (password a) = 16 \<and> unat (passwordLen a) \<le> 16 \<and>
     length (userId a) = 20 \<and> unat (userIdLen a) \<le> 20 \<and> length (userIdRemote a) = 20 \<and>
     length (realm_bytes (auth_realm a)) = 254 \<and> length (challengeDigest a) = 16 \<and> length (responseDigest a) = 16 \<and>
     length (responseHeader a) = 41 \<and> length (challengeHeader a) = 278"

lemma auth_ok_zeroed: "auth_ok zeroed_auth"
  by (simp add: auth_ok_def zeroed_auth_def)

definition stored_password :: "AUTH_COMMON \<Rightarrow> bytes" where
  "stored_password c = take (unat (passwordLen (authentication c))) (password (authentication c))"

definition stored_userId :: "AUTH_COMMON \<Rightarrow> bytes" where
  "stored_userId c = take (unat (userIdLen (authentication c))) (userId (authentication c))"

lemma mem_copy_at:
  "n \<le> length src \<Longrightarrow> pos + n \<le> length dst \<Longrightarrow> take pos dst = w \<Longrightarrow>
     \<exists>dst'. mem_copy pos src n dst = Some dst' \<and> length dst' = length dst \<and> take (pos + n) dst' = w @ take n src"
  using take_overwrite_upto [of pos "take n src" dst] by (simp add: mem_copy_def)

lemma mem_copy_start:
  "n \<le> length src \<Longrightarrow> n \<le> length dst \<Longrightarrow> mem_copy 0 src n dst = Some (take n src @ drop n dst)"
  by (simp add: mem_copy_def overwrite_def)

section \<open>Challenges\<close>

fun challenge_step :: "OBEX_AUTHENTICATION \<times> u8 \<times> OI_STATUS \<Rightarrow> u8 \<times> bytes \<Rightarrow> OBEX_AUTHENTICATION \<times> u8 \<times> OI_STATUS" where
  "challenge_step (a, options, status) (t, v) =
     (if t = 2 then (a\<lparr>auth_realm := \<lparr>realm_charSet = hd v,
          realm_bytes = tl v @ drop (length v - 1) (realm_bytes (auth_realm a)),
          realm_len = of_nat (length v - 1)\<rparr>\<rparr>, options, status)
      else if t = 1 then if length v \<noteq> 1 then (a, options, OI_OBEX_INVALID_AUTH_DIGEST) else (a, hd v, status)
      else if t = 0 then if length v \<noteq> 16 then (a, options, OI_OBEX_INVALID_AUTH_DIGEST)
        else (a\<lparr>challengeDigest := v\<rparr>, options, status)
      else (a, options, status))"

definition challenge_ok :: "(u8 \<times> bytes) list \<Rightarrow> bool" where
  "challenge_ok items \<longleftrightarrow> list_all (\<lambda>(t, v). length v < 256 \<and> (t = 2 \<longrightarrow> v \<noteq> [])) items"

lemma of_nat_u8_eq: "k < 256 \<Longrightarrow> (of_nat n :: u8) = of_nat k \<longleftrightarrow> n = k" if "n < 256"
  using that by (metis unat_of_nat_u8)

lemma of_nat_pred_u8: "v \<noteq> [] \<Longrightarrow> (of_nat (length v) :: u8) - 1 = of_nat (length v - 1)"
  by (cases v) simp_all

lemma challenge_item_step:
  assumes "take (length v) (drop i data) = v" "i + length v \<le> length data" "auth_ok (fst s)"
    "length v < 256" "t = 2 \<longrightarrow> v \<noteq> []"
  shows "challenge_item data i t (of_nat (length v)) s = Some (challenge_step s (t, v)) \<and> auth_ok (fst (challenge_step s (t, v)))"
proof (cases s)
  case (fields a options status)
  have eq: "(of_nat (length v) :: u8) = 1 \<longleftrightarrow> length v = 1" "(of_nat (length v) :: u8) = 16 \<longleftrightarrow> length v = 16"
    using of_nat_u8_eq [OF assms(4), of 1] of_nat_u8_eq [OF assms(4), of 16] by simp_all
  have v1: "i < length data \<and> data ! i = hd v \<and> take (length v - 1) (drop (i + 1) data) = tl v" if "v \<noteq> []"
  proof -
    from that obtain x xs where v: "v = x # xs"
      by (cases v) auto
    then have "i < length data"
      using assms(2) by simp
    then have "drop i data = data ! i # drop (i + 1) data"
      by (simp add: Cons_nth_drop_Suc)
    with assms(1) v \<open>i < length data\<close> show ?thesis
      by simp
  qed
  have le: "length (realm_bytes (auth_realm a)) = 254" "length (challengeDigest a) = 16"
    using assms(3) fields by (simp_all add: auth_ok_def)
  show ?thesis
  proof (cases "t = 2")
    case True
    then have v: "v \<noteq> []" "unat (of_nat (length v - 1) :: u8) = length v - 1"
      using assms(4,5) by (simp_all add: unat_of_nat_u8)
    have "mem_copy 0 (drop (i + 1) data) (length v - 1) (realm_bytes (auth_realm a)) =
        Some (tl v @ drop (length v - 1) (realm_bytes (auth_realm a)))"
      using v1 [OF v(1)] assms(2,4) le by (subst mem_copy_start) auto
    then show ?thesis
      using True v v1 [OF v(1)] assms(3,4) fields le
      by (simp add: challenge_item_def auth_consts of_nat_pred_u8 monad_simps auth_ok_def)
  next
    case False
    then show ?thesis
      using assms(1-3) fields le v1 eq mem_copy_start [of 16 "drop i data" "challengeDigest a"]
      by (auto simp: challenge_item_def auth_consts monad_simps auth_ok_def)
  qed
qed


text \<open>A realm item of length zero makes the code copy 255 bytes into the 254 of the realm.\<close>

lemma empty_realm: "auth_ok (fst s) \<Longrightarrow> challenge_item data i 2 0 s = None"
  by (cases s) (simp add: challenge_item_def auth_consts mem_copy_def monad_simps auth_ok_def Let_def
      unsigned_minus_1_eq_mask mask_eq_exp_minus_1)

definition challenge_step_or_fault ::
    "OBEX_AUTHENTICATION \<times> u8 \<times> OI_STATUS \<Rightarrow> u8 \<times> bytes \<Rightarrow> (OBEX_AUTHENTICATION \<times> u8 \<times> OI_STATUS) option" where
  "challenge_step_or_fault s tv = (if tv = (2, []) then None else Some (challenge_step s tv))"

lemma run_challenge: "run_items challenge_step_or_fault s items =
    (if (2, []) \<in> set items then None else Some (foldl challenge_step s items))"
  by (induction items arbitrary: s) (auto simp: challenge_step_or_fault_def)

lemma challenge_loop:
  assumes "auth_ok (fst s)" "\<forall>(t, v) \<in> set items. length v < 256" "take (unat n) data = tlvs items" "unat n \<le> length data"
  shows "item_loop (challenge_item data) data n 0 s = run_items challenge_step_or_fault s items \<and>
    (\<forall>s'. run_items challenge_step_or_fault s items = Some s' \<longrightarrow> auth_ok (fst s'))"
proof -
  have n: "length (tlvs items) = unat n"
    using assms(3,4) by (metis length_take min.absorb2)
  show ?thesis
  proof (rule item_loop_run [where good = "\<lambda>s. auth_ok (fst s)"])
    fix i t v and s :: "OBEX_AUTHENTICATION \<times> u8 \<times> OI_STATUS"
    assume *: "(t, v) \<in> set items" "take (length v) (drop i data) = v" "i + length v \<le> length data" "auth_ok (fst s)"
    then have "length v < 256"
      using assms(2) by auto
    then show "challenge_item data i t (of_nat (length v)) s = challenge_step_or_fault s (t, v) \<and>
        (\<forall>s'. challenge_step_or_fault s (t, v) = Some s' \<longrightarrow> auth_ok (fst s'))"
      using challenge_item_step [OF *(2-4), of t] empty_realm [OF *(4)] by (auto simp: challenge_step_or_fault_def)
  qed (use assms n in auto)
qed

lemma challenge_loop_ok:
  assumes "auth_ok a" "challenge_ok items" "take (unat n) data = tlvs items" "unat n \<le> length data"
  shows "item_loop (challenge_item data) data n 0 (a, opts, st) = Some (foldl challenge_step (a, opts, st) items) \<and>
    auth_ok (fst (foldl challenge_step (a, opts, st) items))"
proof -
  have "\<forall>(t, v) \<in> set items. length v < 256" "(2, []) \<notin> set items"
    using assms(2) by (auto simp: challenge_ok_def list_all_iff)
  then show ?thesis
    using challenge_loop [of "(a, opts, st)" items n data] assms by (simp add: run_challenge)
qed

lemma SaveChallenge_ok:
  assumes "auth_ok (authentication c)" "challenge_ok items" "take (unat n) data = tlvs items" "unat n \<le> length data"
    "foldl challenge_step (authentication c, 0, OI_OK) items = (a, options, status)"
  shows "OI_OBEXAUTH_SaveChallenge c \<lparr>hdr_id = 0x4D, hdr_val = BYTESEQ (Some data) n\<rparr> =
      Some (status, c\<lparr>authentication := a\<lparr>userIdRequested := (options AND 1 \<noteq> 0)\<rparr>, readOnly := (options AND 2 \<noteq> 0)\<rparr>)"
    "auth_ok a"
  using challenge_loop_ok [OF assms(1-4), of 0 OI_OK] assms(5)
  by (simp_all add: OI_OBEXAUTH_SaveChallenge_def byteseq_of_def auth_consts monad_simps)

section \<open>Responses\<close>

fun response_step :: "OBEX_AUTHENTICATION \<times> OI_STATUS \<Rightarrow> u8 \<times> bytes \<Rightarrow> OBEX_AUTHENTICATION \<times> OI_STATUS" where
  "response_step (a, status) (t, v) =
     (if t = 0 then if length v \<noteq> 16 then (a, OI_OBEX_INVALID_AUTH_DIGEST) else (a\<lparr>responseDigest := v\<rparr>, status)
      else if t = 1 \<and> v \<noteq> [] then
        if length v > 20 then (a, OI_OBEX_INVALID_AUTH_DIGEST)
        else (a\<lparr>userIdRemote := v @ drop (length v) (userIdRemote a), userIdRemoteLen := of_nat (length v)\<rparr>, status)
      else (a, status))"

definition small_items :: "(u8 \<times> bytes) list \<Rightarrow> bool" where
  "small_items items \<longleftrightarrow> list_all (\<lambda>(t, v). length v < 256) items"

lemma response_item_step:
  assumes "take (length v) (drop i data) = v" "i + length v \<le> length data" "auth_ok (fst s)" "length v < 256"
  shows "response_item data i t (of_nat (length v)) s = Some (response_step s (t, v)) \<and> auth_ok (fst (response_step s (t, v)))"
proof (cases s)
  case (Pair a status)
  have w: "unat (of_nat (length v) :: u8) = length v"
    using assms(4) by (simp add: unat_of_nat_u8)
  have eq: "(of_nat (length v) :: u8) = 16 \<longleftrightarrow> length v = 16" "(of_nat (length v) :: u8) > 20 \<longleftrightarrow> length v > 20"
    "(of_nat (length v) :: u8) > 0 \<longleftrightarrow> v \<noteq> []"
    using of_nat_u8_eq [OF assms(4), of 16] w by (simp_all add: word_less_nat_alt)
  have le: "length (userIdRemote a) = 20" "length (responseDigest a) = 16"
    using assms(3) Pair by (simp_all add: auth_ok_def)
  have d: "mem_copy 0 (drop i data) 16 (responseDigest a) = Some v" if "length v = 16"
    using mem_copy_start [of 16 "drop i data" "responseDigest a"] that assms(1,2) le by simp
  have u: "mem_copy 0 (drop i data) (length v) (userIdRemote a) = Some (v @ drop (length v) (userIdRemote a))"
    if "length v \<le> 20"
    using mem_copy_start [of "length v" "drop i data" "userIdRemote a"] that assms(1,2) le by simp
  consider "t = 0" "length v = 16" | "t = 0" "length v \<noteq> 16" | "t = 1" "v \<noteq> []" "length v \<le> 20"
    | "t = 1" "\<not> length v \<le> 20" | "t = 1" "v = []" | "t \<noteq> 0" "t \<noteq> 1"
    by blast
  then show ?thesis
  proof cases
    case 1
    then show ?thesis
      using d assms(3) Pair by (simp add: response_item_def auth_consts auth_ok_def eq)
  next
    case 3
    then have "\<not> 20 < (of_nat (length v) :: u8)"
      using eq by simp
    with 3 show ?thesis
      using u w assms(3) Pair eq(3) by (simp add: response_item_def auth_consts auth_ok_def)
  next
    case 4
    then have "20 < (of_nat (length v) :: u8)" "v \<noteq> []"
      using eq by auto
    with 4 show ?thesis
      using assms(3) Pair eq(3) by (simp add: response_item_def auth_consts)
  qed (use assms(3) Pair eq in \<open>simp_all add: response_item_def auth_consts\<close>)
qed

lemma SaveResponse_ok:
  assumes "auth_ok (authentication c)" "small_items items" "take (unat n) data = tlvs items" "unat n \<le> length data"
    "foldl response_step ((authentication c)\<lparr>userIdRemote := replicate 20 0, userIdRemoteLen := 0\<rparr>, OI_OK) items = (a, status)"
  shows "OI_OBEXAUTH_SaveResponse c \<lparr>hdr_id = 0x4E, hdr_val = BYTESEQ (Some data) n\<rparr> =
      Some (status, c\<lparr>authentication := a\<rparr>)" "auth_ok a"
proof -
  let ?a = "(authentication c)\<lparr>userIdRemote := replicate 20 0, userIdRemoteLen := 0\<rparr>"
  have n: "length (tlvs items) = unat n"
    using assms(3,4) by (metis length_take min.absorb2)
  have "item_loop (response_item data) data n 0 (?a, OI_OK) = Some (foldl response_step (?a, OI_OK) items) \<and>
      auth_ok (fst (foldl response_step (?a, OI_OK) items))"
  proof (rule item_loop_tlvs [where good = "\<lambda>s. auth_ok (fst s)"])
    fix i t v and s :: "OBEX_AUTHENTICATION \<times> OI_STATUS"
    assume "(t, v) \<in> set items" "take (length v) (drop i data) = v" "i + length v \<le> length data" "auth_ok (fst s)"
    then show "response_item data i t (of_nat (length v)) s = Some (response_step s (t, v)) \<and>
        auth_ok (fst (response_step s (t, v)))"
      using assms(2) by (intro response_item_step) (auto simp: small_items_def list_all_iff)
  qed (use assms n in \<open>auto simp: small_items_def list_all_iff auth_ok_def\<close>)
  then show "OI_OBEXAUTH_SaveResponse c \<lparr>hdr_id = 0x4E, hdr_val = BYTESEQ (Some data) n\<rparr> =
      Some (status, c\<lparr>authentication := a\<rparr>)" "auth_ok a"
    using assms(5) by (simp_all add: OI_OBEXAUTH_SaveResponse_def byteseq_of_def auth_consts monad_simps Let_def)
qed

section \<open>Digests\<close>

lemma md5_run_ok: "md5_space ctx \<Longrightarrow> readable chunks \<Longrightarrow> md5_run bo psize ctx chunks = Some (md5 (fed chunks))"
  using md5.digest_fed [of ctx chunks bo psize] by (auto simp: md5_run_def)

lemma length_md5_blocks [simp]: "length h = 4 \<Longrightarrow> length (md5_blocks n h xs) = 4"
  by (induction n arbitrary: h xs) simp_all

lemma length_md5 [simp]: "length (md5 xs) = 16"
proof -
  have "length (concat (map SetUINT32_LittleEndian ws)) = 4 * length ws" for ws
    by (induction ws) simp_all
  then show ?thesis
    by (simp add: md5_def Let_def md5_iv_def)
qed

lemma unat_ucast_u8_u16 [simp]: "unat (ucast (v :: u8) :: u16) = unat v"
  using unat_lt_u8 [of v] by (simp add: unsigned_ucast_eq take_bit_nat_eq_self del: unat_lt_u8)

lemma Authenticate_ok:
  assumes "auth_ok (authentication c)" "md5_space ctx"
  shows "OI_OBEXAUTH_Authenticate bo psize ctx c =
    Some (if md5 (take 16 (drop 2 (challengeHeader (authentication c))) @ [0x3A] @ stored_password c) =
            responseDigest (authentication c)
          then OI_OK else OI_OBEX_UNAUTHORIZED)"
  using assms md5_run_ok [of ctx _ bo psize]
  by (simp add: OI_OBEXAUTH_Authenticate_def auth_ok_def readable_def fed_def auth_consts stored_password_def)

section \<open>Composing\<close>

lemma mem_copy_first:
  "n \<le> length src \<Longrightarrow> n \<le> length dst \<Longrightarrow>
     \<exists>dst'. mem_copy 0 src n dst = Some dst' \<and> length dst' = length dst \<and> take n dst' = take n src"
  by (simp add: mem_copy_start)

definition response_items :: "AUTH_COMMON \<Rightarrow> (u8 \<times> bytes) list" where
  "response_items c = (0, md5 (challengeDigest (authentication c) @ [0x3A] @ stored_password c)) #
     (if stored_userId c \<noteq> [] then [(1, stored_userId c)] else [])"

lemma ComposeResponse_ok:
  assumes ok: "auth_ok (authentication c)" and m: "md5_space ctx"
  shows "\<exists>h n. OI_OBEXAUTH_ComposeResponse bo psize ctx c =
      Some (\<lparr>hdr_id = 0x4E, hdr_val = BYTESEQ (Some h) n\<rparr>,
        c\<lparr>authentication := (authentication c)\<lparr>responseHeader := h\<rparr>\<rparr>) \<and>
    length h = 41 \<and> unat n \<le> length h \<and> take (unat n) h = tlvs (response_items c)"
proof -
  let ?a = "authentication c"
  let ?d = "md5 (challengeDigest ?a @ [0x3A] @ stored_password c)"
  have sizes: "length (responseHeader ?a) = 41" "length (userId ?a) = 20" "unat (userIdLen ?a) \<le> 20"
    using ok by (simp_all add: auth_ok_def)
  have d: "md5_run bo psize ctx [(challengeDigest ?a, ucast OI_OBEX_AUTH_DIGEST_LEN), ([0x3A], 1),
      (password ?a, ucast (passwordLen ?a))] = Some ?d"
    using ok m md5_run_ok [of ctx _ bo psize]
    by (simp add: auth_ok_def readable_def fed_def auth_consts stored_password_def)
  obtain h1 where h1: "mem_copy 0 [0, 16] 2 (responseHeader ?a) = Some h1" "length h1 = 41" "take 2 h1 = [0, 16]"
    using mem_copy_first [of 2 "[0, 16]" "responseHeader ?a"] sizes by auto
  obtain h2 where h2: "mem_copy 2 ?d 16 h1 = Some h2" "length h2 = 41" "take 18 h2 = [0, 16] @ ?d"
    using mem_copy_at [of 16 ?d 2 h1 "[0, 16]"] h1 by auto
  show ?thesis
  proof (cases "userIdLen ?a > 0")
    case True
    then have u: "length (stored_userId c) = unat (userIdLen ?a)" "stored_userId c \<noteq> []"
      using sizes by (auto simp: stored_userId_def word_less_nat_alt)
    obtain h3 where h3: "mem_copy 18 [1, userIdLen ?a] 2 h2 = Some h3" "length h3 = 41"
        "take 20 h3 = ([0, 16] @ ?d) @ [1, userIdLen ?a]"
      using mem_copy_at [of 2 "[1, userIdLen ?a]" 18 h2] h2 by auto
    obtain h4 where h4: "mem_copy 20 (userId ?a) (unat (userIdLen ?a)) h3 = Some h4" "length h4 = 41"
        "take (20 + unat (userIdLen ?a)) h4 = (([0, 16] @ ?d) @ [1, userIdLen ?a]) @ stored_userId c"
      using mem_copy_at [of "unat (userIdLen ?a)" "userId ?a" 20 h3] h3 sizes by (auto simp: stored_userId_def)
    have n: "unat (of_nat (20 + unat (userIdLen ?a)) :: u16) = 20 + unat (userIdLen ?a)"
      by (rule unat_of_nat_u16) (use sizes in simp)
    have "take (unat (of_nat (20 + unat (userIdLen ?a)) :: u16)) h4 = tlvs (response_items c)"
      unfolding n using h4(3) u by (simp add: response_items_def)
    moreover have "OI_OBEXAUTH_ComposeResponse bo psize ctx c =
        Some (\<lparr>hdr_id = 0x4E, hdr_val = BYTESEQ (Some h4) (of_nat (20 + unat (userIdLen ?a)))\<rparr>,
          c\<lparr>authentication := ?a\<lparr>responseHeader := h4\<rparr>\<rparr>)"
      unfolding OI_OBEXAUTH_ComposeResponse_def Let_def
      unfolding auth_consts add_0 using d [unfolded auth_consts] h1(1) h2(1) h3(1) h4(1) True by simp
    moreover have "unat (of_nat (20 + unat (userIdLen ?a)) :: u16) \<le> 41"
      unfolding n using sizes by simp
    ultimately show ?thesis
      using h4(2) by metis
  next
    case False
    then have "stored_userId c = []"
      by (simp add: stored_userId_def word_less_nat_alt)
    then have "take (unat (18 :: u16)) h2 = tlvs (response_items c)"
      using h2(3) by (simp add: response_items_def)
    moreover have "OI_OBEXAUTH_ComposeResponse bo psize ctx c =
        Some (\<lparr>hdr_id = 0x4E, hdr_val = BYTESEQ (Some h2) 18\<rparr>, c\<lparr>authentication := ?a\<lparr>responseHeader := h2\<rparr>\<rparr>)"
      unfolding OI_OBEXAUTH_ComposeResponse_def Let_def
      unfolding auth_consts add_0 using d [unfolded auth_consts] h1(1) h2(1) False by simp
    ultimately show ?thesis
      using h2(2) by (intro exI [of _ h2] exI [of _ 18]) simp
  qed
qed

definition challenge_options :: "AUTH_COMMON \<Rightarrow> u8" where
  "challenge_options c = (if readOnly c then 2 else 0) OR (if userIdRequired (authentication c) then 1 else 0)"

definition realm_item :: "OI_OBEX_REALM \<Rightarrow> u8 \<times> bytes" where
  "realm_item r = (2, realm_charSet r # take (unat (realm_len r)) (realm_bytes r))"

definition challenge_items :: "bytes \<Rightarrow> OI_OBEX_REALM option \<Rightarrow> AUTH_COMMON \<Rightarrow> (u8 \<times> bytes) list" where
  "challenge_items nonce realm c = (0, nonce) #
     (if challenge_options c \<noteq> 0 then [(1, [challenge_options c])] else []) @
     (case realm of None \<Rightarrow> [] | Some r \<Rightarrow> [realm_item r])"

definition realm_ok :: "OI_OBEX_REALM option \<Rightarrow> bool" where
  "realm_ok realm \<longleftrightarrow> (case realm of None \<Rightarrow> True
     | Some r \<Rightarrow> unat (realm_len r) \<le> 254 \<and> length (realm_bytes r) = 254)"

lemma ComposeChallenge_ok:
  assumes ok: "auth_ok (authentication c)" and m: "md5_space ctx" and key: "OI_StrLen key = Some k"
    and ts: "length timestamp = 8" and realm: "realm_ok realm"
  shows "\<exists>nonce h n. length nonce = 16 \<and> OI_OBEXAUTH_ComposeChallenge bo psize ctx timestamp (Some key) realm c =
      Some (\<lparr>hdr_id = 0x4D, hdr_val = BYTESEQ (Some h) n\<rparr>,
        c\<lparr>authentication := (authentication c)\<lparr>challengeHeader := h\<rparr>\<rparr>) \<and>
    length h = 278 \<and> unat n \<le> length h \<and> take (unat n) h = tlvs (challenge_items nonce realm c) \<and>
    take 16 (drop 2 h) = nonce"
proof -
  let ?a = "authentication c" and ?o = "challenge_options c"
  have sizes: "length (challengeHeader ?a) = 278"
    using ok by (simp add: auth_ok_def)
  have "k \<le> length key"
    using key length_takeWhile_le [of "\<lambda>c. c \<noteq> 0" key] by (auto simp: OI_StrLen_def split: if_splits)
  then have "unat (of_nat k :: u16) \<le> length key"
    by (simp add: unat_of_nat take_bit_eq_mod)
  then obtain d where d: "md5_run bo psize ctx [(timestamp, 8), (key, of_nat k)] = Some d" "length d = 16"
    using md5_run_ok [OF m, of "[(timestamp, 8), (key, of_nat k)]" bo psize] ts by (auto simp: readable_def)
  obtain h1 where h1: "mem_copy 0 [0, 16] 2 (challengeHeader ?a) = Some h1" "length h1 = 278" "take 2 h1 = [0, 16]"
    using mem_copy_first [of 2 "[0, 16]" "challengeHeader ?a"] sizes by auto
  obtain h2 where h2: "mem_copy 2 d 16 h1 = Some h2" "length h2 = 278" "take 18 h2 = [0, 16] @ d"
    using mem_copy_at [of 16 d 2 h1 "[0, 16]"] h1 d(2) by auto
  obtain h3 k3 where h3: "(if ?o \<noteq> 0 then do { h \<leftarrow> mem_copy 18 [1, 1, ?o] 3 h2; Some (h, 21) } else Some (h2, 18)) =
      Some (h3, k3)" "length h3 = 278" "take k3 h3 = ([0, 16] @ d) @ tlvs (if ?o \<noteq> 0 then [(1, [?o])] else [])" "k3 \<le> 21"
    using mem_copy_at [of 3 "[1, 1, ?o]" 18 h2] h2 by (cases "?o = 0") auto
  obtain h4 k4 where h4: "(case realm of Some r \<Rightarrow> do {
            h \<leftarrow> mem_copy k3 [2, 1 + realm_len r, realm_charSet r] 3 h3;
            h \<leftarrow> mem_copy (k3 + 3) (realm_bytes r) (unat (realm_len r)) h;
            Some (h, k3 + 3 + unat (realm_len r))
          } | None \<Rightarrow> Some (h3, k3)) = Some (h4, k4)" "length h4 = 278" "k4 \<le> 278"
      "take k4 h4 = take k3 h3 @ tlvs (case realm of None \<Rightarrow> [] | Some r \<Rightarrow> [realm_item r])"
  proof (cases realm)
    case None
    then show ?thesis
      using that [of h3 k3] h3 by simp
  next
    case (Some r)
    let ?n = "unat (realm_len r)"
    have r: "?n \<le> 254" "length (realm_bytes r) = 254"
      using realm Some by (simp_all add: realm_ok_def)
    obtain h where h: "mem_copy k3 [2, 1 + realm_len r, realm_charSet r] 3 h3 = Some h" "length h = 278"
        "take (k3 + 3) h = take k3 h3 @ [2, 1 + realm_len r, realm_charSet r]"
      using mem_copy_at [of 3 "[2, 1 + realm_len r, realm_charSet r]" k3 h3] h3 by auto
    obtain h' where h': "mem_copy (k3 + 3) (realm_bytes r) ?n h = Some h'" "length h' = 278"
        "take (k3 + 3 + ?n) h' = (take k3 h3 @ [2, 1 + realm_len r, realm_charSet r]) @ take ?n (realm_bytes r)"
      using mem_copy_at [of ?n "realm_bytes r" "k3 + 3" h] h h3 r by auto
    have "(of_nat (Suc ?n) :: u8) = 1 + realm_len r"
      by simp
    then have "tlvs [realm_item r] = [2, 1 + realm_len r, realm_charSet r] @ take ?n (realm_bytes r)"
      using r by (simp add: realm_item_def min_absorb2)
    then show ?thesis
      using that [of h' "k3 + 3 + ?n"] Some h h' h3(4) r by simp
  qed
  have all: "take k4 h4 = tlvs (challenge_items d realm c)"
    using h3(3) h4(4) d(2) by (simp add: challenge_items_def)
  have n: "unat (of_nat k4 :: u16) = k4"
    using h4(3) by (simp add: unat_of_nat_u16)
  have "take 16 (drop 2 (take k4 h4)) = d"
    unfolding all using d(2) by (simp add: challenge_items_def)
  moreover have "18 \<le> k4"
  proof -
    have "18 \<le> length (tlvs (challenge_items d realm c))"
      using d(2) by (simp add: challenge_items_def)
    then show ?thesis
      unfolding all [symmetric] using h4(2,3) by simp
  qed
  ultimately have nonce: "take 16 (drop 2 h4) = d"
    by (simp add: drop_take min_def split: if_splits)
  have o: "(if userIdRequired ?a then (if readOnly c then OI_OBEX_AUTH_READONLY_OPTION else 0) OR OI_OBEX_AUTH_USERID_OPTION
      else (if readOnly c then OI_OBEX_AUTH_READONLY_OPTION else 0)) = ?o"
    by (simp add: challenge_options_def auth_consts)
  have "OI_OBEXAUTH_ComposeChallenge bo psize ctx timestamp (Some key) realm c = do {
      (h, len) \<leftarrow> (if ?o \<noteq> 0 then do { h \<leftarrow> mem_copy 18 [1, 1, ?o] 3 h2; Some (h, 21) } else Some (h2, 18));
      (h, len) \<leftarrow> (case realm of Some r \<Rightarrow> do {
            h \<leftarrow> mem_copy len [2, 1 + realm_len r, realm_charSet r] 3 h;
            h \<leftarrow> mem_copy (len + 3) (realm_bytes r) (unat (realm_len r)) h;
            Some (h, len + 3 + unat (realm_len r))
          } | None \<Rightarrow> Some (h, len));
      Some (\<lparr>hdr_id = 0x4D, hdr_val = BYTESEQ (Some h) (of_nat len)\<rparr>, c\<lparr>authentication := ?a\<lparr>challengeHeader := h\<rparr>\<rparr>)
    }"
    unfolding OI_OBEXAUTH_ComposeChallenge_def Let_def o
    unfolding auth_consts add_0 using d(1) h1(1) h2(1) key by simp
  also have "\<dots> = Some (\<lparr>hdr_id = 0x4D, hdr_val = BYTESEQ (Some h4) (of_nat k4)\<rparr>,
      c\<lparr>authentication := ?a\<lparr>challengeHeader := h4\<rparr>\<rparr>)"
    using h3(1) h4(1) by simp
  finally show ?thesis
    using all n nonce d(2) h4(2,3) by (intro exI [of _ d] exI [of _ h4] exI [of _ "of_nat k4"]) simp
qed


section \<open>Properties\<close>

lemma options_bits:
  "challenge_options c AND 1 \<noteq> 0 \<longleftrightarrow> userIdRequired (authentication c)"
  "challenge_options c AND 2 \<noteq> 0 \<longleftrightarrow> readOnly c"
  by (auto simp: challenge_options_def)

lemma challenge_items_ok:
  assumes "length nonce = 16" "realm_ok realm"
  shows "challenge_ok (challenge_items nonce realm c)"
  using assms by (auto simp: challenge_ok_def challenge_items_def realm_item_def realm_ok_def split: option.splits)

lemma challenge_items_fold:
  assumes "length nonce = 16"
  shows "\<exists>r. foldl challenge_step (a, 0, OI_OK) (challenge_items nonce realm c) =
    (a\<lparr>challengeDigest := nonce, auth_realm := r\<rparr>, challenge_options c, OI_OK)"
proof (cases realm)
  case None
  have "a\<lparr>challengeDigest := nonce, auth_realm := auth_realm a\<rparr> = a\<lparr>challengeDigest := nonce\<rparr>"
    by simp
  then show ?thesis
    using None assms by (intro exI [of _ "auth_realm a"]) (simp add: challenge_items_def)
next
  case (Some r)
  then show ?thesis
    using assms
    by (intro exI [of _ "\<lparr>realm_charSet = realm_charSet r,
          realm_bytes = take (unat (realm_len r)) (realm_bytes r) @
            drop (length (take (unat (realm_len r)) (realm_bytes r))) (realm_bytes (auth_realm a)),
          realm_len = of_nat (length (take (unat (realm_len r)) (realm_bytes r)))\<rparr>"])
      (simp add: challenge_items_def realm_item_def)
qed

lemma response_items_fold:
  assumes "length d = 16" "length u \<le> 20" "length (userIdRemote a) = 20"
  shows "foldl response_step (a, OI_OK) ((0, d) # (if u \<noteq> [] then [(1, u)] else [])) =
    (a\<lparr>responseDigest := d, userIdRemote := u @ drop (length u) (userIdRemote a),
       userIdRemoteLen := if u \<noteq> [] then of_nat (length u) else userIdRemoteLen a\<rparr>, OI_OK)"
  using assms by auto

text \<open>C30: The whole digest handshake between a server and a client, on processors of either byte
  order and for some nonce of 16 bytes (which one is not said here), runs to its end and decides by the password: the challenge the server composes (nonce,
  options, realm) is accepted by the client, the client's response is accepted by the server, and
  \<open>OI_OBEXAUTH_Authenticate\<close> succeeds exactly when the MD5 digests of nonce, colon and password
  agree, so always when both sides hold the same password. The client learns whether a user id is
  required and whether access is read-only, and the server learns the client's user id.\<close>

theorem auth_handshake:
  assumes "auth_ok (authentication server)" "auth_ok (authentication client)"
    and "md5_space ctx" "md5_space ctx'"
    and "OI_StrLen key = Some k" "length timestamp = 8" "realm_ok realm"
  shows "\<exists>nonce challenge server1 client1 response client2 server2.
    OI_OBEXAUTH_ComposeChallenge bo psize ctx timestamp (Some key) realm server = Some (challenge, server1) \<and>
    OI_OBEXAUTH_SaveChallenge client challenge = Some (OI_OK, client1) \<and>
    OI_OBEXAUTH_ComposeResponse bo' psize' ctx' client1 = Some (response, client2) \<and>
    OI_OBEXAUTH_SaveResponse server1 response = Some (OI_OK, server2) \<and>
    OI_OBEXAUTH_Authenticate bo psize ctx server2 =
      Some (if md5 (nonce @ [0x3A] @ stored_password client) = md5 (nonce @ [0x3A] @ stored_password server)
            then OI_OK else OI_OBEX_UNAUTHORIZED) \<and>
    length nonce = 16 \<and>
    userIdRequested (authentication client1) = userIdRequired (authentication server) \<and>
    readOnly client1 = readOnly server \<and>
    take (unat (userIdRemoteLen (authentication server2))) (userIdRemote (authentication server2)) = stored_userId client"
proof -
  obtain nonce h n where nonce: "length nonce = 16" and
    C: "OI_OBEXAUTH_ComposeChallenge bo psize ctx timestamp (Some key) realm server =
      Some (\<lparr>hdr_id = 0x4D, hdr_val = BYTESEQ (Some h) n\<rparr>,
        server\<lparr>authentication := (authentication server)\<lparr>challengeHeader := h\<rparr>\<rparr>)"
    "length h = 278" "unat n \<le> length h" "take (unat n) h = tlvs (challenge_items nonce realm server)"
    "take 16 (drop 2 h) = nonce"
    using ComposeChallenge_ok [OF assms(1,3,5,6,7), of bo psize] by blast
  obtain r where f: "foldl challenge_step (authentication client, 0, OI_OK) (challenge_items nonce realm server) =
      ((authentication client)\<lparr>challengeDigest := nonce, auth_realm := r\<rparr>, challenge_options server, OI_OK)"
    using challenge_items_fold [OF nonce] by blast
  note S = SaveChallenge_ok [OF assms(2) challenge_items_ok [OF nonce assms(7)] C(4,3) f]
  define client1 where "client1 = client\<lparr>
      authentication := (authentication client)\<lparr>challengeDigest := nonce, auth_realm := r,
        userIdRequested := (challenge_options server AND 1 \<noteq> 0)\<rparr>,
      readOnly := (challenge_options server AND 2 \<noteq> 0)\<rparr>"
  define server1 where "server1 = server\<lparr>authentication := (authentication server)\<lparr>challengeHeader := h\<rparr>\<rparr>"
  have ok: "auth_ok (authentication client1)" "auth_ok (authentication server1)"
    using S(2) assms(1) C(2) by (simp_all add: client1_def server1_def auth_ok_def)
  have same: "stored_password client1 = stored_password client" "stored_userId client1 = stored_userId client"
    "challengeDigest (authentication client1) = nonce" "length (stored_userId client) \<le> 20"
    using assms(2) by (simp_all add: client1_def stored_password_def stored_userId_def auth_ok_def)
  let ?d = "md5 (nonce @ [0x3A] @ stored_password client)"
  obtain h' n' where R: "OI_OBEXAUTH_ComposeResponse bo' psize' ctx' client1 =
      Some (\<lparr>hdr_id = 0x4E, hdr_val = BYTESEQ (Some h') n'\<rparr>,
        client1\<lparr>authentication := (authentication client1)\<lparr>responseHeader := h'\<rparr>\<rparr>)"
    "unat n' \<le> length h'" "take (unat n') h' = tlvs (response_items client1)"
    using ComposeResponse_ok [OF ok(1) assms(4), of bo' psize'] by blast
  have items: "response_items client1 = (0, ?d) # (if stored_userId client \<noteq> [] then [(1, stored_userId client)] else [])"
    by (simp add: response_items_def same)
  have small: "small_items (response_items client1)"
    unfolding items small_items_def using same(4) by simp
  let ?u = "stored_userId client"
  define a where "a = (authentication server1)\<lparr>userIdRemote := replicate 20 0, userIdRemoteLen := 0\<rparr>
      \<lparr>responseDigest := ?d, userIdRemote := ?u @ drop (length ?u) (replicate 20 0),
       userIdRemoteLen := if ?u \<noteq> [] then of_nat (length ?u) else 0\<rparr>"
  have fold: "foldl response_step ((authentication server1)\<lparr>userIdRemote := replicate 20 0, userIdRemoteLen := 0\<rparr>, OI_OK)
      (response_items client1) = (a, OI_OK)"
    unfolding items by (subst response_items_fold) (simp_all add: same(4) a_def)
  note A = SaveResponse_ok [OF ok(2) small R(3,2) fold]
  have server2: "stored_password (server1\<lparr>authentication := a\<rparr>) = stored_password server"
    "challengeHeader a = h" "responseDigest a = ?d"
    by (simp_all add: stored_password_def a_def server1_def)
  have u: "take (unat (userIdRemoteLen a)) (userIdRemote a) = ?u"
    using same(4) by (cases "?u = []") (simp_all add: a_def unat_of_nat_u8)
  have auth: "OI_OBEXAUTH_Authenticate bo psize ctx (server1\<lparr>authentication := a\<rparr>) =
      Some (if md5 (nonce @ [0x3A] @ stored_password server) = ?d then OI_OK else OI_OBEX_UNAUTHORIZED)"
    using Authenticate_ok [of "server1\<lparr>authentication := a\<rparr>" ctx bo psize] A(2) assms(3) server2 C(5) by simp
  have results: "userIdRequested (authentication client1) = userIdRequired (authentication server)"
    "readOnly client1 = readOnly server"
    by (simp_all add: client1_def options_bits)
  show ?thesis
  proof (intro exI conjI)
    show "OI_OBEXAUTH_ComposeChallenge bo psize ctx timestamp (Some key) realm server =
        Some (\<lparr>hdr_id = 0x4D, hdr_val = BYTESEQ (Some h) n\<rparr>, server1)"
      unfolding server1_def by (rule C(1))
    show "OI_OBEXAUTH_SaveChallenge client \<lparr>hdr_id = 0x4D, hdr_val = BYTESEQ (Some h) n\<rparr> = Some (OI_OK, client1)"
      using S(1) by (simp add: client1_def)
    show "OI_OBEXAUTH_ComposeResponse bo' psize' ctx' client1 = Some (\<lparr>hdr_id = 0x4E, hdr_val = BYTESEQ (Some h') n'\<rparr>,
        client1\<lparr>authentication := (authentication client1)\<lparr>responseHeader := h'\<rparr>\<rparr>)"
      by (rule R(1))
    show "OI_OBEXAUTH_SaveResponse server1 \<lparr>hdr_id = 0x4E, hdr_val = BYTESEQ (Some h') n'\<rparr> =
        Some (OI_OK, server1\<lparr>authentication := a\<rparr>)"
      by (rule A(1))
    show "OI_OBEXAUTH_Authenticate bo psize ctx (server1\<lparr>authentication := a\<rparr>) =
      Some (if ?d = md5 (nonce @ [0x3A] @ stored_password server) then OI_OK else OI_OBEX_UNAUTHORIZED)"
      using auth by (simp add: eq_commute)
  qed (use nonce results u in simp_all)
qed

text \<open>A server and a client with the password \<open>s3\<close>.\<close>

definition demo_peer :: AUTH_COMMON where
  "demo_peer = \<lparr>readOnly = False, authentication =
     zeroed_auth\<lparr>password := [0x73, 0x33, 0, 0, 0, 0, 0, 0, 0, 0, 0, 0, 0, 0, 0, 0], passwordLen := 2\<rparr>\<rparr>"

lemma demo_peer_ok: "auth_ok (authentication demo_peer)" "md5_space demo_ctx"
  by (simp_all add: demo_peer_def auth_ok_def zeroed_auth_def md5_space_def demo_ctx_def)

lemma auth_handshake_witness:
  "\<exists>challenge server1 client1 response client2 server2.
    OI_OBEXAUTH_ComposeChallenge OI_BIG_ENDIAN_BYTE_ORDER 4 demo_ctx (replicate 8 1) (Some [0x6B, 0]) None demo_peer =
      Some (challenge, server1) \<and>
    OI_OBEXAUTH_SaveChallenge demo_peer challenge = Some (OI_OK, client1) \<and>
    OI_OBEXAUTH_ComposeResponse OI_LITTLE_ENDIAN_BYTE_ORDER 8 demo_ctx client1 = Some (response, client2) \<and>
    OI_OBEXAUTH_SaveResponse server1 response = Some (OI_OK, server2) \<and>
    OI_OBEXAUTH_Authenticate OI_BIG_ENDIAN_BYTE_ORDER 4 demo_ctx server2 = Some OI_OK"
proof -
  have "OI_StrLen [0x6B, 0] = Some 1" "length (replicate 8 (1 :: u8)) = 8" "realm_ok None"
    by (simp_all add: OI_StrLen_def realm_ok_def)
  from auth_handshake [OF demo_peer_ok(1) demo_peer_ok(1) demo_peer_ok(2) demo_peer_ok(2) this,
      of OI_BIG_ENDIAN_BYTE_ORDER 4 OI_LITTLE_ENDIAN_BYTE_ORDER 8]
  show ?thesis
    unfolding if_True simp_thms by blast
qed

text \<open>C31: \<open>OI_OBEXAUTH_SaveChallenge\<close> on every challenge whose items fill its header, whatever they are and
  however often they come: it is memory-safe exactly if no item is a realm of length zero. It then stays
  inside the header and the authentication block, keeps the block well-formed, and the result is the items
  applied one after the other, a wrong nonce or options length giving \<open>OI_OBEX_INVALID_AUTH_DIGEST\<close>.\<close>

theorem SaveChallenge_items:
  assumes "auth_ok (authentication common)" "\<forall>(t, v) \<in> set items. length v < 256"
    and "take (unat n) data = tlvs items" "unat n \<le> length data"
  shows "case foldl challenge_step (authentication common, 0, OI_OK) items of (a, options, status) \<Rightarrow>
    OI_OBEXAUTH_SaveChallenge common \<lparr>hdr_id = OI_OBEX_HDR_AUTHENTICATION_CHALLENGE, hdr_val = BYTESEQ (Some data) n\<rparr> =
      (if (2, []) \<in> set items then None
       else Some (status, common\<lparr>authentication := a\<lparr>userIdRequested := (options AND 1 \<noteq> 0)\<rparr>,
         readOnly := (options AND 2 \<noteq> 0)\<rparr>)) \<and>
    ((2, []) \<in> set items \<or> auth_ok a)"
  using challenge_loop [of "(authentication common, 0, OI_OK)" items n data] assms
  by (auto simp: run_challenge OI_OBEXAUTH_SaveChallenge_def byteseq_of_def auth_consts monad_simps split: prod.splits if_splits)

lemma SaveChallenge_items_witness:
  "OI_OBEXAUTH_SaveChallenge demo_peer
     \<lparr>hdr_id = OI_OBEX_HDR_AUTHENTICATION_CHALLENGE, hdr_val = BYTESEQ (Some [1, 1, 3, 0, 2, 7, 7]) 7\<rparr> =
   Some (OI_OBEX_INVALID_AUTH_DIGEST,
     demo_peer\<lparr>authentication := (authentication demo_peer)\<lparr>userIdRequested := True\<rparr>, readOnly := True\<rparr>)"
  using SaveChallenge_items [OF demo_peer_ok(1), of "[(1, [3]), (0, [7, 7])]" 7 "[1, 1, 3, 0, 2, 7, 7]"]
  by simp

text \<open>The loop of \<open>OI_OBEXAUTH_SaveChallenge\<close> trusts the lengths it reads: a challenge that ends
  inside an item makes it read past the header, and a realm item of length zero makes it copy
  255 bytes, the wrapped length, into the 254 of the realm. Neither is caught.\<close>

theorem SaveChallenge_overreads:
  "OI_OBEXAUTH_SaveChallenge common \<lparr>hdr_id = OI_OBEX_HDR_AUTHENTICATION_CHALLENGE, hdr_val = BYTESEQ (Some [0]) 1\<rparr> = None \<and>
   OI_OBEXAUTH_SaveChallenge common \<lparr>hdr_id = OI_OBEX_HDR_AUTHENTICATION_CHALLENGE, hdr_val = BYTESEQ (Some [0, 16, 7]) 3\<rparr> = None \<and>
   OI_OBEXAUTH_SaveChallenge (OI_OBEXAUTH_Reset common)
     \<lparr>hdr_id = OI_OBEX_HDR_AUTHENTICATION_CHALLENGE, hdr_val = BYTESEQ (Some ([2, 0] @ rest)) 2\<rparr> = None"
  by (simp add: OI_OBEXAUTH_SaveChallenge_def byteseq_of_def item_loop.simps [of _ "[0]" 1 0]
      item_loop.simps [of _ "[0, 16, 7]" 3 0] item_loop.simps [of _ "2 # 0 # rest" 2 0] challenge_item_def auth_consts
      mem_copy_def monad_simps OI_OBEXAUTH_Reset_def zeroed_auth_def Let_def unsigned_minus_1_eq_mask mask_eq_exp_minus_1)

text \<open>\<open>OI_OBEXAUTH_SaveAuthInfo\<close> refuses a password of more than 16 characters and leaves
  everything alone (the comment in the code says it truncates), refuses a user id of more than
  20 bytes, but then has stored the password already, and otherwise stores exactly both, the
  block staying well-formed.\<close>

theorem SaveAuthInfo_spec:
  assumes "auth_ok (authentication common)" "OI_StrLen pw = Some k" "unat uidLen \<le> length uid"
  shows "\<exists>status common'. OI_OBEXAUTH_SaveAuthInfo common (Some uid) uidLen pw = Some (status, common') \<and>
    auth_ok (authentication common') \<and>
    (if 16 < k then status = OI_OBEX_PASSWORD_TOO_LONG \<and> common' = common
     else stored_password common' = take k pw \<and>
       (if 20 < unat uidLen then status = OI_OBEX_USERID_TOO_LONG \<and> stored_userId common' = stored_userId common
        else status = OI_OK \<and> stored_userId common' = take (unat uidLen) uid))"
proof -
  let ?a = "authentication common"
  have k: "k \<le> length pw"
    using assms(2) length_takeWhile_le [of "\<lambda>c. c \<noteq> 0" pw] by (auto simp: OI_StrLen_def split: if_splits)
  have size: "length (password ?a) = 16" "length (userId ?a) = 20"
    using assms(1) by (simp_all add: auth_ok_def)
  show ?thesis
  proof (cases "16 < k")
    case True
    then show ?thesis
      using assms(1,2) by (simp add: OI_OBEXAUTH_SaveAuthInfo_def auth_consts)
  next
    case False
    then have p: "mem_copy 0 pw k (password ?a) = Some (take k pw @ drop k (password ?a))"
      "unat (of_nat k :: u8) = k"
      using k size by (simp_all add: mem_copy_start unat_of_nat_u8)
    have len: "20 < uidLen \<longleftrightarrow> 20 < unat uidLen" "0 < uidLen \<longleftrightarrow> 0 < unat uidLen"
      by (simp_all add: word_less_nat_alt)
    have u: "mem_copy 0 uid (unat uidLen) (userId ?a) = Some (take (unat uidLen) uid @ drop (unat uidLen) (userId ?a))"
      if "unat uidLen \<le> 20"
      using that assms(3) size by (simp add: mem_copy_start)
    show ?thesis
      using False p u assms k size
      by (cases "20 < unat uidLen"; cases "unat uidLen = 0")
        (auto simp: OI_OBEXAUTH_SaveAuthInfo_def Let_def auth_consts len auth_ok_def stored_password_def stored_userId_def)
  qed
qed

lemma SaveAuthInfo_spec_witness:
  "\<exists>status common'. OI_OBEXAUTH_SaveAuthInfo demo_peer (Some [0x75]) 1 [0x70, 0x77, 0] = Some (status, common') \<and>
     status = OI_OK \<and> stored_password common' = [0x70, 0x77] \<and> stored_userId common' = [0x75]"
proof -
  have "OI_StrLen [0x70, 0x77, 0] = Some 2"
    by (simp add: OI_StrLen_def)
  from SaveAuthInfo_spec [OF demo_peer_ok(1) this, of 1 "[0x75]"] show ?thesis
    by auto
qed

end
