(* ===== verification/OiTime.thy ===== *)
theory OiTime
  imports Prelude "HOL-Library.Signed_Division"
begin

text \<open>
  \<open>stack/support/oi_time.c\<close> and the unit conversions of \<open>oi_time.h\<close>: times in seconds and
  milliseconds (signed 32 and 16 bits) and intervals in tenths of seconds (unsigned 16 bits).

  Sums and differences of the C code are computed in \<open>int\<close>; they are the word operations here,
  which agree with C wherever C defines the result. The lemmas read times as the number of
  milliseconds they stand for.
\<close>

section \<open>Data\<close>

type_synonym OI_INTERVAL = "16 word"

record OI_TIME =
  seconds :: "32 word"
  mseconds :: "16 word"

definition OI_MAX_INTERVAL :: OI_INTERVAL where "OI_MAX_INTERVAL = 0x7fff"

definition OI_SECONDS :: "32 word \<Rightarrow> OI_INTERVAL" where
  "OI_SECONDS n = ucast (n * 10)"

text \<open>The argument is an \<open>int\<close>, and the division truncates.\<close>

definition OI_MSECONDS :: "int \<Rightarrow> OI_INTERVAL" where
  "OI_MSECONDS n = word_of_int ((n + 100 - 1) sdiv 100)"

definition OI_INTERVAL_TO_MILLISECONDS :: "OI_INTERVAL \<Rightarrow> u32" where
  "OI_INTERVAL_TO_MILLISECONDS i = ucast i * 100"

section \<open>Operations\<close>

definition OI_Time_ToMS :: "OI_TIME \<Rightarrow> u32" where
  "OI_Time_ToMS t = 1000 * seconds t + scast (mseconds t)"

definition OI_Time_Compare :: "OI_TIME \<Rightarrow> OI_TIME \<Rightarrow> int" where
  "OI_Time_Compare T1 T2 =
     (if sint (seconds T1) < sint (seconds T2) then -1
      else if sint (seconds T1) > sint (seconds T2) then 1
      else if sint (mseconds T1) < sint (mseconds T2) then -1
      else if sint (mseconds T1) > sint (mseconds T2) then 1
      else 0)"

text \<open>The common start of the two differences: seconds, and milliseconds brought above zero.\<close>

definition time_difference :: "OI_TIME \<Rightarrow> OI_TIME \<Rightarrow> (32 word \<times> 16 word) option" where
  "time_difference Sooner Later = do {
     let s = seconds Later - seconds Sooner;
     let m = mseconds Later - mseconds Sooner;
     OI_ASSERT (sint (seconds Later) \<ge> sint (seconds Sooner));
     OI_ASSERT (seconds Later \<noteq> seconds Sooner \<or> sint (mseconds Later) \<ge> sint (mseconds Sooner));
     Some (if sint m < 0 then (s - 1, m + 1000) else (s, m))
   }"

definition OI_Time_Interval :: "OI_TIME \<Rightarrow> OI_TIME \<Rightarrow> OI_INTERVAL option" where
  "OI_Time_Interval Sooner Later = do {
     (s, m) \<leftarrow> time_difference Sooner Later;
     Some (word_of_int (sint s * 10 + (sint m * 10 + 512) sdiv 1024))
   }"

definition OI_Time_IntervalMsecs :: "OI_TIME \<Rightarrow> OI_TIME \<Rightarrow> u32 option" where
  "OI_Time_IntervalMsecs Sooner Later = do {
     (s, m) \<leftarrow> time_difference Sooner Later;
     Some (s * 1000 + scast m)
   }"

text \<open>\<open>OI_Time_Now\<close> is the platform's; its reading is the first argument.\<close>

definition OI_Time_NowReachedTime :: "OI_TIME \<Rightarrow> OI_TIME \<Rightarrow> bool" where
  "OI_Time_NowReachedTime now target \<longleftrightarrow> OI_Time_Compare now target \<ge> 0"

section \<open>Times as milliseconds\<close>

definition time_ok :: "OI_TIME \<Rightarrow> bool" where
  "time_ok t \<longleftrightarrow> 0 \<le> sint (mseconds t) \<and> sint (mseconds t) < 1000"

definition time_ms :: "OI_TIME \<Rightarrow> int" where
  "time_ms t = 1000 * sint (seconds t) + sint (mseconds t)"

lemma sint_wrap: "- (2 ^ (LENGTH('a) - 1)) \<le> i \<Longrightarrow> i < 2 ^ (LENGTH('a) - 1) \<Longrightarrow> sint (word_of_int i :: 'a::len word) = i"
  unfolding sint_sbintrunc' by (rule signed_take_bit_int_eq_self)

lemma time_compare_seconds:
  "time_ok a \<Longrightarrow> time_ok b \<Longrightarrow> sint (seconds a) < sint (seconds b) \<Longrightarrow> time_ms a < time_ms b"
  by (simp add: time_ok_def time_ms_def)

lemma OI_Time_Compare_ms:
  assumes "time_ok a" "time_ok b"
  shows "OI_Time_Compare a b = sgn (time_ms a - time_ms b)"
  using assms unfolding OI_Time_Compare_def time_ok_def time_ms_def
  by (auto simp: sgn_if)

lemma sdiv_pos: "0 \<le> a \<Longrightarrow> 0 < b \<Longrightarrow> (a :: int) sdiv b = a div b"
  by (simp add: signed_divide_int_def sgn_if)

lemma sint_bounds16: "- 32768 \<le> sint (x :: 16 word) \<and> sint x < 32768"
  using sint_lt [of x] sint_ge [of x] by simp

lemma sint_bounds32: "- 2147483648 \<le> sint (x :: 32 word) \<and> sint x < 2147483648"
  using sint_lt [of x] sint_ge [of x] by simp

lemma word_of_sint_diff: "(a :: 'a::len word) - b = word_of_int (sint a - sint b)"
  by simp

text \<open>The difference of two times, as long as it is less than \<open>2\<^sup>3\<^sup>1\<close> seconds.\<close>

lemma time_difference_ms:
  assumes "time_ok a" "time_ok b" "time_ms a \<le> time_ms b" "time_ms b - time_ms a < 1000 * 2147483648"
  shows "\<exists>s m. time_difference a b = Some (s, m) \<and> 0 \<le> sint s \<and> 0 \<le> sint m \<and> sint m < 1000 \<and>
    1000 * sint s + sint m = time_ms b - time_ms a"
proof -
  let ?ds = "sint (seconds b) - sint (seconds a)" and ?dm = "sint (mseconds b) - sint (mseconds a)"
  have ms: "0 \<le> sint (mseconds a)" "sint (mseconds a) < 1000" "0 \<le> sint (mseconds b)" "sint (mseconds b) < 1000"
    using assms(1,2) by (simp_all add: time_ok_def)
  have tot: "0 \<le> 1000 * ?ds + ?dm" "1000 * ?ds + ?dm < 1000 * 2147483648"
    using assms(3,4) by (simp_all add: time_ms_def)
  have arith: "0 \<le> d \<and> d \<le> 2147483648"
    if "0 \<le> 1000 * d + e" "1000 * d + e < 1000 * 2147483648" "- 1000 < e" "e < 1000" for d e :: int
    using that by linarith
  have ds: "0 \<le> ?ds" "?ds \<le> 2147483648"
    using arith [OF tot] ms by simp_all
  have eq: "?ds = 0 \<Longrightarrow> 0 \<le> ?dm" "seconds b = seconds a \<longleftrightarrow> ?ds = 0"
    using tot by (auto simp: signed_word_eqI)
  have m: "sint (mseconds b - mseconds a) = ?dm"
    using ms unfolding word_of_sint_diff by (intro sint_wrap) simp_all
  show ?thesis
  proof (cases "?dm < 0")
    case True
    then have "1 \<le> ?ds"
      using eq(1) ds(1) by linarith
    have s1: "sint (seconds b - seconds a - 1) = ?ds - 1"
    proof -
      have "seconds b - seconds a - 1 = word_of_int (?ds - 1)"
        by simp
      then show ?thesis
        using ds \<open>1 \<le> ?ds\<close> by (simp only:) (rule sint_wrap, simp_all)
    qed
    have m1: "sint (mseconds b - mseconds a + 1000) = ?dm + 1000"
    proof -
      have "mseconds b - mseconds a + 1000 = word_of_int (?dm + 1000)"
        by simp
      then show ?thesis
        using ms True by (simp only:) (rule sint_wrap, simp_all)
    qed
    show ?thesis
      using True ds \<open>1 \<le> ?ds\<close> eq m s1 m1 ms
      by (auto simp: time_difference_def time_ms_def Let_def monad_simps)
  next
    case False
    have "d < 2147483648" if "1000 * d + e < 1000 * 2147483648" "0 \<le> e" for d e :: int
      using that by linarith
    from this [OF tot(2)] False have "?ds < 2147483648"
      by simp
    have s: "sint (seconds b - seconds a) = ?ds"
      using ds \<open>?ds < 2147483648\<close> unfolding word_of_sint_diff by (intro sint_wrap) simp_all
    show ?thesis
      using False ds eq m s ms by (auto simp: time_difference_def time_ms_def Let_def monad_simps)
  qed
qed

section \<open>Properties\<close>

lemma unat_of_int_u16: "0 \<le> i \<Longrightarrow> i < 65536 \<Longrightarrow> int (unat (word_of_int i :: 16 word)) = i"
  by (simp add: unsigned_of_int take_bit_int_eq_self)

lemma unat_of_int_u32: "0 \<le> i \<Longrightarrow> i < 4294967296 \<Longrightarrow> int (unat (word_of_int i :: 32 word)) = i"
  by (simp add: unsigned_of_int take_bit_int_eq_self)

text \<open>For two times in order, \<open>OI_Time_IntervalMsecs\<close> is exactly the number of milliseconds
  between them, and the division-free \<open>OI_Time_Interval\<close>, which multiplies by 10 and shifts by 10
  bits where it means to divide by 100, is off by at most 73 milliseconds: less than its unit of a
  tenth of a second, over the whole range of an interval.\<close>

theorem OI_Time_differences:
  assumes "time_ok a" "time_ok b" "time_ms a \<le> time_ms b" "time_ms b - time_ms a < 6553000"
  shows "\<exists>ms i. OI_Time_IntervalMsecs a b = Some ms \<and> int (unat ms) = time_ms b - time_ms a \<and>
    OI_Time_Interval a b = Some i \<and> \<bar>100 * int (unat i) - (time_ms b - time_ms a)\<bar> \<le> 73"
proof -
  obtain s m where d: "time_difference a b = Some (s, m)" "0 \<le> sint s" "0 \<le> sint m" "sint m < 1000"
      "1000 * sint s + sint m = time_ms b - time_ms a"
    using time_difference_ms [OF assms(1-3)] assms(4) by force
  have bound: "sint s * 1000 + sint m < 6553000"
    using d(5) assms(4) by simp
  have "s * 1000 + scast m = word_of_int (sint s * 1000 + sint m)"
    unfolding scast_eq [of m] by (simp only: of_int_add of_int_mult of_int_sint of_int_numeral scast_id)
  then have ms: "int (unat (s * 1000 + scast m :: u32)) = time_ms b - time_ms a"
    using unat_of_int_u32 [of "sint s * 1000 + sint m"] bound d(2,3,5) by simp
  let ?k = "(sint m * 10 + 512) div 1024"
  have k: "(sint m * 10 + 512) sdiv 1024 = ?k"
    using d(3) by (intro sdiv_pos) simp_all
  have round: "0 \<le> k div 1024 \<and> 1024 * (k div 1024) \<le> k \<and> k < 1024 * (k div 1024) + 1024" if "0 \<le> k" for k :: int
    using that div_mult_mod_eq [of k 1024] pos_mod_bound [of 1024 k] pos_mod_sign [of 1024 k]
      pos_imp_zdiv_nonneg_iff [of 1024 k] by linarith
  have "\<bar>100 * ?k - sint m\<bar> \<le> 73"
    using round [of "sint m * 10 + 512"] d(3,4) by (simp add: abs_le_iff)
  moreover have "0 \<le> sint s * 10 + ?k" "sint s * 10 + ?k < 65536"
    using round [of "sint m * 10 + 512"] bound d(2,3,4) by simp_all
  moreover have "100 * (sint s * 10 + ?k) - (time_ms b - time_ms a) = 100 * ?k - sint m"
    using d(5) by simp
  ultimately have "\<bar>100 * int (unat (word_of_int (sint s * 10 + ?k) :: 16 word)) - (time_ms b - time_ms a)\<bar> \<le> 73"
    using unat_of_int_u16 [of "sint s * 10 + ?k"] by simp
  with d(1) ms k show ?thesis
    by (simp add: OI_Time_IntervalMsecs_def OI_Time_Interval_def)
qed

lemma OI_Time_differences_witness:
  "\<exists>ms i. OI_Time_IntervalMsecs \<lparr>seconds = 5, mseconds = 900\<rparr> \<lparr>seconds = 7, mseconds = 50\<rparr> = Some ms \<and>
    int (unat ms) = 1150 \<and>
    OI_Time_Interval \<lparr>seconds = 5, mseconds = 900\<rparr> \<lparr>seconds = 7, mseconds = 50\<rparr> = Some i \<and>
    \<bar>100 * int (unat i) - 1150\<bar> \<le> 73"
  using OI_Time_differences [of "\<lparr>seconds = 5, mseconds = 900\<rparr>" "\<lparr>seconds = 7, mseconds = 50\<rparr>"]
  by (simp add: time_ok_def time_ms_def)

end
