(* ===== verification/Dispatch.thy ===== *)
theory Dispatch
  imports OiTime
begin

text \<open>
  \<open>stack/support/oi_dispatch.c\<close>: the table of callbacks that the whole stack runs on.

  The static \<open>Dispatcher\<close> is the record \<open>DISPATCH_STATE\<close>; besides the members of the C structure
  it holds what the functions do to their surroundings: the time \<open>OI_Time_Now\<close> gives, the
  milliseconds of the service requests made, the argument blocks freed, and the calls made, each
  list in the order of the events. A callback function is a value of type \<open>'f\<close>, and running it is
  the parameter \<open>run\<close>, which gets the function, its argument block and the state the function
  finds and gives the state it leaves: callbacks do call back into the dispatcher.

  The 16-bit signed indices are \<open>int\<close>; the invariant bounds the table by the range of \<open>OI_INT16\<close>.
  The build has \<open>OI_DEBUG\<close>, so a failed \<open>OI_ASSERT\<close> ends the run: \<open>None\<close>. The code after an
  assertion that repeats its check is kept as it is.
\<close>

section \<open>Data\<close>

datatype ENTRY_STATE = FREE_SLOT | FUNC_RUNNING | FUNC_ACTIVE | FUNC_RUNNABLE | FUNC_SUSPENDED

text \<open>The union of the argument: inline bytes, or the block a pointer refers to.\<close>

datatype ENTRY_ARG = InlineArg bytes | MallocArg "bytes option"

record 'f DISPATCH_ENTRY =
  e_state :: ENTRY_STATE
  e_timeout :: OI_INTERVAL
  e_salt :: u16
  e_argSize :: u16
  e_CBFunc :: "'f option"
  e_arg :: ENTRY_ARG

record 'f DISPATCH_STATE =
  Running :: bool
  ImmediateDispatch :: bool
  MaxUsedEntry :: int
  numActiveEntries :: int
  TableSize :: u16
  nextTimeout :: OI_INTERVAL
  Table :: "'f DISPATCH_ENTRY list option"
  serviceCallback :: bool
  d_init :: bool
  d_now :: OI_TIME
  d_requests :: "u32 list"
  d_freed :: "bytes list"
  d_calls :: "('f \<times> bytes option) list"

definition MAX_INLINE_ARG_SIZE :: nat where "MAX_INLINE_ARG_SIZE = 8"

definition CB_INDEX :: "u32 \<Rightarrow> u16" where "CB_INDEX h = ucast (drop_bit 16 h)"
definition CB_SALT :: "u32 \<Rightarrow> u32" where "CB_SALT h = and h 0xFFFF"
definition CB_HANDLE :: "u32 \<Rightarrow> u32 \<Rightarrow> u32" where "CB_HANDLE i s = or (push_bit 16 i) (CB_SALT s)"

definition ENTRY_IN_USE :: "'f DISPATCH_ENTRY \<Rightarrow> bool" where
  "ENTRY_IN_USE e \<longleftrightarrow> e_CBFunc e \<noteq> None"

definition free_entry :: "'f DISPATCH_ENTRY" where
  "free_entry = \<lparr>e_state = FREE_SLOT, e_timeout = 0, e_salt = 0, e_argSize = 0, e_CBFunc = None,
     e_arg = InlineArg (replicate 8 0)\<rparr>"

text \<open>An entry of the table, which must be there, and its replacement.\<close>

definition entry_at :: "'f DISPATCH_STATE \<Rightarrow> nat \<Rightarrow> 'f DISPATCH_ENTRY option" where
  "entry_at d i = (case Table d of None \<Rightarrow> None | Some t \<Rightarrow> if i < length t then Some (t ! i) else None)"

definition put_entry :: "nat \<Rightarrow> 'f DISPATCH_ENTRY \<Rightarrow> 'f DISPATCH_STATE \<Rightarrow> 'f DISPATCH_STATE" where
  "put_entry i e d = d\<lparr>Table := map_option (\<lambda>t. t[i := e]) (Table d)\<rparr>"

section \<open>Starting\<close>

definition OI_Dispatch_Init ::
    "u16 \<Rightarrow> bool \<Rightarrow> 'f DISPATCH_STATE \<Rightarrow> OI_STATUS \<times> 'f DISPATCH_STATE" where
  "OI_Dispatch_Init DispatchTableSize handler d =
     (if d_init d then (OI_STATUS_ALREADY_INITIALIZED, d)
      else (OI_OK, d\<lparr>Running := False, ImmediateDispatch := False, numActiveEntries := 0, nextTimeout := 0,
        TableSize := DispatchTableSize, Table := Some (replicate (unat DispatchTableSize) free_entry),
        MaxUsedEntry := -1, serviceCallback := handler, d_init := True\<rparr>))"

section \<open>Freeing entries\<close>

text \<open>The loop that lowers the high-water mark, from index \<open>n - 1\<close> down.\<close>

fun lower_mark :: "'f DISPATCH_ENTRY list \<Rightarrow> nat \<Rightarrow> int" where
  "lower_mark t 0 = -1"
| "lower_mark t (Suc n) = (if \<not> ENTRY_IN_USE (t ! n) then lower_mark t n else int n)"

definition FreeCBEntry :: "nat \<Rightarrow> 'f DISPATCH_STATE \<Rightarrow> 'f DISPATCH_STATE option" where
  "FreeCBEntry entryIndex d = do {
     entry \<leftarrow> entry_at d entryIndex;
     let freed = (if ENTRY_IN_USE entry \<and> unat (e_argSize entry) > MAX_INLINE_ARG_SIZE
                  then (case e_arg entry of MallocArg (Some block) \<Rightarrow> [block] | _ \<Rightarrow> []) else []);
     OI_ASSERT (numActiveEntries d \<ge> 0);
     let active = (if e_state entry = FUNC_ACTIVE then numActiveEntries d - 1 else numActiveEntries d);
     let d = put_entry entryIndex (entry\<lparr>e_CBFunc := None, e_state := FREE_SLOT\<rparr>)
       (d\<lparr>d_freed := d_freed d @ freed, numActiveEntries := active\<rparr>);
     t \<leftarrow> Table d;
     Some (if int entryIndex = MaxUsedEntry d
           then d\<lparr>MaxUsedEntry := lower_mark t (nat (MaxUsedEntry d + 1))\<rparr> else d)
   }"

text \<open>\<open>for (i = 0; i < Dispatcher.MaxUsedEntry; ++i)\<close>; the count bounds the iterations.\<close>

fun free_entries :: "nat \<Rightarrow> nat \<Rightarrow> 'f DISPATCH_STATE \<Rightarrow> 'f DISPATCH_STATE option" where
  "free_entries 0 i d = Some d"
| "free_entries (Suc n) i d =
     (if int i < MaxUsedEntry d then do { d \<leftarrow> FreeCBEntry i d; free_entries n (Suc i) d } else Some d)"

definition OI_Dispatch_Terminate :: "'f DISPATCH_STATE \<Rightarrow> 'f DISPATCH_STATE option" where
  "OI_Dispatch_Terminate d =
     (case Table d of
        None \<Rightarrow> Some d
      | Some t \<Rightarrow> do {
          d \<leftarrow> free_entries (length t) 0 d;
          Some (d\<lparr>Table := None\<rparr>)
        })"

section \<open>Timeouts\<close>

definition Dispatch_RequestService :: "OI_INTERVAL \<Rightarrow> 'f DISPATCH_STATE \<Rightarrow> 'f DISPATCH_STATE" where
  "Dispatch_RequestService timeout d =
     (if serviceCallback d then d\<lparr>d_requests := d_requests d @ [OI_INTERVAL_TO_MILLISECONDS timeout]\<rparr> else d)"

definition Dispatch_timeNowInterval :: "'f DISPATCH_STATE \<Rightarrow> OI_INTERVAL" where
  "Dispatch_timeNowInterval d = OI_SECONDS (seconds (d_now d)) + OI_MSECONDS (sint (mseconds (d_now d)))"

definition InternalSetTimeout :: "nat \<Rightarrow> OI_INTERVAL \<Rightarrow> 'f DISPATCH_STATE \<Rightarrow> 'f DISPATCH_STATE option" where
  "InternalSetTimeout i timeout d = do {
     let intervalNow = Dispatch_timeNowInterval d;
     let deltaTime = sint (nextTimeout d - intervalNow);
     entry \<leftarrow> entry_at d i;
     let entry = entry\<lparr>e_timeout := intervalNow + timeout\<rparr>;
     let d = put_entry i entry d;
     let d = (if numActiveEntries d = 0 \<or> deltaTime \<ge> int (unat timeout)
              then Dispatch_RequestService timeout (d\<lparr>nextTimeout := e_timeout entry\<rparr>) else d);
     Some (if e_state entry = FUNC_SUSPENDED
           then put_entry i (entry\<lparr>e_state := FUNC_ACTIVE\<rparr>) (d\<lparr>numActiveEntries := numActiveEntries d + 1\<rparr>)
           else d)
   }"

section \<open>Handles\<close>

definition OI_Dispatch_IsValidHandle :: "u32 \<Rightarrow> 'f DISPATCH_STATE \<Rightarrow> bool option" where
  "OI_Dispatch_IsValidHandle CBHandle d = do {
     let index = CB_INDEX CBHandle;
     OI_ASSERT (Table d \<noteq> None);
     if index \<ge> TableSize d then Some False
     else do {
       e \<leftarrow> entry_at d (unat index);
       Some (if e_state e = FREE_SLOT \<or> e_state e = FUNC_RUNNING then False
             else CB_SALT (ucast (e_salt e)) = CB_SALT CBHandle)
     }
   }"

definition OI_Dispatch_SetFuncTimeout ::
    "u32 \<Rightarrow> OI_INTERVAL \<Rightarrow> 'f DISPATCH_STATE \<Rightarrow> (OI_STATUS \<times> 'f DISPATCH_STATE) option" where
  "OI_Dispatch_SetFuncTimeout CBHandle timeout d = do {
     valid \<leftarrow> OI_Dispatch_IsValidHandle CBHandle d;
     if \<not> valid then Some (OI_DISPATCH_INVALID_CB_HANDLE, d)
     else do {
       OI_ASSERT (timeout \<le> OI_MAX_INTERVAL);
       if timeout \<le> OI_MAX_INTERVAL then do {
         d \<leftarrow> InternalSetTimeout (unat (CB_INDEX CBHandle)) timeout d;
         Some (OI_OK, d)
       } else Some (OI_STATUS_INVALID_PARAMETERS, d)
     }
   }"

definition OI_Dispatch_SuspendFunc :: "u32 \<Rightarrow> 'f DISPATCH_STATE \<Rightarrow> (OI_STATUS \<times> 'f DISPATCH_STATE) option" where
  "OI_Dispatch_SuspendFunc CBHandle d = do {
     valid \<leftarrow> OI_Dispatch_IsValidHandle CBHandle d;
     if \<not> valid then Some (OI_DISPATCH_INVALID_CB_HANDLE, d)
     else do {
       let i = unat (CB_INDEX CBHandle);
       entry \<leftarrow> entry_at d i;
       if e_state entry = FUNC_ACTIVE then do {
         let d = put_entry i (entry\<lparr>e_state := FUNC_SUSPENDED\<rparr>) d;
         OI_ASSERT (numActiveEntries d > 0);
         Some (OI_OK, d\<lparr>numActiveEntries := numActiveEntries d - 1\<rparr>)
       } else Some (OI_OK, d)
     }
   }"

definition OI_Dispatch_CancelFunc :: "u32 \<Rightarrow> 'f DISPATCH_STATE \<Rightarrow> (OI_STATUS \<times> 'f DISPATCH_STATE) option" where
  "OI_Dispatch_CancelFunc CBHandle d = do {
     valid \<leftarrow> OI_Dispatch_IsValidHandle CBHandle d;
     if \<not> valid then Some (OI_DISPATCH_INVALID_CB_HANDLE, d)
     else do {
       d \<leftarrow> FreeCBEntry (unat (CB_INDEX CBHandle)) d;
       Some (OI_OK, d)
     }
   }"

section \<open>Registering\<close>

text \<open>The first free entry, or the size of the table.\<close>

fun find_free :: "'f DISPATCH_ENTRY list \<Rightarrow> nat \<Rightarrow> nat" where
  "find_free [] i = i"
| "find_free (e # t) i = (if \<not> ENTRY_IN_USE e then i else find_free t (Suc i))"

text \<open>The copy of the argument block: a block of at most 8 bytes goes into the entry, over what is
  there; a larger one into new memory, if there is any.\<close>

definition store_arg :: "bool \<Rightarrow> bytes option \<Rightarrow> 'f DISPATCH_ENTRY \<Rightarrow> 'f DISPATCH_ENTRY option" where
  "store_arg malloc_ok args entry =
     (case args of
        None \<Rightarrow> Some (entry\<lparr>e_argSize := 0\<rparr>)
      | Some a \<Rightarrow>
          if length a \<le> MAX_INLINE_ARG_SIZE
          then Some (entry\<lparr>e_arg := InlineArg (a @ drop (length a)
                 (case e_arg entry of InlineArg b \<Rightarrow> b | MallocArg _ \<Rightarrow> replicate 8 0)),
               e_argSize := of_nat (length a)\<rparr>)
          else if \<not> malloc_ok then None
          else Some (entry\<lparr>e_arg := MallocArg (Some a), e_argSize := of_nat (length a)\<rparr>))"

definition OI_Dispatch_RegisterTimedFunc ::
    "bool \<Rightarrow> 'f option \<Rightarrow> bytes option \<Rightarrow> OI_INTERVAL \<Rightarrow> 'f DISPATCH_STATE \<Rightarrow>
       (OI_STATUS \<times> u32 \<times> 'f DISPATCH_STATE) option" where
  "OI_Dispatch_RegisterTimedFunc malloc_ok CBFunction args timeout d = do {
     OI_ASSERT (Table d \<noteq> None);
     OI_ASSERT (CBFunction \<noteq> None);
     OI_ASSERT (timeout \<le> OI_MAX_INTERVAL);
     t \<leftarrow> Table d;
     let d = (if timeout = 0 then d\<lparr>ImmediateDispatch := True\<rparr> else d);
     let i = find_free (take (unat (TableSize d)) t) 0;
     OI_ASSERT (i < unat (TableSize d));
     let d = (if int i > MaxUsedEntry d then d\<lparr>MaxUsedEntry := int i\<rparr> else d);
     d \<leftarrow> InternalSetTimeout i timeout d;
     entry \<leftarrow> entry_at d i;
     let salt = (if e_salt entry + 1 = 0 then e_salt entry + 2 else e_salt entry + 1);
     let entry = entry\<lparr>e_state := FUNC_ACTIVE, e_CBFunc := CBFunction, e_salt := salt\<rparr>;
     let d = put_entry i entry (d\<lparr>numActiveEntries := numActiveEntries d + 1\<rparr>);
     let handle = CB_HANDLE (of_nat i) (ucast salt);
     case store_arg malloc_ok args entry of
       None \<Rightarrow> do {
         d \<leftarrow> FreeCBEntry i (put_entry i (entry\<lparr>e_arg := MallocArg None\<rparr>) d);
         Some (OI_STATUS_OUT_OF_MEMORY, 0, d)
       }
     | Some entry \<Rightarrow> Some (OI_OK, handle, put_entry i entry d)
   }"

definition OI_Dispatch_RegisterFunc ::
    "bool \<Rightarrow> 'f option \<Rightarrow> bytes option \<Rightarrow> 'f DISPATCH_STATE \<Rightarrow> (OI_STATUS \<times> u32 \<times> 'f DISPATCH_STATE) option" where
  "OI_Dispatch_RegisterFunc malloc_ok CBFunction args d = OI_Dispatch_RegisterTimedFunc malloc_ok CBFunction args 0 d"

section \<open>Calling\<close>

text \<open>The argument block handed to a callback.\<close>

definition call_arg :: "'f DISPATCH_ENTRY \<Rightarrow> bytes option option" where
  "call_arg e =
     (if e_argSize e = 0 then Some None
      else case e_arg e of
        InlineArg b \<Rightarrow> if unat (e_argSize e) \<le> MAX_INLINE_ARG_SIZE then Some (Some (take (unat (e_argSize e)) b)) else None
      | MallocArg (Some b) \<Rightarrow> if unat (e_argSize e) > MAX_INLINE_ARG_SIZE then Some (Some b) else None
      | MallocArg None \<Rightarrow> None)"

text \<open>The entry's function runs, with the entry marked as running, and then the entry is freed.\<close>

definition call_entry ::
    "('f \<Rightarrow> bytes option \<Rightarrow> 'f DISPATCH_STATE \<Rightarrow> 'f DISPATCH_STATE option) \<Rightarrow> nat \<Rightarrow> 'f DISPATCH_STATE \<Rightarrow>
       'f DISPATCH_STATE option" where
  "call_entry run i d = do {
     entry \<leftarrow> entry_at d i;
     let d = put_entry i (entry\<lparr>e_state := FUNC_RUNNING\<rparr>) d;
     f \<leftarrow> e_CBFunc entry;
     arg \<leftarrow> call_arg entry;
     d \<leftarrow> run f arg (d\<lparr>d_calls := d_calls d @ [(f, arg)]\<rparr>);
     FreeCBEntry i d
   }"

definition OI_Dispatch_CallFunc ::
    "('f \<Rightarrow> bytes option \<Rightarrow> 'f DISPATCH_STATE \<Rightarrow> 'f DISPATCH_STATE option) \<Rightarrow> u32 \<Rightarrow> 'f DISPATCH_STATE \<Rightarrow>
       (OI_STATUS \<times> 'f DISPATCH_STATE) option" where
  "OI_Dispatch_CallFunc run CBHandle d = do {
     valid \<leftarrow> OI_Dispatch_IsValidHandle CBHandle d;
     if \<not> valid then Some (OI_DISPATCH_INVALID_CB_HANDLE, d)
     else do {
       let i = unat (CB_INDEX CBHandle);
       entry \<leftarrow> entry_at d i;
       d \<leftarrow> call_entry run i
         (if e_state entry = FUNC_ACTIVE then d\<lparr>numActiveEntries := numActiveEntries d - 1\<rparr> else d);
       Some (OI_OK, d)
     }
   }"

text \<open>The first pass: entries that are due become runnable and are counted.\<close>

definition due :: "OI_INTERVAL \<Rightarrow> 'f DISPATCH_ENTRY \<Rightarrow> bool" where
  "due intervalNow e \<longleftrightarrow> ENTRY_IN_USE e \<and> e_state e \<noteq> FUNC_SUSPENDED \<and> sint (e_timeout e - intervalNow) \<le> 0"

fun mark_pass :: "OI_INTERVAL \<Rightarrow> nat list \<Rightarrow> 'f DISPATCH_STATE \<Rightarrow> (int \<times> 'f DISPATCH_STATE) option" where
  "mark_pass intervalNow [] d = Some (0, d)"
| "mark_pass intervalNow (i # is) d = do {
     entry \<leftarrow> entry_at d i;
     let now_due = due intervalNow entry;
     let d = (if now_due then put_entry i (entry\<lparr>e_state := FUNC_RUNNABLE\<rparr>)
                (if e_state entry = FUNC_ACTIVE then d\<lparr>numActiveEntries := numActiveEntries d - 1\<rparr> else d)
              else d);
     (calls, d) \<leftarrow> mark_pass intervalNow is d;
     Some (if now_due then calls + 1 else calls, d)
   }"

text \<open>The second pass: \<open>for (i = 0; i <= Dispatcher.MaxUsedEntry; ++i)\<close> with a mark that callbacks
  move; the count bounds the iterations by the size of the table.\<close>

fun call_pass ::
    "('f \<Rightarrow> bytes option \<Rightarrow> 'f DISPATCH_STATE \<Rightarrow> 'f DISPATCH_STATE option) \<Rightarrow> nat \<Rightarrow> nat \<Rightarrow> 'f DISPATCH_STATE \<Rightarrow>
       'f DISPATCH_STATE option" where
  "call_pass run 0 i d = Some d"
| "call_pass run (Suc n) i d =
     (if int i \<le> MaxUsedEntry d then do {
        entry \<leftarrow> entry_at d i;
        d \<leftarrow> (if e_state entry = FUNC_RUNNABLE then call_entry run i d else Some d);
        call_pass run n (Suc i) d
      } else Some d)"

text \<open>The search for the smallest timeout, which moves \<open>nextTimeout\<close> along.\<close>

fun next_pass ::
    "OI_INTERVAL \<Rightarrow> nat list \<Rightarrow> OI_INTERVAL \<Rightarrow> 'f DISPATCH_STATE \<Rightarrow> (OI_INTERVAL \<times> 'f DISPATCH_STATE) option" where
  "next_pass intervalNow [] smallest d = Some (smallest, d)"
| "next_pass intervalNow (i # is) smallest d = do {
     entry \<leftarrow> entry_at d i;
     let timeout = e_timeout entry - intervalNow;
     if ENTRY_IN_USE entry \<and> e_state entry \<noteq> FUNC_SUSPENDED \<and> timeout < smallest
     then next_pass intervalNow is timeout (d\<lparr>nextTimeout := e_timeout entry\<rparr>)
     else next_pass intervalNow is smallest d
   }"

definition used_indices :: "'f DISPATCH_STATE \<Rightarrow> nat list" where
  "used_indices d = [0..<nat (MaxUsedEntry d + 1)]"

definition OI_Dispatch_Run ::
    "('f \<Rightarrow> bytes option \<Rightarrow> 'f DISPATCH_STATE \<Rightarrow> 'f DISPATCH_STATE option) \<Rightarrow> 'f DISPATCH_STATE \<Rightarrow>
       (int \<times> 'f DISPATCH_STATE) option" where
  "OI_Dispatch_Run run d =
     (case Table d of
        None \<Rightarrow> Some (0, d)
      | Some t \<Rightarrow> do {
          OI_ASSERT (\<not> Running d);
          let d = d\<lparr>Running := True\<rparr>;
          let intervalNow = Dispatch_timeNowInterval d;
          (calls, d) \<leftarrow> mark_pass intervalNow (used_indices d) d;
          d \<leftarrow> (if calls \<noteq> 0 then call_pass run (length t) 0 d else Some d);
          (smallestTimeout, d) \<leftarrow> next_pass intervalNow (used_indices d) (-1) d;
          let d = (if smallestTimeout < -1 then Dispatch_RequestService smallestTimeout d else d);
          let d = d\<lparr>Running := False\<rparr>;
          Some (calls, if calls = 0 then d\<lparr>ImmediateDispatch := False\<rparr> else d)
        })"

text \<open>The loop ends only if callbacks stop asking for immediate dispatch.\<close>

partial_function (option) immediate_loop ::
    "('f \<Rightarrow> bytes option \<Rightarrow> 'f DISPATCH_STATE \<Rightarrow> 'f DISPATCH_STATE option) \<Rightarrow> 'f DISPATCH_STATE \<Rightarrow>
       'f DISPATCH_STATE option" where
  "immediate_loop run d =
     (if ImmediateDispatch d then
        Option.bind (OI_Dispatch_Run run (d\<lparr>ImmediateDispatch := False\<rparr>)) (\<lambda>(calls, d). immediate_loop run d)
      else Some d)"

definition OI_Dispatch_Immediate_Run ::
    "('f \<Rightarrow> bytes option \<Rightarrow> 'f DISPATCH_STATE \<Rightarrow> 'f DISPATCH_STATE option) \<Rightarrow> 'f DISPATCH_STATE \<Rightarrow>
       'f DISPATCH_STATE option" where
  "OI_Dispatch_Immediate_Run run d = (if \<not> Running d then immediate_loop run d else Some d)"

section \<open>The invariant\<close>

definition active_count :: "'f DISPATCH_ENTRY list \<Rightarrow> int" where
  "active_count t = (\<Sum>e \<leftarrow> t. if e_state e = FUNC_ACTIVE then 1 else 0)"

text \<open>An entry in use has a function, a state that says so, and a readable argument.\<close>

definition entry_wf :: "'f DISPATCH_ENTRY \<Rightarrow> bool" where
  "entry_wf e \<longleftrightarrow> (ENTRY_IN_USE e \<longleftrightarrow> e_state e \<noteq> FREE_SLOT) \<and> (ENTRY_IN_USE e \<longrightarrow> call_arg e \<noteq> None)"

definition counts_inv :: "'f DISPATCH_STATE \<Rightarrow> 'f DISPATCH_ENTRY list \<Rightarrow> bool" where
  "counts_inv d t \<longleftrightarrow> Table d = Some t \<and> length t = unat (TableSize d) \<and> length t \<le> 32767 \<and>
     numActiveEntries d = active_count t \<and> MaxUsedEntry d = lower_mark t (length t)"

definition table_inv :: "'f DISPATCH_STATE \<Rightarrow> 'f DISPATCH_ENTRY list \<Rightarrow> bool" where
  "table_inv d t \<longleftrightarrow> counts_inv d t \<and> list_all entry_wf t"

definition dispatch_inv :: "'f DISPATCH_STATE \<Rightarrow> bool" where
  "dispatch_inv d \<longleftrightarrow> (\<exists>t. table_inv d t)"

lemma entry_update [simp]:
  "call_arg (e\<lparr>e_state := s\<rparr>) = call_arg e" "call_arg (e\<lparr>e_timeout := x\<rparr>) = call_arg e"
  "call_arg (e\<lparr>e_salt := sa\<rparr>) = call_arg e" "call_arg (e\<lparr>e_CBFunc := f\<rparr>) = call_arg e"
  "ENTRY_IN_USE (e\<lparr>e_state := s\<rparr>) = ENTRY_IN_USE e" "ENTRY_IN_USE (e\<lparr>e_timeout := x\<rparr>) = ENTRY_IN_USE e"
  "ENTRY_IN_USE (e\<lparr>e_salt := sa\<rparr>) = ENTRY_IN_USE e" "ENTRY_IN_USE (e\<lparr>e_CBFunc := f\<rparr>) \<longleftrightarrow> f \<noteq> None"
  by (simp_all add: call_arg_def ENTRY_IN_USE_def split: ENTRY_ARG.splits option.splits)

lemma list_all_update: "list_all P t \<Longrightarrow> P e \<Longrightarrow> list_all P (t[i := e])"
  using set_update_subset_insert [of t i e] by (auto simp: list_all_iff)

lemma active_count_update:
  "i < length t \<Longrightarrow> active_count (t[i := e]) = active_count t -
     (if e_state (t ! i) = FUNC_ACTIVE then 1 else 0) + (if e_state e = FUNC_ACTIVE then 1 else 0)"
proof (induction t arbitrary: i)
  case (Cons a t)
  then show ?case
    by (cases i) (simp_all add: active_count_def)
qed simp

lemma active_count_nonneg: "0 \<le> active_count t"
  by (induction t) (auto simp: active_count_def)

lemma active_count_pos: "i < length t \<Longrightarrow> e_state (t ! i) = FUNC_ACTIVE \<Longrightarrow> 0 < active_count t"
proof (induction t arbitrary: i)
  case (Cons a t)
  then show ?case
    using active_count_nonneg [of t] by (cases i) (auto simp: active_count_def)
qed simp

lemma lower_mark_range: "- 1 \<le> lower_mark t n \<and> lower_mark t n < int n"
  by (induction n) auto

lemma lower_mark_used: "lower_mark t n = int k \<Longrightarrow> ENTRY_IN_USE (t ! k)"
  by (induction n) (auto split: if_splits)

lemma lower_mark_above: "k < n \<Longrightarrow> lower_mark t n < int k \<Longrightarrow> \<not> ENTRY_IN_USE (t ! k)"
  by (induction n) (auto simp: less_Suc_eq split: if_splits)

lemma lower_mark_eq:
  assumes "- 1 \<le> m" "m < int n" "0 \<le> m \<Longrightarrow> ENTRY_IN_USE (t ! nat m)" "\<And>k. k < n \<Longrightarrow> m < int k \<Longrightarrow> \<not> ENTRY_IN_USE (t ! k)"
  shows "lower_mark t n = m"
  using assms
proof (induction n)
  case (Suc n)
  show ?case
  proof (cases "m = int n")
    case True
    with Suc.prems(3) show ?thesis
      by simp
  next
    case False
    then have "m < int n"
      using Suc.prems(2) by simp
    then have "\<not> ENTRY_IN_USE (t ! n)"
      using Suc.prems(4) [of n] by simp
    moreover have "lower_mark t n = m"
      using \<open>m < int n\<close> Suc.prems(1,3,4) by (intro Suc.IH) auto
    ultimately show ?thesis
      by simp
  qed
qed simp

lemma entry_at_inv [simp]:
  "Table d = Some t \<Longrightarrow> entry_at d i = (if i < length t then Some (t ! i) else None)"
  by (simp add: entry_at_def)

lemma put_entry_fields [simp]:
  "Running (put_entry i e d) = Running d" "ImmediateDispatch (put_entry i e d) = ImmediateDispatch d"
  "MaxUsedEntry (put_entry i e d) = MaxUsedEntry d" "numActiveEntries (put_entry i e d) = numActiveEntries d"
  "TableSize (put_entry i e d) = TableSize d" "nextTimeout (put_entry i e d) = nextTimeout d"
  "serviceCallback (put_entry i e d) = serviceCallback d" "d_now (put_entry i e d) = d_now d"
  "d_requests (put_entry i e d) = d_requests d" "d_freed (put_entry i e d) = d_freed d"
  "d_calls (put_entry i e d) = d_calls d"
  "Table (put_entry i e d) = map_option (\<lambda>t. t[i := e]) (Table d)"
  by (simp_all add: put_entry_def)

lemma put_entry_twice [simp]: "put_entry i e (put_entry i e' d) = put_entry i e d"
  by (simp add: put_entry_def option.map_comp comp_def)

lemma lower_mark_used_entry:
  "i < length t \<Longrightarrow> ENTRY_IN_USE (t ! i) \<Longrightarrow> ENTRY_IN_USE e \<Longrightarrow> lower_mark (t[i := e]) n = lower_mark t n"
  by (induction n) (auto simp: nth_list_update)

text \<open>What the operations on entries leave alone.\<close>

definition frame :: "'f DISPATCH_STATE \<Rightarrow> 'f DISPATCH_STATE \<Rightarrow> bool" where
  "frame d d' \<longleftrightarrow> TableSize d' = TableSize d \<and> Running d' = Running d \<and> d_calls d' = d_calls d \<and>
     d_now d' = d_now d \<and> serviceCallback d' = serviceCallback d"

lemma frame_refl [simp]: "frame d d"
  by (simp add: frame_def)

lemma frame_trans: "frame a b \<Longrightarrow> frame b c \<Longrightarrow> frame a c"
  by (simp add: frame_def)

lemma frame_put [simp]:
  "frame d (put_entry i e d') = frame d d'" "frame d (d'\<lparr>numActiveEntries := n\<rparr>) = frame d d'"
  "frame d (d'\<lparr>MaxUsedEntry := m\<rparr>) = frame d d'" "frame d (d'\<lparr>ImmediateDispatch := b\<rparr>) = frame d d'"
  "frame d (d'\<lparr>nextTimeout := x\<rparr>) = frame d d'" "frame d (d'\<lparr>d_requests := r\<rparr>) = frame d d'"
  "frame d (d'\<lparr>d_freed := fr\<rparr>) = frame d d'"
  by (simp_all add: frame_def)

definition released :: "'f DISPATCH_ENTRY \<Rightarrow> 'f DISPATCH_ENTRY" where
  "released e = e\<lparr>e_CBFunc := None, e_state := FREE_SLOT\<rparr>"

lemma released_simps [simp]: "\<not> ENTRY_IN_USE (released e)" "entry_wf (released e)" "e_state (released e) = FREE_SLOT"
  by (simp_all add: ENTRY_IN_USE_def entry_wf_def released_def)

lemma FreeCBEntry_counts:
  assumes "counts_inv d t" "i < length t"
  shows "\<exists>d'. FreeCBEntry i d = Some d' \<and> frame d d' \<and> counts_inv d' (t[i := released (t ! i)])"
proof -
  let ?e = "released (t ! i)"
  let ?t = "t[i := ?e]"
  have d: "Table d = Some t" "numActiveEntries d = active_count t" "MaxUsedEntry d = lower_mark t (length t)"
    using assms by (simp_all add: counts_inv_def)
  have mark: "(if int i = MaxUsedEntry d then lower_mark ?t (nat (MaxUsedEntry d + 1)) else MaxUsedEntry d) =
      lower_mark ?t (length t)"
  proof (cases "int i = MaxUsedEntry d")
    case True
    then have n: "nat (MaxUsedEntry d + 1) = Suc i"
      by simp
    have above: "\<not> ENTRY_IN_USE (?t ! k)" if "k < length t" "lower_mark ?t (Suc i) < int k" for k
    proof (cases "k \<le> i")
      case True
      then show ?thesis
        using lower_mark_above [of k "Suc i" ?t] that by simp
    next
      case False
      then show ?thesis
        using lower_mark_above [of k "length t" t] that \<open>int i = MaxUsedEntry d\<close> d(3) by simp
    qed
    have "lower_mark ?t (length t) = lower_mark ?t (Suc i)"
    proof (rule lower_mark_eq)
      show "ENTRY_IN_USE (?t ! nat (lower_mark ?t (Suc i)))" if "0 \<le> lower_mark ?t (Suc i)"
        using that lower_mark_used [of ?t "Suc i" "nat (lower_mark ?t (Suc i))"] by simp
    qed (use lower_mark_range [of ?t "Suc i"] assms(2) above in auto)
    with True n show ?thesis
      by simp
  next
    case False
    have "lower_mark ?t (length t) = lower_mark t (length t)"
    proof (rule lower_mark_eq)
      show "ENTRY_IN_USE (?t ! nat (lower_mark t (length t)))" if "0 \<le> lower_mark t (length t)"
        using that lower_mark_used [of t "length t" "nat (lower_mark t (length t))"] False d(3) by (auto simp: nth_list_update)
      show "\<not> ENTRY_IN_USE (?t ! k)" if "k < length t" "lower_mark t (length t) < int k" for k
        using that lower_mark_above [of k "length t" t] assms(2) by (cases "k = i") auto
    qed (use lower_mark_range [of t "length t"] in auto)
    with False d(3) show ?thesis
      by simp
  qed
  have act: "active_count ?t = (if e_state (t ! i) = FUNC_ACTIVE then active_count t - 1 else active_count t)"
    using assms(2) by (simp add: active_count_update)
  show ?thesis
    using assms d active_count_nonneg [of t] mark act
    by (auto simp: FreeCBEntry_def Let_def counts_inv_def monad_simps frame_def released_def)
qed

lemma FreeCBEntry_ok:
  assumes "table_inv d t" "i < length t"
  shows "\<exists>d'. FreeCBEntry i d = Some d' \<and> frame d d' \<and> table_inv d' (t[i := released (t ! i)])"
  using FreeCBEntry_counts [of d t i] assms by (auto simp: table_inv_def list_all_update)

lemma table_inv_replace:
  assumes "table_inv d t" "i < length t" "entry_wf e" "ENTRY_IN_USE (t ! i)" "ENTRY_IN_USE e"
    and "Table d' = Some (t[i := e])" "TableSize d' = TableSize d" "MaxUsedEntry d' = MaxUsedEntry d"
    and "numActiveEntries d' = numActiveEntries d - (if e_state (t ! i) = FUNC_ACTIVE then 1 else 0) +
      (if e_state e = FUNC_ACTIVE then 1 else 0)"
  shows "table_inv d' (t[i := e])"
  using assms by (simp add: table_inv_def counts_inv_def active_count_update lower_mark_used_entry list_all_update)

definition retimed :: "OI_INTERVAL \<Rightarrow> 'f DISPATCH_ENTRY \<Rightarrow> 'f DISPATCH_ENTRY" where
  "retimed tmo e = (if e_state e = FUNC_SUSPENDED then e\<lparr>e_timeout := tmo, e_state := FUNC_ACTIVE\<rparr> else e\<lparr>e_timeout := tmo\<rparr>)"

lemma retimed_simps [simp]:
  "ENTRY_IN_USE (retimed tmo e) = ENTRY_IN_USE e" "e_salt (retimed tmo e) = e_salt e"
  "e_state (retimed tmo e) = (if e_state e = FUNC_SUSPENDED then FUNC_ACTIVE else e_state e)"
  by (simp_all add: retimed_def ENTRY_IN_USE_def)

lemma InternalSetTimeout_ok:
  assumes "Table d = Some t" "i < length t"
  shows "\<exists>d'. InternalSetTimeout i tmo d = Some d' \<and> frame d d' \<and> MaxUsedEntry d' = MaxUsedEntry d \<and>
    Table d' = Some (t[i := retimed (Dispatch_timeNowInterval d + tmo) (t ! i)]) \<and>
    numActiveEntries d' = numActiveEntries d + (if e_state (t ! i) = FUNC_SUSPENDED then 1 else 0)"
  using assms
  by (auto simp: InternalSetTimeout_def Let_def monad_simps retimed_def Dispatch_RequestService_def)

text \<open>Handles in terms of the table.\<close>

definition live :: "'f DISPATCH_ENTRY \<Rightarrow> bool" where
  "live e \<longleftrightarrow> e_state e \<noteq> FREE_SLOT \<and> e_state e \<noteq> FUNC_RUNNING"

definition valid_in :: "'f DISPATCH_ENTRY list \<Rightarrow> u32 \<Rightarrow> bool" where
  "valid_in t h \<longleftrightarrow> unat (CB_INDEX h) < length t \<and> live (t ! unat (CB_INDEX h)) \<and>
     CB_SALT (ucast (e_salt (t ! unat (CB_INDEX h)))) = CB_SALT h"

lemma IsValidHandle_eq: "table_inv d t \<Longrightarrow> OI_Dispatch_IsValidHandle h d = Some (valid_in t h)"
  by (auto simp: OI_Dispatch_IsValidHandle_def Let_def monad_simps table_inv_def counts_inv_def valid_in_def live_def word_le_nat_alt)

lemma live_in_use: "entry_wf e \<Longrightarrow> live e \<Longrightarrow> ENTRY_IN_USE e"
  by (simp add: entry_wf_def live_def)

lemma valid_entry:
  "table_inv d t \<Longrightarrow> valid_in t h \<Longrightarrow> entry_wf (t ! unat (CB_INDEX h)) \<and> ENTRY_IN_USE (t ! unat (CB_INDEX h))"
  using live_in_use [of "t ! unat (CB_INDEX h)"]
  by (auto simp: table_inv_def counts_inv_def valid_in_def list_all_length)

lemma entry_wf_retimed: "entry_wf (retimed tmo e) = entry_wf e"
  by (auto simp: entry_wf_def retimed_def)

lemma SetFuncTimeout_ok:
  assumes "table_inv d t" "tmo \<le> OI_MAX_INTERVAL"
  shows "\<exists>d'. OI_Dispatch_SetFuncTimeout h tmo d =
      Some (if valid_in t h then OI_OK else OI_DISPATCH_INVALID_CB_HANDLE, d') \<and> frame d d' \<and>
    table_inv d' (if valid_in t h
      then t[unat (CB_INDEX h) := retimed (Dispatch_timeNowInterval d + tmo) (t ! unat (CB_INDEX h))] else t)"
proof (cases "valid_in t h")
  case True
  let ?i = "unat (CB_INDEX h)"
  let ?e = "retimed (Dispatch_timeNowInterval d + tmo) (t ! ?i)"
  have i: "Table d = Some t" "?i < length t"
    using assms True by (simp_all add: table_inv_def counts_inv_def valid_in_def)
  from InternalSetTimeout_ok [OF this, of tmo] obtain d' where d':
    "InternalSetTimeout ?i tmo d = Some d'" "frame d d'" "MaxUsedEntry d' = MaxUsedEntry d"
    "Table d' = Some (t[?i := ?e])"
    "numActiveEntries d' = numActiveEntries d + (if e_state (t ! ?i) = FUNC_SUSPENDED then 1 else 0)"
    by blast
  have "table_inv d' (t[?i := ?e])"
    using valid_entry [OF assms(1) True] d'
    by (intro table_inv_replace [OF assms(1) i(2)])
      (auto simp: entry_wf_retimed frame_def)
  then show ?thesis
    using assms True d' by (simp add: OI_Dispatch_SetFuncTimeout_def IsValidHandle_eq monad_simps)
qed (use assms in \<open>simp add: OI_Dispatch_SetFuncTimeout_def IsValidHandle_eq\<close>)

definition suspended :: "'f DISPATCH_ENTRY \<Rightarrow> 'f DISPATCH_ENTRY" where
  "suspended e = (if e_state e = FUNC_ACTIVE then e\<lparr>e_state := FUNC_SUSPENDED\<rparr> else e)"

lemma SuspendFunc_ok:
  assumes "table_inv d t"
  shows "\<exists>d'. OI_Dispatch_SuspendFunc h d =
      Some (if valid_in t h then OI_OK else OI_DISPATCH_INVALID_CB_HANDLE, d') \<and> frame d d' \<and>
    table_inv d' (if valid_in t h then t[unat (CB_INDEX h) := suspended (t ! unat (CB_INDEX h))] else t)"
proof (cases "valid_in t h")
  case valid: True
  have act: "table_inv d t" "Table d = Some t" "unat (CB_INDEX h) < length t"
    using assms valid by (simp_all add: table_inv_def counts_inv_def valid_in_def)
  show ?thesis
  proof (cases "e_state (t ! unat (CB_INDEX h)) = FUNC_ACTIVE")
    case True
    let ?i = "unat (CB_INDEX h)"
    let ?e = "(t ! ?i)\<lparr>e_state := FUNC_SUSPENDED\<rparr>"
    let ?d = "put_entry ?i ?e d\<lparr>numActiveEntries := numActiveEntries d - 1\<rparr>"
    have i: "Table d = Some t" "?i < length t" "numActiveEntries d > 0"
      using assms valid True active_count_pos [of ?i t] by (simp_all add: table_inv_def counts_inv_def valid_in_def)
    have "table_inv ?d (t[?i := ?e])"
      using valid_entry [OF assms valid] True i(1)
      by (intro table_inv_replace [OF assms i(2)]) (auto simp: entry_wf_def)
    then show ?thesis
      using assms valid True i by (simp add: OI_Dispatch_SuspendFunc_def IsValidHandle_eq monad_simps Let_def suspended_def)
  qed (use act valid in \<open>simp add: OI_Dispatch_SuspendFunc_def IsValidHandle_eq monad_simps Let_def suspended_def\<close>)
qed (use assms in \<open>simp add: OI_Dispatch_SuspendFunc_def IsValidHandle_eq\<close>)

lemma CancelFunc_ok:
  assumes "table_inv d t"
  shows "\<exists>d'. OI_Dispatch_CancelFunc h d =
      Some (if valid_in t h then OI_OK else OI_DISPATCH_INVALID_CB_HANDLE, d') \<and> frame d d' \<and>
    table_inv d' (if valid_in t h then t[unat (CB_INDEX h) := released (t ! unat (CB_INDEX h))] else t)"
proof (cases "valid_in t h")
  case True
  then have "unat (CB_INDEX h) < length t"
    by (simp add: valid_in_def)
  from FreeCBEntry_ok [OF assms this] True show ?thesis
    using assms by (auto simp: OI_Dispatch_CancelFunc_def IsValidHandle_eq monad_simps)
qed (use assms in \<open>simp add: OI_Dispatch_CancelFunc_def IsValidHandle_eq\<close>)

section \<open>Registering keeps the invariant\<close>

lemma find_free_eq: "find_free t i = i + length (takeWhile ENTRY_IN_USE t)"
  by (induction t i rule: find_free.induct) simp_all

definition slot :: "'f DISPATCH_ENTRY list \<Rightarrow> nat" where
  "slot t = length (takeWhile ENTRY_IN_USE t)"

lemma slot_free: "list_ex (\<lambda>e. \<not> ENTRY_IN_USE e) t \<Longrightarrow> slot t < length t \<and> \<not> ENTRY_IN_USE (t ! slot t)"
  unfolding slot_def
  by (metis list_ex_iff nth_length_takeWhile takeWhile_eq_all_conv length_takeWhile_le le_neq_implies_less
      takeWhile_eq_take take_all_iff order_refl)

lemma lower_mark_taken:
  assumes "i < length t" "ENTRY_IN_USE e" "\<not> ENTRY_IN_USE (t ! i)"
  shows "lower_mark (t[i := e]) (length t) = max (int i) (lower_mark t (length t))"
proof (rule lower_mark_eq)
  let ?m = "lower_mark t (length t)"
  show "ENTRY_IN_USE (t[i := e] ! nat (max (int i) ?m))" if "0 \<le> max (int i) ?m"
  proof (cases "?m \<le> int i")
    case False
    with lower_mark_used [of t "length t" "nat ?m"] assms show ?thesis
      by (auto simp: max_def nth_list_update)
  qed (use assms in \<open>simp add: max_def\<close>)
  show "\<not> ENTRY_IN_USE (t[i := e] ! k)" if "k < length t" "max (int i) ?m < int k" for k
    using that lower_mark_above [of k "length t" t] by simp
qed (use assms lower_mark_range [of t "length t"] in auto)

definition next_salt :: "u16 \<Rightarrow> u16" where
  "next_salt s = (if s + 1 = 0 then s + 2 else s + 1)"

lemma next_salt_nonzero: "next_salt s \<noteq> 0"
proof (cases "s = - 1")
  case False
  then show ?thesis
    by (simp add: next_salt_def eq_neg_iff_add_eq_0)
qed (simp add: next_salt_def)

text \<open>The arguments a callback gets: an empty block is passed as no block.\<close>

definition passed :: "bytes option \<Rightarrow> bytes option" where
  "passed args = (if args = Some [] then None else args)"

definition arg_ok :: "bytes option \<Rightarrow> bool" where
  "arg_ok args \<longleftrightarrow> (case args of None \<Rightarrow> True | Some a \<Rightarrow> length a < 65536)"

lemma store_arg_some:
  assumes "store_arg ok args e = Some e'" "arg_ok args"
  shows "call_arg e' = Some (passed args) \<and> e_state e' = e_state e \<and> e_CBFunc e' = e_CBFunc e \<and>
    e_salt e' = e_salt e \<and> e_timeout e' = e_timeout e"
  using assms
  by (cases args)
    (auto simp: store_arg_def arg_ok_def passed_def call_arg_def MAX_INLINE_ARG_SIZE_def unat_of_nat_u16
      word_unat_eq_iff split: if_splits)

lemma store_arg_none: "store_arg ok args e = None \<Longrightarrow> \<not> ok"
  by (auto simp: store_arg_def split: option.splits if_splits)

text \<open>The entry that a registration leaves in its slot.\<close>

definition registered ::
    "OI_STATUS \<Rightarrow> u32 \<Rightarrow> 'f option \<Rightarrow> bytes option \<Rightarrow> OI_INTERVAL \<Rightarrow> nat \<Rightarrow> u16 \<Rightarrow> 'f DISPATCH_ENTRY \<Rightarrow> bool" where
  "registered st h f args tmo i salt e \<longleftrightarrow> e_salt e = next_salt salt \<and>
     (if st = OI_OK then h = CB_HANDLE (of_nat i) (ucast (e_salt e)) \<and> e_state e = FUNC_ACTIVE \<and> e_CBFunc e = f \<and>
        call_arg e = Some (passed args) \<and> e_timeout e = tmo
      else st = OI_STATUS_OUT_OF_MEMORY \<and> h = 0 \<and> e_state e = FREE_SLOT \<and> e_CBFunc e = None)"

lemma free_entry_state: "entry_wf e \<Longrightarrow> \<not> ENTRY_IN_USE e \<Longrightarrow> e_state e = FREE_SLOT"
  by (auto simp: entry_wf_def)

lemma Register_ok:
  assumes inv: "table_inv d t" and f: "f \<noteq> None" and tmo: "tmo \<le> OI_MAX_INTERVAL" and args: "arg_ok args"
    and free: "list_ex (\<lambda>e. \<not> ENTRY_IN_USE e) t"
  shows "\<exists>st h d' e. OI_Dispatch_RegisterTimedFunc mem f args tmo d = Some (st, h, d') \<and> frame d d' \<and>
    (mem \<longrightarrow> st = OI_OK) \<and> table_inv d' (t[slot t := e]) \<and>
    registered st h f args (Dispatch_timeNowInterval d + tmo) (slot t) (e_salt (t ! slot t)) e"
proof -
  let ?i = "slot t" and ?now = "Dispatch_timeNowInterval d"
  let ?d1 = "(if int ?i > MaxUsedEntry d
    then (if tmo = 0 then d\<lparr>ImmediateDispatch := True\<rparr> else d)\<lparr>MaxUsedEntry := int ?i\<rparr>
    else (if tmo = 0 then d\<lparr>ImmediateDispatch := True\<rparr> else d))"
  have d: "Table d = Some t" "length t = unat (TableSize d)" "length t \<le> 32767" "numActiveEntries d = active_count t"
      "MaxUsedEntry d = lower_mark t (length t)" "list_all entry_wf t"
    using inv by (simp_all add: table_inv_def counts_inv_def)
  have i: "?i < length t" "\<not> ENTRY_IN_USE (t ! ?i)"
    using slot_free [OF free] by simp_all
  then have st: "e_state (t ! ?i) = FREE_SLOT"
    using free_entry_state d(6) by (auto simp: list_all_length)
  have d1: "Table ?d1 = Some t" "frame d ?d1" "MaxUsedEntry ?d1 = max (int ?i) (lower_mark t (length t))"
      "numActiveEntries ?d1 = active_count t" "Dispatch_timeNowInterval ?d1 = ?now"
    using d by (auto simp: max_def Dispatch_timeNowInterval_def)
  obtain d2 where d2: "InternalSetTimeout ?i tmo ?d1 = Some d2" "frame ?d1 d2" "MaxUsedEntry d2 = MaxUsedEntry ?d1"
      "Table d2 = Some (t[?i := (t ! ?i)\<lparr>e_timeout := ?now + tmo\<rparr>])" "numActiveEntries d2 = active_count t"
    using InternalSetTimeout_ok [OF d1(1) i(1), of tmo] st d1(4,5) by (auto simp: retimed_def)
  let ?e0 = "(t ! ?i)\<lparr>e_timeout := ?now + tmo, e_state := FUNC_ACTIVE, e_CBFunc := f, e_salt := next_salt (e_salt (t ! ?i))\<rparr>"
  let ?d3 = "put_entry ?i ?e0 (d2\<lparr>numActiveEntries := numActiveEntries d2 + 1\<rparr>)"
  have frames: "frame d d2"
    using frame_trans [OF d1(2) d2(2)] .
  have size: "TableSize d2 = TableSize d"
    using frames by (simp add: frame_def)
  have counts: "counts_inv (put_entry ?i e ?d3) (t[?i := e])" if "e_state e = FUNC_ACTIVE" "e_CBFunc e = f" for e
    using that d d2(3-5) d1(3) i st f size lower_mark_taken [OF i(1) _ i(2), of e]
    by (simp add: counts_inv_def active_count_update ENTRY_IN_USE_def)
  have reg: "OI_Dispatch_RegisterTimedFunc mem f args tmo d =
      (case store_arg mem args ?e0 of
        None \<Rightarrow> do {
          d \<leftarrow> FreeCBEntry ?i (put_entry ?i (?e0\<lparr>e_arg := MallocArg None\<rparr>) ?d3);
          Some (OI_STATUS_OUT_OF_MEMORY, 0, d)
        }
      | Some entry \<Rightarrow> Some (OI_OK, CB_HANDLE (of_nat ?i) (ucast (next_salt (e_salt (t ! ?i)))), put_entry ?i entry ?d3))"
    using d i f tmo d2(1,4) unfolding slot_def
    by (cases "tmo = 0"; cases "MaxUsedEntry d < int (slot t)"; cases "store_arg mem args ?e0")
      (simp_all add: OI_Dispatch_RegisterTimedFunc_def find_free_eq monad_simps Let_def slot_def flip: next_salt_def)
  show ?thesis
  proof (cases "store_arg mem args ?e0")
    case None
    let ?e1 = "?e0\<lparr>e_arg := MallocArg None\<rparr>"
    have "counts_inv (put_entry ?i ?e1 ?d3) (t[?i := ?e1])"
      by (rule counts) simp_all
    from FreeCBEntry_counts [OF this, of ?i] obtain d4 where
      d4: "FreeCBEntry ?i (put_entry ?i ?e1 ?d3) = Some d4" "frame (put_entry ?i ?e1 ?d3) d4"
      "counts_inv d4 (t[?i := released ?e1])"
      using i(1) by auto
    have "frame d d4"
      by (rule frame_trans [OF _ d4(2)]) (simp add: frames)
    moreover have "table_inv d4 (t[?i := released ?e1])"
      using d4(3) d(6) by (simp add: table_inv_def list_all_update)
    moreover have "registered OI_STATUS_OUT_OF_MEMORY 0 f args tm ?i (e_salt (t ! ?i)) (released ?e1)" for tm
      by (simp add: registered_def released_def)
    moreover have "OI_Dispatch_RegisterTimedFunc mem f args tmo d = Some (OI_STATUS_OUT_OF_MEMORY, 0, d4)"
      using reg None d4(1) by simp
    ultimately show ?thesis
      using store_arg_none [OF None] by blast
  next
    case (Some e)
    note e = store_arg_some [OF Some args]
    have "counts_inv (put_entry ?i e ?d3) (t[?i := e])"
      using e by (intro counts) simp_all
    moreover have "entry_wf e"
      using e f by (simp add: entry_wf_def ENTRY_IN_USE_def)
    ultimately show ?thesis
      using Some reg frames d(6) e
      by (intro exI [of _ OI_OK] exI [of _ "CB_HANDLE (of_nat ?i) (ucast (next_salt (e_salt (t ! ?i))))"]
          exI [of _ "put_entry ?i e ?d3"] exI [of _ e])
        (simp add: table_inv_def list_all_update registered_def)
  qed
qed

section \<open>Calling keeps the invariant\<close>

lemma table_inv_fields [simp]:
  "table_inv (d\<lparr>Running := r\<rparr>) t = table_inv d t" "table_inv (d\<lparr>d_calls := c\<rparr>) t = table_inv d t"
  "table_inv (d\<lparr>nextTimeout := x\<rparr>) t = table_inv d t" "table_inv (d\<lparr>d_requests := q\<rparr>) t = table_inv d t"
  "table_inv (d\<lparr>ImmediateDispatch := b\<rparr>) t = table_inv d t" "table_inv (d\<lparr>d_now := w\<rparr>) t = table_inv d t"
  by (simp_all add: table_inv_def counts_inv_def)

lemma dispatch_inv_fields [simp]:
  "dispatch_inv (d\<lparr>Running := r\<rparr>) = dispatch_inv d" "dispatch_inv (d\<lparr>d_calls := c\<rparr>) = dispatch_inv d"
  "dispatch_inv (d\<lparr>nextTimeout := x\<rparr>) = dispatch_inv d" "dispatch_inv (d\<lparr>d_requests := q\<rparr>) = dispatch_inv d"
  "dispatch_inv (d\<lparr>ImmediateDispatch := b\<rparr>) = dispatch_inv d" "dispatch_inv (d\<lparr>d_now := w\<rparr>) = dispatch_inv d"
  by (simp_all add: dispatch_inv_def)

lemma table_invD:
  "table_inv d t \<Longrightarrow> Table d = Some t \<and> length t = unat (TableSize d) \<and> dispatch_inv d"
  by (auto simp: table_inv_def counts_inv_def dispatch_inv_def)

lemma table_inv_entry: "table_inv d t \<Longrightarrow> i < length t \<Longrightarrow> entry_wf (t ! i)"
  by (simp add: table_inv_def list_all_length)

text \<open>A step that keeps the invariant, the size of the table and the \<open>Running\<close> flag.\<close>

definition stable :: "'f DISPATCH_STATE \<Rightarrow> 'f DISPATCH_STATE \<Rightarrow> bool" where
  "stable d d' \<longleftrightarrow> (dispatch_inv d \<longrightarrow> dispatch_inv d' \<and> TableSize d' = TableSize d \<and> Running d' = Running d)"

lemma stable_refl [simp]: "stable d d"
  by (simp add: stable_def)

lemma stable_trans: "stable a b \<Longrightarrow> stable b c \<Longrightarrow> stable a c"
  by (simp add: stable_def)

lemma stable_frame: "table_inv d' t \<Longrightarrow> frame d d' \<Longrightarrow> stable d d'"
  by (auto simp: stable_def frame_def dispatch_inv_def)

text \<open>A callback is started with its entry marked as running; the table is then as the invariant
  says. \<open>n\<close> is the number of active entries without this one.\<close>

lemma call_entry_start:
  assumes inv: "table_inv d t" and i: "i < length t" and used: "ENTRY_IN_USE (t ! i)"
    and n: "n = numActiveEntries d - (if e_state (t ! i) = FUNC_ACTIVE then 1 else 0)"
  shows "\<exists>f arg d1. e_CBFunc (t ! i) = Some f \<and> call_arg (t ! i) = Some arg \<and>
    table_inv d1 (t[i := (t ! i)\<lparr>e_state := FUNC_RUNNING\<rparr>]) \<and> TableSize d1 = TableSize d \<and>
    Running d1 = Running d \<and> d_calls d1 = d_calls d @ [(f, arg)] \<and> d_now d1 = d_now d \<and>
    call_entry run i (d\<lparr>numActiveEntries := n\<rparr>) = Option.bind (run f arg d1) (FreeCBEntry i)"
proof -
  obtain f where f: "e_CBFunc (t ! i) = Some f"
    using used by (auto simp: ENTRY_IN_USE_def)
  obtain arg where arg: "call_arg (t ! i) = Some arg"
    using table_inv_entry [OF inv i] used by (auto simp: entry_wf_def)
  let ?e = "(t ! i)\<lparr>e_state := FUNC_RUNNING\<rparr>"
  let ?d0 = "put_entry i ?e (d\<lparr>numActiveEntries := n\<rparr>)"
  let ?d1 = "?d0\<lparr>d_calls := d_calls ?d0 @ [(f, arg)]\<rparr>"
  have "table_inv ?d1 (t[i := ?e])"
    using inv table_inv_entry [OF inv i] used n
    by (intro table_inv_replace [OF inv i]) (auto simp: entry_wf_def dest: table_invD)
  moreover have "call_entry run i (d\<lparr>numActiveEntries := n\<rparr>) = Option.bind (run f arg ?d1) (FreeCBEntry i)"
    using f arg i table_invD [OF inv] by (simp add: call_entry_def monad_simps Let_def)
  ultimately show ?thesis
    using f arg by (intro exI [of _ f] exI [of _ arg] exI [of _ ?d1]) simp
qed

lemma call_entry_stable:
  assumes run: "\<And>f a x y. run f a x = Some y \<Longrightarrow> stable x y"
    and inv: "table_inv d t" and i: "i < length t" and used: "ENTRY_IN_USE (t ! i)"
    and n: "n = numActiveEntries d - (if e_state (t ! i) = FUNC_ACTIVE then 1 else 0)"
    and call: "call_entry run i (d\<lparr>numActiveEntries := n\<rparr>) = Some d'"
  shows "stable d d'"
proof -
  from call_entry_start [OF inv i used n, of run] obtain f arg d1 where
    d1: "table_inv d1 (t[i := (t ! i)\<lparr>e_state := FUNC_RUNNING\<rparr>])" "TableSize d1 = TableSize d" "Running d1 = Running d"
      "call_entry run i (d\<lparr>numActiveEntries := n\<rparr>) = Option.bind (run f arg d1) (FreeCBEntry i)"
    by blast
  from d1(4) call obtain d2 where d2: "run f arg d1 = Some d2" "FreeCBEntry i d2 = Some d'"
    by (cases "run f arg d1") auto
  then have "dispatch_inv d2" "TableSize d2 = TableSize d" "Running d2 = Running d"
    using run [of f arg d1 d2] d1 table_invD [OF d1(1)] by (auto simp: stable_def)
  then obtain t2 where t2: "table_inv d2 t2" "i < length t2"
    using i table_invD [OF inv] table_invD by (metis dispatch_inv_def)
  with FreeCBEntry_ok [OF this] d2(2) have "stable d2 d'"
    by (auto intro: stable_frame)
  then show ?thesis
    using \<open>dispatch_inv d2\<close> \<open>TableSize d2 = TableSize d\<close> \<open>Running d2 = Running d\<close> by (simp add: stable_def)
qed

lemma call_entry_total:
  assumes run: "\<And>f a x. dispatch_inv x \<Longrightarrow> \<exists>y. run f a x = Some y \<and> stable x y"
    and inv: "table_inv d t" and i: "i < length t" and used: "ENTRY_IN_USE (t ! i)"
    and n: "n = numActiveEntries d - (if e_state (t ! i) = FUNC_ACTIVE then 1 else 0)"
  shows "\<exists>d'. call_entry run i (d\<lparr>numActiveEntries := n\<rparr>) = Some d' \<and> stable d d'"
proof -
  from call_entry_start [OF inv i used n, of run] obtain f arg d1 where
    d1: "table_inv d1 (t[i := (t ! i)\<lparr>e_state := FUNC_RUNNING\<rparr>])" "TableSize d1 = TableSize d" "Running d1 = Running d"
      "call_entry run i (d\<lparr>numActiveEntries := n\<rparr>) = Option.bind (run f arg d1) (FreeCBEntry i)"
    by blast
  obtain d2 where d2: "run f arg d1 = Some d2" "stable d1 d2"
    using run table_invD [OF d1(1)] by blast
  then have s: "dispatch_inv d2" "TableSize d2 = TableSize d" "Running d2 = Running d"
    using d1 table_invD [OF d1(1)] by (auto simp: stable_def)
  then obtain t2 where t2: "table_inv d2 t2" "i < length t2"
    using i table_invD [OF inv] table_invD by (metis dispatch_inv_def)
  with FreeCBEntry_ok [OF this] obtain d3 where "FreeCBEntry i d2 = Some d3" "stable d2 d3"
    by (auto intro: stable_frame)
  with d1(4) d2(1) s show ?thesis
    by (intro exI [of _ d3]) (simp add: stable_def)
qed

text \<open>The first pass.\<close>

definition mark :: "OI_INTERVAL \<Rightarrow> 'f DISPATCH_ENTRY \<Rightarrow> 'f DISPATCH_ENTRY" where
  "mark now e = (if due now e then e\<lparr>e_state := FUNC_RUNNABLE\<rparr> else e)"

lemma mark_pass_ok:
  assumes "table_inv d t" "distinct is" "\<forall>i \<in> set is. i < length t"
  shows "\<exists>d' t'. mark_pass now is d = Some (int (length (filter (\<lambda>i. due now (t ! i)) is)), d') \<and>
    frame d d' \<and> table_inv d' t' \<and> length t' = length t \<and>
    (\<forall>j < length t. t' ! j = (if j \<in> set is then mark now (t ! j) else t ! j))"
  using assms
proof (induction "is" arbitrary: d t)
  case (Cons i "is")
  note d = table_invD [OF Cons.prems(1)]
  let ?e = "t ! i"
  let ?d1 = "if due now ?e then put_entry i (?e\<lparr>e_state := FUNC_RUNNABLE\<rparr>)
      (if e_state ?e = FUNC_ACTIVE then d\<lparr>numActiveEntries := numActiveEntries d - 1\<rparr> else d) else d"
  have inv: "table_inv ?d1 (t[i := mark now ?e]) \<and> frame d ?d1"
  proof (cases "due now ?e")
    case True
    then have "table_inv ?d1 (t[i := ?e\<lparr>e_state := FUNC_RUNNABLE\<rparr>])"
      using Cons.prems d table_inv_entry [OF Cons.prems(1), of i]
      by (intro table_inv_replace [OF Cons.prems(1)]) (auto simp: entry_wf_def due_def)
    with True show ?thesis
      by (simp add: mark_def)
  qed (use Cons.prems in \<open>simp add: mark_def\<close>)
  with Cons.IH [of ?d1 "t[i := mark now ?e]"] Cons.prems obtain d' t' where d':
    "mark_pass now is ?d1 = Some (int (length (filter (\<lambda>j. due now (t[i := mark now ?e] ! j)) is)), d')"
    "frame ?d1 d'" "table_inv d' t'" "length t' = length t"
    "\<forall>j < length t. t' ! j = (if j \<in> set is then mark now (t[i := mark now ?e] ! j) else t[i := mark now ?e] ! j)"
    by auto
  have same: "filter (\<lambda>j. due now (t[i := mark now ?e] ! j)) is = filter (\<lambda>j. due now (t ! j)) is"
    using Cons.prems(2) by (intro filter_cong refl, subst nth_list_update_neq) auto
  have "frame d d'"
    using inv d'(2) frame_trans by blast
  moreover have "t' ! j = (if j \<in> set (i # is) then mark now (t ! j) else t ! j)" if "j < length t" for j
    using d'(5) Cons.prems(2) that by (cases "j = i") auto
  ultimately show ?case
    using d'(1,3,4) same d Cons.prems(3)
    by (intro exI [of _ d'] exI [of _ t']) (simp add: monad_simps Let_def)
qed auto

lemma used_indices_eq: "table_inv d t \<Longrightarrow> used_indices d = [0..<nat (lower_mark t (length t) + 1)]"
  by (simp add: used_indices_def table_inv_def counts_inv_def)

lemma mark_bound: "nat (lower_mark t (length t) + 1) \<le> length t"
  using lower_mark_range [of t "length t"] unfolding nat_le_iff by linarith

lemma not_due_above: "j < length t \<Longrightarrow> nat (lower_mark t (length t) + 1) \<le> j \<Longrightarrow> \<not> due now (t ! j)"
  using lower_mark_above [of j "length t" t] lower_mark_range [of t "length t"] by (auto simp: due_def nat_le_iff)

lemma filter_indices:
  assumes "n \<le> length t" "\<And>j. n \<le> j \<Longrightarrow> j < length t \<Longrightarrow> \<not> P (t ! j)"
  shows "filter P t = map ((!) t) (filter (\<lambda>i. P (t ! i)) [0..<n])"
proof -
  have "filter P t = filter P (map ((!) t) [0..<length t])"
    by (simp add: map_nth)
  also have "\<dots> = map ((!) t) (filter (\<lambda>i. P (t ! i)) [0..<length t])"
    by (simp add: filter_map comp_def)
  also have "[0..<length t] = [0..<n] @ [n..<length t]"
    using assms(1) upt_add_eq_append [of 0 n "length t - n"] by simp
  also have "filter (\<lambda>i. P (t ! i)) ([0..<n] @ [n..<length t]) = filter (\<lambda>i. P (t ! i)) [0..<n]"
    using assms(2) by (auto simp: filter_empty_conv)
  finally show ?thesis .
qed

lemma mark_pass_run:
  assumes "table_inv d t"
  shows "\<exists>d'. mark_pass now (used_indices d) d = Some (int (length (filter (due now) t)), d') \<and>
    frame d d' \<and> table_inv d' (map (mark now) t)"
proof -
  let ?n = "nat (lower_mark t (length t) + 1)"
  from mark_pass_ok [OF assms, of "used_indices d" now] obtain d' t' where d':
    "mark_pass now (used_indices d) d = Some (int (length (filter (\<lambda>i. due now (t ! i)) [0..<?n])), d')"
    "frame d d'" "table_inv d' t'" "length t' = length t"
    "\<forall>j < length t. t' ! j = (if j < ?n then mark now (t ! j) else t ! j)"
    using mark_bound [of t] by (auto simp: used_indices_eq [OF assms])
  have "t' = map (mark now) t"
    using d'(4,5) not_due_above [of _ t now] by (intro nth_equalityI) (auto simp: mark_def not_less)
  moreover have "length (filter (due now) t) = length (filter (\<lambda>i. due now (t ! i)) [0..<?n])"
    using filter_indices [OF mark_bound, of t "due now"] not_due_above [of _ t now] by simp
  ultimately show ?thesis
    using d' by auto
qed

text \<open>The last pass only moves the next timeout.\<close>

lemma next_pass_fields:
  "Table d = Some t \<Longrightarrow> \<forall>i \<in> set is. i < length t \<Longrightarrow> \<exists>s x. next_pass now is sm d = Some (s, d\<lparr>nextTimeout := x\<rparr>)"
proof (induction "is" arbitrary: sm d)
  case Nil
  show ?case
    by (auto intro!: exI [of _ "nextTimeout d"])
next
  case (Cons i "is")
  then show ?case
    using Cons.IH [of d sm] Cons.IH [of "d\<lparr>nextTimeout := e_timeout (t ! i)\<rparr>" "e_timeout (t ! i) - now"]
    by (auto simp: monad_simps Let_def)
qed


lemma table_inv_mark: "table_inv d t \<Longrightarrow> MaxUsedEntry d < int (length t)"
  using lower_mark_range [of t "length t"] unfolding table_inv_def counts_inv_def by linarith

lemma call_pass_stable:
  assumes run: "\<And>f a x y. run f a x = Some y \<Longrightarrow> stable x y"
  shows "call_pass run n i d = Some d' \<Longrightarrow> stable d d'"
proof (induction n arbitrary: i d)
  case (Suc n)
  show ?case
  proof (cases "dispatch_inv d \<and> int i \<le> MaxUsedEntry d")
    case True
    then obtain t where t: "table_inv d t"
      by (auto simp: dispatch_inv_def)
    then have i: "i < length t" "Table d = Some t"
      using True table_inv_mark [OF t] table_invD [OF t] by linarith+
    show ?thesis
    proof (cases "e_state (t ! i) = FUNC_RUNNABLE")
      case runnable: True
      then obtain d2 where d2: "call_entry run i d = Some d2" "call_pass run n (Suc i) d2 = Some d'"
        using Suc.prems True i by (cases "call_entry run i d") auto
      have "stable d d2"
        by (rule call_entry_stable [OF _ t i(1), where n = "numActiveEntries d" and run = run])
          (use run d2(1) runnable table_inv_entry [OF t i(1)] in \<open>auto simp: entry_wf_def\<close>)
      with Suc.IH [OF d2(2)] show ?thesis
        using stable_trans by blast
    qed (use Suc True i in \<open>simp add: monad_simps\<close>)
  qed (use Suc.prems in \<open>auto simp: stable_def\<close>)
qed simp

lemma OI_Dispatch_Run_stable:
  assumes run: "\<And>f a x y. run f a x = Some y \<Longrightarrow> stable x y"
    and result: "OI_Dispatch_Run run d = Some (c, d')"
  shows "stable d d'"
proof (cases "dispatch_inv d")
  case True
  then obtain t where t: "table_inv d t"
    by (auto simp: dispatch_inv_def)
  let ?d = "d\<lparr>Running := True\<rparr>" and ?now = "Dispatch_timeNowInterval d"
  have now: "Dispatch_timeNowInterval ?d = ?now"
    by (simp add: Dispatch_timeNowInterval_def)
  obtain d1 where d1: "mark_pass ?now (used_indices ?d) ?d = Some (int (length (filter (due ?now) t)), d1)"
      "frame ?d d1" "table_inv d1 (map (mark ?now) t)"
    using mark_pass_run [of ?d t ?now] t by auto
  let ?c = "int (length (filter (due ?now) t))"
  have r: "\<not> Running d" "Table d = Some t"
    using result table_invD [OF t] by (auto simp: OI_Dispatch_Run_def monad_simps)
  obtain d2 where d2: "(if ?c \<noteq> 0 then call_pass run (length t) 0 d1 else Some d1) = Some d2"
    using result r d1(1) now by (cases "if ?c \<noteq> 0 then call_pass run (length t) 0 d1 else Some d1")
      (auto simp: OI_Dispatch_Run_def monad_simps Let_def)
  have "stable d1 d2"
    using d2 by (auto split: if_splits intro: call_pass_stable run)
  moreover have "dispatch_inv d1" "TableSize d1 = TableSize d" "Running d1"
    using d1 table_invD [OF d1(3)] by (simp_all add: frame_def)
  ultimately have d2inv: "dispatch_inv d2" "TableSize d2 = TableSize d" "Running d2"
    by (simp_all add: stable_def)
  then obtain t2 where t2: "table_inv d2 t2"
    by (auto simp: dispatch_inv_def)
  obtain s x where np: "next_pass ?now (used_indices d2) (-1) d2 = Some (s, d2\<lparr>nextTimeout := x\<rparr>)"
    using next_pass_fields [of d2 t2 "used_indices d2" ?now "-1"] table_invD [OF t2] mark_bound [of t2]
    by (auto simp: used_indices_eq [OF t2])
  have "\<exists>d3. d' = (if ?c = 0 then d3\<lparr>ImmediateDispatch := False\<rparr> else d3) \<and> dispatch_inv d3 \<and>
      TableSize d3 = TableSize d \<and> \<not> Running d3"
    using result r d1(1) d2 np now d2inv
    by (auto simp: OI_Dispatch_Run_def monad_simps Let_def Dispatch_RequestService_def split: if_splits)
  with r show ?thesis
    by (auto simp: stable_def split: if_splits)
qed (simp add: stable_def)

lemma call_pass_total:
  assumes run: "\<And>f a x. dispatch_inv x \<Longrightarrow> \<exists>y. run f a x = Some y \<and> stable x y"
  shows "dispatch_inv d \<Longrightarrow> \<exists>d'. call_pass run n i d = Some d' \<and> dispatch_inv d'"
proof (induction n arbitrary: i d)
  case (Suc n)
  then obtain t where t: "table_inv d t"
    by (auto simp: dispatch_inv_def)
  show ?case
  proof (cases "int i \<le> MaxUsedEntry d")
    case True
    then have i: "i < length t" "Table d = Some t"
      using table_inv_mark [OF t] table_invD [OF t] by linarith+
    show ?thesis
    proof (cases "e_state (t ! i) = FUNC_RUNNABLE")
      case runnable: True
      then have "ENTRY_IN_USE (t ! i)"
        using table_inv_entry [OF t i(1)] by (simp add: entry_wf_def)
      from call_entry_total [OF _ t i(1) this, where run = run and n = "numActiveEntries d"] run runnable
      obtain d2 where d2: "call_entry run i d = Some d2" "stable d d2"
        by auto
      then have "dispatch_inv d2"
        using Suc.prems by (simp add: stable_def)
      from Suc.IH [OF this] show ?thesis
        using True i runnable d2 by (simp add: monad_simps)
    qed (use Suc True i in \<open>simp add: monad_simps\<close>)
  qed (use Suc.prems in simp)
qed simp

lemma OI_Dispatch_Run_total:
  assumes run: "\<And>f a x. dispatch_inv x \<Longrightarrow> \<exists>y. run f a x = Some y \<and> stable x y"
    and d: "dispatch_inv d" "\<not> Running d"
  shows "OI_Dispatch_Run run d \<noteq> None"
proof -
  obtain t where t: "table_inv d t"
    using d(1) by (auto simp: dispatch_inv_def)
  let ?d = "d\<lparr>Running := True\<rparr>" and ?now = "Dispatch_timeNowInterval d"
  have now: "Dispatch_timeNowInterval ?d = ?now"
    by (simp add: Dispatch_timeNowInterval_def)
  obtain c d1 where d1: "mark_pass ?now (used_indices ?d) ?d = Some (c, d1)" "table_inv d1 (map (mark ?now) t)"
    using mark_pass_run [of ?d t ?now] t by auto
  obtain d2 where d2: "(if c \<noteq> 0 then call_pass run (length t) 0 d1 else Some d1) = Some d2" "dispatch_inv d2"
    using call_pass_total [where run = run and n = "length t" and i = 0, OF run] table_invD [OF d1(2)] by (cases "c = 0") auto
  then obtain t2 where t2: "table_inv d2 t2"
    by (auto simp: dispatch_inv_def)
  obtain s x where "next_pass ?now (used_indices d2) (-1) d2 = Some (s, d2\<lparr>nextTimeout := x\<rparr>)"
    using next_pass_fields [of d2 t2 "used_indices d2" ?now "-1"] table_invD [OF t2] mark_bound [of t2]
    by (auto simp: used_indices_eq [OF t2])
  then show ?thesis
    using d t d1 d2 now table_invD [OF t] by (simp add: OI_Dispatch_Run_def monad_simps Let_def)
qed

lemma OI_Dispatch_CallFunc_eq:
  assumes "table_inv d t"
  shows "OI_Dispatch_CallFunc run h d =
    (if valid_in t h
     then map_option (Pair OI_OK) (call_entry run (unat (CB_INDEX h))
       (d\<lparr>numActiveEntries := numActiveEntries d - (if e_state (t ! unat (CB_INDEX h)) = FUNC_ACTIVE then 1 else 0)\<rparr>))
     else Some (OI_DISPATCH_INVALID_CB_HANDLE, d))"
  using table_invD [OF assms]
  by (auto simp: OI_Dispatch_CallFunc_def IsValidHandle_eq [OF assms] monad_simps Let_def valid_in_def
      map_conv_bind_option comp_def)

lemma OI_Dispatch_CallFunc_stable:
  assumes run: "\<And>f a x y. run f a x = Some y \<Longrightarrow> stable x y"
    and result: "OI_Dispatch_CallFunc run h d = Some (st, d')"
  shows "stable d d'"
proof (cases "dispatch_inv d")
  case True
  then obtain t where t: "table_inv d t"
    by (auto simp: dispatch_inv_def)
  let ?i = "unat (CB_INDEX h)"
  show ?thesis
  proof (cases "valid_in t h")
    case True
    then have i: "?i < length t" "ENTRY_IN_USE (t ! ?i)"
      using valid_entry [OF t] by (simp_all add: valid_in_def)
    show ?thesis
      by (rule call_entry_stable [OF _ t i refl, where run = run])
        (use run result True in \<open>auto simp: OI_Dispatch_CallFunc_eq [OF t]\<close>)
  qed (use result in \<open>simp add: OI_Dispatch_CallFunc_eq [OF t]\<close>)
qed (simp add: stable_def)

lemma OI_Dispatch_CallFunc_total:
  assumes run: "\<And>f a x. dispatch_inv x \<Longrightarrow> \<exists>y. run f a x = Some y \<and> stable x y" and d: "dispatch_inv d"
  shows "OI_Dispatch_CallFunc run h d \<noteq> None"
proof -
  obtain t where t: "table_inv d t"
    using d(1) by (auto simp: dispatch_inv_def)
  show ?thesis
  proof (cases "valid_in t h")
    case True
    then have "unat (CB_INDEX h) < length t" "ENTRY_IN_USE (t ! unat (CB_INDEX h))"
      using valid_entry [OF t] by (simp_all add: valid_in_def)
    from call_entry_total [OF _ t this refl, where run = run] run show ?thesis
      using True by (auto simp: OI_Dispatch_CallFunc_eq [OF t])
  qed (simp add: OI_Dispatch_CallFunc_eq [OF t])
qed

lemma immediate_loop_stable:
  assumes run: "\<And>f a x y. run f a x = Some y \<Longrightarrow> stable x y"
    and result: "immediate_loop run d = Some d'"
  shows "stable d d'"
proof -
  have "(\<forall>f a x y. run f a x = Some y \<longrightarrow> stable x y) \<longrightarrow> stable d d'"
  proof (rule immediate_loop.raw_induct [OF _ result], intro impI)
    fix loop :: "('f \<Rightarrow> bytes option \<Rightarrow> 'f DISPATCH_STATE \<Rightarrow> 'f DISPATCH_STATE option) \<Rightarrow> 'f DISPATCH_STATE \<Rightarrow>
      'f DISPATCH_STATE option" and run d d'
    assume IH: "\<And>run d d'. loop run d = Some d' \<Longrightarrow> (\<forall>f a x y. run f a x = Some y \<longrightarrow> stable x y) \<longrightarrow> stable d d'"
      and body: "(if ImmediateDispatch d
        then Option.bind (OI_Dispatch_Run run (d\<lparr>ImmediateDispatch := False\<rparr>)) (\<lambda>(calls, d). loop run d) else Some d) = Some d'"
      and run: "\<forall>f a x y. run f a x = Some y \<longrightarrow> stable x y"
    show "stable d d'"
    proof (cases "ImmediateDispatch d")
      case True
      with body obtain c d1 where d1: "OI_Dispatch_Run run (d\<lparr>ImmediateDispatch := False\<rparr>) = Some (c, d1)" "loop run d1 = Some d'"
        by (cases "OI_Dispatch_Run run (d\<lparr>ImmediateDispatch := False\<rparr>)") auto
      have "stable (d\<lparr>ImmediateDispatch := False\<rparr>) d1"
        using OI_Dispatch_Run_stable [OF _ d1(1)] run by blast
      with IH [OF d1(2)] run have "stable (d\<lparr>ImmediateDispatch := False\<rparr>) d'"
        using stable_trans by blast
      then show ?thesis
        by (simp add: stable_def)
    qed (use body in simp)
  qed
  with run show ?thesis
    by blast
qed

section \<open>The interface\<close>

text \<open>What the rest of the stack and the callbacks do to the dispatcher: any sequence of its
  operations, with the clock moving in between. A callback is itself such a sequence.\<close>

inductive api :: "'f DISPATCH_STATE \<Rightarrow> 'f DISPATCH_STATE \<Rightarrow> bool" where
  api_idle: "api d d"
| api_tick: "api d x \<Longrightarrow> api d (x\<lparr>d_now := now\<rparr>)"
| api_register: "api d x \<Longrightarrow> arg_ok args \<Longrightarrow>
    OI_Dispatch_RegisterTimedFunc mem f args tmo x = Some (st, h, y) \<Longrightarrow> api d y"
| api_set_timeout: "api d x \<Longrightarrow> OI_Dispatch_SetFuncTimeout h tmo x = Some (st, y) \<Longrightarrow> api d y"
| api_suspend: "api d x \<Longrightarrow> OI_Dispatch_SuspendFunc h x = Some (st, y) \<Longrightarrow> api d y"
| api_cancel: "api d x \<Longrightarrow> OI_Dispatch_CancelFunc h x = Some (st, y) \<Longrightarrow> api d y"
| api_call: "api d x \<Longrightarrow> (\<And>f a u v. run f a u = Some v \<Longrightarrow> api u v) \<Longrightarrow>
    OI_Dispatch_CallFunc run h x = Some (st, y) \<Longrightarrow> api d y"
| api_run: "api d x \<Longrightarrow> (\<And>f a u v. run f a u = Some v \<Longrightarrow> api u v) \<Longrightarrow>
    OI_Dispatch_Run run x = Some (calls, y) \<Longrightarrow> api d y"
| api_immediate: "api d x \<Longrightarrow> (\<And>f a u v. run f a u = Some v \<Longrightarrow> api u v) \<Longrightarrow>
    OI_Dispatch_Immediate_Run run x = Some y \<Longrightarrow> api d y"

lemma takeWhile_short: "length (takeWhile P t) < n \<Longrightarrow> length t = n \<Longrightarrow> \<exists>e \<in> set t. \<not> P e"
  by (metis less_irrefl takeWhile_eq_all_conv)

lemma Register_conditions:
  "OI_Dispatch_RegisterTimedFunc mem f args tmo d = Some r \<Longrightarrow> table_inv d t \<Longrightarrow>
     f \<noteq> None \<and> tmo \<le> OI_MAX_INTERVAL \<and> list_ex (\<lambda>e. \<not> ENTRY_IN_USE e) t"
  by (auto simp: OI_Dispatch_RegisterTimedFunc_def monad_simps Let_def find_free_eq table_inv_def counts_inv_def
      list_ex_iff split: if_splits dest: takeWhile_short)

lemma Register_stable:
  assumes "OI_Dispatch_RegisterTimedFunc mem f args tmo d = Some (st, h, d')" "arg_ok args"
  shows "stable d d'"
proof (cases "dispatch_inv d")
  case True
  then obtain t where t: "table_inv d t"
    by (auto simp: dispatch_inv_def)
  from Register_ok [OF t _ _ assms(2), of f tmo mem] Register_conditions [OF assms(1) t] assms(1) show ?thesis
    by (auto intro: stable_frame)
qed (simp add: stable_def)

lemma stableI: "(\<And>t. table_inv d t \<Longrightarrow> stable d d') \<Longrightarrow> stable d d'"
  by (auto simp: stable_def dispatch_inv_def)

lemma api_stable: "api d d' \<Longrightarrow> stable d d'"
proof (induction rule: api.induct)
  case (api_set_timeout d x h tmo st y)
  have "stable x y"
  proof (rule stableI)
    fix t assume t: "table_inv x t"
    show "stable x y"
    proof (cases "tmo \<le> OI_MAX_INTERVAL")
      case True
      with SetFuncTimeout_ok [OF t this, of h] api_set_timeout(2) show ?thesis
        by (auto intro: stable_frame)
    qed (use api_set_timeout(2) in \<open>auto simp: OI_Dispatch_SetFuncTimeout_def IsValidHandle_eq [OF t] split: if_splits\<close>)
  qed
  with api_set_timeout(3) show ?case
    by (rule stable_trans)
next
  case (api_suspend d x h st y)
  have "stable x y"
  proof (rule stableI)
    fix t assume "table_inv x t"
    from SuspendFunc_ok [OF this, of h] api_suspend(2) show "stable x y"
      by (auto intro: stable_frame)
  qed
  with api_suspend(3) show ?case
    by (rule stable_trans)
next
  case (api_cancel d x h st y)
  have "stable x y"
  proof (rule stableI)
    fix t assume "table_inv x t"
    from CancelFunc_ok [OF this, of h] api_cancel(2) show "stable x y"
      by (auto intro: stable_frame)
  qed
  with api_cancel(3) show ?case
    by (rule stable_trans)
next
  case (api_immediate d x run y)
  then have "stable x y"
    using immediate_loop_stable [of run] by (auto simp: OI_Dispatch_Immediate_Run_def split: if_splits)
  then show ?case
    using api_immediate stable_trans by blast
next
  case (api_call d x run h st y)
  then show ?case
    using OI_Dispatch_CallFunc_stable [of run] stable_trans by blast
next
  case (api_run d x run calls y)
  then show ?case
    using OI_Dispatch_Run_stable [of run] stable_trans by blast
next
  case (api_register d x args mem f tmo st h y)
  then show ?case
    using Register_stable stable_trans by blast
qed (simp_all add: stable_def)

section \<open>Handles\<close>

definition valid_handles :: "'f DISPATCH_STATE \<Rightarrow> u32 set" where
  "valid_handles d = {h. OI_Dispatch_IsValidHandle h d = Some True}"

lemma valid_handles_eq: "table_inv d t \<Longrightarrow> valid_handles d = {h. valid_in t h}"
  by (simp add: valid_handles_def IsValidHandle_eq)

lemma CB_SALT_mask: "CB_SALT h = and h (mask 16)"
  by (simp add: CB_SALT_def mask_eq_exp_minus_1)

lemma CB_INDEX_HANDLE: "i < 65536 \<Longrightarrow> CB_INDEX (CB_HANDLE (of_nat i) (ucast (s :: u16))) = of_nat i"
  unfolding CB_INDEX_def CB_HANDLE_def CB_SALT_mask
  by (intro bit_word_eqI) (auto simp: bit_simps)

lemma CB_SALT_HANDLE: "CB_SALT (CB_HANDLE i (ucast (s :: u16))) = ucast s"
  unfolding CB_HANDLE_def CB_SALT_mask
  by (intro bit_word_eqI) (auto simp: bit_simps dest: bit_imp_le_length)

lemma CB_SALT_ucast [simp]: "CB_SALT (ucast (s :: u16)) = ucast s"
  unfolding CB_SALT_mask by (intro bit_word_eqI) (auto simp: bit_simps dest: bit_imp_le_length)

lemma handle_parts:
  assumes "CB_INDEX h = CB_INDEX h'" "CB_SALT h = CB_SALT h'"
  shows "h = h'"
proof (rule bit_word_eqI)
  fix n assume n: "n < LENGTH(32)"
  show "bit h n \<longleftrightarrow> bit h' n"
  proof (cases "n < 16")
    case True
    then show ?thesis
      using arg_cong [OF assms(2), of "\<lambda>w. bit w n"] n by (simp add: CB_SALT_mask bit_simps)
  next
    case False
    then have "n - 16 < 16" "16 + (n - 16) = n"
      using n by simp_all
    then show ?thesis
      using arg_cong [OF assms(1), of "\<lambda>w. bit w (n - 16)"] by (simp add: CB_INDEX_def bit_simps)
  qed
qed

lemma unat_ucast_16_32: "unat (ucast (a :: u16) :: u32) = unat a"
  by (simp add: unsigned_ucast_eq take_bit_nat_eq_self less_trans [OF unat_lt_u16])

lemma ucast_u16_u32_eq: "(ucast (a :: u16) :: u32) = ucast b \<longleftrightarrow> a = b"
  using unat_ucast_16_32 [of a] unat_ucast_16_32 [of b] by (auto intro: word_unat_eqI)

lemma ucast_u16_u32_zero: "(ucast (a :: u16) :: u32) = 0 \<longleftrightarrow> a = 0"
  using ucast_u16_u32_eq [of a 0] by simp

lemma valid_in_update:
  assumes "i < length t"
  shows "valid_in (t[i := e]) h \<longleftrightarrow>
    (if unat (CB_INDEX h) = i then live e \<and> CB_SALT (ucast (e_salt e)) = CB_SALT h else valid_in t h)"
  using assms by (auto simp: valid_in_def)

lemma valid_at:
  "i < length t \<Longrightarrow> unat (CB_INDEX h) = i \<Longrightarrow> valid_in t h \<longleftrightarrow> live (t ! i) \<and> CB_SALT (ucast (e_salt (t ! i))) = CB_SALT h"
  by (auto simp: valid_in_def)

lemma registered_handles:
  assumes t: "table_inv d t" "table_inv d' (t[i := e])" and i: "i < length t" "\<not> ENTRY_IN_USE (t ! i)"
    and reg: "registered OI_OK h f args tmo i salt e"
  shows "h \<noteq> 0 \<and> h \<notin> valid_handles d \<and> valid_handles d' = insert h (valid_handles d)"
proof -
  have n: "i < 65536" "unat (of_nat i :: u16) = i"
    using i(1) t(1) by (auto simp: table_inv_def counts_inv_def unat_of_nat_u16)
  have h: "CB_INDEX h = of_nat i" "CB_SALT h = ucast (e_salt e)" "live e" "e_salt e \<noteq> 0"
    using reg n by (auto simp: registered_def CB_INDEX_HANDLE CB_SALT_HANDLE live_def next_salt_nonzero)
  have free: "\<not> live (t ! i)"
    using live_in_use table_inv_entry [OF t(1) i(1)] i(2) by blast
  have "g = h" if "unat (CB_INDEX g) = i" "ucast (e_salt e) = CB_SALT g" for g
    by (rule handle_parts; (rule word_unat_eqI)?) (use that h(1,2) n(2) in simp_all)
  then have "valid_handles d' = insert h (valid_handles d)"
    using free h n valid_at [OF i(1)]
    by (auto simp: valid_handles_eq [OF t(1)] valid_handles_eq [OF t(2)] valid_in_update [OF i(1)] split: if_splits)
  moreover have "h \<noteq> 0"
    using h(2,4) by (auto simp: CB_SALT_def ucast_u16_u32_zero [symmetric])
  moreover have "h \<notin> valid_handles d"
    using free h(1) n by (simp add: valid_handles_eq [OF t(1)] valid_in_def)
  ultimately show ?thesis
    by blast
qed

lemma failed_handles:
  assumes t: "table_inv d t" "table_inv d' (t[i := e])" and i: "i < length t" "\<not> ENTRY_IN_USE (t ! i)"
    and reg: "\<not> live e"
  shows "valid_handles d' = valid_handles d"
  using live_in_use table_inv_entry [OF t(1) i(1)] i(2) reg
    valid_at [OF i(1)]
  by (auto simp: valid_handles_eq [OF t(1)] valid_handles_eq [OF t(2)] valid_in_update [OF i(1)] split: if_splits)

lemma released_handles:
  assumes t: "table_inv d t" "table_inv d' (t[unat (CB_INDEX h) := e])" and h: "valid_in t h" and e: "\<not> live e"
  shows "valid_handles d' = valid_handles d - {h}"
proof -
  have i: "unat (CB_INDEX h) < length t"
    using h by (simp add: valid_in_def)
  have "g = h" if "valid_in t g" "unat (CB_INDEX g) = unat (CB_INDEX h)" for g
  proof (rule handle_parts)
    show "CB_INDEX g = CB_INDEX h"
      using that(2) by (rule word_unat_eqI)
    show "CB_SALT g = CB_SALT h"
      using that h unfolding valid_in_def by metis
  qed
  then show ?thesis
    using e by (auto simp: valid_handles_eq [OF t(1)] valid_handles_eq [OF t(2)] valid_in_update [OF i])
qed

lemma updated_handles:
  assumes t: "table_inv d t" "table_inv d' (t[i := e])" and i: "i < length t"
    and e: "live e = live (t ! i)" "e_salt e = e_salt (t ! i)"
  shows "valid_handles d' = valid_handles d"
  using e valid_at [OF i]
  by (auto simp: valid_handles_eq [OF t(1)] valid_handles_eq [OF t(2)] valid_in_update [OF i] split: if_splits)

section \<open>A run with callbacks that only register\<close>

inductive registers :: "'f DISPATCH_STATE \<Rightarrow> 'f DISPATCH_STATE \<Rightarrow> bool" where
  registers_none: "registers d d"
| registers_tick: "registers d x \<Longrightarrow> registers d (x\<lparr>d_now := now\<rparr>)"
| registers_one: "registers d x \<Longrightarrow> arg_ok args \<Longrightarrow>
    OI_Dispatch_RegisterTimedFunc mem f args tmo x = Some (st, h, y) \<Longrightarrow> registers d y"

text \<open>What such a callback may leave of a table.\<close>

definition extended :: "'f DISPATCH_ENTRY list \<Rightarrow> 'f DISPATCH_ENTRY list \<Rightarrow> bool" where
  "extended t t' \<longleftrightarrow> length t' = length t \<and>
     (\<forall>j < length t. if ENTRY_IN_USE (t ! j) then t' ! j = t ! j
       else e_state (t' ! j) = FREE_SLOT \<or> e_state (t' ! j) = FUNC_ACTIVE)"

lemma registers_table:
  "registers d d' \<Longrightarrow> table_inv d t \<Longrightarrow> \<exists>t'. table_inv d' t' \<and> extended t t' \<and> d_calls d' = d_calls d"
proof (induction rule: registers.induct)
  case (registers_none d)
  then show ?case
    using free_entry_state table_inv_entry by (intro exI [of _ t]) (auto simp: extended_def)
next
  case (registers_one d x args mem f tmo st h y)
  then obtain u where u: "table_inv x u" "extended t u" "d_calls x = d_calls d"
    by blast
  note conds = Register_conditions [OF registers_one.hyps(3) u(1)]
  then have f: "f \<noteq> None" "tmo \<le> OI_MAX_INTERVAL" "list_ex (\<lambda>e. \<not> ENTRY_IN_USE e) u"
    by auto
  from Register_ok [OF u(1) f(1,2) registers_one.hyps(2) f(3), of mem] registers_one.hyps(3) obtain e where e:
    "frame x y" "table_inv y (u[slot u := e])" "registered st h f args (Dispatch_timeNowInterval x + tmo) (slot u) (e_salt (u ! slot u)) e"
    by auto
  have "e_state e = FREE_SLOT \<or> e_state e = FUNC_ACTIVE"
    using e(3) by (auto simp: registered_def split: if_splits)
  then have "extended t (u[slot u := e])"
    using u(2) slot_free [OF f(3)] by (auto simp: extended_def nth_list_update)
  with e u(3) show ?case
    by (intro exI [of _ "u[slot u := e]"]) (simp add: frame_def)
qed auto

text \<open>The call that an entry stands for.\<close>

definition call_of :: "'f DISPATCH_ENTRY \<Rightarrow> 'f \<times> bytes option" where
  "call_of e = (the (e_CBFunc e), the (call_arg e))"

definition runnable :: "'f DISPATCH_ENTRY \<Rightarrow> bool" where
  "runnable e \<longleftrightarrow> e_state e = FUNC_RUNNABLE"

lemma runnable_in_use: "entry_wf e \<Longrightarrow> runnable e \<Longrightarrow> ENTRY_IN_USE e"
  by (simp add: entry_wf_def runnable_def)

text \<open>From index \<open>i\<close> on, \<open>u\<close> is what the pass finds where \<open>t\<close> was the table it started with.\<close>

definition pending :: "nat \<Rightarrow> 'f DISPATCH_ENTRY list \<Rightarrow> 'f DISPATCH_ENTRY list \<Rightarrow> bool" where
  "pending i t u \<longleftrightarrow> length u = length t \<and>
     (\<forall>j < length t. (ENTRY_IN_USE (t ! j) \<and> (i \<le> j \<or> \<not> runnable (t ! j)) \<longrightarrow> u ! j = t ! j) \<and>
       (\<not> ENTRY_IN_USE (t ! j) \<longrightarrow> \<not> runnable (u ! j)))"

lemma call_entry_pending:
  assumes run: "\<And>f a x y. run f a x = Some y \<Longrightarrow> registers x y"
    and u: "table_inv d u" "pending i t u" and i: "i < length t" "runnable (u ! i)" "ENTRY_IN_USE (t ! i)"
    and call: "call_entry run i d = Some d'"
  shows "\<exists>u'. table_inv d' u' \<and> pending (Suc i) t u' \<and> d_calls d' = d_calls d @ [call_of (t ! i)]"
proof -
  have ui: "i < length u" "u ! i = t ! i"
    using u(2) i by (auto simp: pending_def)
  have used: "ENTRY_IN_USE (u ! i)"
    using i(3) ui(2) by simp
  have n: "numActiveEntries d = numActiveEntries d - (if e_state (u ! i) = FUNC_ACTIVE then 1 else 0)"
    using i(2) by (simp add: runnable_def)
  let ?v = "u[i := (u ! i)\<lparr>e_state := FUNC_RUNNING\<rparr>]"
  from call_entry_start [OF u(1) ui(1) used n, of run] obtain f arg d1 where
    d1: "e_CBFunc (u ! i) = Some f" "call_arg (u ! i) = Some arg" "table_inv d1 ?v" "d_calls d1 = d_calls d @ [(f, arg)]"
      "call_entry run i d = Option.bind (run f arg d1) (FreeCBEntry i)"
    by auto
  from d1(5) call obtain d2 where d2: "run f arg d1 = Some d2" "FreeCBEntry i d2 = Some d'"
    by (cases "run f arg d1") auto
  from registers_table [OF run [OF d2(1)] d1(3)] obtain w where
    w: "table_inv d2 w" "extended ?v w" "d_calls d2 = d_calls d1"
    by blast
  have len: "i < length w"
    using w(2) ui(1) by (simp add: extended_def)
  from FreeCBEntry_ok [OF w(1) len] d2(2) have
    d': "frame d2 d'" "table_inv d' (w[i := released (w ! i)])"
    by auto
  have "pending (Suc i) t (w[i := released (w ! i)])"
    unfolding pending_def
  proof (intro conjI allI impI)
    show "length (w[i := released (w ! i)]) = length t"
      using w(2) u(2) by (simp add: extended_def pending_def)
  next
    fix j assume j: "j < length t" "ENTRY_IN_USE (t ! j) \<and> (Suc i \<le> j \<or> \<not> runnable (t ! j))"
    then have "j \<noteq> i" "u ! j = t ! j"
      using i ui u(2) by (auto simp: pending_def)
    then show "w[i := released (w ! i)] ! j = t ! j"
      using w(2) j u(2) by (auto simp: extended_def pending_def)
  next
    fix j assume j: "j < length t" "\<not> ENTRY_IN_USE (t ! j)"
    then have "j \<noteq> i" "\<not> runnable (u ! j)" "j < length u"
      using i u(2) by (auto simp: pending_def)
    then show "\<not> runnable (w[i := released (w ! i)] ! j)"
      using w(2) by (auto simp: extended_def runnable_def nth_list_update split: if_splits)
  qed
  moreover have "d_calls d' = d_calls d @ [call_of (t ! i)]"
    using d'(1) w(3) d1 ui(2) by (simp add: frame_def call_of_def)
  ultimately show ?thesis
    using d'(2) by blast
qed

lemma pending_Suc: "pending i t u \<Longrightarrow> \<not> runnable (u ! i) \<or> length t \<le> i \<Longrightarrow> pending (Suc i) t u"
  by (auto simp: pending_def Suc_le_eq le_less)

lemma call_pass_pending:
  assumes run: "\<And>f a x y. run f a x = Some y \<Longrightarrow> registers x y"
  shows "table_inv d u \<Longrightarrow> pending i t u \<Longrightarrow> list_all entry_wf t \<Longrightarrow> length t \<le> i + n \<Longrightarrow>
    call_pass run n i d = Some d' \<Longrightarrow>
    \<exists>u'. table_inv d' u' \<and> pending (length t) t u' \<and> d_calls d' = d_calls d @ map call_of (filter runnable (drop i t))"
proof (induction n arbitrary: i d u)
  case 0
  then show ?case
    by (intro exI [of _ u]) (auto simp: pending_def)
next
  case (Suc n)
  have len: "length u = length t"
    using Suc.prems(2) by (simp add: pending_def)
  show ?case
  proof (cases "int i \<le> MaxUsedEntry d")
    case False
    have "\<not> runnable (t ! j)" if "i \<le> j" "j < length t" for j
    proof
      assume r: "runnable (t ! j)"
      then have "ENTRY_IN_USE (u ! j)"
        using Suc.prems(2,3) that runnable_in_use [of "t ! j"] by (auto simp: pending_def list_all_length)
      moreover have "\<not> ENTRY_IN_USE (u ! j)"
        using lower_mark_above [of j "length u" u] False Suc.prems(1) that len
        by (simp add: table_inv_def counts_inv_def)
      ultimately show False
        by simp
    qed
    then have none: "filter runnable (drop i t) = []"
      by (auto simp: filter_empty_conv in_set_conv_nth)
    have "pending (length t) t u"
      using Suc.prems(2) \<open>\<And>j. i \<le> j \<Longrightarrow> j < length t \<Longrightarrow> \<not> runnable (t ! j)\<close>
      by (auto simp: pending_def)
    with False Suc.prems none show ?thesis
      by (intro exI [of _ u]) simp
  next
    case True
    then have i: "i < length t" "Table d = Some u"
      using table_inv_mark [OF Suc.prems(1)] table_invD [OF Suc.prems(1)] len by linarith+
    have drop: "filter runnable (drop i t) = (if runnable (t ! i) then [t ! i] else []) @ filter runnable (drop (Suc i) t)"
      using i(1) by (simp add: Cons_nth_drop_Suc [symmetric])
    show ?thesis
    proof (cases "runnable (u ! i)")
      case r: True
      then have used: "ENTRY_IN_USE (t ! i)" and ti: "u ! i = t ! i"
        using Suc.prems(2) i(1) by (auto simp: pending_def)
      obtain d2 where d2: "call_entry run i d = Some d2" "call_pass run n (Suc i) d2 = Some d'"
        using Suc.prems(5) True i len r by (cases "call_entry run i d") (auto simp: runnable_def)
      from call_entry_pending [OF _ Suc.prems(1,2) i(1) r used d2(1)] run obtain u2 where
        u2: "table_inv d2 u2" "pending (Suc i) t u2" "d_calls d2 = d_calls d @ [call_of (t ! i)]"
        by blast
      from Suc.IH [OF u2(1,2) Suc.prems(3) _ d2(2)] Suc.prems(4) u2(3) drop r ti show ?thesis
        by auto
    next
      case r: False
      then have "\<not> runnable (t ! i)"
        using Suc.prems(2,3) i(1) runnable_in_use [of "t ! i"] by (auto simp: pending_def list_all_length)
      moreover have "call_pass run n (Suc i) d = Some d'"
        using Suc.prems(5) True i len r by (simp add: runnable_def monad_simps)
      ultimately show ?thesis
        using Suc.IH [OF Suc.prems(1) pending_Suc [OF Suc.prems(2)] Suc.prems(3)] Suc.prems(4) drop r by auto
    qed
  qed
qed

section \<open>The phases of a run\<close>

lemma Run_phases:
  assumes run: "\<And>f a x y. run f a x = Some y \<Longrightarrow> stable x y" and t: "table_inv d t"
    and result: "OI_Dispatch_Run run d = Some (c, d')" and now: "now = Dispatch_timeNowInterval d"
  shows "\<exists>d1 d2 t2 s x. c = int (length (filter (due now) t)) \<and> frame (d\<lparr>Running := True\<rparr>) d1 \<and>
    table_inv d1 (map (mark now) t) \<and> (if c \<noteq> 0 then call_pass run (length t) 0 d1 = Some d2 else d2 = d1) \<and>
    table_inv d2 t2 \<and> next_pass now (used_indices d2) (-1) d2 = Some (s, d2\<lparr>nextTimeout := x\<rparr>) \<and>
    Table d' = Some t2 \<and> d_calls d' = d_calls d2 \<and> nextTimeout d' = x \<and> serviceCallback d' = serviceCallback d2 \<and>
    d_requests d' = d_requests d2 @ (if s < -1 \<and> serviceCallback d2 then [OI_INTERVAL_TO_MILLISECONDS s] else [])"
proof -
  let ?d = "d\<lparr>Running := True\<rparr>"
  have now': "Dispatch_timeNowInterval ?d = now"
    by (simp add: Dispatch_timeNowInterval_def now)
  obtain d1 where d1: "mark_pass now (used_indices ?d) ?d = Some (int (length (filter (due now) t)), d1)"
      "frame ?d d1" "table_inv d1 (map (mark now) t)"
    using mark_pass_run [of ?d t now] t by auto
  let ?c = "int (length (filter (due now) t))"
  have r: "\<not> Running d" "Table d = Some t"
    using result table_invD [OF t] by (auto simp: OI_Dispatch_Run_def monad_simps)
  obtain d2 where d2: "(if ?c \<noteq> 0 then call_pass run (length t) 0 d1 else Some d1) = Some d2"
    using result r d1(1) now' by (cases "if ?c \<noteq> 0 then call_pass run (length t) 0 d1 else Some d1")
      (auto simp: OI_Dispatch_Run_def monad_simps Let_def)
  have "stable d1 d2"
    using d2 by (auto split: if_splits intro: call_pass_stable run)
  then obtain t2 where t2: "table_inv d2 t2"
    using table_invD [OF d1(3)] by (auto simp: stable_def dispatch_inv_def)
  obtain s x where np: "next_pass now (used_indices d2) (-1) d2 = Some (s, d2\<lparr>nextTimeout := x\<rparr>)"
    using next_pass_fields [of d2 t2 "used_indices d2" now "-1"] table_invD [OF t2] mark_bound [of t2]
    by (auto simp: used_indices_eq [OF t2])
  let ?d3 = "if s < -1 then Dispatch_RequestService s (d2\<lparr>nextTimeout := x\<rparr>) else d2\<lparr>nextTimeout := x\<rparr>"
  have "OI_Dispatch_Run run d =
      Some (?c, if ?c = 0 then ?d3\<lparr>Running := False, ImmediateDispatch := False\<rparr> else ?d3\<lparr>Running := False\<rparr>)"
    using r d1(1) d2 np now' by (simp add: OI_Dispatch_Run_def monad_simps Let_def)
  from trans [OF result [symmetric] this] have "c = ?c"
      "d' = (if ?c = 0 then ?d3\<lparr>Running := False, ImmediateDispatch := False\<rparr> else ?d3\<lparr>Running := False\<rparr>)"
    by (simp_all only: option.inject prod.inject)
  then have "Table d' = Some t2" "d_calls d' = d_calls d2" "nextTimeout d' = x"
    "serviceCallback d' = serviceCallback d2"
    "d_requests d' = d_requests d2 @ (if s < -1 \<and> serviceCallback d2 then [OI_INTERVAL_TO_MILLISECONDS s] else [])"
    using table_invD [OF t2] by (simp_all add: Dispatch_RequestService_def)
  moreover have "if c \<noteq> 0 then call_pass run (length t) 0 d1 = Some d2 else d2 = d1"
    using d2 unfolding \<open>c = ?c\<close> by (simp split: if_splits)
  ultimately show ?thesis
    using \<open>c = ?c\<close> d1(2,3) t2 np by - (intro exI conjI, assumption+)
qed

lemma registers_api: "registers d d' \<Longrightarrow> api d d'"
  by (induction rule: registers.induct) (auto intro: api.intros)

text \<open>An entry that a run has to wake up for.\<close>

definition waiting :: "'f DISPATCH_ENTRY \<Rightarrow> bool" where
  "waiting e \<longleftrightarrow> ENTRY_IN_USE e \<and> e_state e \<noteq> FUNC_SUSPENDED"

lemma next_pass_smallest:
  assumes "Table d = Some t" "\<forall>i \<in> set is. i < length t" "next_pass now is sm d = Some (s, d\<lparr>nextTimeout := x\<rparr>)"
  shows "s \<le> sm \<and> (\<forall>i \<in> set is. waiting (t ! i) \<longrightarrow> s \<le> e_timeout (t ! i) - now) \<and>
    (if s = sm then x = nextTimeout d
     else \<exists>i \<in> set is. waiting (t ! i) \<and> s = e_timeout (t ! i) - now \<and> x = e_timeout (t ! i))"
  using assms
proof (induction "is" arbitrary: sm d)
  case Nil
  then show ?case
    by simp (metis DISPATCH_STATE.select_convs(6) DISPATCH_STATE.surjective DISPATCH_STATE.update_convs(6))
next
  case (Cons i "is")
  let ?tm = "e_timeout (t ! i) - now"
  have i: "entry_at d i = Some (t ! i)"
    using Cons.prems by simp
  show ?case
  proof (cases "waiting (t ! i) \<and> ?tm < sm")
    case True
    let ?d = "d\<lparr>nextTimeout := e_timeout (t ! i)\<rparr>"
    have "next_pass now is ?tm ?d = Some (s, ?d\<lparr>nextTimeout := x\<rparr>)"
      using Cons.prems(3) True i by (simp add: waiting_def monad_simps Let_def)
    from Cons.IH [OF _ _ this] Cons.prems(1,2) True show ?thesis
      by (auto split: if_splits)
  next
    case False
    have "next_pass now is sm d = Some (s, d\<lparr>nextTimeout := x\<rparr>)"
      using Cons.prems(3) False i by (auto simp: waiting_def monad_simps Let_def split: if_splits)
    from Cons.IH [OF _ _ this] Cons.prems(1,2) False show ?thesis
      by (auto split: if_splits)
  qed
qed

section \<open>Time\<close>

text \<open>A time in tenths of a second, the milliseconds rounded up.\<close>

definition tenths :: "OI_TIME \<Rightarrow> int" where
  "tenths T = 10 * sint (seconds T) + (sint (mseconds T) + 99) div 100"

lemma ucast_times_ten: "(ucast (x * 10 :: u32) :: u16) = word_of_int (10 * sint x)"
proof -
  have "(ucast (x * 10 :: u32) :: u16) = ucast x * 10"
    by transfer (simp add: take_bit_eq_mod mod_simps mod_mod_cancel
        mod_mult_left_eq [of "_ mod 4294967296" 65536 10, symmetric])
  moreover have "(ucast x :: u16) = word_of_int (sint x)"
    by transfer (simp add: take_bit_signed_take_bit)
  ultimately show ?thesis
    by (simp only: of_int_mult of_int_numeral mult.commute)
qed

lemma timeNow_tenths:
  assumes "time_ok (d_now d)"
  shows "Dispatch_timeNowInterval d = word_of_int (tenths (d_now d))"
proof -
  have "(sint (mseconds (d_now d)) + 99) sdiv 100 = (sint (mseconds (d_now d)) + 99) div 100"
    using assms by (intro sdiv_pos) (simp_all add: time_ok_def)
  then show ?thesis
    by (simp add: Dispatch_timeNowInterval_def OI_SECONDS_def OI_MSECONDS_def ucast_times_ten tenths_def algebra_simps)
qed

lemma call_of_state [simp]: "call_of (e\<lparr>e_state := s\<rparr>) = call_of e"
  by (simp add: call_of_def)

lemma lower_mark_free: "k \<le> n \<Longrightarrow> lower_mark (replicate n free_entry) k = -1"
  by (induction k) (auto simp: free_entry_def ENTRY_IN_USE_def)

lemma active_count_free: "active_count (replicate n free_entry) = 0"
  by (induction n) (auto simp: active_count_def free_entry_def)

section \<open>Properties\<close>

definition demo_table :: "nat DISPATCH_ENTRY list" where
  "demo_table = [free_entry\<lparr>e_state := FUNC_ACTIVE, e_timeout := 12, e_salt := 1, e_CBFunc := Some 7\<rparr>, free_entry,
     free_entry\<lparr>e_state := FUNC_ACTIVE, e_timeout := 90, e_salt := 4, e_argSize := 2, e_CBFunc := Some 8,
       e_arg := InlineArg [1, 2, 0, 0, 0, 0, 0, 0]\<rparr>]"

definition demo_disp :: "nat DISPATCH_STATE" where
  "demo_disp = \<lparr>Running = False, ImmediateDispatch = False, MaxUsedEntry = 2, numActiveEntries = 2, TableSize = 3,
     nextTimeout = 12, Table = Some demo_table, serviceCallback = True, d_init = True,
     d_now = \<lparr>seconds = 2, mseconds = 0\<rparr>, d_requests = [], d_freed = [], d_calls = []\<rparr>"

lemma demo_disp_inv: "table_inv demo_disp demo_table"
  by (simp add: table_inv_def counts_inv_def demo_disp_def demo_table_def free_entry_def entry_wf_def ENTRY_IN_USE_def
      call_arg_def active_count_def MAX_INLINE_ARG_SIZE_def)

text \<open>C32: The dispatcher's bookkeeping. After initialisation with a table that 16-bit signed
  indices can address, whatever sequence of registrations, changes of timeouts, suspensions,
  cancellations, direct calls and runs follows, with callbacks that do the same, the table is
  as long as its size says, the count of active entries is the number of entries in the active
  state, the high-water mark is the last entry in use, an entry has a function exactly when its
  state says so, and its argument block can be read.\<close>

theorem dispatch_invariant:
  fixes d :: "'a DISPATCH_STATE"
  assumes "OI_Dispatch_Init n handler d0 = (OI_OK, d)" "unat n \<le> 32767" "api d d'"
  shows "\<exists>t. Table d' = Some t \<and> length t = unat n \<and> numActiveEntries d' = active_count t \<and>
    MaxUsedEntry d' = lower_mark t (length t) \<and>
    (\<forall>e \<in> set t. (ENTRY_IN_USE e \<longleftrightarrow> e_state e \<noteq> FREE_SLOT) \<and> (ENTRY_IN_USE e \<longrightarrow> call_arg e \<noteq> None))"
proof -
  have "entry_wf (free_entry :: 'a DISPATCH_ENTRY)"
    by (simp add: entry_wf_def free_entry_def ENTRY_IN_USE_def)
  then have "table_inv d (replicate (unat n) free_entry)"
    using assms(1,2) by (auto simp: lower_mark_free active_count_free OI_Dispatch_Init_def table_inv_def counts_inv_def list_all_iff split: if_splits)
  then have "dispatch_inv d'" "TableSize d' = TableSize d" "TableSize d = n"
    using api_stable [OF assms(3)] assms(1) by (auto simp: stable_def dispatch_inv_def OI_Dispatch_Init_def split: if_splits)
  then show ?thesis
    by (auto simp: dispatch_inv_def table_inv_def counts_inv_def list_all_iff entry_wf_def)
qed

text \<open>C33: No assertion of the dispatcher fails. With the invariant, every operation on a handle, valid
  or not, returns; so do a registration of a function while there is a free slot, a direct call
  and, when none is under way, a run, as long as the callbacks return and only use the
  dispatcher.\<close>

theorem dispatch_no_assertion:
  assumes "dispatch_inv d" "tmo \<le> OI_MAX_INTERVAL" "arg_ok args"
    and run: "\<And>f a x. dispatch_inv x \<Longrightarrow> \<exists>y. run f a x = Some y \<and> api x y"
    and free: "list_ex (\<lambda>e. \<not> ENTRY_IN_USE e) (the (Table d))" and idle: "\<not> Running d"
  shows "OI_Dispatch_IsValidHandle h d \<noteq> None \<and> OI_Dispatch_SetFuncTimeout h tmo d \<noteq> None \<and>
    OI_Dispatch_SuspendFunc h d \<noteq> None \<and> OI_Dispatch_CancelFunc h d \<noteq> None \<and>
    OI_Dispatch_RegisterTimedFunc mem (Some f) args tmo d \<noteq> None \<and>
    OI_Dispatch_CallFunc run h d \<noteq> None \<and> OI_Dispatch_Run run d \<noteq> None"
proof -
  obtain t where t: "table_inv d t"
    using assms(1) by (auto simp: dispatch_inv_def)
  have run': "\<exists>y. run f a x = Some y \<and> stable x y" if "dispatch_inv x" for f a x
    using run [OF that, of f a] api_stable by blast
  have "OI_Dispatch_RegisterTimedFunc mem (Some f) args tmo d \<noteq> None"
    using Register_ok [OF t _ assms(2,3), of "Some f" mem] free table_invD [OF t] by auto
  moreover have "OI_Dispatch_CallFunc run h d \<noteq> None"
    using OI_Dispatch_CallFunc_total [where run = run, OF _ assms(1)] run' by blast
  moreover have "OI_Dispatch_Run run d \<noteq> None"
    using OI_Dispatch_Run_total [where run = run, OF _ assms(1) idle] run' by blast
  ultimately show ?thesis
    using IsValidHandle_eq [OF t, of h] SetFuncTimeout_ok [OF t assms(2), of h] SuspendFunc_ok [OF t, of h]
      CancelFunc_ok [OF t, of h] by auto
qed

definition blank_disp :: "nat DISPATCH_STATE" where
  "blank_disp = \<lparr>Running = False, ImmediateDispatch = False, MaxUsedEntry = 0, numActiveEntries = 0, TableSize = 0,
     nextTimeout = 0, Table = None, serviceCallback = False, d_init = False,
     d_now = \<lparr>seconds = 2, mseconds = 0\<rparr>, d_requests = [], d_freed = [], d_calls = []\<rparr>"

lemma dispatch_invariant_witness:
  "\<exists>t. Table (snd (OI_Dispatch_Init 3 True blank_disp)\<lparr>d_now := \<lparr>seconds = 3, mseconds = 1\<rparr>\<rparr>) = Some t \<and> length t = 3 \<and>
    active_count t = 0"
proof -
  let ?d = "snd (OI_Dispatch_Init 3 True blank_disp)"
  have init: "OI_Dispatch_Init 3 True blank_disp = (OI_OK, ?d)" "numActiveEntries ?d = 0"
    by (simp_all add: OI_Dispatch_Init_def blank_disp_def)
  from dispatch_invariant [OF init(1) _ api_tick [OF api_idle, of ?d "\<lparr>seconds = 3, mseconds = 1\<rparr>"]] init(2)
  show ?thesis
    by auto
qed

lemma dispatch_no_assertion_witness:
  "OI_Dispatch_CancelFunc 1 demo_disp \<noteq> None \<and> OI_Dispatch_RegisterTimedFunc True (Some 5) (Some [1]) 3 demo_disp \<noteq> None \<and>
    OI_Dispatch_Run (\<lambda>f a x. Some x) demo_disp \<noteq> None"
  using dispatch_no_assertion [of demo_disp 3 "Some [1]" "\<lambda>f a x. Some x" 1 True 5] demo_disp_inv
  by (auto simp: dispatch_inv_def arg_ok_def OI_MAX_INTERVAL_def api_idle demo_disp_def demo_table_def free_entry_def
      ENTRY_IN_USE_def)

lemma Register_handles:
  assumes t: "table_inv d t" and args: "arg_ok args"
    and reg: "OI_Dispatch_RegisterTimedFunc mem f args tmo d = Some (st, g, d1)"
  shows "if st = OI_OK then g \<noteq> 0 \<and> g \<notin> valid_handles d \<and> valid_handles d1 = insert g (valid_handles d)
      else st = OI_STATUS_OUT_OF_MEMORY \<and> \<not> mem \<and> valid_handles d1 = valid_handles d"
proof -
  note conds = Register_conditions [OF reg t]
  have i: "slot t < length t" "\<not> ENTRY_IN_USE (t ! slot t)"
    using slot_free conds by auto
  from Register_ok [OF t _ _ args, of f tmo mem] conds reg obtain e where
    e: "table_inv d1 (t[slot t := e])" "mem \<longrightarrow> st = OI_OK"
      "registered st g f args (Dispatch_timeNowInterval d + tmo) (slot t) (e_salt (t ! slot t)) e"
    by auto
  show ?thesis
  proof (cases "st = OI_OK")
    case True
    with registered_handles [OF t e(1) i] e(3) show ?thesis
      by auto
  next
    case False
    with e(3) have "\<not> live e" "st = OI_STATUS_OUT_OF_MEMORY"
      by (simp_all add: registered_def live_def)
    with failed_handles [OF t e(1) i] False e(2) show ?thesis
      by auto
  qed
qed

lemma Cancel_handles:
  assumes t: "table_inv d t"
  shows "\<exists>d2. OI_Dispatch_CancelFunc h d = Some (if h \<in> valid_handles d then OI_OK else OI_DISPATCH_INVALID_CB_HANDLE, d2) \<and>
    valid_handles d2 = valid_handles d - {h}"
  using CancelFunc_ok [OF t, of h] released_handles [OF t _, of _ h "released (t ! unat (CB_INDEX h))"]
  by (auto simp: live_def valid_handles_eq [OF t] valid_handles_eq split: if_splits)

lemma Suspend_handles:
  assumes t: "table_inv d t"
  shows "\<exists>d2. OI_Dispatch_SuspendFunc h d = Some (if h \<in> valid_handles d then OI_OK else OI_DISPATCH_INVALID_CB_HANDLE, d2) \<and>
    valid_handles d2 = valid_handles d"
  using SuspendFunc_ok [OF t, of h] updated_handles [OF t _, of _ "unat (CB_INDEX h)" "suspended (t ! unat (CB_INDEX h))"]
  by (auto simp: live_def suspended_def valid_in_def valid_handles_eq [OF t] valid_handles_eq split: if_splits)

lemma SetFuncTimeout_handles:
  assumes t: "table_inv d t" and tmo: "tmo \<le> OI_MAX_INTERVAL"
  shows "\<exists>d2. OI_Dispatch_SetFuncTimeout h tmo d = Some (if h \<in> valid_handles d then OI_OK else OI_DISPATCH_INVALID_CB_HANDLE, d2) \<and>
    valid_handles d2 = valid_handles d"
  using SetFuncTimeout_ok [OF t tmo, of h]
    updated_handles [OF t _, of _ "unat (CB_INDEX h)" "retimed (Dispatch_timeNowInterval d + tmo) (t ! unat (CB_INDEX h))"]
  by (auto simp: live_def valid_in_def valid_handles_eq [OF t] valid_handles_eq split: if_splits)

text \<open>C34: What handles mean. A registration that succeeds gives a handle that is not zero and was not
  valid, and makes exactly it valid; one that finds no memory leaves the valid handles as they
  were. Cancelling makes exactly its handle invalid, suspending and changing a timeout leave the
  valid handles alone, and each reports an invalid handle.\<close>

theorem dispatch_handles:
  assumes inv: "dispatch_inv d" and args: "arg_ok args" and tmo: "tmo \<le> OI_MAX_INTERVAL"
    and reg: "OI_Dispatch_RegisterTimedFunc mem f args tmo d = Some (st, g, d1)"
  shows "(if st = OI_OK then g \<noteq> 0 \<and> g \<notin> valid_handles d \<and> valid_handles d1 = insert g (valid_handles d)
      else st = OI_STATUS_OUT_OF_MEMORY \<and> \<not> mem \<and> valid_handles d1 = valid_handles d) \<and>
    (\<exists>d2. OI_Dispatch_CancelFunc h d = Some (if h \<in> valid_handles d then OI_OK else OI_DISPATCH_INVALID_CB_HANDLE, d2) \<and>
      valid_handles d2 = valid_handles d - {h}) \<and>
    (\<exists>d2. OI_Dispatch_SuspendFunc h d = Some (if h \<in> valid_handles d then OI_OK else OI_DISPATCH_INVALID_CB_HANDLE, d2) \<and>
      valid_handles d2 = valid_handles d) \<and>
    (\<exists>d2. OI_Dispatch_SetFuncTimeout h tmo d = Some (if h \<in> valid_handles d then OI_OK else OI_DISPATCH_INVALID_CB_HANDLE, d2) \<and>
      valid_handles d2 = valid_handles d)"
  using inv Register_handles [OF _ args reg] Cancel_handles [of d _ h] Suspend_handles [of d _ h]
    SetFuncTimeout_handles [OF _ tmo, of d _ h]
  unfolding dispatch_inv_def by blast

lemma dispatch_handles_witness:
  "\<exists>g d1. OI_Dispatch_RegisterTimedFunc True (Some 5) None 3 demo_disp = Some (OI_OK, g, d1) \<and>
    g \<notin> valid_handles demo_disp \<and> valid_handles d1 = insert g (valid_handles demo_disp)"
proof -
  have "dispatch_inv demo_disp" "arg_ok None" "(3 :: u16) \<le> OI_MAX_INTERVAL"
    using demo_disp_inv by (auto simp: dispatch_inv_def arg_ok_def OI_MAX_INTERVAL_def)
  moreover have "list_ex (\<lambda>e. \<not> ENTRY_IN_USE e) demo_table"
    by (simp add: demo_table_def free_entry_def ENTRY_IN_USE_def)
  then obtain g d1 where "OI_Dispatch_RegisterTimedFunc True (Some 5) None 3 demo_disp = Some (OI_OK, g, d1)"
    using Register_ok [OF demo_disp_inv, of "Some 5" 3 None True] calculation by auto
  ultimately show ?thesis
    using dispatch_handles [of demo_disp None 3 True "Some 5" OI_OK g d1] by auto
qed

text \<open>C35: A run of the dispatcher with callbacks that may register further functions. Exactly the
  entries that are due when the run starts are called, each once, in the order of the table, with
  the function and the argument block they were registered with, and the run returns their number;
  nothing registered meanwhile is called, and the entries that are not due are left as they are.\<close>

theorem Run_calls_due:
  assumes t: "table_inv d t" and idle: "\<not> Running d" "\<forall>e \<in> set t. e_state e \<noteq> FUNC_RUNNABLE"
    and total: "\<And>f a x. dispatch_inv x \<Longrightarrow> \<exists>y. run f a x = Some y"
    and only: "\<And>f a x y. run f a x = Some y \<Longrightarrow> registers x y" and now: "now = Dispatch_timeNowInterval d"
  shows "\<exists>d' t'. OI_Dispatch_Run run d = Some (int (length (filter (due now) t)), d') \<and>
    d_calls d' = d_calls d @ map call_of (filter (due now) t) \<and> Table d' = Some t' \<and>
    (\<forall>j < length t. ENTRY_IN_USE (t ! j) \<and> \<not> due now (t ! j) \<longrightarrow> t' ! j = t ! j)"
proof -
  have stable: "stable x y" if "run f a x = Some y" for f a x y
    using only [OF that] registers_api api_stable by blast
  obtain c d' where result: "OI_Dispatch_Run run d = Some (c, d')"
    using OI_Dispatch_Run_total [where run = run, OF _ _ idle(1)] total stable table_invD [OF t] by fastforce
  from Run_phases [where run = run, OF _ t this now] stable obtain d1 d2 t2 where
    r: "c = int (length (filter (due now) t))" "frame (d\<lparr>Running := True\<rparr>) d1" "table_inv d1 (map (mark now) t)"
      "if c \<noteq> 0 then call_pass run (length t) 0 d1 = Some d2 else d2 = d1" "table_inv d2 t2"
      "Table d' = Some t2" "d_calls d' = d_calls d2"
    by blast
  have runnable: "filter runnable (map (mark now) t) = map (mark now) (filter (due now) t)"
    using idle(2) by (auto simp: filter_map comp_def runnable_def mark_def intro!: filter_cong arg_cong [of _ _ "map _"])
  have call: "call_of (mark now e) = call_of e" "ENTRY_IN_USE (mark now e) = ENTRY_IN_USE e" for e
    by (simp_all add: mark_def)
  have "d_calls d2 = d_calls d1 @ map call_of (filter (due now) t) \<and>
    (\<forall>j < length t. ENTRY_IN_USE (t ! j) \<and> \<not> due now (t ! j) \<longrightarrow> t2 ! j = t ! j)"
  proof (cases "c = 0")
    case True
    then have "filter (due now) t = []" "d2 = d1" "t2 = map (mark now) t"
      using r table_invD [OF r(3)] table_invD [OF r(5)] by simp_all
    then show ?thesis
      by (simp add: mark_def)
  next
    case False
    have p: "pending 0 (map (mark now) t) (map (mark now) t)" "list_all entry_wf (map (mark now) t)"
      using r(3) runnable_in_use by (auto simp: pending_def table_inv_def list_all_length)
    from call_pass_pending [where run = run and n = "length t" and d' = d2, OF _ r(3) p] only r(4) False obtain u where
      u: "table_inv d2 u" "pending (length t) (map (mark now) t) u"
        "d_calls d2 = d_calls d1 @ map call_of (filter runnable (map (mark now) t))"
      by auto
    have "u = t2"
      using table_invD [OF u(1)] table_invD [OF r(5)] by simp
    then show ?thesis
      using u(2,3) idle(2) call by (auto simp: runnable comp_def pending_def runnable_def mark_def)
  qed
  then show ?thesis
    using result r by (auto simp: frame_def)
qed

lemma demo_run_facts:
  "filter (due 20) demo_table = [hd demo_table]" "20 = Dispatch_timeNowInterval demo_disp" "\<not> Running demo_disp"
  "\<forall>e \<in> set demo_table. e_state e \<noteq> FUNC_RUNNABLE" "d_calls demo_disp = []" "call_of (hd demo_table) = (7, None)"
  "\<not> due 20 (demo_table ! 2)" "ENTRY_IN_USE (demo_table ! 2)" "waiting (demo_table ! 2)"
  "e_timeout (demo_table ! 2) - 20 < -1" "length demo_table = 3"
  by code_simp+

lemma Run_calls_due_witness:
  "\<exists>d' t'. OI_Dispatch_Run (\<lambda>f a x. Some x) demo_disp = Some (1, d') \<and> d_calls d' = [(7, None)] \<and> Table d' = Some t' \<and>
    t' ! 2 = demo_table ! 2"
  using Run_calls_due [OF demo_disp_inv, of "\<lambda>f a x. Some x" 20] demo_run_facts
  by (auto simp: registers_none)

text \<open>C36: No timer is forgotten. After a run, with callbacks that may do anything with the dispatcher,
  if any function that is not suspended is to be called within the range of an interval, then the
  next timeout is that of the earliest of them, and the last service request asks for exactly
  the time left until then, in milliseconds.\<close>

theorem Run_requests_next:
  assumes t: "table_inv d t" and run: "\<And>f a x y. run f a x = Some y \<Longrightarrow> api x y"
    and result: "OI_Dispatch_Run run d = Some (c, d')" and now: "now = Dispatch_timeNowInterval d"
    and tab: "Table d' = Some t'" and some: "w \<in> set t'" "waiting w" "e_timeout w - now < -1"
  shows "\<exists>e \<in> set t'. waiting e \<and> (\<forall>e' \<in> set t'. waiting e' \<longrightarrow> e_timeout e - now \<le> e_timeout e' - now) \<and>
    nextTimeout d' = e_timeout e \<and>
    (serviceCallback d' \<longrightarrow> d_requests d' \<noteq> [] \<and> last (d_requests d') = OI_INTERVAL_TO_MILLISECONDS (e_timeout e - now))"
proof -
  have stable: "stable x y" if "run f a x = Some y" for f a x y
    using run [OF that] api_stable by blast
  from Run_phases [where run = run, OF _ t result now] stable tab obtain d2 s x where
    r: "table_inv d2 t'" "next_pass now (used_indices d2) (-1) d2 = Some (s, d2\<lparr>nextTimeout := x\<rparr>)"
      "nextTimeout d' = x" "serviceCallback d' = serviceCallback d2"
      "d_requests d' = d_requests d2 @ (if s < -1 \<and> serviceCallback d2 then [OI_INTERVAL_TO_MILLISECONDS s] else [])"
    by auto
  note used = used_indices_eq [OF r(1)]
  have sm: "s \<le> -1" "\<forall>i \<in> set (used_indices d2). waiting (t' ! i) \<longrightarrow> s \<le> e_timeout (t' ! i) - now"
    "if s = -1 then x = nextTimeout d2
     else \<exists>i \<in> set (used_indices d2). waiting (t' ! i) \<and> s = e_timeout (t' ! i) - now \<and> x = e_timeout (t' ! i)"
    using next_pass_smallest [OF _ _ r(2)] table_invD [OF r(1)] mark_bound [of t'] used by auto
  have all: "s \<le> e_timeout e - now" if e: "e \<in> set t'" "waiting e" for e
  proof -
    from e(1) obtain j where j: "j < length t'" "t' ! j = e"
      by (auto simp: in_set_conv_nth)
    have "\<not> lower_mark t' (length t') < int j"
      using lower_mark_above [OF j(1)] j(2) e(2) by (auto simp: waiting_def)
    then show ?thesis
      using sm(2) j e(2) used by auto
  qed
  have "s < -1"
    using all [OF some(1,2)] some(3) by (rule le_less_trans)
  then have "s \<noteq> -1"
    by blast
  with sm(3) obtain i where i: "i \<in> set (used_indices d2)" "waiting (t' ! i)" "s = e_timeout (t' ! i) - now"
      "x = e_timeout (t' ! i)"
    by (simp only: if_False) blast
  moreover have "t' ! i \<in> set t'"
    using i(1) used mark_bound [of t'] by auto
  ultimately show ?thesis
    using r(3-5) all \<open>s < -1\<close> by (intro bexI [of _ "t' ! i"]) auto
qed

lemma demo_run: "\<exists>d' t'. OI_Dispatch_Run (\<lambda>f a x. Some x) demo_disp = Some (1, d') \<and> Table d' = Some t' \<and> t' ! 2 = demo_table ! 2 \<and>
    length t' = 3"
proof -
  have "case OI_Dispatch_Run (\<lambda>f a x. Some x) demo_disp of
      Some (c, d') \<Rightarrow> c = 1 \<and> (case Table d' of Some t' \<Rightarrow> t' ! 2 = demo_table ! 2 \<and> length t' = 3 | None \<Rightarrow> False)
    | None \<Rightarrow> False"
    by code_simp
  then show ?thesis
    by (auto split: option.splits)
qed

lemma Run_requests_next_witness:
  "\<exists>d' t' e. OI_Dispatch_Run (\<lambda>f a x. Some x) demo_disp = Some (1, d') \<and> Table d' = Some t' \<and> e \<in> set t' \<and>
    nextTimeout d' = e_timeout e \<and> (\<forall>e' \<in> set t'. waiting e' \<longrightarrow> e_timeout e - 20 \<le> e_timeout e' - 20)"
proof -
  obtain d' t' where r: "OI_Dispatch_Run (\<lambda>f a x. Some x) demo_disp = Some (1, d')" "Table d' = Some t'"
      "t' ! 2 = demo_table ! 2" "length t' = 3"
    using demo_run by blast
  have "t' ! 2 \<in> set t'"
    using r(4) by simp
  from Run_requests_next [OF demo_disp_inv _ r(1) demo_run_facts(2) r(2) this] r(1-3) demo_run_facts(9,10) show ?thesis
    by (auto simp: api_idle)
qed

text \<open>Deadlines are met across the wrap of the 16-bit clock. A function registered (or given a new
  timeout) at one time is due at a later time exactly when its timeout has passed, in tenths of a
  second, as long as it is not more than 3276.7 seconds late.\<close>

theorem due_after_timeout:
  assumes "time_ok (d_now d)" "time_ok (d_now d')" "tmo \<le> OI_MAX_INTERVAL"
    and "e_timeout e = Dispatch_timeNowInterval d + tmo" "ENTRY_IN_USE e" "e_state e \<noteq> FUNC_SUSPENDED"
    and "tenths (d_now d) \<le> tenths (d_now d')" "tenths (d_now d') - tenths (d_now d) < int (unat tmo) + 32768"
  shows "due (Dispatch_timeNowInterval d') e \<longleftrightarrow> int (unat tmo) \<le> tenths (d_now d') - tenths (d_now d)"
proof -
  let ?i = "tenths (d_now d) + int (unat tmo) - tenths (d_now d')"
  have "e_timeout e - Dispatch_timeNowInterval d' = word_of_int ?i"
    using assms(1,2,4) by (simp add: timeNow_tenths)
  moreover have "unat tmo \<le> 32767"
    using assms(3) by (simp add: OI_MAX_INTERVAL_def word_le_nat_alt)
  then have "int (unat tmo) \<le> 32767"
    by linarith
  then have "sint (word_of_int ?i :: 16 word) = ?i"
    using assms(7,8) by (intro sint_wrap) simp_all
  ultimately have "sint (e_timeout e - Dispatch_timeNowInterval d') = ?i"
    by (simp only:)
  then show ?thesis
    using assms(5,6) unfolding due_def by auto
qed

lemma due_after_timeout_witness:
  "due (Dispatch_timeNowInterval (demo_disp\<lparr>d_now := \<lparr>seconds = 6553, mseconds = 900\<rparr>\<rparr>))
     ((hd demo_table)\<lparr>e_timeout := Dispatch_timeNowInterval (demo_disp\<lparr>d_now := \<lparr>seconds = 6553, mseconds = 400\<rparr>\<rparr>) + 5\<rparr>)"
  using due_after_timeout [of "demo_disp\<lparr>d_now := \<lparr>seconds = 6553, mseconds = 400\<rparr>\<rparr>"
      "demo_disp\<lparr>d_now := \<lparr>seconds = 6553, mseconds = 900\<rparr>\<rparr>" 5
      "(hd demo_table)\<lparr>e_timeout := Dispatch_timeNowInterval (demo_disp\<lparr>d_now := \<lparr>seconds = 6553, mseconds = 400\<rparr>\<rparr>) + 5\<rparr>"]
  by (simp add: time_ok_def tenths_def OI_MAX_INTERVAL_def demo_table_def free_entry_def ENTRY_IN_USE_def)

text \<open>The argument block that freeing an entry gives back.\<close>

definition freed_block :: "'f DISPATCH_ENTRY \<Rightarrow> bytes list" where
  "freed_block e = (if ENTRY_IN_USE e \<and> unat (e_argSize e) > MAX_INLINE_ARG_SIZE
     then (case e_arg e of MallocArg (Some block) \<Rightarrow> [block] | _ \<Rightarrow> []) else [])"

lemma FreeCBEntry_below:
  assumes "Table d = Some t" "i < length t" "int i < MaxUsedEntry d" "0 \<le> numActiveEntries d"
  shows "\<exists>d'. FreeCBEntry i d = Some d' \<and> d_freed d' = d_freed d @ freed_block (t ! i) \<and>
    Table d' = Some (t[i := released (t ! i)]) \<and> MaxUsedEntry d' = MaxUsedEntry d \<and>
    numActiveEntries d' = numActiveEntries d - (if e_state (t ! i) = FUNC_ACTIVE then 1 else 0)"
  using assms by (simp add: FreeCBEntry_def Let_def monad_simps released_def freed_block_def)

lemma free_entries_below:
  "table_inv d t \<Longrightarrow> MaxUsedEntry d = int m \<Longrightarrow> i \<le> m \<Longrightarrow> m < i + n \<Longrightarrow>
   \<exists>d'. free_entries n i d = Some d' \<and> d_freed d' = d_freed d @ concat (map freed_block (drop i (take m t)))"
proof (induction n arbitrary: i d t)
  case (Suc n)
  note inv = table_invD [OF Suc.prems(1)] table_inv_mark [OF Suc.prems(1)]
  show ?case
  proof (cases "i = m")
    case False
    then have i: "i < m" "m < length t"
      using Suc.prems inv by linarith+
    have "0 \<le> numActiveEntries d"
      using Suc.prems(1) active_count_nonneg [of t] by (simp add: table_inv_def counts_inv_def)
    from FreeCBEntry_below [OF _ _ _ this, of t i] inv i Suc.prems(2) obtain d2 where
      d2: "FreeCBEntry i d = Some d2" "d_freed d2 = d_freed d @ freed_block (t ! i)" "MaxUsedEntry d2 = int m"
      by auto
    have t2: "table_inv d2 (t[i := released (t ! i)])"
      using FreeCBEntry_ok [OF Suc.prems(1), of i] i d2(1) by auto
    have "drop i (take m t) = t ! i # drop (Suc i) (take m t)"
      using i by (metis Cons_nth_drop_Suc length_take min.absorb4 nth_take)
    moreover have "drop (Suc i) (take m (t[i := released (t ! i)])) = drop (Suc i) (take m t)"
      by (simp add: take_update_swap drop_update_cancel)
    ultimately show ?thesis
      using Suc.IH [OF t2 d2(3), of "Suc i"] i Suc.prems(2,4) d2 by (auto simp: monad_simps)
  qed (use Suc.prems in simp)
qed simp

text \<open>Terminating the dispatcher frees the argument blocks of the entries below the high-water mark and
  not the block of the entry at the mark, which is in use: the loop stops one entry early, and the
  block of the last registered function is leaked.\<close>

theorem Terminate_leaks_last:
  assumes "table_inv d t" "MaxUsedEntry d = int m"
  shows "\<exists>d'. OI_Dispatch_Terminate d = Some d' \<and> Table d' = None \<and> ENTRY_IN_USE (t ! m) \<and>
    d_freed d' = d_freed d @ concat (map freed_block (take m t))"
proof -
  have "ENTRY_IN_USE (t ! m)"
    using assms lower_mark_used [of t "length t" m] by (simp add: table_inv_def counts_inv_def)
  moreover have "m < length t"
    using table_inv_mark [OF assms(1)] assms(2) by simp
  ultimately show ?thesis
    using free_entries_below [OF assms, of 0 "length t"] table_invD [OF assms(1)]
    by (auto simp: OI_Dispatch_Terminate_def)
qed

definition demo_leak :: "nat DISPATCH_STATE" where
  "demo_leak = demo_disp\<lparr>Table := Some (demo_table[2 := (demo_table ! 2)\<lparr>e_argSize := 9, e_arg := MallocArg (Some [1, 2, 3, 4, 5, 6, 7, 8, 9])\<rparr>])\<rparr>"

lemma Terminate_leaks_last_witness:
  "\<exists>d'. OI_Dispatch_Terminate demo_leak = Some d' \<and> d_freed d' = [] \<and>
    freed_block (the (Table demo_leak) ! 2) = [[1, 2, 3, 4, 5, 6, 7, 8, 9]]"
proof -
  have "table_inv demo_leak (the (Table demo_leak))" "MaxUsedEntry demo_leak = int 2"
    by (simp_all add: demo_leak_def table_inv_def counts_inv_def demo_disp_def demo_table_def free_entry_def entry_wf_def
        ENTRY_IN_USE_def call_arg_def active_count_def MAX_INLINE_ARG_SIZE_def)
  moreover have "concat (map freed_block (take 2 (the (Table demo_leak)))) = []" "d_freed demo_leak = []"
    "freed_block (the (Table demo_leak) ! 2) = [[1, 2, 3, 4, 5, 6, 7, 8, 9]]"
    by code_simp+
  ultimately show ?thesis
    using Terminate_leaks_last by fastforce
qed

end
