(* ===== verification/ObexBulk.thy ===== *)
theory ObexBulk
  imports ObexHeaders
begin

unbundle bit_operations_syntax

text \<open>
  Bulk transfers of \<open>profiles/obex/obexcommon.c\<close>: a list of data blocks is sent as a series of
  packets with one body header each.

  The linked list from \<open>*current\<close> on is a list; the blocks that the function moves past stay in
  the application's list and are kept apart. The lower layer's \<open>ifc_write\<close> is a parameter: it gets the
  connection, the mbuf, the flag asking for an early confirmation and the busy flag, and gives a
  status, the new busy flag and the new connection. The answers of the allocator are a function of
  the number of the packet. The loop of \<open>OI_OBEXCOMMON_SendBulk\<close> need not end, so it is a partial
  function.
\<close>

section \<open>Data\<close>

record OBEX_BULK_DATA =
  blockBuffer :: "bytes option"
  blockSize :: u32
  bytesSent :: u32
  bytesConfirmed :: u32
  bd_final :: bool

definition OI_OBEX_SRM_ENABLED :: u8 where "OI_OBEX_SRM_ENABLED = 1"
definition BULK_PUT_HDR_SIZE :: nat where "BULK_PUT_HDR_SIZE = 6"

text \<open>The variables of the loop: the blocks passed and those from \<open>bulkDataCurrent\<close> on, and for the
  ifc_write confirmations the index of the block each mbuf has as its context.\<close>

record 'c BULK_STATE =
  bk_passed :: "OBEX_BULK_DATA list"
  bk_current :: "OBEX_BULK_DATA list"
  bk_status :: OI_STATUS
  bk_opcode :: u8
  bk_headerId :: u8
  bk_final :: bool
  bk_busy :: bool
  bk_conn :: 'c
  bk_contexts :: "nat list"

section \<open>Blocks\<close>

definition OI_OBEXCOMMON_AllocBulkData ::
    "(nat \<Rightarrow> bool) \<Rightarrow> (bytes option \<times> u32) list \<Rightarrow> OI_STATUS \<times> OBEX_BULK_DATA list" where
  "OI_OBEXCOMMON_AllocBulkData mem buffers =
     (if \<forall>i < length buffers. mem i
      then (OI_OK, map (\<lambda>(buffer, n). \<lparr>blockBuffer = (if n > 0 then buffer else None), blockSize = n, bytesSent = 0,
              bytesConfirmed = 0, bd_final = False\<rparr>) buffers)
      else (OI_STATUS_NO_RESOURCES, []))"

section \<open>One packet\<close>

text \<open>The first pass over the blocks: how many go into the packet, how many bytes they give, and
  whether the transfer ends with it.\<close>

fun scan_blocks ::
    "OBEX_BULK_DATA list \<Rightarrow> u32 \<Rightarrow> nat \<Rightarrow> u32 \<Rightarrow> u8 \<Rightarrow> u8 \<Rightarrow> bool \<Rightarrow> (nat \<times> u32 \<times> u8 \<times> u8 \<times> bool) option" where
  "scan_blocks [] bodyMax numBlocks bodyLen opcode headerId final = Some (numBlocks, bodyLen, opcode, headerId, final)"
| "scan_blocks (b # bs) bodyMax numBlocks bodyLen opcode headerId final =
     (let toSend = blockSize b - bytesSent b in
      if toSend > bodyMax then Some (Suc numBlocks, bodyLen + bodyMax, opcode, headerId, final)
      else if bd_final b then do {
        OI_ASSERT (bs = []);
        scan_blocks bs (bodyMax - toSend) (Suc numBlocks) (bodyLen + toSend)
          (OI_OBEX_FINAL (if OI_OBEX_FINAL opcode = OI_OBEX_FINAL OI_OBEX_RSP_CONTINUE then OI_OBEX_RSP_OK else opcode))
          OI_OBEX_HDR_END_OF_BODY True
      }
      else scan_blocks bs (bodyMax - toSend) (Suc numBlocks) (bodyLen + toSend) opcode headerId final)"

definition bulk_header :: "u8 \<Rightarrow> u8 \<Rightarrow> u32 \<Rightarrow> OI_BYTE_STREAM option" where
  "bulk_header opcode headerId bodyLen = do {
     bs \<leftarrow> ByteStream_Init blank_stream 0 (replicate BULK_PUT_HDR_SIZE 0) 6;
     bs \<leftarrow> ByteStream_Open bs BYTESTREAM_WRITE;
     bs \<leftarrow> ByteStream_PutUINT8 bs opcode;
     bs \<leftarrow> ByteStream_PutUINT16 bs (ucast (bodyLen + 6) :: u16) OI_BIG_ENDIAN_BYTE_ORDER;
     bs \<leftarrow> ByteStream_PutUINT8 bs headerId;
     bs \<leftarrow> ByteStream_PutUINT16 bs (ucast (bodyLen + 3) :: u16) OI_BIG_ENDIAN_BYTE_ORDER;
     Some (ByteStream_Close bs)
   }"

text \<open>The second pass: the blocks' bytes are appended, without a look at the status. It gives the
  blocks it is done with and the blocks from the new position on.\<close>

fun fill_blocks ::
    "nat \<Rightarrow> OI_MBUF \<Rightarrow> u32 \<Rightarrow> OBEX_BULK_DATA list \<Rightarrow> (OI_MBUF \<times> OBEX_BULK_DATA list \<times> OBEX_BULK_DATA list) option" where
  "fill_blocks 0 m bodyLen bs = Some (m, [], bs)"
| "fill_blocks (Suc n) m bodyLen [] = None"
| "fill_blocks (Suc n) m bodyLen (b # bs) = do {
     let rest = blockSize b - bytesSent b;
     let len = (if rest > bodyLen then bodyLen else rest);
     (_, m) \<leftarrow> OI_MBUF_Append False m (map_option (drop (unat (bytesSent b))) (blockBuffer b)) (ucast len) MBUF_KEEP;
     let b = b\<lparr>bytesSent := bytesSent b + len\<rparr>;
     if bytesSent b = blockSize b then do {
       (m, past, bs) \<leftarrow> fill_blocks n m (bodyLen - len) bs;
       Some (m, b # past, bs)
     } else fill_blocks n m (bodyLen - len) (b # bs)
   }"

section \<open>The loop\<close>

text \<open>The body of the do-while loop; the first component says whether it is repeated.\<close>

definition send_bulk_step ::
    "('c \<Rightarrow> OI_MBUF \<Rightarrow> bool \<Rightarrow> bool \<Rightarrow> OI_STATUS \<times> bool \<times> 'c) \<Rightarrow> (nat \<Rightarrow> bool) \<Rightarrow> OBEX_COMMON \<Rightarrow> 'c BULK_STATE \<Rightarrow>
       (bool \<times> 'c BULK_STATE) option" where
  "send_bulk_step ifc_write mem common st = do {
     (numBlocks, bodyLen, opcode, headerId, final) \<leftarrow>
       scan_blocks (bk_current st) (ucast (maxSendPktLen common) - 6) 0 0 (bk_opcode st) (bk_headerId st) (bk_final st);
     let st = st\<lparr>bk_opcode := opcode, bk_headerId := headerId, bk_final := final\<rparr>;
     case OI_MBUF_Alloc (mem (length (bk_contexts st))) (of_nat (1 + numBlocks)) of
       None \<Rightarrow> Some (False, st\<lparr>bk_status := OI_STATUS_OUT_OF_MEMORY\<rparr>)
     | Some m \<Rightarrow> do {
         bs \<leftarrow> bulk_header opcode headerId bodyLen;
         (_, m) \<leftarrow> OI_MBUF_Append False m (Some (bs_data bs)) (bs_size bs) MBUF_COPY;
         (m, past, rest) \<leftarrow> fill_blocks numBlocks m bodyLen (bk_current st);
         let (status, busy, conn) = ifc_write (bk_conn st) m (rest = []) (bk_busy st);
         let st = st\<lparr>bk_status := status, bk_busy := busy, bk_conn := conn\<rparr>;
         if \<not> OI_SUCCESS status then do {
           _ \<leftarrow> OI_MBUF_Free m;
           Some (False, st\<lparr>bk_current := past @ rest\<rparr>)
         } else do {
           let st = st\<lparr>bk_contexts := bk_contexts st @ [length (bk_passed st)],
                       bk_passed := bk_passed st @ past, bk_current := rest\<rparr>;
           if srm common AND OI_OBEX_SRM_ENABLED = 0 then Some (False, st\<lparr>bk_busy := True\<rparr>)
           else Some (rest \<noteq> [] \<and> \<not> busy, st)
         }
       }
   }"

partial_function (option) send_bulk_loop ::
    "('c BULK_STATE \<Rightarrow> (bool \<times> 'c BULK_STATE) option) \<Rightarrow> 'c BULK_STATE \<Rightarrow> 'c BULK_STATE option" where
  "send_bulk_loop step st =
     Option.bind (step st) (\<lambda>(again, st). if again then send_bulk_loop step st else Some st)"

definition OI_OBEXCOMMON_SendBulk ::
    "('c \<Rightarrow> OI_MBUF \<Rightarrow> bool \<Rightarrow> bool \<Rightarrow> OI_STATUS \<times> bool \<times> 'c) \<Rightarrow> (nat \<Rightarrow> bool) \<Rightarrow> OBEX_COMMON \<Rightarrow> 'c \<Rightarrow>
       OBEX_BULK_DATA list \<Rightarrow> bool \<Rightarrow> 'c BULK_STATE option" where
  "OI_OBEXCOMMON_SendBulk ifc_write mem common conn current busy = do {
     let st = \<lparr>bk_passed = [], bk_current = current, bk_status = OI_OK, bk_opcode = currentOpcode common,
               bk_headerId = OI_OBEX_HDR_BODY, bk_final = False, bk_busy = busy, bk_conn = conn, bk_contexts = []\<rparr>;
     case current of
       [] \<Rightarrow> Some st
     | b # bs \<Rightarrow> do {
         OI_ASSERT (bytesSent b \<le> blockSize b);
         OI_ASSERT (bytesConfirmed b \<le> blockSize b);
         send_bulk_loop (send_bulk_step ifc_write mem common) st
       }
   }"

section \<open>What is left of a transfer\<close>

definition block_data :: "OBEX_BULK_DATA \<Rightarrow> bytes" where
  "block_data b = take (unat (blockSize b)) (case blockBuffer b of None \<Rightarrow> [] | Some buf \<Rightarrow> buf)"

definition block_rest :: "OBEX_BULK_DATA \<Rightarrow> bytes" where
  "block_rest b = drop (unat (bytesSent b)) (block_data b)"

definition bulk_rest :: "OBEX_BULK_DATA list \<Rightarrow> bytes" where
  "bulk_rest bs = concat (map block_rest bs)"

definition block_ok :: "OBEX_BULK_DATA \<Rightarrow> bool" where
  "block_ok b \<longleftrightarrow> bytesSent b \<le> blockSize b \<and> length (block_data b) = unat (blockSize b) \<and> bytesConfirmed b \<le> blockSize b"

text \<open>Only the last block of a list may be the final one.\<close>

definition bulk_ok :: "OBEX_BULK_DATA list \<Rightarrow> bool" where
  "bulk_ok bs \<longleftrightarrow> list_all block_ok bs \<and> (\<forall>b \<in> set (butlast bs). \<not> bd_final b)"

definition ends :: "OBEX_BULK_DATA list \<Rightarrow> bool" where
  "ends bs \<longleftrightarrow> bs \<noteq> [] \<and> bd_final (last bs)"

lemma unat_lt_u32: "unat (w :: u32) < 4294967296"
  using unsigned_less [of w, where 'a = nat] by simp

lemma bulk_rest_simps [simp]: "bulk_rest [] = []" "bulk_rest (b # bs) = block_rest b @ bulk_rest bs"
  by (simp_all add: bulk_rest_def)

lemma bulk_ok_Cons: "bulk_ok (b # bs) \<Longrightarrow> block_ok b \<and> bulk_ok bs \<and> (bs \<noteq> [] \<longrightarrow> \<not> bd_final b)"
  by (auto simp: bulk_ok_def split: if_splits)

lemma length_block_rest: "block_ok b \<Longrightarrow> unat (blockSize b - bytesSent b) = length (block_rest b)"
  by (simp add: block_ok_def block_rest_def unat_sub)

text \<open>The number of blocks that have a part in the next \<open>k\<close> bytes.\<close>

fun blocks_for :: "nat \<Rightarrow> OBEX_BULK_DATA list \<Rightarrow> nat" where
  "blocks_for k [] = 0"
| "blocks_for k (b # bs) = (if length (block_rest b) > k then 1 else Suc (blocks_for (k - length (block_rest b)) bs))"

lemma blocks_for_le: "blocks_for k bs \<le> length bs"
  by (induction bs arbitrary: k) auto

definition final_opcode :: "u8 \<Rightarrow> u8" where
  "final_opcode op = OI_OBEX_FINAL (if OI_OBEX_FINAL op = OI_OBEX_FINAL OI_OBEX_RSP_CONTINUE then OI_OBEX_RSP_OK else op)"

definition last_part :: "nat \<Rightarrow> OBEX_BULK_DATA list \<Rightarrow> bool" where
  "last_part k bs \<longleftrightarrow> length (bulk_rest bs) \<le> k \<and> ends bs"

lemma last_part_Cons:
  "bs \<noteq> [] \<Longrightarrow> length (block_rest b) \<le> k \<Longrightarrow> last_part k (b # bs) = last_part (k - length (block_rest b)) bs"
  by (auto simp: last_part_def ends_def)

lemma scan_blocks_ok:
  assumes "bulk_ok bs" "unat sent + unat k < 4294967296"
  shows "scan_blocks bs k n sent op hid fin =
    Some (n + blocks_for (unat k) bs, sent + of_nat (min (unat k) (length (bulk_rest bs))),
      if last_part (unat k) bs then final_opcode op else op,
      if last_part (unat k) bs then OI_OBEX_HDR_END_OF_BODY else hid, last_part (unat k) bs \<or> fin)"
  using assms
proof (induction bs arbitrary: k n sent op hid fin)
  case Nil
  then show ?case
    by (simp add: last_part_def ends_def)
next
  case (Cons b bs)
  note ok = bulk_ok_Cons [OF Cons.prems(1)]
  let ?r = "blockSize b - bytesSent b"
  have r: "unat ?r = length (block_rest b)"
    using length_block_rest ok by blast
  then have r2: "of_nat (length (block_rest b)) = ?r"
    by (simp flip: r)
  show ?case
  proof (cases "?r > k")
    case True
    then have "unat k < length (block_rest b)"
      using r by (simp add: word_less_nat_alt)
    then show ?thesis
      using True by (simp add: last_part_def ends_def)
  next
    case False
    then have le: "length (block_rest b) \<le> unat k"
      using r by (simp add: word_less_nat_alt)
    have k: "unat (k - ?r) = unat k - length (block_rest b)"
      using le r by (simp add: unat_sub word_le_nat_alt)
    have s: "unat (sent + ?r) = unat sent + length (block_rest b)"
      using le r Cons.prems(2) by (simp add: unat_word_ariths)
    have sum: "sent + ?r + of_nat (min (unat k - length (block_rest b)) (length (bulk_rest bs))) =
        sent + of_nat (min (unat k) (length (block_rest b) + length (bulk_rest bs)))"
    proof -
      have "min (unat k) (length (block_rest b) + length (bulk_rest bs)) =
          length (block_rest b) + min (unat k - length (block_rest b)) (length (bulk_rest bs))"
        using le by simp
      then show ?thesis
        using r2 by (simp only: of_nat_add add.assoc)
    qed
    have IH: "scan_blocks bs (k - ?r) (Suc n) (sent + ?r) op' hid2 fin' =
        Some (Suc n + blocks_for (unat k - length (block_rest b)) bs,
          sent + of_nat (min (unat k) (length (block_rest b) + length (bulk_rest bs))),
          if last_part (unat k - length (block_rest b)) bs then final_opcode op' else op',
          if last_part (unat k - length (block_rest b)) bs then OI_OBEX_HDR_END_OF_BODY else hid2,
          last_part (unat k - length (block_rest b)) bs \<or> fin')" for op' hid2 fin'
      using Cons.IH [of "sent + ?r" "k - ?r" "Suc n" op' hid2 fin'] ok k s sum le Cons.prems(2) by simp
    show ?thesis
    proof (cases "bs = []")
      case True
      then show ?thesis
        using False le r2 by (simp add: final_opcode_def last_part_def ends_def min_def)
    next
      case bs: False
      then show ?thesis
        using False le ok IH last_part_Cons [OF bs le] by (simp add: Let_def)
    qed
  qed
qed

lemma fill_step:
  assumes ok: "block_ok b" and m: "mbuf_good m" "0 < mbuf_room m" "length (mbuf_content m) + n < 65536"
    and n: "n \<le> length (block_rest b)"
  shows "\<exists>m'. OI_MBUF_Append False m (map_option (drop (unat (bytesSent b))) (blockBuffer b)) (of_nat n) MBUF_KEEP =
      Some (OI_OK, m') \<and> mbuf_good m' \<and> mbuf_content m' = mbuf_content m @ take n (block_rest b) \<and>
      mbuf_room m - 1 \<le> mbuf_room m'"
proof (cases "n = 0")
  case True
  then show ?thesis
    using mb.append_nothing [OF m(1)] m by (intro exI [of _ m]) simp
next
  case False
  then obtain buf where buf: "blockBuffer b = Some buf"
    using n by (cases "blockBuffer b") (auto simp: block_rest_def block_data_def)
  have len: "unat (of_nat n :: u16) = n"
    using m(3) by (simp add: unat_of_nat_u16)
  have "n + unat (bytesSent b) \<le> unat (blockSize b)"
    using n False buf by (auto simp: block_rest_def block_data_def)
  then have "take n (drop (unat (bytesSent b)) buf) = take n (block_rest b)"
    using buf by (simp add: block_rest_def block_data_def take_drop min_def)
  moreover have "n \<le> length (drop (unat (bytesSent b)) buf)"
    using n buf by (simp add: block_rest_def block_data_def)
  moreover have "(of_nat n :: u16) \<noteq> 0"
    using len False by auto
  ultimately show ?thesis
    using mb.append_fragment [OF m(1) _ _ m(2), of "drop (unat (bytesSent b)) buf" "of_nat n" MBUF_KEEP] len m(3) buf
    by (auto simp: cheap_def disposition_ok_def)
qed

definition sent_more :: "nat \<Rightarrow> OBEX_BULK_DATA \<Rightarrow> OBEX_BULK_DATA" where
  "sent_more n b = b\<lparr>bytesSent := bytesSent b + of_nat n\<rparr>"

lemma sent_more:
  assumes "block_ok b" "n \<le> length (block_rest b)"
  shows "block_ok (sent_more n b)" "block_rest (sent_more n b) = drop n (block_rest b)" "bd_final (sent_more n b) = bd_final b"
    "bytesSent (sent_more n b) = blockSize (sent_more n b) \<longleftrightarrow> n = length (block_rest b)"
proof -
  have le: "unat (bytesSent b) + n \<le> unat (blockSize b)"
    using assms by (auto simp: block_ok_def block_rest_def word_le_nat_alt)
  moreover have "unat (blockSize b) < 4294967296"
    by (rule unat_lt_u32)
  ultimately have u: "unat (bytesSent b + of_nat n) = unat (bytesSent b) + n"
    by (simp add: unat_word_ariths unat_of_nat_u32)
  show "block_ok (sent_more n b)" "block_rest (sent_more n b) = drop n (block_rest b)" "bd_final (sent_more n b) = bd_final b"
    using assms(1) le u
    by (simp_all add: sent_more_def block_ok_def block_rest_def block_data_def word_le_nat_alt add.commute)
  show "bytesSent (sent_more n b) = blockSize (sent_more n b) \<longleftrightarrow> n = length (block_rest b)"
    using assms(1) le u by (auto simp: sent_more_def block_ok_def block_rest_def word_unat_eq_iff)
qed

lemma fill_blocks_ok:
  assumes "bulk_ok bs" "unat len = min k (length (bulk_rest bs))" "k < 65536" "mbuf_good m" "blocks_for k bs \<le> mbuf_room m"
    and "length (mbuf_content m) + unat len < 65536"
  shows "\<exists>m' past rest. fill_blocks (blocks_for k bs) m len bs = Some (m', past, rest) \<and> mbuf_good m' \<and>
    mbuf_content m' = mbuf_content m @ take k (bulk_rest bs) \<and> bulk_rest rest = drop k (bulk_rest bs) \<and> bulk_rest past = [] \<and>
    list_all block_ok (past @ rest) \<and> map bd_final (past @ rest) = map bd_final bs \<and>
    (length (bulk_rest bs) \<le> k \<longrightarrow> rest = [])"
  using assms
proof (induction bs arbitrary: k len m)
  case (Cons b bs)
  note ok = bulk_ok_Cons [OF Cons.prems(1)]
  let ?n = "min k (length (block_rest b))"
  let ?r = "blockSize b - bytesSent b"
  have r: "unat ?r = length (block_rest b)"
    using length_block_rest ok by blast
  have lt: "unat len < 65536"
    using Cons.prems(2,3) by simp
  have n: "(if ?r > len then len else ?r) = of_nat ?n"
  proof (rule word_unat_eqI)
    have "?n < 65536"
      using Cons.prems(3) by simp
    then show "unat (if ?r > len then len else ?r) = unat (of_nat ?n :: u32)"
      using r Cons.prems(2) by (simp add: word_less_nat_alt unat_of_nat_u32)
  qed
  have u: "(ucast (of_nat ?n :: u32) :: u16) = of_nat ?n"
    using Cons.prems(3) by (intro word_unat_eqI) (simp add: unsigned_ucast_eq unat_of_nat_u16 unat_of_nat_u32 take_bit_nat_eq_self)
  have room: "0 < mbuf_room m" "length (mbuf_content m) + ?n < 65536"
    using Cons.prems(2,5,6) by (auto split: if_splits)
  from fill_step [OF _ Cons.prems(4) room, of b] ok obtain m1 where
    m1: "OI_MBUF_Append False m (map_option (drop (unat (bytesSent b))) (blockBuffer b)) (of_nat ?n) MBUF_KEEP = Some (OI_OK, m1)"
      "mbuf_good m1" "mbuf_content m1 = mbuf_content m @ take ?n (block_rest b)" "mbuf_room m - 1 \<le> mbuf_room m1"
    by auto
  note sm = sent_more [of b ?n]
  have step: "fill_blocks (Suc j) m len (b # bs) =
      (if ?n = length (block_rest b) then do {
         (m, past, rest) \<leftarrow> fill_blocks j m1 (len - of_nat ?n) bs;
         Some (m, sent_more ?n b # past, rest)
       } else fill_blocks j m1 (len - of_nat ?n) (sent_more ?n b # bs))" for j
    using m1(1) sm(4) ok n u by (simp add: Let_def monad_simps sent_more_def)
  show ?case
  proof (cases "length (block_rest b) > k")
    case True
    then show ?thesis
      using step [of 0] m1 sm ok by (auto simp: bulk_ok_def list_all_iff)
  next
    case False
    then have nk: "?n = length (block_rest b)"
      by simp
    have "unat (len - of_nat ?n) = min (k - ?n) (length (bulk_rest bs))"
      using Cons.prems(2,3) nk False by (simp add: unat_sub unat_of_nat_u32 word_le_nat_alt)
    moreover have "length (mbuf_content m1) + unat (len - of_nat ?n) < 65536"
      using calculation Cons.prems(2,6) m1(3) nk by simp
    moreover have "blocks_for (k - ?n) bs \<le> mbuf_room m1" "k - ?n < 65536" "bulk_ok bs"
      using m1(4) Cons.prems(3,5) False nk ok by auto
    ultimately have "\<exists>m' past rest. fill_blocks (blocks_for (k - ?n) bs) m1 (len - of_nat ?n) bs = Some (m', past, rest) \<and>
        mbuf_good m' \<and> mbuf_content m' = mbuf_content m1 @ take (k - ?n) (bulk_rest bs) \<and>
        bulk_rest rest = drop (k - ?n) (bulk_rest bs) \<and> bulk_rest past = [] \<and> list_all block_ok (past @ rest) \<and>
        map bd_final (past @ rest) = map bd_final bs \<and> (length (bulk_rest bs) \<le> k - ?n \<longrightarrow> rest = [])"
      using m1(2) by (intro Cons.IH)
    then obtain m2 past rest where m2: "fill_blocks (blocks_for (k - ?n) bs) m1 (len - of_nat ?n) bs = Some (m2, past, rest)"
        "mbuf_good m2" "mbuf_content m2 = mbuf_content m1 @ take (k - ?n) (bulk_rest bs)"
        "bulk_rest rest = drop (k - ?n) (bulk_rest bs)" "bulk_rest past = []" "list_all block_ok (past @ rest)"
        "map bd_final (past @ rest) = map bd_final bs" "length (bulk_rest bs) \<le> k - ?n \<longrightarrow> rest = []"
      by blast
    show ?thesis
      using step [of "blocks_for (k - ?n) bs"] m2 m1(3) nk False sm ok
      by (intro exI [of _ m2] exI [of _ "sent_more ?n b # past"] exI [of _ rest]) (auto simp: monad_simps)
  qed
qed simp

section \<open>One packet\<close>

definition bulk_packet :: "u8 \<Rightarrow> u8 \<Rightarrow> bytes \<Rightarrow> bytes" where
  "bulk_packet op hid body = op # SetUINT16_BigEndian (of_nat (6 + length body) :: u16) @
     hid # SetUINT16_BigEndian (of_nat (3 + length body) :: u16) @ body"

lemma bulk_header_ok:
  "\<exists>bs. bulk_header op hid len = Some bs \<and> bs_size bs = 6 \<and> 6 \<le> length (bs_data bs) \<and>
     take 6 (bs_data bs) =
       op # SetUINT16_BigEndian (ucast (len + 6) :: u16) @ hid # SetUINT16_BigEndian (ucast (len + 3) :: u16)"
proof -
  from open_write_stream [of 6 "replicate 6 0"] obtain b0 bs where
    init: "ByteStream_Init blank_stream 0 (replicate 6 0) 6 = Some b0" "ByteStream_Open b0 BYTESTREAM_WRITE = Some bs"
    and bs: "bs_writing bs" "bs_room bs = 6" "bs_written bs = []"
    by (auto simp: bind_Some_iff)
  let ?v1 = "[op]" and ?v2 = "SetUINT16_BigEndian (ucast (len + 6) :: u16)" and ?v3 = "[hid]"
    and ?v4 = "SetUINT16_BigEndian (ucast (len + 3) :: u16)"
  let ?b1 = "bs_put ?v1 bs"
  let ?b2 = "bs_put ?v2 ?b1"
  let ?b3 = "bs_put ?v3 ?b2"
  let ?b4 = "bs_put ?v4 ?b3"
  have b1: "bs_writing ?b1" "bs_room ?b1 = 5" "bs_written ?b1 = ?v1"
    using bs by (simp_all add: bs_writing_wf)
  have b2: "bs_writing ?b2" "bs_room ?b2 = 3" "bs_written ?b2 = ?v1 @ ?v2"
    using b1 by (simp_all add: bs_writing_wf)
  have b3: "bs_writing ?b3" "bs_room ?b3 = 2" "bs_written ?b3 = ?v1 @ ?v2 @ ?v3"
    using b2 by (simp_all add: bs_writing_wf)
  have b4: "bs_writing ?b4" "bs_written ?b4 = ?v1 @ ?v2 @ ?v3 @ ?v4"
    using b3 by (simp_all add: bs_writing_wf)
  have "bulk_header op hid len = Some (ByteStream_Close ?b4)"
    using init bs(1,2) b1(1,2) b2(1,2) b3(1,2)
    by (simp add: bulk_header_def BULK_PUT_HDR_SIZE_def monad_simps bs_write_simps)
  moreover have pos: "unat (bs_pos ?b4) = 6"
    using closed_written(5) [OF b4(1)] b4(2) by simp
  then have "bs_pos ?b4 = 6"
    by (intro word_unat_eqI) simp
  ultimately show ?thesis
    using closed_written [OF b4(1)] b4(2) pos by (intro exI [of _ "ByteStream_Close ?b4"]) simp
qed

text \<open>The packet for the next \<open>k\<close> bytes of the blocks.\<close>

definition part_packet :: "u8 \<Rightarrow> u8 \<Rightarrow> nat \<Rightarrow> OBEX_BULK_DATA list \<Rightarrow> bytes" where
  "part_packet op hid k bs =
     bulk_packet (if last_part k bs then final_opcode op else op)
       (if last_part k bs then OI_OBEX_HDR_END_OF_BODY else hid) (take k (bulk_rest bs))"


lemma ucast_packet_len:
  assumes "unat (l :: u32) = n" "n \<le> 65529"
  shows "(ucast (l + 6) :: u16) = of_nat (6 + n)" "(ucast (l + 3) :: u16) = of_nat (3 + n)"
  using assms
  by (intro word_unat_eqI; simp add: unsigned_ucast_eq unat_word_ariths unat_of_nat_u16 take_bit_nat_eq_self
      del: of_nat_add of_nat_Suc of_nat_numeral)+

lemma bulk_mbuf:
  assumes ok: "bulk_ok bs" and k: "k \<le> 65529" "blocks_for k bs < 255"
    and scan: "scan_blocks bs (of_nat k) 0 0 op hid fin = Some (n, len, op2, hid2, fin2)"
  shows "\<exists>m hdr m1 m2 past rest. OI_MBUF_Alloc True (of_nat (1 + n)) = Some m \<and> bulk_header op2 hid2 len = Some hdr \<and>
    OI_MBUF_Append False m (Some (bs_data hdr)) (bs_size hdr) MBUF_COPY = Some (OI_OK, m1) \<and>
    fill_blocks n m1 len bs = Some (m2, past, rest) \<and> mbuf_good m2 \<and>
    mbuf_content m2 = part_packet op hid k bs \<and> bulk_rest rest = drop k (bulk_rest bs) \<and> bulk_rest past = [] \<and>
    list_all block_ok (past @ rest) \<and> map bd_final (past @ rest) = map bd_final bs \<and>
    (length (bulk_rest bs) \<le> k \<longrightarrow> rest = []) \<and> fin2 = (last_part k bs \<or> fin) \<and>
    op2 = (if last_part k bs then final_opcode op else op) \<and>
    hid2 = (if last_part k bs then OI_OBEX_HDR_END_OF_BODY else hid)"
proof -
  have uk: "unat (of_nat k :: u32) = k"
    using k(1) by (simp add: unat_of_nat_u32)
  let ?body = "take k (bulk_rest bs)"
  have s: "n = blocks_for k bs" "len = of_nat (length ?body)" "op2 = (if last_part k bs then final_opcode op else op)"
      "hid2 = (if last_part k bs then OI_OBEX_HDR_END_OF_BODY else hid)" "fin2 = (last_part k bs \<or> fin)"
    using scan scan_blocks_ok [OF ok, of 0 "of_nat k" 0 op hid fin] k(1) uk by (simp_all add: min.commute)
  have b: "length ?body \<le> k"
    by simp
  have len: "unat len = length ?body"
  proof -
    have "length ?body < 4294967296"
      using b k(1) by simp
    then show ?thesis
      unfolding s(2) by (rule unat_of_nat_u32)
  qed
  have low: "(ucast (len + 6) :: u16) = of_nat (6 + length ?body)" "(ucast (len + 3) :: u16) = of_nat (3 + length ?body)"
    using ucast_packet_len [OF len] b k(1) by simp_all
  let ?m = "MBUF (zeroed_hdr (of_nat (1 + n))) []"
  have m: "OI_MBUF_Alloc True (of_nat (1 + n)) = Some ?m" "mbuf_good ?m" "mbuf_content ?m = []" "mbuf_room ?m = 1 + n"
    using k(2) s(1) unat_of_nat_u8 [of "1 + n"] by (simp_all only: OI_MBUF_Alloc_def empty_mbuf if_True)
  obtain hdr where hdr: "bulk_header op2 hid2 len = Some hdr" "bs_size hdr = 6" "6 \<le> length (bs_data hdr)"
      "take 6 (bs_data hdr) = op2 # SetUINT16_BigEndian (of_nat (6 + length ?body) :: u16) @
         hid2 # SetUINT16_BigEndian (of_nat (3 + length ?body) :: u16)"
    using bulk_header_ok [of op2 hid2 len] unfolding low by blast
  obtain m1 where m1: "OI_MBUF_Append False ?m (Some (bs_data hdr)) (bs_size hdr) MBUF_COPY = Some (OI_OK, m1)" "mbuf_good m1"
      "mbuf_content m1 = take 6 (bs_data hdr)" "mbuf_room m1 = n"
    using mb.append_fragment [OF m(2), of "bs_data hdr" 6 MBUF_COPY] m hdr by (auto simp: cheap_def disposition_ok_def)
  have six: "length (mbuf_content m1) = 6"
    using m1(3) hdr(3) by simp
  have "\<exists>m2 past rest. fill_blocks (blocks_for k bs) m1 len bs = Some (m2, past, rest) \<and> mbuf_good m2 \<and>
      mbuf_content m2 = mbuf_content m1 @ ?body \<and> bulk_rest rest = drop k (bulk_rest bs) \<and> bulk_rest past = [] \<and>
      list_all block_ok (past @ rest) \<and> map bd_final (past @ rest) = map bd_final bs \<and>
      (length (bulk_rest bs) \<le> k \<longrightarrow> rest = [])"
  proof (rule fill_blocks_ok [OF ok])
    show "unat len = min k (length (bulk_rest bs))"
      unfolding len by (simp add: min.commute)
    show "length (mbuf_content m1) + unat len < 65536"
      using len b k(1) six by simp
  qed (use k m1 s(1) in simp_all)
  then obtain m2 past rest where m2: "fill_blocks n m1 len bs = Some (m2, past, rest)" "mbuf_good m2"
      "mbuf_content m2 = mbuf_content m1 @ ?body" "bulk_rest rest = drop k (bulk_rest bs)" "bulk_rest past = []"
      "list_all block_ok (past @ rest)" "map bd_final (past @ rest) = map bd_final bs"
      "length (bulk_rest bs) \<le> k \<longrightarrow> rest = []"
    unfolding s(1) by blast
  have "mbuf_content m2 = part_packet op hid k bs"
    unfolding m2(3) m1(3) hdr(4) part_packet_def bulk_packet_def s(3,4) by simp
  with m(1) hdr(1) m1(1) m2(1,2,4-8) s(3-5) show ?thesis
    by - (intro exI conjI; assumption)
qed

section \<open>The loop\<close>


lemma send_bulk_step_ok:
  assumes ok: "bulk_ok (bk_current st)" and k: "6 \<le> unat (maxSendPktLen common)" "k = unat (maxSendPktLen common) - 6"
    and room: "length (bk_current st) < 255" and mem: "mem (length (bk_contexts st))"
  shows "\<exists>m past rest. mbuf_content m = part_packet (bk_opcode st) (bk_headerId st) k (bk_current st) \<and>
    bulk_rest rest = drop k (bulk_rest (bk_current st)) \<and> bulk_rest past = [] \<and> list_all block_ok (past @ rest) \<and>
    map bd_final (past @ rest) = map bd_final (bk_current st) \<and>
    (length (bulk_rest (bk_current st)) \<le> k \<longrightarrow> rest = []) \<and>
    send_bulk_step ifc_write mem common st = Some
      (let (status, busy, conn) = ifc_write (bk_conn st) m (rest = []) (bk_busy st);
           lp = last_part k (bk_current st);
           st = st\<lparr>bk_opcode := (if lp then final_opcode (bk_opcode st) else bk_opcode st),
             bk_headerId := (if lp then OI_OBEX_HDR_END_OF_BODY else bk_headerId st),
             bk_final := (lp \<or> bk_final st), bk_status := status, bk_busy := busy, bk_conn := conn\<rparr>
       in if \<not> OI_SUCCESS status then (False, st\<lparr>bk_current := past @ rest\<rparr>)
          else let st = st\<lparr>bk_contexts := bk_contexts st @ [length (bk_passed st)], bk_passed := bk_passed st @ past,
                           bk_current := rest\<rparr>
               in if srm common AND OI_OBEX_SRM_ENABLED = 0 then (False, st\<lparr>bk_busy := True\<rparr>)
                  else (rest \<noteq> [] \<and> \<not> busy, st))"
proof -
  have "unat (maxSendPktLen common) < 65536"
    by (rule unat_lt_u16)
  then have k6: "k \<le> 65529"
    using k by linarith
  have u: "unat (ucast (maxSendPktLen common) :: u32) = unat (maxSendPktLen common)"
    by (simp add: unsigned_ucast_eq take_bit_nat_eq_self less_trans [OF unat_lt_u16])
  have bm: "(ucast (maxSendPktLen common) - 6 :: u32) = of_nat k"
    using k k6 u by (intro word_unat_eqI) (simp add: unat_sub_u32 unat_of_nat_u32)
  obtain n len op2 hid2 fin2 where
    scan: "scan_blocks (bk_current st) (of_nat k) 0 0 (bk_opcode st) (bk_headerId st) (bk_final st) = Some (n, len, op2, hid2, fin2)"
    using scan_blocks_ok [OF ok, of 0 "of_nat k"] k6 by (auto simp: unat_of_nat_u32)
  have "blocks_for k (bk_current st) < 255"
    using blocks_for_le [of k "bk_current st"] room by simp
  from bulk_mbuf [OF ok k6 this scan] obtain m hdr m1 m2 past rest where
    r: "OI_MBUF_Alloc True (of_nat (1 + n)) = Some m" "bulk_header op2 hid2 len = Some hdr"
      "OI_MBUF_Append False m (Some (bs_data hdr)) (bs_size hdr) MBUF_COPY = Some (OI_OK, m1)"
      "fill_blocks n m1 len (bk_current st) = Some (m2, past, rest)" "mbuf_good m2"
      "mbuf_content m2 = part_packet (bk_opcode st) (bk_headerId st) k (bk_current st)"
      "bulk_rest rest = drop k (bulk_rest (bk_current st))" "bulk_rest past = []" "list_all block_ok (past @ rest)"
      "map bd_final (past @ rest) = map bd_final (bk_current st)" "length (bulk_rest (bk_current st)) \<le> k \<longrightarrow> rest = []"
      "fin2 = (last_part k (bk_current st) \<or> bk_final st)"
      "op2 = (if last_part k (bk_current st) then final_opcode (bk_opcode st) else bk_opcode st)"
      "hid2 = (if last_part k (bk_current st) then OI_OBEX_HDR_END_OF_BODY else bk_headerId st)"
    by blast
  obtain fr where fr: "OI_MBUF_Free m2 = Some fr"
    using OI_MBUF_Free_ok [OF r(5)] by blast
  obtain status busy conn where w: "ifc_write (bk_conn st) m2 (rest = []) (bk_busy st) = (status, busy, conn)"
    by (metis prod_cases3)
  note r' = r(1) [simplified]
  have "send_bulk_step ifc_write mem common st = Some
      (let st = st\<lparr>bk_opcode := op2, bk_headerId := hid2, bk_final := fin2, bk_status := status, bk_busy := busy, bk_conn := conn\<rparr>
       in if \<not> OI_SUCCESS status then (False, st\<lparr>bk_current := past @ rest\<rparr>)
          else let st = st\<lparr>bk_contexts := bk_contexts st @ [length (bk_passed st)], bk_passed := bk_passed st @ past,
                           bk_current := rest\<rparr>
               in if srm common AND OI_OBEX_SRM_ENABLED = 0 then (False, st\<lparr>bk_busy := True\<rparr>)
                  else (rest \<noteq> [] \<and> \<not> busy, st))"
    by (simp add: send_bulk_step_def bm scan mem r' r(2-4) fr w monad_simps Let_def)
  then show ?thesis
    using r(6-11) unfolding r(12-14)
    by - (rule exI [of _ m2], rule exI [of _ past], rule exI [of _ rest], intro conjI, (assumption | simp only: w Let_def prod.case)+)
qed

lemma send_bulk_step_single:
  assumes "bulk_ok (bk_current st)" "6 \<le> unat (maxSendPktLen common)" "k = unat (maxSendPktLen common) - 6"
    and "length (bk_current st) < 255" "mem (length (bk_contexts st))" "srm common AND OI_OBEX_SRM_ENABLED = 0"
  shows "\<exists>m early st'. mbuf_content m = part_packet (bk_opcode st) (bk_headerId st) k (bk_current st) \<and>
    send_bulk_step ifc_write mem common st = Some (False, st') \<and>
    (bk_status st', bk_conn st') = (fst (ifc_write (bk_conn st) m early (bk_busy st)), snd (snd (ifc_write (bk_conn st) m early (bk_busy st)))) \<and>
    bulk_rest (bk_current st') = drop k (bulk_rest (bk_current st)) \<and> (bk_status st' = OI_OK \<longrightarrow> bk_busy st')"
proof -
  obtain m past rest where m: "mbuf_content m = part_packet (bk_opcode st) (bk_headerId st) k (bk_current st)"
      "bulk_rest rest = drop k (bulk_rest (bk_current st))" "bulk_rest past = []"
    and step: "send_bulk_step ifc_write mem common st = Some
      (let (status, busy, conn) = ifc_write (bk_conn st) m (rest = []) (bk_busy st);
           lp = last_part k (bk_current st);
           st = st\<lparr>bk_opcode := (if lp then final_opcode (bk_opcode st) else bk_opcode st),
             bk_headerId := (if lp then OI_OBEX_HDR_END_OF_BODY else bk_headerId st),
             bk_final := (lp \<or> bk_final st), bk_status := status, bk_busy := busy, bk_conn := conn\<rparr>
       in if \<not> OI_SUCCESS status then (False, st\<lparr>bk_current := past @ rest\<rparr>)
          else let st = st\<lparr>bk_contexts := bk_contexts st @ [length (bk_passed st)], bk_passed := bk_passed st @ past,
                           bk_current := rest\<rparr>
               in if srm common AND OI_OBEX_SRM_ENABLED = 0 then (False, st\<lparr>bk_busy := True\<rparr>)
                  else (rest \<noteq> [] \<and> \<not> busy, st))"
    using send_bulk_step_ok [where mem = mem and st = st and k = k, OF assms(1-5), of ifc_write] by blast
  obtain status busy conn where w: "ifc_write (bk_conn st) m (rest = []) (bk_busy st) = (status, busy, conn)"
    by (metis prod_cases3)
  have "bulk_rest (past @ rest) = bulk_rest rest"
    using m(3) by (simp add: bulk_rest_def)
  then show ?thesis
    using m step assms(6)
    by (intro exI [of _ m] exI [of _ "rest = []"]) (cases "OI_SUCCESS status"; simp add: w Let_def OI_SUCCESS_def)
qed





text \<open>A lower layer that takes every packet and is never busy.\<close>

definition accepting :: "bytes list \<Rightarrow> OI_MBUF \<Rightarrow> bool \<Rightarrow> bool \<Rightarrow> OI_STATUS \<times> bool \<times> bytes list" where
  "accepting conn m early busy = (OI_OK, False, conn @ [mbuf_content m])"


section \<open>Properties\<close>


definition demo_blocks :: "OBEX_BULK_DATA list" where
  "demo_blocks = [\<lparr>blockBuffer = Some [1, 2, 3, 4, 5], blockSize = 5, bytesSent = 1, bytesConfirmed = 0, bd_final = False\<rparr>,
     \<lparr>blockBuffer = Some [6, 7], blockSize = 2, bytesSent = 0, bytesConfirmed = 0, bd_final = True\<rparr>]"

lemma demo_blocks_facts: "bulk_ok demo_blocks" "bulk_rest demo_blocks = [2, 3, 4, 5, 6, 7]" "ends demo_blocks"
  by (simp_all add: demo_blocks_def bulk_ok_def block_ok_def block_data_def block_rest_def ends_def)


text \<open>An application may queue 255 buffers at once. For a packet that takes that many blocks, each here of one
  byte, the number of cells, one more than the blocks, wraps around to 0 in eight bits. Every append fails, which the
  code does not see: an empty packet is written, the blocks count as sent, and the status is \<open>OI_OK\<close>.\<close>

definition byte_block :: OBEX_BULK_DATA where
  "byte_block = \<lparr>blockBuffer = Some [7], blockSize = 1, bytesSent = 0, bytesConfirmed = 0, bd_final = False\<rparr>"

declare send_bulk_loop.simps [code]

lemma SendBulk_255_blocks:
  "map_option (\<lambda>st. (bk_status st, bk_current st, bk_conn st))
     (OI_OBEXCOMMON_SendBulk accepting (\<lambda>i. True) (demo_common\<lparr>maxSendPktLen := 1000, srm := 1\<rparr>) []
       (replicate 255 byte_block) False) = Some (OI_OK, [], [[]])"
  by code_simp

text \<open>Without single response mode one packet is handed to the lower layer and no more until the
  response comes. Whatever the lower layer answers, the bytes of the packet count as sent: after a
  refused ifc_write the status is the error, and the next call will go on behind data that was never
  delivered.\<close>

theorem SendBulk_counts_failed_write:
  assumes "blocks \<noteq> []" "bulk_ok blocks" "length blocks < 255" "6 \<le> unat (maxSendPktLen common)"
    and "srm common AND OI_OBEX_SRM_ENABLED = 0" "\<forall>i. mem i" "k = unat (maxSendPktLen common) - 6"
  shows "\<exists>m early st. OI_OBEXCOMMON_SendBulk ifc_write mem common conn blocks busy = Some st \<and>
    mbuf_content m = part_packet (currentOpcode common) OI_OBEX_HDR_BODY k blocks \<and>
    (bk_status st, bk_conn st) = (fst (ifc_write conn m early busy), snd (snd (ifc_write conn m early busy))) \<and>
    bulk_rest (bk_current st) = drop k (bulk_rest blocks) \<and> (bk_status st = OI_OK \<longrightarrow> bk_busy st)"
proof -
  obtain b bs where b: "blocks = b # bs" "bytesSent b \<le> blockSize b" "bytesConfirmed b \<le> blockSize b"
    using assms(1,2) by (cases blocks) (auto simp: bulk_ok_def block_ok_def)
  let ?st = "\<lparr>bk_passed = [], bk_current = blocks, bk_status = OI_OK, bk_opcode = currentOpcode common,
    bk_headerId = OI_OBEX_HDR_BODY, bk_final = False, bk_busy = busy, bk_conn = conn, bk_contexts = []\<rparr>"
  have call: "OI_OBEXCOMMON_SendBulk ifc_write mem common conn blocks busy = send_bulk_loop (send_bulk_step ifc_write mem common) ?st"
    using b by (simp add: OI_OBEXCOMMON_SendBulk_def monad_simps Let_def)
  have "bulk_ok (bk_current ?st)" "length (bk_current ?st) < 255" "mem (length (bk_contexts ?st))"
    using assms by simp_all
  from send_bulk_step_single [where mem = mem and st = ?st, OF this(1) assms(4,7) this(2,3) assms(5), of ifc_write] obtain m early st where
    "mbuf_content m = part_packet (currentOpcode common) OI_OBEX_HDR_BODY k blocks"
      "send_bulk_step ifc_write mem common ?st = Some (False, st)"
      "(bk_status st, bk_conn st) = (fst (ifc_write conn m early busy), snd (snd (ifc_write conn m early busy)))"
      "bulk_rest (bk_current st) = drop k (bulk_rest blocks)" "bk_status st = OI_OK \<longrightarrow> bk_busy st"
    by auto
  moreover from this(2) have "OI_OBEXCOMMON_SendBulk ifc_write mem common conn blocks busy = Some st"
    unfolding call by (subst send_bulk_loop.simps) simp
  ultimately show ?thesis
    by blast
qed

lemma SendBulk_counts_failed_write_witness:
  "\<exists>st. OI_OBEXCOMMON_SendBulk (\<lambda>c m e b. (OI_FAIL, b, c)) (\<lambda>i. True) (demo_common\<lparr>maxSendPktLen := 10, srm := 0\<rparr>) () demo_blocks False =
      Some st \<and> bk_status st = OI_FAIL \<and> bulk_rest (bk_current st) = [6, 7]"
proof -
  let ?common = "demo_common\<lparr>maxSendPktLen := 10, srm := 0\<rparr>" and ?ifc_write = "\<lambda>(c :: unit) (m :: OI_MBUF) (e :: bool) b. (OI_FAIL, b :: bool, c)"
  have "demo_blocks \<noteq> []" "length demo_blocks < 255" "6 \<le> unat (maxSendPktLen ?common)"
      "srm ?common AND OI_OBEX_SRM_ENABLED = 0" "\<forall>i :: nat. (\<lambda>i. True) i" "4 = unat (maxSendPktLen ?common) - 6"
    by (simp_all add: demo_blocks_def)
  from SendBulk_counts_failed_write [where mem = "\<lambda>i. True", OF this(1) demo_blocks_facts(1) this(2-6), of ?ifc_write "()" False]
  obtain st where "OI_OBEXCOMMON_SendBulk ?ifc_write (\<lambda>i. True) ?common () demo_blocks False = Some st" "bk_status st = OI_FAIL"
      "bulk_rest (bk_current st) = drop 4 (bulk_rest demo_blocks)"
    by auto
  then show ?thesis
    by (simp add: demo_blocks_facts(2))
qed

end
