(* ===== verification/ObexShared.thy ===== *)
theory ObexShared
  imports ObexBulk ObexParse ObexAuth Dispatch
begin

unbundle bit_operations_syntax

text \<open>
  What the OBEX server and the OBEX client have in common: the numbers of the protocol, the reading of
  header values, and the lists of bulk data blocks as nodes of a heap, because the queues of a
  connection, the application's list and the contexts of the mbufs share them; then what holds of such
  lists.
\<close>

section \<open>Constants\<close>

definition OI_OBEX_SRM_SUPPORTED :: u8 where "OI_OBEX_SRM_SUPPORTED = 2"
definition OI_OBEX_SRM_PARAM_RSVP :: u8 where "OI_OBEX_SRM_PARAM_RSVP = 0"
definition OI_OBEX_MIN_PACKET_SIZE :: u16 where "OI_OBEX_MIN_PACKET_SIZE = 255"
definition MAX_CONFIRM :: nat where "MAX_CONFIRM = 16"

definition OI_OBEX_CMD_CONNECT :: u8 where "OI_OBEX_CMD_CONNECT = 0x80"
definition OI_OBEX_CMD_DISCONNECT :: u8 where "OI_OBEX_CMD_DISCONNECT = 0x81"
definition OI_OBEX_CMD_PUT :: u8 where "OI_OBEX_CMD_PUT = 0x02"
definition OI_OBEX_CMD_GET :: u8 where "OI_OBEX_CMD_GET = 0x03"
definition OI_OBEX_CMD_SET_PATH :: u8 where "OI_OBEX_CMD_SET_PATH = 0x85"
definition OI_OBEX_CMD_ACTION :: u8 where "OI_OBEX_CMD_ACTION = 0x06"
definition OI_OBEX_CMD_SESSION :: u8 where "OI_OBEX_CMD_SESSION = 0x87"
definition OI_OBEX_CMD_ABORT :: u8 where "OI_OBEX_CMD_ABORT = 0xFF"
definition OI_OBEX_RSP_PARTIAL_CONTENT :: u8 where "OI_OBEX_RSP_PARTIAL_CONTENT = 0x26"
definition OI_OBEX_RSP_NOT_MODIFIED :: u8 where "OI_OBEX_RSP_NOT_MODIFIED = 0x34"
definition OI_OBEX_RSP_BAD_REQUEST :: u8 where "OI_OBEX_RSP_BAD_REQUEST = 0x40"
definition OI_OBEX_RSP_UNAUTHORIZED :: u8 where "OI_OBEX_RSP_UNAUTHORIZED = 0x41"
definition OI_OBEX_RSP_FORBIDDEN :: u8 where "OI_OBEX_RSP_FORBIDDEN = 0x43"
definition OI_OBEX_RSP_NOT_FOUND :: u8 where "OI_OBEX_RSP_NOT_FOUND = 0x44"
definition OI_OBEX_RSP_METHOD_NOT_ALLOWED :: u8 where "OI_OBEX_RSP_METHOD_NOT_ALLOWED = 0x45"
definition OI_OBEX_RSP_NOT_ACCEPTABLE :: u8 where "OI_OBEX_RSP_NOT_ACCEPTABLE = 0x46"
definition OI_OBEX_RSP_CONFLICT :: u8 where "OI_OBEX_RSP_CONFLICT = 0x49"
definition OI_OBEX_RSP_LENGTH_REQUIRED :: u8 where "OI_OBEX_RSP_LENGTH_REQUIRED = 0x4B"
definition OI_OBEX_RSP_PRECONDITION_FAILED :: u8 where "OI_OBEX_RSP_PRECONDITION_FAILED = 0x4C"
definition OI_OBEX_RSP_UNSUPPORTED_MEDIA_TYPE :: u8 where "OI_OBEX_RSP_UNSUPPORTED_MEDIA_TYPE = 0x4F"
definition OI_OBEX_RSP_INTERNAL_SERVER_ERROR :: u8 where "OI_OBEX_RSP_INTERNAL_SERVER_ERROR = 0x50"
definition OI_OBEX_RSP_NOT_IMPLEMENTED :: u8 where "OI_OBEX_RSP_NOT_IMPLEMENTED = 0x51"
definition OI_OBEX_RSP_SERVICE_UNAVAILABLE :: u8 where "OI_OBEX_RSP_SERVICE_UNAVAILABLE = 0x53"
definition OI_OBEX_RSP_DATABASE_FULL :: u8 where "OI_OBEX_RSP_DATABASE_FULL = 0x60"
definition OI_OBEX_RSP_DATABASE_LOCKED :: u8 where "OI_OBEX_RSP_DATABASE_LOCKED = 0x61"

definition OI_OBEX_HDR_NAME :: u8 where "OI_OBEX_HDR_NAME = 0x01"
definition OI_OBEX_HDR_TYPE :: u8 where "OI_OBEX_HDR_TYPE = 0x42"
definition OI_OBEX_HDR_WHO :: u8 where "OI_OBEX_HDR_WHO = 0x4A"
definition OI_OBEX_HDR_ACTION_ID :: u8 where "OI_OBEX_HDR_ACTION_ID = 0x94"
definition OI_OBEX_HDR_SINGLE_RESPONSE_MODE :: u8 where "OI_OBEX_HDR_SINGLE_RESPONSE_MODE = 0x97"
definition OI_OBEX_HDR_SINGLE_RESPONSE_PARAMETERS :: u8 where "OI_OBEX_HDR_SINGLE_RESPONSE_PARAMETERS = 0x98"
definition OI_OBEX_SETPATH_UP_LEVEL :: u8 where "OI_OBEX_SETPATH_UP_LEVEL = 1"
definition OI_OBEX_SETPATH_NO_CREATE :: u8 where "OI_OBEX_SETPATH_NO_CREATE = 2"

definition OI_OBEX_VERSION_NUMBER :: u8 where "OI_OBEX_VERSION_NUMBER = 0x10"
definition OI_OBEX_MAJOR_VERSION_NUMBER :: "u8 \<Rightarrow> u8" where "OI_OBEX_MAJOR_VERSION_NUMBER v = drop_bit 4 v AND 0x0F"

section \<open>Packets and headers\<close>

text \<open>Bytes after the packet header.\<close>

fun put_all :: "u8 list \<Rightarrow> OI_BYTE_STREAM \<Rightarrow> OI_BYTE_STREAM option" where
  "put_all [] pkt = Some pkt"
| "put_all (b # bs) pkt = do { pkt \<leftarrow> ByteStream_PutUINT8 pkt b; put_all bs pkt }"

definition uint8_of :: "OI_OBEX_HEADER \<Rightarrow> u8 option" where
  "uint8_of h = (case hdr_val h of UINT8 v \<Rightarrow> Some v | _ \<Rightarrow> None)"

definition uint32_of :: "OI_OBEX_HEADER \<Rightarrow> u32 option" where
  "uint32_of h = (case hdr_val h of UINT32 v \<Rightarrow> Some v | _ \<Rightarrow> None)"

definition hdr_u8 :: "u8 \<Rightarrow> u8 \<Rightarrow> OI_OBEX_HEADER" where
  "hdr_u8 i v = \<lparr>hdr_id = i, hdr_val = UINT8 v\<rparr>"

section \<open>Bulk data lists\<close>

text \<open>A block and the address of the next one.\<close>

record BULK_NODE =
  bn_block :: OBEX_BULK_DATA
  bn_next :: nat

text \<open>The addresses of a list.\<close>

partial_function (option) bulk_nodes :: "(nat \<Rightarrow> BULK_NODE option) \<Rightarrow> nat \<Rightarrow> nat list option" where
  "bulk_nodes h p =
     (if p = 0 then Some []
      else Option.bind (h p) (\<lambda>n. Option.bind (bulk_nodes h (bn_next n)) (\<lambda>ps. Some (p # ps))))"

fun put_nodes :: "nat list \<Rightarrow> OBEX_BULK_DATA list \<Rightarrow> (nat \<Rightarrow> BULK_NODE option) \<Rightarrow> (nat \<Rightarrow> BULK_NODE option)" where
  "put_nodes (p # ps) (b # bs) h = put_nodes ps bs (h(p := map_option (\<lambda>n. n\<lparr>bn_block := b\<rparr>) (h p)))"
| "put_nodes _ _ h = h"

text \<open>New nodes at the next addresses; memory that was freed is not used again.\<close>

fun link_blocks :: "nat \<Rightarrow> OBEX_BULK_DATA list \<Rightarrow> (nat \<Rightarrow> BULK_NODE option) \<Rightarrow> (nat \<Rightarrow> BULK_NODE option)" where
  "link_blocks p [] h = h"
| "link_blocks p (b # bs) h =
     link_blocks (Suc p) bs (h(p := Some \<lparr>bn_block = b, bn_next = (if bs = [] then 0 else Suc p)\<rparr>))"

text \<open>The confirmed bytes are spread over the blocks from the mbuf's context on.\<close>

partial_function (option) spread_confirm ::
    "u16 \<Rightarrow> nat \<Rightarrow> (nat \<Rightarrow> BULK_NODE option) \<Rightarrow> (nat \<Rightarrow> BULK_NODE option) option" where
  "spread_confirm n p h =
     (if n = 0 then Some h
      else Option.bind (h p) (\<lambda>nd.
        let b = bn_block nd;
            room = bytesSent b - bytesConfirmed b;
            (n, len) = (if ucast n \<ge> room then (n - ucast room, room) else (n, ucast n));
            b = b\<lparr>bytesConfirmed := bytesConfirmed b + len\<rparr>;
            h = h(p := Some (nd\<lparr>bn_block := b\<rparr>))
        in if bytesConfirmed b < blockSize b then Some h else spread_confirm n (bn_next nd) h))"

datatype CONFIRM_FILTER = CONFIRM_COMPLETED | CONFIRM_ALL

section \<open>Lists in the heap\<close>

text \<open>The nodes from \<open>p\<close> on, in order, with their blocks.\<close>

fun bulk_path :: "(nat \<Rightarrow> BULK_NODE option) \<Rightarrow> nat \<Rightarrow> nat list \<Rightarrow> OBEX_BULK_DATA list \<Rightarrow> bool" where
  "bulk_path h p [] [] \<longleftrightarrow> p = 0"
| "bulk_path h p (q # qs) (b # bs) \<longleftrightarrow> p = q \<and> p \<noteq> 0 \<and> p \<notin> set qs \<and>
     (\<exists>n. h p = Some \<lparr>bn_block = b, bn_next = n\<rparr> \<and> bulk_path h n qs bs)"
| "bulk_path h p _ _ \<longleftrightarrow> False"

definition first :: "nat list \<Rightarrow> nat" where
  "first ps = (case ps of [] \<Rightarrow> 0 | p # _ \<Rightarrow> p)"

lemma first_simps [simp]: "first [] = 0" "first (p # ps) = p"
  by (simp_all add: first_def)

lemma bulk_path_first: "bulk_path h p ps bs \<Longrightarrow> p = first ps"
  by (cases "(h, p, ps, bs)" rule: bulk_path.cases) auto

lemma bulk_path_length: "bulk_path h p ps bs \<Longrightarrow> length bs = length ps"
  by (induction h p ps bs rule: bulk_path.induct) auto

lemma bulk_path_other: "bulk_path h p ps bs \<Longrightarrow> q \<notin> set ps \<Longrightarrow> bulk_path (h(q := x)) p ps bs"
  by (induction h p ps bs rule: bulk_path.induct) auto

lemma bulk_path_nonzero: "bulk_path h p ps bs \<Longrightarrow> 0 \<notin> set ps"
  by (induction h p ps bs rule: bulk_path.induct) auto

lemma bulk_path_Nil [simp]: "bulk_path h p [] bs \<longleftrightarrow> bs = [] \<and> p = 0" "bulk_path h p ps [] \<longleftrightarrow> ps = [] \<and> p = 0"
  by (cases bs; auto) (cases ps; auto)

lemma bulk_path_addresses: "bulk_path h p ps bs \<Longrightarrow> q \<in> set ps \<Longrightarrow> h q \<noteq> None"
  by (induction h p ps bs rule: bulk_path.induct) auto

lemma bulk_path_cong: "bulk_path h p ps bs \<Longrightarrow> (\<And>q. q \<in> set ps \<Longrightarrow> h' q = h q) \<Longrightarrow> bulk_path h' p ps bs"
  by (induction h p ps bs rule: bulk_path.induct) auto

lemma bulk_path_append:
  "bulk_path h p (ps @ [r]) (bs @ [b]) \<Longrightarrow> bulk_path h q qs cs \<Longrightarrow> set (ps @ [r]) \<inter> set qs = {} \<Longrightarrow>
     bulk_path (h(r := Some \<lparr>bn_block = b, bn_next = q\<rparr>)) p (ps @ r # qs) (bs @ b # cs)"
proof (induction ps arbitrary: p bs)
  case Nil
  then show ?case
    by (cases bs) (auto simp del: fun_upd_apply simp: fun_upd_same intro: bulk_path_other)
next
  case (Cons x ps)
  then show ?case
    by (cases bs) auto
qed

lemma bulk_path_last:
  "bulk_path h p (ps @ [r]) (bs @ [b]) \<Longrightarrow> h r = Some \<lparr>bn_block = b, bn_next = 0\<rparr>"
proof (induction ps arbitrary: p bs)
  case Nil
  then show ?case
    by (cases bs) auto
next
  case (Cons x ps)
  then show ?case
    by (cases bs) auto
qed

lemma bulk_path_change_last:
  assumes "bulk_path h p (ps @ [r]) (bs @ [b])"
  shows "bulk_path (h(r := Some \<lparr>bn_block = b', bn_next = 0\<rparr>)) p (ps @ [r]) (bs @ [b'])"
  using assms
proof (induction ps arbitrary: p bs)
  case Nil
  then show ?case
    by (cases bs) auto
next
  case (Cons x ps)
  then show ?case
    by (cases bs) auto
qed

lemma link_blocks_other: "q < p \<Longrightarrow> link_blocks p bs h q = h q"
  by (induction p bs h rule: link_blocks.induct) auto

lemma link_blocks_path: "bs \<noteq> [] \<Longrightarrow> p \<noteq> 0 \<Longrightarrow> bulk_path (link_blocks p bs h) p [p..<p + length bs] bs"
proof (induction p bs h rule: link_blocks.induct)
  case (2 p b bs h)
  let ?h = "h(p := Some \<lparr>bn_block = b, bn_next = (if bs = [] then 0 else Suc p)\<rparr>)"
  have upt: "[p..<p + length (b # bs)] = p # [Suc p..<Suc p + length bs]"
    using upt_conv_Cons [of p "p + length (b # bs)"] by (simp del: upt_Suc)
  have here: "link_blocks (Suc p) bs ?h p = Some \<lparr>bn_block = b, bn_next = (if bs = [] then 0 else Suc p)\<rparr>"
    by (simp add: link_blocks_other)
  show ?case
  proof (cases "bs = []")
    case False
    show ?thesis
      unfolding upt link_blocks.simps(2) bulk_path.simps(2)
      using 2(1) [OF False] 2(3) here False by (simp del: link_blocks.simps upt_Suc fun_upd_apply)
  qed (use 2(3) in simp)
qed simp

text \<open>The equations of the partial functions, for evaluation.\<close>

declare bulk_nodes.simps [code] spread_confirm.simps [code] send_bulk_loop.simps [code]

end
