(* ===== verification/ObexSrv.thy ===== *)
theory ObexSrv
  imports ObexShared
begin

unbundle bit_operations_syntax

text \<open>
  The OBEX server of \<open>profiles/obex/obexsrv.c\<close>, first part: the state of a connection, the bulk
  data lists, the write confirmations and the end of a connection.

  The state is that of one server and one of its connections, which is \<^term>\<open>None\<close> when its memory is
  not there; a function that follows a pointer to it then is undefined (\<^term>\<open>None\<close>). The bulk data
  blocks are nodes of a heap, because the connection's three pointers, the application's list and
  the contexts of the mbufs share them.

  Parameters, in the record \<open>SRV_ENV\<close>: the lower layer's functions, which act on a world of their
  own and do not call back (the stack's own rule: a call in does not generate a call out); the
  application's callbacks, which may do anything to the whole state, calls of the server's functions
  included; the answers of the allocator, by call and by allocation; the configuration.
\<close>

section \<open>Data\<close>

datatype CONNECTION_STATE =
    DISCONNECTED | LOWER_LAYER_CONNECTING | LOWER_LAYER_CONNECTED | OBEX_CONNECTING | CONNECT_COMPLETING
  | OBEX_CONNECTED | GET_IN_PROGRESS | GET_COMPLETING | BULK_GET_IN_PROGRESS | BULK_GET_COMPLETING
  | BULK_GET_FAILED | PUT_IN_PROGRESS | PUT_COMPLETING | SETTING_PATH | DO_ACTION | OBEX_DISCONNECTING
  | OBEX_DISCONNECT_COMPLETING

datatype CB_NAME =
    connectInd | disconnectInd | getInd | putInd | setPathInd | bulkGetInd | actionInd | progressInd | authInd | abortInd

text \<open>A callback list: an identity for the application's functions and the names of those that are
  not \<open>NULL\<close>.\<close>

record OI_OBEXSRV_CB_LIST =
  cb_id :: nat
  cb_names :: "CB_NAME set"

datatype OI_OBEXSRV_AUTHENTICATION =
  OI_OBEXSRV_AUTH_NONE | OI_OBEXSRV_AUTH_PASSWORD | OI_OBEXSRV_AUTH_USERID_AND_PASSWORD

record OBEXSRV_TARGET_INFO =
  ti_target :: "bytes option \<times> u16"
  ti_CBList :: OI_OBEXSRV_CB_LIST
  ti_authRequired :: OI_OBEXSRV_AUTHENTICATION

text \<open>The list of targets has the primary target first.\<close>

record OBEX_SERVER =
  os_context :: nat
  os_handle :: u32
  os_targets :: "OBEXSRV_TARGET_INFO list"
  os_srm :: u8
  os_lowerProtocolList :: "nat list"

text \<open>Where \<open>pRawHeaders\<close> points: nowhere, to the header list of the function that is handling a request, or to
  where the list of a function was that has returned.\<close>

datatype RAW_HEADERS = NO_HEADERS | HEADERS OI_OBEX_HEADER_LIST | STALE_HEADERS

record OBEXSRV_CONNECTION =
  c_addr :: u32
  c_context :: nat
  c_common :: OBEX_COMMON
  connectionHandle :: u32
  authenticating :: bool
  c_readOnly :: bool
  c_authentication :: "OBEX_AUTHENTICATION option"
  srmParam :: u8
  maxRecvPktLen :: u16
  pRawHeaders :: RAW_HEADERS
  clientSpecifiedTarget :: bool
  currentTarget :: "OBEXSRV_TARGET_INFO option"
  connectTimeout :: u32
  abortPending :: bool
  abortResponsePending :: bool
  abortMbuf :: "OI_MBUF option"
  authTries :: u8
  forcedDisconnect :: bool
  unauthorized :: bool
  authRequested :: bool
  connectIndicated :: bool
  c_final :: bool
  c_state :: CONNECTION_STATE
  bg_busy :: bool
  bg_current :: nat
  bg_head :: nat
  bg_tail :: nat
  bg_contexts :: "nat list"
  clientBdAddr :: bytes

text \<open>The functions the server gives to the dispatcher.\<close>

datatype SRV_FUNC = F_ConnectTimeout | F_ReIndicateConnect | F_dispatchedAbortCommand

record 'w OBEX_SRV =
  s_conn :: "OBEXSRV_CONNECTION option"
  s_server :: OBEX_SERVER
  s_linked :: bool
  s_disp :: "SRV_FUNC DISPATCH_STATE"
  s_heap :: "nat \<Rightarrow> BULK_NODE option"
  s_fresh :: nat
  s_calls :: nat
  s_initFlag :: nat
  s_world :: 'w

text \<open>The indications to the application, with the arguments of the callbacks. The connection handle,
  which is an argument of all of them, is that of the connection.\<close>

datatype SRV_IND =
    CONNECT_IND bool "bytes option" u8 "OI_OBEX_REALM option"
  | DISCONNECT_IND
  | GET_IND "OI_OBEX_HEADER list option" OI_STATUS
  | BULK_GET_IND "(bytes option \<times> u32) list" OI_STATUS
  | PUT_IND "OI_OBEX_HEADER list option" OI_STATUS
  | SET_PATH_IND "OI_OBEX_VALUE option" bool bool
  | ACTION_IND u8 OI_OBEX_VALUE "OI_OBEX_HEADER list"
  | PROGRESS_IND u8 u32
  | AUTH_IND bytes
  | ABORT_IND "OI_OBEX_HEADER list"

fun cb_of :: "SRV_IND \<Rightarrow> CB_NAME" where
  "cb_of (CONNECT_IND _ _ _ _) = connectInd"
| "cb_of DISCONNECT_IND = disconnectInd"
| "cb_of (GET_IND _ _) = getInd"
| "cb_of (BULK_GET_IND _ _) = bulkGetInd"
| "cb_of (PUT_IND _ _) = putInd"
| "cb_of (SET_PATH_IND _ _ _) = setPathInd"
| "cb_of (ACTION_IND _ _ _) = actionInd"
| "cb_of (PROGRESS_IND _ _) = progressInd"
| "cb_of (AUTH_IND _) = authInd"
| "cb_of (ABORT_IND _) = abortInd"

record 'w SRV_ENV =
  e_write :: "'w \<Rightarrow> OI_MBUF \<Rightarrow> bool \<Rightarrow> bool \<Rightarrow> OI_STATUS \<times> bool \<times> 'w"
  e_disconnect :: "'w \<Rightarrow> OI_STATUS \<times> 'w"
  e_flowControl :: "bool \<Rightarrow> 'w \<Rightarrow> 'w"
  e_accept :: "bool \<Rightarrow> 'w \<Rightarrow> OI_STATUS \<times> 'w"
  e_l2cap :: "'w \<Rightarrow> bool"
  e_app :: "nat \<Rightarrow> SRV_IND \<Rightarrow> 'w OBEX_SRV \<Rightarrow> (OI_STATUS \<times> 'w OBEX_SRV) option"
  e_mem :: "nat \<Rightarrow> nat \<Rightarrow> bool"
  e_privateKey :: "bytes option"
  e_connectTimeout :: OI_INTERVAL
  e_authTimeout :: OI_INTERVAL
  e_maxPktLen :: u16
  e_timestamp :: bytes
  e_md5ctx :: MD5_CONTEXT
  e_psize :: nat

section \<open>Constants\<close>

definition OI_OBEX_SRM_REQUESTED :: u8 where "OI_OBEX_SRM_REQUESTED = 0x80"
definition SRM_PARAM_NONE :: u8 where "SRM_PARAM_NONE = 255"
definition OI_OBEX_SRM_PARAM_RSVP_AND_WAIT :: u8 where "OI_OBEX_SRM_PARAM_RSVP_AND_WAIT = 2"
definition MAX_AUTHENTICATION_ATTEMPTS :: u8 where "MAX_AUTHENTICATION_ATTEMPTS = 3"
definition BULK_GET_HDR_SIZE :: u16 where "BULK_GET_HDR_SIZE = 6"
lemmas srv_consts = OI_OBEX_SRM_ENABLED_def OI_OBEX_SRM_SUPPORTED_def OI_OBEX_SRM_REQUESTED_def SRM_PARAM_NONE_def
  OI_OBEX_SRM_PARAM_RSVP_def OI_OBEX_SRM_PARAM_RSVP_AND_WAIT_def OI_OBEX_MIN_PACKET_SIZE_def MAX_AUTHENTICATION_ATTEMPTS_def

section \<open>The state\<close>

text \<open>A change of the connection's fields, and of the part it shares with the composition of packets.\<close>

definition upd :: "(OBEXSRV_CONNECTION \<Rightarrow> OBEXSRV_CONNECTION) \<Rightarrow> 'w OBEX_SRV \<Rightarrow> 'w OBEX_SRV" where
  "upd f s = s\<lparr>s_conn := map_option f (s_conn s)\<rparr>"

definition SetState :: "CONNECTION_STATE \<Rightarrow> 'w OBEX_SRV \<Rightarrow> 'w OBEX_SRV" where
  "SetState st = upd (\<lambda>c. c\<lparr>c_state := st\<rparr>)"

definition c_srm :: "OBEXSRV_CONNECTION \<Rightarrow> u8" where
  "c_srm c = srm (c_common c)"

definition set_srm :: "(u8 \<Rightarrow> u8) \<Rightarrow> 'w OBEX_SRV \<Rightarrow> 'w OBEX_SRV" where
  "set_srm f = upd (\<lambda>c. c\<lparr>c_common := (c_common c)\<lparr>srm := f (c_srm c)\<rparr>\<rparr>)"

definition srm_off :: "'w OBEX_SRV \<Rightarrow> 'w OBEX_SRV" where
  "srm_off = set_srm (\<lambda>f. f AND NOT OI_OBEX_SRM_ENABLED)"

definition srm_enabled :: "OBEXSRV_CONNECTION \<Rightarrow> bool" where
  "srm_enabled c \<longleftrightarrow> c_srm c AND OI_OBEX_SRM_ENABLED \<noteq> 0"

definition LookupConnection :: "u32 \<Rightarrow> 'w OBEX_SRV \<Rightarrow> OBEXSRV_CONNECTION option" where
  "LookupConnection h s = (case s_conn s of Some c \<Rightarrow> if connectionHandle c = h then Some c else None | None \<Rightarrow> None)"

text \<open>A call of the application. The target and the function pointer must be there.\<close>

definition call_ind :: "'w SRV_ENV \<Rightarrow> SRV_IND \<Rightarrow> 'w OBEX_SRV \<Rightarrow> (OI_STATUS \<times> 'w OBEX_SRV) option" where
  "call_ind env ind s = do {
     c \<leftarrow> s_conn s;
     t \<leftarrow> currentTarget c;
     if cb_of ind \<in> cb_names (ti_CBList t) then e_app env (cb_id (ti_CBList t)) ind s else None
   }"

definition has_cb :: "CB_NAME \<Rightarrow> OBEXSRV_CONNECTION \<Rightarrow> bool option" where
  "has_cb name c = map_option (\<lambda>t. name \<in> cb_names (ti_CBList t)) (currentTarget c)"

definition disconnect :: "'w SRV_ENV \<Rightarrow> 'w OBEX_SRV \<Rightarrow> OI_STATUS \<times> 'w OBEX_SRV" where
  "disconnect env s = (let (status, w) = e_disconnect env (s_world s) in (status, s\<lparr>s_world := w\<rparr>))"

definition CancelFunc :: "u32 \<Rightarrow> 'w OBEX_SRV \<Rightarrow> 'w OBEX_SRV option" where
  "CancelFunc h s = do {
     (_, d) \<leftarrow> OI_Dispatch_CancelFunc h (s_disp s);
     Some (s\<lparr>s_disp := d\<rparr>)
   }"

section \<open>Sending\<close>

definition SendSimple :: "'w SRV_ENV \<Rightarrow> u8 \<Rightarrow> 'w OBEX_SRV \<Rightarrow> (OI_STATUS \<times> 'w OBEX_SRV) option" where
  "SendSimple env opcode s = do {
     _ \<leftarrow> s_conn s;
     (status, w) \<leftarrow> OI_OBEXCOMMON_SendSimple (\<lambda>w m early. e_write env w m early False) (e_mem env (s_calls s) 0)
                      (s_world s) opcode;
     Some (status, s\<lparr>s_world := w, s_calls := Suc (s_calls s)\<rparr>)
   }"

definition OI_OBEXCOMMON_SendOk :: "'w SRV_ENV \<Rightarrow> 'w OBEX_SRV \<Rightarrow> (OI_STATUS \<times> 'w OBEX_SRV) option" where
  "OI_OBEXCOMMON_SendOk env = SendSimple env (OI_OBEX_FINAL OI_OBEX_RSP_OK)"

definition ServerSendPacket :: "'w SRV_ENV \<Rightarrow> 'w OBEX_SRV \<Rightarrow> (OI_STATUS \<times> 'w OBEX_SRV) option" where
  "ServerSendPacket env s = do {
     c \<leftarrow> s_conn s;
     m \<leftarrow> mbuf (c_common c);
     let (status, queueFull, w) = e_write env (s_world s) m True False;
     let s = s\<lparr>s_world := w\<rparr>;
     if \<not> OI_SUCCESS status then do {
       _ \<leftarrow> OI_MBUF_Free m;
       Some (status, upd (\<lambda>c. c\<lparr>c_common := (c_common c)\<lparr>mbuf := None\<rparr>\<rparr>) s)
     } else Some (status, s)
   }"

text \<open>The composition of a packet: \<open>OI_OBEXCOMMON_InitPacket\<close>, some bytes after the packet header, \<open>OI_OBEXCOMMON_MarshalPacket\<close>.\<close>

definition compose ::
    "'w SRV_ENV \<Rightarrow> u8 \<Rightarrow> u8 list \<Rightarrow> OI_OBEX_HEADER list \<Rightarrow> OI_OBEX_HEADER list option \<Rightarrow> 'w OBEX_SRV \<Rightarrow>
       (OI_STATUS \<times> 'w OBEX_SRV) option" where
  "compose env opcode extra headers hdrList s = do {
     c \<leftarrow> s_conn s;
     (common, pkt) \<leftarrow> OI_OBEXCOMMON_InitPacket (c_common c) opcode;
     pkt \<leftarrow> put_all extra pkt;
     (status, common) \<leftarrow> OI_OBEXCOMMON_MarshalPacket (e_mem env (s_calls s) 0) (\<lambda>i. e_mem env (s_calls s) (Suc i))
                           common pkt headers hdrList;
     Some (status, upd (\<lambda>c. c\<lparr>c_common := common\<rparr>) (s\<lparr>s_calls := Suc (s_calls s)\<rparr>))
   }"

text \<open>Compose a packet and send it.\<close>

definition send_packet ::
    "'w SRV_ENV \<Rightarrow> u8 \<Rightarrow> u8 list \<Rightarrow> OI_OBEX_HEADER list \<Rightarrow> OI_OBEX_HEADER list option \<Rightarrow> 'w OBEX_SRV \<Rightarrow>
       (OI_STATUS \<times> 'w OBEX_SRV) option" where
  "send_packet env opcode extra headers hdrList s = do {
     (status, s) \<leftarrow> compose env opcode extra headers hdrList s;
     if OI_SUCCESS status then ServerSendPacket env s else Some (status, s)
   }"

definition sendSimpleWithHeaders ::
    "'w SRV_ENV \<Rightarrow> u8 \<Rightarrow> OI_OBEX_HEADER list option \<Rightarrow> 'w OBEX_SRV \<Rightarrow> (OI_STATUS \<times> 'w OBEX_SRV) option" where
  "sendSimpleWithHeaders env opcode headerList s =
     (if headerList = None \<or> headerList = Some [] then SendSimple env opcode s
      else send_packet env opcode [] [] headerList s)"

definition ServerSendBodySegment :: "'w SRV_ENV \<Rightarrow> 'w OBEX_SRV \<Rightarrow> (OI_STATUS \<times> 'w OBEX_SRV) option" where
  "ServerSendBodySegment env s = do {
     c \<leftarrow> s_conn s;
     (status, common) \<leftarrow> OI_OBEXCOMMON_MarshalBodySegment (e_mem env (s_calls s) 0) (\<lambda>i. e_mem env (s_calls s) (Suc i)) (c_common c);
     let s = upd (\<lambda>c. c\<lparr>c_common := common\<rparr>) (s\<lparr>s_calls := Suc (s_calls s)\<rparr>);
     if OI_SUCCESS status then ServerSendPacket env s else Some (status, s)
   }"

definition MapStatus :: "OI_STATUS \<Rightarrow> u8" where
  "MapStatus status = OI_OBEX_FINAL
     (if status = OI_OK then OI_OBEX_RSP_OK
      else if status = OI_OBEX_ERROR then OI_OBEX_RSP_INTERNAL_SERVER_ERROR
      else if status \<in> {OI_OBEX_BAD_PACKET, OI_OBEX_BAD_REQUEST} then OI_OBEX_RSP_BAD_REQUEST
      else if status \<in> {OI_OBEX_OPERATION_IN_PROGRESS, OI_OBEX_ACCESS_DENIED, OI_OBEX_FORBIDDEN, OI_STATUS_ACCESS_DENIED}
        then OI_OBEX_RSP_FORBIDDEN
      else if status = OI_OBEX_NOT_FOUND then OI_OBEX_RSP_NOT_FOUND
      else if status \<in> {OI_OBEX_UNKNOWN_COMMAND, OI_OBEX_NOT_IMPLEMENTED, OI_STATUS_NOT_IMPLEMENTED}
        then OI_OBEX_RSP_NOT_IMPLEMENTED
      else if status = OI_OBEX_LENGTH_REQUIRED then OI_OBEX_RSP_LENGTH_REQUIRED
      else if status = OI_OBEX_SERVICE_UNAVAILABLE then OI_OBEX_RSP_SERVICE_UNAVAILABLE
      else if status = OI_OBEX_VALUE_NOT_ACCEPTABLE then OI_OBEX_RSP_NOT_ACCEPTABLE
      else if status \<in> {OI_OBEX_REQUIRED_HEADER_NOT_FOUND, OI_OBEX_UNSUPPORTED_VERSION, OI_OBEX_INCOMPLETE_PACKET}
        then OI_OBEX_RSP_BAD_REQUEST
      else if status = OI_OBEX_PRECONDITION_FAILED then OI_OBEX_RSP_PRECONDITION_FAILED
      else if status = OI_OBEX_DATABASE_FULL then OI_OBEX_RSP_DATABASE_FULL
      else if status = OI_OBEX_DATABASE_LOCKED then OI_OBEX_RSP_DATABASE_LOCKED
      else if status = OI_OBEX_UNSUPPORTED_MEDIA_TYPE then OI_OBEX_RSP_UNSUPPORTED_MEDIA_TYPE
      else if status = OI_OBEX_CONFLICT then OI_OBEX_RSP_CONFLICT
      else if status = OI_OBEX_UNAUTHORIZED then OI_OBEX_RSP_UNAUTHORIZED
      else if status = OI_OBEX_PARTIAL_CONTENT then OI_OBEX_RSP_PARTIAL_CONTENT
      else if status = OI_OBEX_METHOD_NOT_ALLOWED then OI_OBEX_RSP_METHOD_NOT_ALLOWED
      else if status = OI_OBEX_FOLDER_BROWSING_NOT_ALLOWED then OI_OBEX_RSP_UNAUTHORIZED
      else if status = OI_OBEX_NOT_MODIFIED then OI_OBEX_RSP_NOT_MODIFIED
      else OI_OBEX_RSP_INTERNAL_SERVER_ERROR)"

text \<open>The error response also ends single response mode; what sending it gives is ignored.\<close>

definition ErrorResponse :: "'w SRV_ENV \<Rightarrow> OI_STATUS \<Rightarrow> 'w OBEX_SRV \<Rightarrow> 'w OBEX_SRV option" where
  "ErrorResponse env status s = do {
     (_, s) \<leftarrow> SendSimple env (MapStatus status) (srm_off s);
     Some s
   }"

end
