(* ===== verification/ObexSrvBulk.thy ===== *)
theory ObexSrvBulk
  imports ObexSrv
begin

unbundle bit_operations_syntax

text \<open>
  The OBEX server, second part: the bulk data lists, their confirmation, the end of a connection,
  the write confirmations of the lower layer and the abort of an operation.

  The loops follow the \<open>next\<close> pointers of the heap and may call the application in between, so they
  are partial functions.
\<close>

section \<open>Bulk data lists\<close>

text \<open>\<open>OI_OBEXCOMMON_SendBulk\<close> on the list from \<open>bulkGet.current\<close> on. The busy flag is an argument
  and a result because one caller keeps it in a variable of its own.\<close>

definition SendBulk :: "'w SRV_ENV \<Rightarrow> bool \<Rightarrow> 'w OBEX_SRV \<Rightarrow> (OI_STATUS \<times> bool \<times> 'w OBEX_SRV) option" where
  "SendBulk env busy s = do {
     c \<leftarrow> s_conn s;
     ps \<leftarrow> bulk_nodes (s_heap s) (bg_current c);
     st \<leftarrow> OI_OBEXCOMMON_SendBulk (e_write env) (e_mem env (s_calls s)) (c_common c) (s_world s)
             (map (\<lambda>p. bn_block (the (s_heap s p))) ps) busy;
     let rest = drop (length (bk_passed st)) ps;
     Some (bk_status st, bk_busy st,
       upd (\<lambda>c. c\<lparr>bg_current := (case rest of [] \<Rightarrow> 0 | p # _ \<Rightarrow> p),
                  bg_contexts := bg_contexts c @ map (\<lambda>i. ps ! i) (bk_contexts st)\<rparr>)
         (s\<lparr>s_heap := put_nodes ps (bk_passed st @ bk_current st) (s_heap s), s_world := bk_conn st,
            s_calls := Suc (s_calls s)\<rparr>))
   }"

definition AllocBulk ::
    "'w SRV_ENV \<Rightarrow> (bytes option \<times> u32) list \<Rightarrow> 'w OBEX_SRV \<Rightarrow> OI_STATUS \<times> nat \<times> nat \<times> 'w OBEX_SRV" where
  "AllocBulk env buffers s =
     (let (status, blocks) = OI_OBEXCOMMON_AllocBulkData (e_mem env (s_calls s)) buffers;
          p = s_fresh s
      in (status, (if blocks = [] then 0 else p), (if blocks = [] then 0 else p + length blocks - 1),
          s\<lparr>s_heap := link_blocks p blocks (s_heap s), s_fresh := p + length blocks, s_calls := Suc (s_calls s)\<rparr>))"

definition OI_OBEXCOMMON_FreeBulkData :: "nat \<Rightarrow> 'w OBEX_SRV \<Rightarrow> 'w OBEX_SRV option" where
  "OI_OBEXCOMMON_FreeBulkData p s = do {
     ps \<leftarrow> bulk_nodes (s_heap s) p;
     Some (s\<lparr>s_heap := (\<lambda>q. if q \<in> set ps then None else s_heap s q)\<rparr>)
   }"

definition AppendBulkData :: "nat \<Rightarrow> nat \<Rightarrow> 'w OBEX_SRV \<Rightarrow> 'w OBEX_SRV option" where
  "AppendBulkData bulkDataHead bulkDataTail s = do {
     c \<leftarrow> s_conn s;
     s \<leftarrow> (if bg_tail c \<noteq> 0 then do {
              n \<leftarrow> s_heap s (bg_tail c);
              Some (s\<lparr>s_heap := (s_heap s)(bg_tail c := Some (n\<lparr>bn_next := bulkDataHead\<rparr>))\<rparr>)
            } else do {
              OI_ASSERT (bg_head c = 0);
              Some (upd (\<lambda>c. c\<lparr>bg_head := bulkDataHead\<rparr>) s)
            });
     Some (upd (\<lambda>c. c\<lparr>bg_tail := bulkDataTail, bg_current := (if bg_current c = 0 then bulkDataHead else bg_current c)\<rparr>) s)
   }"

section \<open>Confirming bulk data\<close>

text \<open>The loop's variables: \<open>bulkData\<close>, the buffers collected for the next call, the status of that
  call and \<open>*final\<close>.\<close>

partial_function (option) confirm_loop ::
    "'w SRV_ENV \<Rightarrow> OI_STATUS \<Rightarrow> CONFIRM_FILTER \<Rightarrow> nat \<Rightarrow> (bytes option \<times> u32) list \<Rightarrow> OI_STATUS \<Rightarrow> bool \<Rightarrow> 'w OBEX_SRV \<Rightarrow>
       (nat \<times> (bytes option \<times> u32) list \<times> OI_STATUS \<times> bool \<times> 'w OBEX_SRV) option" where
  "confirm_loop env status filt bulkData cfm cfmStatus final s =
     (if bulkData = 0 then Some (bulkData, cfm, cfmStatus, final, s)
      else Option.bind (s_heap s bulkData) (\<lambda>n.
        let b = bn_block n in
        if bytesConfirmed b < bytesSent b \<or> (filt = CONFIRM_COMPLETED \<and> bytesConfirmed b < blockSize b)
        then Some (bulkData, cfm, cfmStatus, final, s)
        else Option.bind (s_conn s) (\<lambda>c.
          let next = bn_next n;
              cfm = cfm @ [(blockBuffer b, blockSize b)];
              cfmStatus = (if next = 0 then status else cfmStatus);
              s = upd (\<lambda>c. c\<lparr>bg_head := next, bg_tail := (if next = 0 then 0 else bg_tail c),
                             bg_current := (if next = 0 then 0 else bg_current c)\<rparr>)
                    (s\<lparr>s_heap := (s_heap s)(bulkData := None)\<rparr>)
          in if length cfm = MAX_CONFIRM
             then Option.bind (call_ind env (BULK_GET_IND cfm cfmStatus) s) (\<lambda>(_, s).
                    confirm_loop env status filt next [] cfmStatus (bd_final b) s)
             else confirm_loop env status filt next cfm cfmStatus (bd_final b) s)))"

definition call_void :: "'w SRV_ENV \<Rightarrow> SRV_IND \<Rightarrow> 'w OBEX_SRV \<Rightarrow> 'w OBEX_SRV option" where
  "call_void env ind s = map_option snd (call_ind env ind s)"

text \<open>It gives whether all blocks are confirmed, and the final flag of the last one confirmed.\<close>

definition ConfirmBulkGets ::
    "'w SRV_ENV \<Rightarrow> OI_STATUS \<Rightarrow> CONFIRM_FILTER \<Rightarrow> 'w OBEX_SRV \<Rightarrow> (bool \<times> bool \<times> 'w OBEX_SRV) option" where
  "ConfirmBulkGets env status filt s = do {
     c \<leftarrow> s_conn s;
     (bulkData, cfm, cfmStatus, final, s) \<leftarrow> confirm_loop env status filt (bg_head c) []
        (if status = OI_OBEX_CONTINUE then status else OI_OK) False s;
     s \<leftarrow> (if cfm \<noteq> [] then call_void env (BULK_GET_IND cfm cfmStatus) s else Some s);
     Some (bulkData = 0, final, s)
   }"

section \<open>The end of a connection\<close>

definition ServerDisconnect :: "'w SRV_ENV \<Rightarrow> OI_STATUS \<Rightarrow> 'w OBEX_SRV \<Rightarrow> 'w OBEX_SRV option" where
  "ServerDisconnect env reason s = do {
     c \<leftarrow> s_conn s;
     let s = SetState DISCONNECTED s;
     s \<leftarrow> (if connectTimeout c \<noteq> 0 then CancelFunc (connectTimeout c) s else Some s);
     s \<leftarrow> (if c_state c = PUT_IN_PROGRESS \<or> c_state c = PUT_COMPLETING
           then call_void env (PUT_IND None OI_OBEX_NOT_CONNECTED) s
           else if c_state c = GET_IN_PROGRESS \<or> c_state c = GET_COMPLETING
           then call_void env (GET_IND None OI_OBEX_NOT_CONNECTED) s
           else if c_state c = BULK_GET_IN_PROGRESS \<or> c_state c = BULK_GET_COMPLETING \<or> c_state c = BULK_GET_FAILED
           then do { (_, _, s) \<leftarrow> ConfirmBulkGets env reason CONFIRM_ALL s; Some s }
           else Some s);
     c \<leftarrow> s_conn s;
     let s = upd (\<lambda>c. c\<lparr>c_authentication := None\<rparr>) (s\<lparr>s_linked := False\<rparr>);
     s \<leftarrow> (if connectIndicated c then call_void env DISCONNECT_IND (upd (\<lambda>c. c\<lparr>connectIndicated := False\<rparr>) s) else Some s);
     _ \<leftarrow> s_conn s;
     Some (s\<lparr>s_conn := None\<rparr>)
   }"

definition OI_OBEXSRV_ForceDisconnect :: "'w SRV_ENV \<Rightarrow> u32 \<Rightarrow> 'w OBEX_SRV \<Rightarrow> OI_STATUS \<times> 'w OBEX_SRV" where
  "OI_OBEXSRV_ForceDisconnect env h s =
     (case LookupConnection h s of
        None \<Rightarrow> (OI_STATUS_INVALID_HANDLE, s)
      | Some c \<Rightarrow>
          if c_state c = DISCONNECTED then (OI_OBEX_NOT_CONNECTED, s)
          else disconnect env (SetState OBEX_DISCONNECT_COMPLETING (upd (\<lambda>c. c\<lparr>forcedDisconnect := True\<rparr>) s)))"

definition ConnectTimeout :: "'w SRV_ENV \<Rightarrow> u32 \<Rightarrow> 'w OBEX_SRV \<Rightarrow> 'w OBEX_SRV option" where
  "ConnectTimeout env h s =
     (case LookupConnection h s of
        None \<Rightarrow> Some s
      | Some c \<Rightarrow> do {
          OI_ASSERT (c_state c \<noteq> OBEX_CONNECTED);
          let (_, s) = OI_OBEXSRV_ForceDisconnect env h (upd (\<lambda>c. c\<lparr>connectTimeout := 0\<rparr>) s);
          Some s
        })"

text \<open>The lower connection's context is the connection, or \<open>NULL\<close>.\<close>

definition LowerDisconnectInd :: "'w SRV_ENV \<Rightarrow> OI_STATUS \<Rightarrow> 'w OBEX_SRV \<Rightarrow> 'w OBEX_SRV option" where
  "LowerDisconnectInd env reason s =
     (case s_conn s of
        None \<Rightarrow> Some s
      | Some c \<Rightarrow> ServerDisconnect env (if forcedDisconnect c then OI_OBEX_SERVER_FORCED_DISCONNECT else reason) s)"

text \<open>A request to the lower layer to disconnect; if it is refused the connection ends at once.\<close>

definition drop_link :: "'w SRV_ENV \<Rightarrow> 'w OBEX_SRV \<Rightarrow> 'w OBEX_SRV option" where
  "drop_link env s =
     (let (status, s) = disconnect env (SetState OBEX_DISCONNECT_COMPLETING s)
      in if \<not> OI_SUCCESS status then ServerDisconnect env status s else Some s)"

section \<open>Write confirmations\<close>

definition BulkGetWriteCfm ::
    "'w SRV_ENV \<Rightarrow> u16 \<Rightarrow> nat \<Rightarrow> bool \<Rightarrow> OI_STATUS \<Rightarrow> 'w OBEX_SRV \<Rightarrow> (OI_STATUS \<times> 'w OBEX_SRV) option" where
  "BulkGetWriteCfm env confirmed bulkData queueFull status s = do {
     c \<leftarrow> s_conn s;
     let continueStatus = (if c_state c = BULK_GET_IN_PROGRESS then OI_OBEX_CONTINUE else OI_OK);
     n \<leftarrow> s_heap s bulkData;
     OI_ASSERT (bytesConfirmed (bn_block n) \<le> bytesSent (bn_block n));
     h \<leftarrow> spread_confirm confirmed bulkData (s_heap s);
     let s = upd (\<lambda>c. c\<lparr>c_common := (c_common c)\<lparr>progressBytes := progressBytes (c_common c) + ucast confirmed\<rparr>\<rparr>)
               (s\<lparr>s_heap := h\<rparr>);
     let status = (if abortPending c then OI_OBEX_CLIENT_ABORTED_COMMAND else status);
     if \<not> OI_SUCCESS status then do {
       (done_all, _, s) \<leftarrow> ConfirmBulkGets env status CONFIRM_ALL s;
       s \<leftarrow> (if done_all then do {
              c \<leftarrow> s_conn s;
              s \<leftarrow> (if abortPending c \<and> \<not> abortResponsePending c then do {
                     (_, s) \<leftarrow> OI_OBEXCOMMON_SendOk env s;
                     Some (upd (\<lambda>c. c\<lparr>abortPending := False\<rparr>) s)
                   } else Some s);
              Some (SetState OBEX_CONNECTED (srm_off s))
            } else Some s);
       Some (OI_OK, s)
     } else do {
       s \<leftarrow> (if srm_enabled c \<or> continueStatus = OI_OK then do {
              (_, final, s) \<leftarrow> ConfirmBulkGets env continueStatus CONFIRM_COMPLETED s;
              if final then do {
                c \<leftarrow> s_conn s;
                OI_ASSERT (bg_head c = 0);
                s \<leftarrow> call_void env (BULK_GET_IND [] OI_OBEX_CLEANUP) s;
                _ \<leftarrow> s_conn s;
                Some (SetState OBEX_CONNECTED (srm_off s))
              } else Some s
            } else Some s);
       c \<leftarrow> s_conn s;
       if \<not> queueFull \<and> srm_enabled c then do {
         (status, queueFull, s) \<leftarrow> SendBulk env queueFull s;
         status \<leftarrow> (if \<not> OI_SUCCESS status then do {
              c \<leftarrow> s_conn s;
              n \<leftarrow> s_heap s (bg_head c);
              Some (if bytesConfirmed (bn_block n) < bytesSent (bn_block n) then OI_OK else status)
            } else Some status);
         Some (status, upd (\<lambda>c. c\<lparr>bg_busy := queueFull\<rparr>) s)
       } else Some (status, s)
     }
   }"

definition report_progress :: "'w SRV_ENV \<Rightarrow> u8 \<Rightarrow> 'w OBEX_SRV \<Rightarrow> 'w OBEX_SRV option" where
  "report_progress env cmd s = do {
     c \<leftarrow> s_conn s;
     if progressBytes (c_common c) = 0 then Some s
     else do {
       has \<leftarrow> has_cb progressInd c;
       if has then call_void env (PROGRESS_IND cmd (progressBytes (c_common c))) s else Some s
     }
   }"

text \<open>The mbuf that is confirmed is the connection's, that of the abort response, or another one with
  its context.\<close>

datatype WRITTEN_MBUF = WM_common | WM_abort | WM_other OI_MBUF nat

definition LowerWriteCfm :: "'w SRV_ENV \<Rightarrow> WRITTEN_MBUF \<Rightarrow> bool \<Rightarrow> OI_STATUS \<Rightarrow> 'w OBEX_SRV \<Rightarrow> 'w OBEX_SRV option" where
  "LowerWriteCfm env wm queueFull result s =
     (case s_conn s of None \<Rightarrow> Some s | Some c \<Rightarrow> do {
     (m, context) \<leftarrow> (case wm of
        WM_common \<Rightarrow> map_option (\<lambda>m. (m, 0)) (mbuf (c_common c))
      | WM_abort \<Rightarrow> map_option (\<lambda>m. (m, 0)) (abortMbuf c)
      | WM_other m context \<Rightarrow> Some (m, context));
     (numBytes, _, _) \<leftarrow> OI_MBUF_Free m;
     let s = (case wm of
        WM_common \<Rightarrow> upd (\<lambda>c. c\<lparr>c_common := (c_common c)\<lparr>mbuf := None\<rparr>\<rparr>) s
      | WM_abort \<Rightarrow> upd (\<lambda>c. c\<lparr>abortMbuf := None\<rparr>) s
      | WM_other _ _ \<Rightarrow> s);
     let s = (if \<not> OI_SUCCESS result then snd (disconnect env s) else s);
     let state = c_state c;
     if state = CONNECT_COMPLETING then do {
       let s = SetState OBEX_CONNECTED (upd (\<lambda>c. c\<lparr>c_authentication := None\<rparr>) s);
       if connectTimeout c \<noteq> 0 then do {
         s \<leftarrow> CancelFunc (connectTimeout c) s;
         Some (upd (\<lambda>c. c\<lparr>connectTimeout := 0\<rparr>) s)
       } else Some s
     } else if state = GET_COMPLETING then
       if OI_OBEX_IS_A_BODY_HEADER (hdr_id (bodySegment (c_common c))) then Some s
       else call_void env (GET_IND None (if OI_SUCCESS result then OI_OBEX_CLEANUP else result))
              (srm_off (SetState OBEX_CONNECTED s))
     else if state = PUT_COMPLETING then
       call_void env (PUT_IND None (if OI_SUCCESS result then OI_OBEX_CLEANUP else result))
         (srm_off (SetState OBEX_CONNECTED s))
     else if state = OBEX_DISCONNECTING then drop_link env s
     else if state = BULK_GET_FAILED \<or> state = BULK_GET_COMPLETING \<or> state = BULK_GET_IN_PROGRESS then do {
       let result = (if state = BULK_GET_FAILED then OI_OBEX_ERROR else result);
       (_, s) \<leftarrow> BulkGetWriteCfm env (numBytes - BULK_GET_HDR_SIZE) context queueFull result s;
       if OI_SUCCESS result then report_progress env OI_OBEX_CMD_GET s else Some s
     } else if state = GET_IN_PROGRESS then
       if \<not> OI_SUCCESS result then Some (SetState GET_COMPLETING s)
       else if c_final c then do {
         bulk \<leftarrow> has_cb bulkGetInd c;
         if bulk then
           (let s = SetState BULK_GET_IN_PROGRESS s
            in if srm_enabled c then call_void env (BULK_GET_IND [] OI_OBEX_CONTINUE) s else Some s)
         else do {
           s \<leftarrow> (if srm_enabled c then call_void env (GET_IND None OI_OBEX_CONTINUE) s else Some s);
           c \<leftarrow> s_conn s;
           _ \<leftarrow> currentTarget c;
           report_progress env OI_OBEX_CMD_GET s
         }
       } else Some s
     else Some s
   })"

section \<open>Abort\<close>

definition AbortOperation :: "'w SRV_ENV \<Rightarrow> 'w OBEX_SRV \<Rightarrow> (OI_STATUS \<times> 'w OBEX_SRV) option" where
  "AbortOperation env s = do {
     c \<leftarrow> s_conn s;
     s \<leftarrow> (if c_state c = PUT_IN_PROGRESS \<or> c_state c = PUT_COMPLETING then
             call_void env (PUT_IND None OI_OBEX_CLIENT_ABORTED_COMMAND) (srm_off (SetState OBEX_CONNECTED s))
           else if c_state c = GET_IN_PROGRESS \<or> c_state c = GET_COMPLETING then
             call_void env (GET_IND None OI_OBEX_CLIENT_ABORTED_COMMAND) (SetState OBEX_CONNECTED s)
           else if c_state c = BULK_GET_IN_PROGRESS \<or> c_state c = BULK_GET_COMPLETING \<or> c_state c = BULK_GET_FAILED then
             if bg_head c = 0 then
               call_void env (BULK_GET_IND [] OI_OBEX_CLIENT_ABORTED_COMMAND) (SetState OBEX_CONNECTED (srm_off s))
             else do {
               (done_all, _, s) \<leftarrow> ConfirmBulkGets env OI_OBEX_CLIENT_ABORTED_COMMAND CONFIRM_ALL s;
               _ \<leftarrow> s_conn s;
               Some (if done_all then SetState OBEX_CONNECTED (srm_off (upd (\<lambda>c. c\<lparr>abortPending := False\<rparr>) s))
                     else upd (\<lambda>c. c\<lparr>abortPending := True\<rparr>) s)
             }
           else Some s);
     c \<leftarrow> s_conn s;
     if abortPending c then Some (OI_OK, s)
     else case abortMbuf c of
       Some m \<Rightarrow>
         (let (status, queueFull, w) = e_write env (s_world s) m True False;
              s = s\<lparr>s_world := w\<rparr>
          in if \<not> OI_SUCCESS status then do {
               _ \<leftarrow> OI_MBUF_Free m;
               Some (status, upd (\<lambda>c. c\<lparr>abortMbuf := None\<rparr>) s)
             } else Some (status, s))
     | None \<Rightarrow> OI_OBEXCOMMON_SendOk env s
   }"

definition dispatchedAbortCommand :: "'w SRV_ENV \<Rightarrow> u32 \<Rightarrow> 'w OBEX_SRV \<Rightarrow> 'w OBEX_SRV option" where
  "dispatchedAbortCommand env h s =
     (case LookupConnection h s of
        None \<Rightarrow> Some s
      | Some c \<Rightarrow> map_option snd (AbortOperation env (upd (\<lambda>c. c\<lparr>abortPending := False\<rparr>) s)))"

end
