(* ===== verification/ObexSrvReq.thy ===== *)
theory ObexSrvReq
  imports ObexSrvBulk
begin

unbundle bit_operations_syntax

text \<open>
  The OBEX server, third part: the requests of the client, by command, and the functions with which
  the application answers them. The jumps to an error label are calls of a function of its own.
\<close>

section \<open>Constants\<close>

definition OI_OBEX_SESSION_PARAM_OPCODE :: u8 where "OI_OBEX_SESSION_PARAM_OPCODE = 0x06"
definition OI_OBEX_SESSION_CREATE :: u8 where "OI_OBEX_SESSION_CREATE = 0"
definition OI_OBEX_SESSION_CLOSE :: u8 where "OI_OBEX_SESSION_CLOSE = 1"
definition OI_OBEX_SESSION_SUSPEND :: u8 where "OI_OBEX_SESSION_SUSPEND = 2"
definition OI_OBEX_SESSION_RESUME :: u8 where "OI_OBEX_SESSION_RESUME = 3"
definition OI_OBEX_SESSION_SET_TIMEOUT :: u8 where "OI_OBEX_SESSION_SET_TIMEOUT = 4"

section \<open>Headers of a request\<close>

definition ParseHeaderList ::
    "'w SRV_ENV \<Rightarrow> OI_BYTE_STREAM \<Rightarrow> 'w OBEX_SRV \<Rightarrow> (OI_STATUS \<times> OI_OBEX_HEADER list \<times> 'w OBEX_SRV) option" where
  "ParseHeaderList env rcvPacket s = do {
     c \<leftarrow> s_conn s;
     (status, hl, common, _) \<leftarrow> OI_OBEXCOMMON_ParseHeaderList (e_mem env (s_calls s) 0) (c_common c) rcvPacket;
     Some (status, case hl_list hl of None \<Rightarrow> [] | Some hs \<Rightarrow> hs,
       upd (\<lambda>c. c\<lparr>c_common := common\<rparr>) (s\<lparr>s_calls := Suc (s_calls s)\<rparr>))
   }"

text \<open>A header list as the functions keep it; there is no array if there are no headers.\<close>

definition listed :: "OI_OBEX_HEADER list \<Rightarrow> OI_OBEX_HEADER_LIST" where
  "listed headers = \<lparr>hl_count = of_nat (length headers), hl_list = (if headers = [] then None else Some headers)\<rparr>"

definition VerifyConnectionId :: "OBEXSRV_CONNECTION \<Rightarrow> OI_OBEX_HEADER list \<Rightarrow> OI_STATUS option" where
  "VerifyConnectionId c headers =
     (if clientSpecifiedTarget c then
        case OI_OBEX_FindHeader headers OI_OBEX_HDR_CONNECTION_ID of
          None \<Rightarrow> Some OI_OBEX_REQUIRED_HEADER_NOT_FOUND
        | Some h \<Rightarrow> do {
            conId \<leftarrow> uint32_of h;
            Some (if conId \<noteq> c_addr c then OI_OBEX_SERVICE_UNAVAILABLE else OI_OK)
          }
      else Some OI_OK)"

text \<open>Does the client ask for single response mode? If the server supports it the request is noted.\<close>

definition srm_request :: "OI_OBEX_HEADER list \<Rightarrow> 'w OBEX_SRV \<Rightarrow> (bool \<times> 'w OBEX_SRV) option" where
  "srm_request headers s = do {
     c \<leftarrow> s_conn s;
     case OI_OBEX_FindHeader headers OI_OBEX_HDR_SINGLE_RESPONSE_MODE of
       None \<Rightarrow> Some (False, s)
     | Some h \<Rightarrow> do {
         v \<leftarrow> uint8_of h;
         if v = OI_OBEX_SRM_ENABLED then
           Some (True, if c_srm c AND OI_OBEX_SRM_SUPPORTED \<noteq> 0 then set_srm (\<lambda>f. f OR OI_OBEX_SRM_REQUESTED) s else s)
         else Some (False, s)
       }
   }"

text \<open>The single response parameter is kept for later and taken out of the list.\<close>

definition srm_param :: "OI_OBEX_HEADER list \<Rightarrow> 'w OBEX_SRV \<Rightarrow> (OI_OBEX_HEADER list \<times> 'w OBEX_SRV) option" where
  "srm_param headers s =
     (case OI_OBEX_FindHeader headers OI_OBEX_HDR_SINGLE_RESPONSE_PARAMETERS of
        None \<Rightarrow> Some (headers, upd (\<lambda>c. c\<lparr>srmParam := SRM_PARAM_NONE\<rparr>) s)
      | Some h \<Rightarrow> do {
          v \<leftarrow> uint8_of h;
          Some (snd (OI_OBEXCOMMON_DeleteHeaderFromList headers OI_OBEX_HDR_SINGLE_RESPONSE_PARAMETERS),
            upd (\<lambda>c. c\<lparr>srmParam := v\<rparr>) s)
        })"

section \<open>GET\<close>

definition GetCommandError :: "'w SRV_ENV \<Rightarrow> OI_STATUS \<Rightarrow> 'w OBEX_SRV \<Rightarrow> (OI_STATUS \<times> 'w OBEX_SRV) option" where
  "GetCommandError env status s = do {
     OI_ASSERT (\<not> OI_SUCCESS status);
     c \<leftarrow> s_conn s;
     let s = srm_off s;
     s \<leftarrow> (if c_state c = GET_IN_PROGRESS \<or> c_state c = GET_COMPLETING then do {
             has \<leftarrow> has_cb getInd c;
             if has then call_void env (GET_IND None status) s else Some s
           } else if c_state c = BULK_GET_IN_PROGRESS \<or> c_state c = BULK_GET_COMPLETING then do {
             has \<leftarrow> has_cb bulkGetInd c;
             if has then call_void env (BULK_GET_IND [] status) s else Some s
           } else if c_state c = BULK_GET_FAILED then do {
             (_, _, s) \<leftarrow> ConfirmBulkGets env status CONFIRM_ALL s;
             Some s
           } else Some s);
     _ \<leftarrow> s_conn s;
     s \<leftarrow> ErrorResponse env status (SetState OBEX_CONNECTED s);
     Some (status, s)
   }"

text \<open>The entry: the state decides whether this is a new request, the next packet of one, or neither.
  The status is an error if the command is not expected.\<close>

definition get_start :: "'w OBEX_SRV \<Rightarrow> (OI_STATUS \<times> bool \<times> 'w OBEX_SRV) option" where
  "get_start s = do {
     c \<leftarrow> s_conn s;
     let s = upd (\<lambda>c. c\<lparr>bg_busy := False\<rparr>) s;
     if c_state c = OBEX_CONNECTED then
       Some (OI_OK, True, SetState GET_IN_PROGRESS
         (upd (\<lambda>c. c\<lparr>bg_head := 0, bg_tail := 0, c_final := False, c_common := (c_common c)\<lparr>progressBytes := 0\<rparr>\<rparr>) s))
     else if c_state c = GET_IN_PROGRESS \<or> c_state c = GET_COMPLETING then do {
       has \<leftarrow> has_cb getInd c;
       Some (if has then OI_OK else OI_OBEX_SERVICE_UNAVAILABLE, False, s)
     } else if c_state c = BULK_GET_IN_PROGRESS \<or> c_state c = BULK_GET_COMPLETING then do {
       has \<leftarrow> has_cb bulkGetInd c;
       Some (if has then OI_OK else OI_OBEX_SERVICE_UNAVAILABLE, False, s)
     } else if c_state c = BULK_GET_FAILED then Some (OI_OBEX_ERROR, False, s)
     else Some (OI_OBEX_OPERATION_IN_PROGRESS, False, s)
   }"

text \<open>The end: the indication to the application, or the next bulk data.\<close>

definition get_indicate ::
    "'w SRV_ENV \<Rightarrow> bool \<Rightarrow> OI_OBEX_HEADER list \<Rightarrow> 'w OBEX_SRV \<Rightarrow> (OI_STATUS \<times> 'w OBEX_SRV) option" where
  "get_indicate env final headers s = do {
     c \<leftarrow> s_conn s;
     (status, s) \<leftarrow>
       (if c_state c = BULK_GET_IN_PROGRESS \<or> c_state c = BULK_GET_COMPLETING then do {
          OI_ASSERT (\<not> srm_enabled c);
          s \<leftarrow> (if bg_head c \<noteq> 0 then do { (_, _, s) \<leftarrow> ConfirmBulkGets env OI_OBEX_CONTINUE CONFIRM_COMPLETED s; Some s }
                else call_void env (BULK_GET_IND [] OI_OBEX_CONTINUE) s);
          c \<leftarrow> s_conn s;
          if bg_current c \<noteq> 0 then do {
            (status, busy, s) \<leftarrow> SendBulk env (bg_busy c) s;
            Some (status, upd (\<lambda>c. c\<lparr>bg_busy := busy\<rparr>) s)
          } else Some (OI_OK, s)
        } else call_ind env (GET_IND (Some headers) (if final then OI_OBEX_CONTINUE else OI_OBEXSRV_INCOMPLETE_GET)) s);
     if \<not> OI_SUCCESS status then GetCommandError env status s else Some (OI_OK, s)
   }"

definition GetCommand :: "'w SRV_ENV \<Rightarrow> OI_BYTE_STREAM \<Rightarrow> bool \<Rightarrow> 'w OBEX_SRV \<Rightarrow> (OI_STATUS \<times> 'w OBEX_SRV) option" where
  "GetCommand env rcvPacket final s = do {
     (status, newRequest, s) \<leftarrow> get_start s;
     c \<leftarrow> s_conn s;
     if \<not> OI_SUCCESS status then GetCommandError env status s
     else if c_final c \<and> srm_enabled c then GetCommandError env OI_OBEX_OPERATION_IN_PROGRESS s
     else do {
       (status, headers, s) \<leftarrow> ParseHeaderList env rcvPacket (upd (\<lambda>c. c\<lparr>c_final := final\<rparr>) s);
       if \<not> OI_SUCCESS status then GetCommandError env status s
       else do {
         (asked, s) \<leftarrow> srm_request headers s;
         let headers = (if asked then snd (OI_OBEXCOMMON_DeleteHeaderFromList headers OI_OBEX_HDR_SINGLE_RESPONSE_MODE) else headers);
         (headers, s) \<leftarrow> srm_param headers s;
         c \<leftarrow> s_conn s;
         if newRequest then
           if OI_OBEX_FindHeader headers OI_OBEX_HDR_NAME = None \<and> OI_OBEX_FindHeader headers OI_OBEX_HDR_TYPE = None
           then GetCommandError env OI_OBEX_REQUIRED_HEADER_NOT_FOUND s
           else do {
             status \<leftarrow> VerifyConnectionId c headers;
             if \<not> OI_SUCCESS status then GetCommandError env status s
             else get_indicate env final headers
               (upd (\<lambda>c. c\<lparr>c_common := (c_common c)\<lparr>bodySegment := (bodySegment (c_common c))\<lparr>hdr_id := 0\<rparr>\<rparr>\<rparr>) s)
           }
         else if OI_OBEX_IS_A_BODY_HEADER (hdr_id (bodySegment (c_common c))) then do {
           (status, s) \<leftarrow> ServerSendBodySegment env s;
           if \<not> OI_SUCCESS status then GetCommandError env status s else Some (OI_OK, s)
         } else get_indicate env final headers s
       }
     }
   }"

section \<open>Answers to a GET\<close>

definition BulkGetResponseError :: "'w SRV_ENV \<Rightarrow> OI_STATUS \<Rightarrow> 'w OBEX_SRV \<Rightarrow> (OI_STATUS \<times> 'w OBEX_SRV) option" where
  "BulkGetResponseError env status s = do {
     c \<leftarrow> s_conn s;
     let s = SetState BULK_GET_FAILED s;
     s \<leftarrow> (if srm_enabled c
           then ErrorResponse env status (if bg_head c = 0 then SetState OBEX_CONNECTED (srm_off s) else s)
           else Some s);
     Some (OI_OBEX_ERROR, s)
   }"

definition OI_OBEXSRV_BulkGetResponse ::
    "'w SRV_ENV \<Rightarrow> u32 \<Rightarrow> (bytes option \<times> u32) list \<Rightarrow> OI_STATUS \<Rightarrow> 'w OBEX_SRV \<Rightarrow> (OI_STATUS \<times> 'w OBEX_SRV) option" where
  "OI_OBEXSRV_BulkGetResponse env h buffers rspStatus s =
     (case LookupConnection h s of None \<Rightarrow> Some (OI_STATUS_INVALID_PARAMETERS, s) | Some c \<Rightarrow>
     if c_state c = BULK_GET_FAILED then Some (OI_STATUS_INVALID_STATE, s)
     else if c_state c = BULK_GET_COMPLETING then Some (if buffers \<noteq> [] then OI_STATUS_INVALID_STATE else OI_OK, s)
     else if c_state c \<noteq> BULK_GET_IN_PROGRESS then Some (OI_STATUS_INVALID_STATE, s)
     else if abortPending c then Some (OI_OBEX_CLIENT_ABORTED_COMMAND, s)
     else do {
       final_seen \<leftarrow> (if bg_tail c \<noteq> 0 then map_option (\<lambda>n. bd_final (bn_block n)) (s_heap s (bg_tail c)) else Some False);
       if final_seen then Some (OI_STATUS_INVALID_STATE, s)
       else if rspStatus \<noteq> OI_OBEX_CONTINUE \<and> \<not> OI_SUCCESS rspStatus then BulkGetResponseError env rspStatus s
       else if buffers = [] then Some (OI_STATUS_INVALID_PARAMETERS, s)
       else let (status, bulkDataHead, bulkDataTail, s) = AllocBulk env buffers s in
         if \<not> OI_SUCCESS status then BulkGetResponseError env status s
         else do {
           n \<leftarrow> s_heap s bulkDataTail;
           let s = (if rspStatus \<noteq> OI_OBEX_CONTINUE
              then SetState BULK_GET_COMPLETING
                     (s\<lparr>s_heap := (s_heap s)(bulkDataTail := Some (n\<lparr>bn_block := (bn_block n)\<lparr>bd_final := True\<rparr>\<rparr>))\<rparr>)
              else s);
           s \<leftarrow> AppendBulkData bulkDataHead bulkDataTail s;
           if bg_current c \<noteq> 0 \<or> bg_busy c then Some (OI_OK, s)
           else do {
             (status, busy, s) \<leftarrow> SendBulk env (bg_busy c) s;
             let s = upd (\<lambda>c. c\<lparr>bg_busy := busy\<rparr>) s;
             if OI_SUCCESS status then Some (OI_OK, s)
             else do {
               n \<leftarrow> s_heap s bulkDataHead;
               if bytesSent (bn_block n) = bytesConfirmed (bn_block n) then do {
                 s \<leftarrow> OI_OBEXCOMMON_FreeBulkData bulkDataHead s;
                 BulkGetResponseError env status s
               } else let (status, s) = OI_OBEXSRV_ForceDisconnect env h s in
                 if OI_SUCCESS status then Some (OI_OK, s) else BulkGetResponseError env status s
             }
           }
         }
     })"

text \<open>The answer starts single response mode if the client asked for it; the second component is the
  header that says so.\<close>

definition srm_accept :: "'w OBEX_SRV \<Rightarrow> (OI_OBEX_HEADER list \<times> 'w OBEX_SRV) option" where
  "srm_accept s = do {
     c \<leftarrow> s_conn s;
     Some (if c_srm c AND OI_OBEX_SRM_REQUESTED \<noteq> 0
           then ([hdr_u8 OI_OBEX_HDR_SINGLE_RESPONSE_MODE OI_OBEX_SRM_ENABLED],
             set_srm (\<lambda>f. f AND NOT OI_OBEX_SRM_REQUESTED OR OI_OBEX_SRM_ENABLED) s)
           else ([], s))
   }"

definition GetResponseError :: "'w SRV_ENV \<Rightarrow> OI_STATUS \<Rightarrow> OI_STATUS \<Rightarrow> 'w OBEX_SRV \<Rightarrow> (OI_STATUS \<times> 'w OBEX_SRV) option" where
  "GetResponseError env rspStatus status s = do {
     s \<leftarrow> ErrorResponse env rspStatus (SetState OBEX_CONNECTED s);
     Some (status, s)
   }"

definition OI_OBEXSRV_GetResponse ::
    "'w SRV_ENV \<Rightarrow> u32 \<Rightarrow> OI_OBEX_HEADER list option \<Rightarrow> OI_STATUS \<Rightarrow> 'w OBEX_SRV \<Rightarrow> (OI_STATUS \<times> 'w OBEX_SRV) option" where
  "OI_OBEXSRV_GetResponse env h rspHeaders rspStatus s =
     (case LookupConnection h s of None \<Rightarrow> Some (OI_STATUS_INVALID_PARAMETERS, s) | Some c \<Rightarrow>
     if c_state c \<noteq> GET_IN_PROGRESS then Some (OI_OBEX_OPERATION_IN_PROGRESS, s)
     else if rspStatus \<noteq> OI_OK \<and> rspStatus \<noteq> OI_OBEX_CONTINUE then GetResponseError env rspStatus OI_OK s
     else do {
       let s = (if rspStatus = OI_OBEX_CONTINUE then s else SetState GET_COMPLETING s);
       let rsp = OI_OBEX_FINAL (if rspStatus = OI_OBEX_CONTINUE then OI_OBEX_RSP_CONTINUE else OI_OBEX_RSP_OK);
       (srmHdr, s) \<leftarrow> srm_accept s;
       c \<leftarrow> s_conn s;
       let rsvpHdr = (if \<not> c_final c \<and> srm_enabled c
                      then [hdr_u8 OI_OBEX_HDR_SINGLE_RESPONSE_PARAMETERS OI_OBEX_SRM_PARAM_RSVP] else []);
       (status, s) \<leftarrow> send_packet env rsp [] (srmHdr @ rsvpHdr) rspHeaders s;
       if \<not> OI_SUCCESS status then GetResponseError env status status s else Some (OI_OK, s)
     })"

section \<open>PUT\<close>

definition flow :: "'w SRV_ENV \<Rightarrow> bool \<Rightarrow> 'w OBEX_SRV \<Rightarrow> 'w OBEX_SRV" where
  "flow env on s = s\<lparr>s_world := e_flowControl env on (s_world s)\<rparr>"

definition PutCommandError :: "'w SRV_ENV \<Rightarrow> OI_STATUS \<Rightarrow> 'w OBEX_SRV \<Rightarrow> (OI_STATUS \<times> 'w OBEX_SRV) option" where
  "PutCommandError env status s = do {
     OI_ASSERT (\<not> OI_SUCCESS status);
     c \<leftarrow> s_conn s;
     s \<leftarrow> (if c_state c \<in> {OBEX_CONNECTED, PUT_IN_PROGRESS, PUT_COMPLETING} then do {
             s \<leftarrow> call_void env (PUT_IND None status) s;
             _ \<leftarrow> s_conn s;
             Some (SetState OBEX_CONNECTED s)
           } else Some s);
     s \<leftarrow> ErrorResponse env status s;
     Some (status, s)
   }"

text \<open>After the checks: the request goes to the application.\<close>

definition put_indicate ::
    "'w SRV_ENV \<Rightarrow> bool \<Rightarrow> OI_OBEX_HEADER list \<Rightarrow> 'w OBEX_SRV \<Rightarrow> (OI_STATUS \<times> 'w OBEX_SRV) option" where
  "put_indicate env final headers s = do {
     let s = upd (\<lambda>c. c\<lparr>c_final := final\<rparr>) s;
     c \<leftarrow> s_conn s;
     has \<leftarrow> has_cb putInd c;
     if \<not> has then PutCommandError env OI_OBEX_SERVICE_UNAVAILABLE s
     else do {
       (headers, s) \<leftarrow> srm_param headers s;
       let s = (if srm_enabled c then flow env False s else s);
       (status, s) \<leftarrow> call_ind env (PUT_IND (Some headers) (if final then OI_OK else OI_OBEX_CONTINUE)) s;
       c \<leftarrow> s_conn s;
       s \<leftarrow> (if OI_SUCCESS status then do {
               _ \<leftarrow> currentTarget c;
               report_progress env OI_OBEX_CMD_PUT s
             } else ErrorResponse env status (SetState OBEX_CONNECTED (if srm_enabled c then flow env True s else s)));
       Some (OI_OK, s)
     }
   }"

definition PutCommand :: "'w SRV_ENV \<Rightarrow> OI_BYTE_STREAM \<Rightarrow> bool \<Rightarrow> 'w OBEX_SRV \<Rightarrow> (OI_STATUS \<times> 'w OBEX_SRV) option" where
  "PutCommand env rcvPacket final s = do {
     (status, headers, s) \<leftarrow> ParseHeaderList env rcvPacket s;
     c \<leftarrow> s_conn s;
     if \<not> OI_SUCCESS status then PutCommandError env status s
     else if c_state c = OBEX_CONNECTED then do {
       status \<leftarrow> VerifyConnectionId c headers;
       if \<not> OI_SUCCESS status then PutCommandError env status s
       else do {
         let s = SetState PUT_IN_PROGRESS (upd (\<lambda>c. c\<lparr>c_common := (c_common c)\<lparr>progressBytes := 0\<rparr>\<rparr>) s);
         (asked, s) \<leftarrow> srm_request headers s;
         put_indicate env final
           (if asked then snd (OI_OBEXCOMMON_DeleteHeaderFromList headers OI_OBEX_HDR_SINGLE_RESPONSE_PARAMETERS) else headers) s
       }
     } else if c_state c \<noteq> PUT_IN_PROGRESS then PutCommandError env OI_OBEX_OPERATION_IN_PROGRESS s
     else put_indicate env final headers s
   }"

definition ResponseRequired :: "'w OBEX_SRV \<Rightarrow> (bool \<times> 'w OBEX_SRV) option" where
  "ResponseRequired s = do {
     c \<leftarrow> s_conn s;
     let clear = upd (\<lambda>c. c\<lparr>srmParam := SRM_PARAM_NONE\<rparr>) s;
     Some (if \<not> srm_enabled c then (True, s)
           else if c_final c then (True, clear)
           else if srmParam c = OI_OBEX_SRM_PARAM_RSVP then (True, clear)
           else if srmParam c = OI_OBEX_SRM_PARAM_RSVP_AND_WAIT then (True, s)
           else (False, s))
   }"

definition OI_OBEXSRV_PutResponse ::
    "'w SRV_ENV \<Rightarrow> u32 \<Rightarrow> OI_OBEX_HEADER list option \<Rightarrow> OI_STATUS \<Rightarrow> 'w OBEX_SRV \<Rightarrow> (OI_STATUS \<times> 'w OBEX_SRV) option" where
  "OI_OBEXSRV_PutResponse env h rspHeaders rspStatus s =
     (case LookupConnection h s of None \<Rightarrow> Some (OI_STATUS_INVALID_PARAMETERS, s) | Some c \<Rightarrow>
     if c_state c \<noteq> PUT_IN_PROGRESS then Some (OI_OBEX_OPERATION_IN_PROGRESS, s)
     else do {
       let s = (if srm_enabled c then flow env True s else s);
       if rspStatus \<notin> {OI_OK, OI_OBEX_CONTINUE, OI_OBEX_PARTIAL_CONTENT} then GetResponseError env rspStatus OI_OK s
       else if rspStatus = OI_OBEX_CONTINUE \<and> c_final c then GetResponseError env rspStatus OI_STATUS_INVALID_STATE s
       else do {
         let s = (if rspStatus = OI_OBEX_CONTINUE then s else srm_off (SetState PUT_COMPLETING s));
         let rsp = (if rspStatus = OI_OBEX_CONTINUE then OI_OBEX_FINAL OI_OBEX_RSP_CONTINUE else MapStatus rspStatus);
         (required, s) \<leftarrow> ResponseRequired s;
         if \<not> required then Some (OI_OK, s)
         else do {
           (srmHdr, s) \<leftarrow> (if rspStatus = OI_OBEX_CONTINUE then srm_accept s else Some ([], s));
           (status, s) \<leftarrow> (if rspHeaders \<noteq> None \<or> srmHdr \<noteq> [] then send_packet env rsp [] srmHdr rspHeaders s
                           else SendSimple env rsp s);
           if \<not> OI_SUCCESS status then GetResponseError env status status s else Some (OI_OK, s)
         }
       }
     })"

section \<open>SETPATH\<close>

definition SetPathCommandError :: "'w SRV_ENV \<Rightarrow> OI_STATUS \<Rightarrow> 'w OBEX_SRV \<Rightarrow> (OI_STATUS \<times> 'w OBEX_SRV) option" where
  "SetPathCommandError env status s = do {
     c \<leftarrow> s_conn s;
     s \<leftarrow> ErrorResponse env status (if c_state c = SETTING_PATH then SetState OBEX_CONNECTED s else s);
     Some (status, s)
   }"

text \<open>The name header, unless it is absent or empty.\<close>

definition path_name :: "OI_OBEX_HEADER list \<Rightarrow> OI_OBEX_VALUE option option" where
  "path_name headers =
     (case OI_OBEX_FindHeader headers OI_OBEX_HDR_NAME of
        None \<Rightarrow> Some None
      | Some h \<Rightarrow> (case hdr_val h of UNICODE str len \<Rightarrow> Some (if len \<noteq> 0 then Some (UNICODE str len) else None) | _ \<Rightarrow> None))"

definition SetPathCommand :: "'w SRV_ENV \<Rightarrow> OI_BYTE_STREAM \<Rightarrow> 'w OBEX_SRV \<Rightarrow> (OI_STATUS \<times> 'w OBEX_SRV) option" where
  "SetPathCommand env rcvPacket s = do {
     c \<leftarrow> s_conn s;
     if c_state c \<noteq> OBEX_CONNECTED then SetPathCommandError env OI_OBEX_OPERATION_IN_PROGRESS s
     else do {
       has \<leftarrow> has_cb setPathInd c;
       if \<not> has then SetPathCommandError env OI_OBEX_SERVICE_UNAVAILABLE s
       else do {
         (flags, pkt) \<leftarrow> ByteStream_GetUINT8_Checked rcvPacket 0;
         let pkt = ByteStream_Skip_Checked pkt 1;
         if ByteStream_Error pkt then SetPathCommandError env OI_OBEX_BAD_REQUEST s
         else do {
           (status, headers, s) \<leftarrow> ParseHeaderList env pkt s;
           c \<leftarrow> s_conn s;
           if \<not> OI_SUCCESS status then SetPathCommandError env status s
           else do {
             status \<leftarrow> VerifyConnectionId c headers;
             if \<not> OI_SUCCESS status then SetPathCommandError env status s
             else do {
               let uplevel = (flags AND OI_OBEX_SETPATH_UP_LEVEL \<noteq> 0);
               let create = (flags AND OI_OBEX_SETPATH_NO_CREATE = 0);
               name \<leftarrow> path_name headers;
               if (name \<noteq> None \<and> uplevel) \<or> (name = None \<and> create)
               then SetPathCommandError env OI_OBEX_VALUE_NOT_ACCEPTABLE s
               else do {
                 (status, s) \<leftarrow> call_ind env (SET_PATH_IND name uplevel create)
                   (upd (\<lambda>c. c\<lparr>pRawHeaders := HEADERS (listed headers)\<rparr>) (SetState SETTING_PATH s));
                 _ \<leftarrow> s_conn s;
                 let s = upd (\<lambda>c. c\<lparr>pRawHeaders := NO_HEADERS\<rparr>) s;
                 if \<not> OI_SUCCESS status then SetPathCommandError env status s else Some (OI_OK, s)
               }
             }
           }
         }
       }
     }
   }"

definition OI_OBEXSRV_ConfirmSetpath ::
    "'w SRV_ENV \<Rightarrow> u32 \<Rightarrow> OI_STATUS \<Rightarrow> OI_OBEX_HEADER list option \<Rightarrow> 'w OBEX_SRV \<Rightarrow> (OI_STATUS \<times> 'w OBEX_SRV) option" where
  "OI_OBEXSRV_ConfirmSetpath env h status optHeaders s =
     (case LookupConnection h s of None \<Rightarrow> Some (OI_OBEX_INVALID_OPERATION, s) | Some c \<Rightarrow>
     if c_state c \<noteq> SETTING_PATH then Some (OI_OBEX_INVALID_OPERATION, s)
     else let s = SetState OBEX_CONNECTED s in
       if OI_SUCCESS status then sendSimpleWithHeaders env (OI_OBEX_FINAL OI_OBEX_RSP_OK) optHeaders s
       else do {
         s \<leftarrow> ErrorResponse env status s;
         Some (OI_OK, s)
       })"

section \<open>ACTION and SESSION\<close>

definition ActionCommandError :: "'w SRV_ENV \<Rightarrow> OI_STATUS \<Rightarrow> 'w OBEX_SRV \<Rightarrow> (OI_STATUS \<times> 'w OBEX_SRV) option" where
  "ActionCommandError env status s = do {
     s \<leftarrow> ErrorResponse env status s;
     Some (status, s)
   }"

definition ActionCommand :: "'w SRV_ENV \<Rightarrow> OI_BYTE_STREAM \<Rightarrow> 'w OBEX_SRV \<Rightarrow> (OI_STATUS \<times> 'w OBEX_SRV) option" where
  "ActionCommand env rcvPacket s = do {
     c \<leftarrow> s_conn s;
     if c_state c \<noteq> OBEX_CONNECTED then ActionCommandError env OI_OBEX_OPERATION_IN_PROGRESS s
     else do {
       has \<leftarrow> has_cb actionInd c;
       if \<not> has then ActionCommandError env OI_OBEX_NOT_IMPLEMENTED s
       else do {
         (status, headers, s) \<leftarrow> ParseHeaderList env rcvPacket s;
         c \<leftarrow> s_conn s;
         if \<not> OI_SUCCESS status then ActionCommandError env status s
         else do {
           status \<leftarrow> VerifyConnectionId c headers;
           if \<not> OI_SUCCESS status then ActionCommandError env status s
           else case OI_OBEX_FindHeader headers OI_OBEX_HDR_ACTION_ID of
             None \<Rightarrow> ActionCommandError env OI_OBEX_REQUIRED_HEADER_NOT_FOUND s
           | Some h \<Rightarrow> do {
               actionId \<leftarrow> uint8_of h;
               case OI_OBEX_FindHeader headers OI_OBEX_HDR_NAME of
                 None \<Rightarrow> ActionCommandError env OI_OBEX_REQUIRED_HEADER_NOT_FOUND s
               | Some name \<Rightarrow> do {
                   (status, s) \<leftarrow> call_ind env (ACTION_IND actionId (hdr_val name) headers) (SetState DO_ACTION s);
                   if \<not> OI_SUCCESS status then do {
                     _ \<leftarrow> s_conn s;
                     ActionCommandError env status (SetState OBEX_CONNECTED s)
                   } else Some (OI_OK, s)
                 }
             }
         }
       }
     }
   }"

definition OI_OBEXSRV_ActionResponse ::
    "'w SRV_ENV \<Rightarrow> u32 \<Rightarrow> OI_STATUS \<Rightarrow> OI_OBEX_HEADER list option \<Rightarrow> 'w OBEX_SRV \<Rightarrow> (OI_STATUS \<times> 'w OBEX_SRV) option" where
  "OI_OBEXSRV_ActionResponse env h rspStatus optHeaders s =
     (case LookupConnection h s of None \<Rightarrow> Some (OI_STATUS_INVALID_PARAMETERS, s) | Some c \<Rightarrow>
     if c_state c \<noteq> DO_ACTION then Some (OI_OBEX_OPERATION_IN_PROGRESS, s)
     else do {
       (status, s) \<leftarrow> sendSimpleWithHeaders env (MapStatus rspStatus) optHeaders s;
       if \<not> OI_SUCCESS status then GetResponseError env status status s
       else Some (OI_OK, SetState OBEX_CONNECTED s)
     })"

text \<open>The walk over the session parameters after the first: the tags that are read. A parameter that
  reaches past the end stops it.\<close>

function session_tags :: "bytes \<Rightarrow> nat \<Rightarrow> nat \<Rightarrow> u8 list option" where
  "session_tags params i paramlen =
     (if paramlen < 2 then Some []
      else if length params \<le> i + 1 then None
      else let len = unat (params ! (i + 1)) in
        if paramlen - 2 < len then Some []
        else map_option ((#) (params ! i)) (session_tags params (i + 2 + len) (paramlen - 2 - len)))"
  by pat_completeness auto
termination
  by (relation "measure (\<lambda>(params, i, paramlen). paramlen)") auto

definition SessionCommand :: "'w SRV_ENV \<Rightarrow> OI_BYTE_STREAM \<Rightarrow> 'w OBEX_SRV \<Rightarrow> (OI_STATUS \<times> 'w OBEX_SRV) option" where
  "SessionCommand env rcvPacket s = do {
     c \<leftarrow> s_conn s;
     if c_state c \<noteq> OBEX_CONNECTED then ActionCommandError env OI_OBEX_OPERATION_IN_PROGRESS s
     else do {
       (status, headers, s) \<leftarrow> ParseHeaderList env rcvPacket s;
       if \<not> OI_SUCCESS status then ActionCommandError env status s
       else case OI_OBEX_FindHeader headers OI_OBEX_HDR_SESSION_PARAMS of
         None \<Rightarrow> ActionCommandError env OI_OBEX_REQUIRED_HEADER_NOT_FOUND s
       | Some h \<Rightarrow> do {
           (params, paramlen) \<leftarrow> byteseq_of h;
           if paramlen < 3 then ActionCommandError env OI_OBEX_INCOMPLETE_PACKET s
           else if length params < 3 then None
           else if params ! 0 \<noteq> OI_OBEX_SESSION_PARAM_OPCODE \<or> params ! 1 \<noteq> 1
           then ActionCommandError env OI_STATUS_INVALID_PARAMETERS s
           else do {
             let opcode = params ! 2;
             _ \<leftarrow> session_tags params 3 (unat (paramlen - 3));
             let status =
               (if opcode = OI_OBEX_SESSION_CREATE then OI_OBEX_SERVICE_UNAVAILABLE
                else if opcode = OI_OBEX_SESSION_CLOSE then OI_OBEX_FORBIDDEN
                else if opcode = OI_OBEX_SESSION_SUSPEND then OI_OBEX_NOT_IMPLEMENTED
                else if opcode = OI_OBEX_SESSION_RESUME then OI_OBEX_SERVICE_UNAVAILABLE
                else if opcode = OI_OBEX_SESSION_SET_TIMEOUT then OI_OBEX_NOT_IMPLEMENTED
                else OI_OK);
             if \<not> OI_SUCCESS status then ActionCommandError env status s
             else Some (OI_OBEX_SERVICE_UNAVAILABLE, s)
           }
         }
     }
   }"

section \<open>ABORT\<close>

definition handleAbortCommand :: "'w SRV_ENV \<Rightarrow> OI_BYTE_STREAM \<Rightarrow> 'w OBEX_SRV \<Rightarrow> (OI_STATUS \<times> 'w OBEX_SRV) option" where
  "handleAbortCommand env rcvPacket s = do {
     c \<leftarrow> s_conn s;
     let s = upd (\<lambda>c. c\<lparr>abortMbuf := None\<rparr>) s;
     case currentTarget c of
       None \<Rightarrow> Some (OI_OBEX_NOT_CONNECTED, s)
     | Some t \<Rightarrow>
         if abortInd \<in> cb_names (ti_CBList t) then do {
           (status, headers, s) \<leftarrow> ParseHeaderList env rcvPacket s;
           if OI_SUCCESS status then do {
             s \<leftarrow> call_void env (ABORT_IND headers)
               (upd (\<lambda>c. c\<lparr>abortPending := True, abortResponsePending := True, abortMbuf := None\<rparr>) s);
             Some (status, s)
           } else do {
             s \<leftarrow> ErrorResponse env status s;
             Some (status, s)
           }
         } else AbortOperation env s
   }"

definition OI_OBEXSRV_AbortResponse ::
    "'w SRV_ENV \<Rightarrow> u32 \<Rightarrow> OI_OBEX_HEADER list option \<Rightarrow> u8 \<Rightarrow> 'w OBEX_SRV \<Rightarrow> (OI_STATUS \<times> 'w OBEX_SRV) option" where
  "OI_OBEXSRV_AbortResponse env h rspHeaders rspStatus s =
     (case LookupConnection h s of None \<Rightarrow> Some (OI_OBEX_INVALID_OPERATION, s) | Some c \<Rightarrow>
     if \<not> abortResponsePending c then Some (OI_OBEX_INVALID_OPERATION, s)
     else do {
       let s = upd (\<lambda>c. c\<lparr>abortResponsePending := False\<rparr>) s;
       (status, s) \<leftarrow>
         (case rspHeaders of
            Some hs \<Rightarrow> do {
              (common, pkt) \<leftarrow> OI_OBEXCOMMON_InitPacket (c_common c) (OI_OBEX_FINAL rspStatus);
              (status, common, m) \<leftarrow> OI_OBEXCOMMON_MarshalPacketMbuf (e_mem env (s_calls s) 0)
                 (\<lambda>i. e_mem env (s_calls s) (Suc i)) common pkt [] (Some hs);
              Some (status, upd (\<lambda>c. c\<lparr>c_common := common, abortMbuf := m\<rparr>) (s\<lparr>s_calls := Suc (s_calls s)\<rparr>))
            }
          | None \<Rightarrow> do {
              m \<leftarrow> OI_MBUF_Wrap (e_mem env (s_calls s) 0) False (Some [OI_OBEX_FINAL rspStatus, 0, 3]) 3 MBUF_COPY;
              Some (OI_OK, upd (\<lambda>c. c\<lparr>abortMbuf := m\<rparr>) (s\<lparr>s_calls := Suc (s_calls s)\<rparr>))
            });
       if OI_SUCCESS status then do {
         (status, _, d) \<leftarrow> OI_Dispatch_RegisterFunc True (Some F_dispatchedAbortCommand)
            (Some (SetUINT32_LittleEndian (connectionHandle c))) (s_disp s);
         Some (status, s\<lparr>s_disp := d\<rparr>)
       } else Some (status, s)
     })"

end
