(* ===== verification/ObexSrvConn.thy ===== *)
theory ObexSrvConn
  imports ObexSrvReq
begin

unbundle bit_operations_syntax

text \<open>
  The OBEX server, fourth part: connecting with or without authentication, what the lower layer
  reports, the dispatch of a received packet, the registration of servers and targets and the small
  functions that read the state.
\<close>

section \<open>Accepting a connection\<close>

text \<open>The part of the connection that the authentication functions work on; they follow the pointer
  to the authentication state.\<close>

definition auth_part :: "OBEXSRV_CONNECTION \<Rightarrow> AUTH_COMMON option" where
  "auth_part c = map_option (\<lambda>a. \<lparr>readOnly = c_readOnly c, authentication = a\<rparr>) (c_authentication c)"

definition put_auth :: "AUTH_COMMON \<Rightarrow> 'w OBEX_SRV \<Rightarrow> 'w OBEX_SRV" where
  "put_auth a = upd (\<lambda>c. c\<lparr>c_readOnly := readOnly a, c_authentication := Some (authentication a)\<rparr>)"

definition accept_headers ::
    "'w SRV_ENV \<Rightarrow> OI_OBEX_REALM option \<Rightarrow> 'w OBEX_SRV \<Rightarrow> (u8 \<times> OI_OBEX_HEADER list \<times> 'w OBEX_SRV) option" where
  "accept_headers env realm s = do {
     c \<leftarrow> s_conn s;
     if unauthorized c then do {
       a \<leftarrow> auth_part c;
       (h, a) \<leftarrow> OI_OBEXAUTH_ComposeChallenge OI_LITTLE_ENDIAN_BYTE_ORDER (e_psize env) (e_md5ctx env) (e_timestamp env)
                   (e_privateKey env) realm a;
       Some (OI_OBEX_FINAL OI_OBEX_RSP_UNAUTHORIZED, [h], put_auth a (SetState LOWER_LAYER_CONNECTED s))
     } else do {
       let s = SetState CONNECT_COMPLETING s;
       hs \<leftarrow> (if clientSpecifiedTarget c then do {
                t \<leftarrow> currentTarget c;
                Some [\<lparr>hdr_id = OI_OBEX_HDR_CONNECTION_ID, hdr_val = UINT32 (c_addr c)\<rparr>,
                      \<lparr>hdr_id = OI_OBEX_HDR_WHO, hdr_val = BYTESEQ (fst (ti_target t)) (snd (ti_target t))\<rparr>]
              } else Some []);
       (hs, s) \<leftarrow> (if authRequested c then do {
                a \<leftarrow> auth_part c;
                (h, a) \<leftarrow> OI_OBEXAUTH_ComposeResponse OI_LITTLE_ENDIAN_BYTE_ORDER (e_psize env) (e_md5ctx env) a;
                Some (hs @ [h], put_auth a s)
              } else Some (hs, s));
       let hs = (if c_srm c AND OI_OBEX_SRM_SUPPORTED \<noteq> 0 \<and> c_srm c AND OI_OBEX_SRM_REQUESTED \<noteq> 0
                 then hs @ [hdr_u8 OI_OBEX_HDR_SINGLE_RESPONSE_MODE OI_OBEX_SRM_SUPPORTED] else hs);
       Some (OI_OBEX_FINAL OI_OBEX_RSP_OK, hs, s)
     }
   }"

definition acceptConnect ::
    "'w SRV_ENV \<Rightarrow> u32 \<Rightarrow> OI_OBEX_REALM option \<Rightarrow> bool \<Rightarrow> OI_STATUS \<Rightarrow> OI_OBEX_HEADER list option \<Rightarrow> 'w OBEX_SRV \<Rightarrow>
       (OI_STATUS \<times> 'w OBEX_SRV) option" where
  "acceptConnect env h realm accept inStatus optHeaders s =
     (case LookupConnection h s of None \<Rightarrow> Some (OI_OBEX_INVALID_OPERATION, s) | Some c \<Rightarrow> do {
     (rsp, headers, s) \<leftarrow>
       (if accept then accept_headers env realm s
        else Some (MapStatus inStatus, [], SetState LOWER_LAYER_CONNECTED (upd (\<lambda>c. c\<lparr>connectIndicated := False\<rparr>) s)));
     (status, s) \<leftarrow> send_packet env rsp
       ([OI_OBEX_VERSION_NUMBER, 0] @ SetUINT16_BigEndian (maxRecvPktLen c)) headers optHeaders s;
     if \<not> OI_SUCCESS status
     then Some (status, SetState LOWER_LAYER_CONNECTED (upd (\<lambda>c. c\<lparr>c_authentication := None, connectIndicated := False\<rparr>) s))
     else Some (OI_OK, s)
   })"

definition OI_OBEXSRV_AcceptConnect ::
    "'w SRV_ENV \<Rightarrow> u32 \<Rightarrow> bool \<Rightarrow> OI_STATUS \<Rightarrow> OI_OBEX_HEADER list option \<Rightarrow> 'w OBEX_SRV \<Rightarrow> (OI_STATUS \<times> 'w OBEX_SRV) option" where
  "OI_OBEXSRV_AcceptConnect env h accept status optHeaders s =
     (if s_initFlag s = 0 then Some (OI_STATUS_NOT_INITIALIZED, s)
      else case LookupConnection h s of None \<Rightarrow> Some (OI_OBEX_INVALID_OPERATION, s) | Some c \<Rightarrow>
        if c_state c \<noteq> OBEX_CONNECTING then Some (OI_OBEX_INVALID_OPERATION, s)
        else if accept \<noteq> OI_SUCCESS status then Some (OI_STATUS_INVALID_PARAMETERS, s)
        else acceptConnect env h None accept status optHeaders s)"

definition OI_OBEXSRV_AuthAccept ::
    "'w SRV_ENV \<Rightarrow> u32 \<Rightarrow> OI_OBEX_REALM option \<Rightarrow> bool \<Rightarrow> 'w OBEX_SRV \<Rightarrow> (OI_STATUS \<times> 'w OBEX_SRV) option" where
  "OI_OBEXSRV_AuthAccept env h realm accept s =
     (case LookupConnection h s of None \<Rightarrow> Some (OI_OBEX_INVALID_OPERATION, s) | Some c \<Rightarrow>
      if c_state c \<noteq> OBEX_CONNECTING then Some (OI_OBEX_INVALID_OPERATION, s)
      else if (case realm of Some r \<Rightarrow> realm_len r > 254 | None \<Rightarrow> False) then Some (OI_STATUS_INVALID_PARAMETERS, s)
      else do {
        (status, s) \<leftarrow> acceptConnect env h realm accept OI_OK None s;
        Some (status, if OI_SUCCESS status then upd (\<lambda>c. c\<lparr>authTries := authTries c + 1\<rparr>) s else s)
      })"

text \<open>The dispatched function gets the address of the connection.\<close>

definition ReIndicateConnect :: "'w SRV_ENV \<Rightarrow> u32 \<Rightarrow> 'w OBEX_SRV \<Rightarrow> 'w OBEX_SRV option" where
  "ReIndicateConnect env addr s = do {
     c \<leftarrow> s_conn s;
     OI_ASSERT (c_addr c = addr);
     OI_ASSERT (\<not> unauthorized c);
     call_void env (CONNECT_IND False None 0 None) (upd (\<lambda>c. c\<lparr>connectIndicated := True\<rparr>) s)
   }"

definition reindicate :: "'w OBEX_SRV \<Rightarrow> 'w OBEX_SRV option" where
  "reindicate s = do {
     c \<leftarrow> s_conn s;
     (_, _, d) \<leftarrow> OI_Dispatch_RegisterFunc True (Some F_ReIndicateConnect) (Some (SetUINT32_LittleEndian (c_addr c))) (s_disp s);
     Some (s\<lparr>s_disp := d\<rparr>)
   }"

definition OI_OBEXSRV_AuthenticationResponse ::
    "'w SRV_ENV \<Rightarrow> u32 \<Rightarrow> bytes option \<Rightarrow> u8 \<Rightarrow> bytes option \<Rightarrow> bool \<Rightarrow> 'w OBEX_SRV \<Rightarrow> (OI_STATUS \<times> 'w OBEX_SRV) option" where
  "OI_OBEXSRV_AuthenticationResponse env h uid uidLen pw ro s =
     (if s_initFlag s = 0 then Some (OI_STATUS_NOT_INITIALIZED, s)
      else case LookupConnection h s of None \<Rightarrow> Some (OI_OBEX_INVALID_OPERATION, s) | Some c \<Rightarrow>
        if c_state c \<noteq> OBEX_CONNECTING then Some (OI_OBEX_INVALID_OPERATION, s)
        else if \<not> unauthorized c \<and> \<not> authRequested c then Some (OI_OBEX_INVALID_OPERATION, s)
        else do {
          a \<leftarrow> auth_part (c\<lparr>c_readOnly := ro\<rparr>);
          (status, a) \<leftarrow> OI_OBEXAUTH_SaveAuthInfo a uid uidLen (case pw of None \<Rightarrow> [0] | Some p \<Rightarrow> p);
          let s = put_auth a s;
          (status, s) \<leftarrow>
            (if \<not> OI_SUCCESS status then Some (status, s)
             else if unauthorized c then do {
               verdict \<leftarrow> OI_OBEXAUTH_Authenticate OI_LITTLE_ENDIAN_BYTE_ORDER (e_psize env) (e_md5ctx env) a;
               if verdict = OI_OK then do {
                 s \<leftarrow> reindicate (upd (\<lambda>c. c\<lparr>unauthorized := False\<rparr>) s);
                 Some (status, s)
               } else if authTries c < MAX_AUTHENTICATION_ATTEMPTS
               then OI_OBEXSRV_AcceptConnect env h True OI_OK None s
               else Some (OI_OBEX_ACCESS_DENIED, s)
             } else do {
               s \<leftarrow> reindicate s;
               Some (status, s)
             });
          if \<not> OI_SUCCESS status then do {
            (_, s) \<leftarrow> acceptConnect env h None False status None s;
            c \<leftarrow> s_conn s;
            a \<leftarrow> auth_part c;
            Some (status, put_auth (OI_OBEXAUTH_Reset a) (SetState LOWER_LAYER_CONNECTED s))
          } else Some (status, s)
        })"

section \<open>CONNECT\<close>

text \<open>Two byte sequences match if they have the same bytes, or both are missing or empty.\<close>

definition MatchTarget :: "(bytes option \<times> u16) option \<Rightarrow> (bytes option \<times> u16) option \<Rightarrow> bool option" where
  "MatchTarget t1 t2 =
     (case (t1, t2) of
        (Some (d1, n1), Some (d2, n2)) \<Rightarrow>
          if n1 = n2 then
            if n1 = 0 then Some True
            else do { x \<leftarrow> d1; y \<leftarrow> d2;
                      if length x < unat n1 \<or> length y < unat n1 then None else Some (take (unat n1) x = take (unat n1) y) }
          else Some (n1 = 0 \<and> n2 = 0)
      | (None, None) \<Rightarrow> Some True
      | (None, Some (_, n)) \<Rightarrow> Some (n = 0)
      | (Some (_, n), None) \<Rightarrow> Some (n = 0))"

fun FindTarget :: "OBEXSRV_TARGET_INFO list \<Rightarrow> (bytes option \<times> u16) option \<Rightarrow> OBEXSRV_TARGET_INFO option option" where
  "FindTarget [] clientTarget = Some None"
| "FindTarget (t # ts) clientTarget = do {
     eq \<leftarrow> MatchTarget clientTarget (Some (ti_target t));
     if eq then Some (Some t) else FindTarget ts clientTarget
   }"

definition byteseq_val :: "OI_OBEX_HEADER \<Rightarrow> (bytes option \<times> u16) option" where
  "byteseq_val h = (case hdr_val h of BYTESEQ d n \<Rightarrow> Some (d, n) | _ \<Rightarrow> None)"

text \<open>The jump to \<open>ConnectError\<close>.\<close>

definition ConnectError :: "'w SRV_ENV \<Rightarrow> OI_STATUS \<Rightarrow> 'w OBEX_SRV \<Rightarrow> (OI_STATUS \<times> 'w OBEX_SRV) option" where
  "ConnectError env status s = do {
     c \<leftarrow> s_conn s;
     (_, s) \<leftarrow> acceptConnect env (connectionHandle c) None False status None s;
     _ \<leftarrow> s_conn s;
     Some (status, upd (\<lambda>c. c\<lparr>c_authentication := None, pRawHeaders := NO_HEADERS\<rparr>) s)
   }"

text \<open>The fixed part of the packet: the version, the flags and the packet length of the client.\<close>

definition connect_fields :: "OI_BYTE_STREAM \<Rightarrow> 'w OBEX_SRV \<Rightarrow> (OI_STATUS \<times> OI_BYTE_STREAM \<times> 'w OBEX_SRV) option" where
  "connect_fields pkt s = do {
     (version, pkt) \<leftarrow> ByteStream_GetUINT8_Checked pkt 0;
     if OI_OBEX_MAJOR_VERSION_NUMBER version \<noteq> 1 then Some (OI_OBEX_UNSUPPORTED_VERSION, pkt, s)
     else do {
       (flags, pkt) \<leftarrow> ByteStream_GetUINT8_Checked pkt 0;
       if flags \<noteq> 0 then Some (OI_OBEX_COMMAND_ERROR, pkt, s)
       else do {
         (n, pkt) \<leftarrow> ByteStream_GetUINT16_Checked pkt 0 OI_BIG_ENDIAN_BYTE_ORDER;
         if ByteStream_Error pkt then Some (OI_OBEX_INCOMPLETE_PACKET, pkt, s)
         else do {
           c \<leftarrow> s_conn s;
           let n = min n (maxSendPktLen (c_common c));
           let s = upd (\<lambda>c. c\<lparr>c_common := (c_common c)\<lparr>maxSendPktLen := n\<rparr>\<rparr>) s;
           Some (if n < OI_OBEX_MIN_PACKET_SIZE then OI_OBEX_VALUE_NOT_ACCEPTABLE else OI_OK, pkt, s)
         }
       }
     }
   }"

text \<open>The target header and the authentication challenge of the client.\<close>

definition new_auth :: "'w SRV_ENV \<Rightarrow> 'w OBEX_SRV \<Rightarrow> (bool \<times> 'w OBEX_SRV) option" where
  "new_auth env s = do {
     c \<leftarrow> s_conn s;
     if c_authentication c \<noteq> None then Some (True, s)
     else let ok = e_mem env (s_calls s) 0; s = s\<lparr>s_calls := Suc (s_calls s)\<rparr> in
       Some (ok, if ok then upd (\<lambda>c. c\<lparr>c_authentication := Some zeroed_auth\<rparr>) s else s)
   }"

definition connect_target ::
    "'w SRV_ENV \<Rightarrow> OI_OBEX_HEADER list \<Rightarrow> 'w OBEX_SRV \<Rightarrow> (OI_STATUS \<times> 'w OBEX_SRV) option" where
  "connect_target env headers s = do {
     let hdr = OI_OBEX_FindHeader headers OI_OBEX_HDR_TARGET;
     clientTarget \<leftarrow> (case hdr of None \<Rightarrow> Some None | Some h \<Rightarrow> map_option Some (byteseq_val h));
     found \<leftarrow> FindTarget (os_targets (s_server s)) clientTarget;
     case found of
       None \<Rightarrow> Some (OI_OBEX_SERVICE_UNAVAILABLE, s)
     | Some t \<Rightarrow> do {
         let s = upd (\<lambda>c. c\<lparr>currentTarget := Some t, clientSpecifiedTarget := (hdr \<noteq> None)\<rparr>) s;
         case OI_OBEX_FindHeader headers OI_OBEX_HDR_AUTHENTICATION_CHALLENGE of
           None \<Rightarrow> Some (OI_OK, upd (\<lambda>c. c\<lparr>authRequested := False\<rparr>) s)
         | Some challenge \<Rightarrow> do {
             (ok, s) \<leftarrow> new_auth env s;
             if \<not> ok then Some (OI_STATUS_NO_RESOURCES, s)
             else do {
               c \<leftarrow> s_conn s;
               a \<leftarrow> auth_part c;
               (_, a) \<leftarrow> OI_OBEXAUTH_SaveChallenge a challenge;
               Some (OI_OK, upd (\<lambda>c. c\<lparr>authRequested := True\<rparr>) (put_auth a s))
             }
           }
       }
   }"

text \<open>Authentication, if the target requires it. Besides the status: whether the request holds a
  response, and the user id it gives.\<close>

definition connect_auth ::
    "'w SRV_ENV \<Rightarrow> OI_OBEX_HEADER list \<Rightarrow> 'w OBEX_SRV \<Rightarrow> (OI_STATUS \<times> bool \<times> bytes option \<times> u8 \<times> 'w OBEX_SRV) option" where
  "connect_auth env headers s = do {
     c \<leftarrow> s_conn s;
     t \<leftarrow> currentTarget c;
     if ti_authRequired t = OI_OBEXSRV_AUTH_NONE
     then Some (OI_OK, False, None, 0, upd (\<lambda>c. c\<lparr>authenticating := False, unauthorized := False\<rparr>) s)
     else do {
       (ok, s) \<leftarrow> new_auth env (upd (\<lambda>c. c\<lparr>authenticating := True, unauthorized := True\<rparr>) s);
       if \<not> ok then Some (OI_STATUS_NO_RESOURCES, False, None, 0, s)
       else do {
         c \<leftarrow> s_conn s;
         a \<leftarrow> auth_part c;
         let a = (if ti_authRequired t = OI_OBEXSRV_AUTH_USERID_AND_PASSWORD
                  then a\<lparr>authentication := (authentication a)\<lparr>userIdRequired := True\<rparr>\<rparr> else a);
         if authTries c \<ge> MAX_AUTHENTICATION_ATTEMPTS
         then Some (OI_OBEX_ACCESS_DENIED, False, None, 0, put_auth (OI_OBEXAUTH_Reset a) s)
         else case OI_OBEX_FindHeader headers OI_OBEX_HDR_AUTHENTICATION_RESPONSE of
           None \<Rightarrow> Some (OI_OK, False, None, 0, put_auth a s)
         | Some response \<Rightarrow> do {
             (_, a) \<leftarrow> OI_OBEXAUTH_SaveResponse a response;
             let len = userIdRemoteLen (authentication a);
             let uid = (if len > 0 then Some (userIdRemote (authentication a)) else None);
             if userIdRequired (authentication a) \<and> uid = None
             then Some (OI_OBEX_ACCESS_DENIED, True, uid, len, put_auth (OI_OBEXAUTH_Reset a) s)
             else Some (OI_OK, True, uid, len, put_auth a s)
           }
       }
     }
   }"

text \<open>The checks are over: the headers are freed, the connection is \<open>OBEX_CONNECTING\<close>; ask the application, or
  challenge the client. The connection still points to the list, whose count stays; on the way out that leaves the
  pointer as it is, the list is gone.\<close>

definition free_headers :: "RAW_HEADERS \<Rightarrow> RAW_HEADERS" where
  "free_headers r = (case r of HEADERS hl \<Rightarrow> HEADERS (hl\<lparr>hl_list := None\<rparr>) | _ \<Rightarrow> r)"

definition leave_headers :: "RAW_HEADERS \<Rightarrow> RAW_HEADERS" where
  "leave_headers r = (case r of HEADERS _ \<Rightarrow> STALE_HEADERS | _ \<Rightarrow> r)"

definition connect_proceed ::
    "'w SRV_ENV \<Rightarrow> bool \<Rightarrow> bytes option \<Rightarrow> u8 \<Rightarrow> 'w OBEX_SRV \<Rightarrow> (OI_STATUS \<times> 'w OBEX_SRV) option" where
  "connect_proceed env havePassword uid uidLen s = do {
     let s = SetState OBEX_CONNECTING (upd (\<lambda>c. c\<lparr>pRawHeaders := free_headers (pRawHeaders c)\<rparr>) s);
     c \<leftarrow> s_conn s;
     if unauthorized c \<and> \<not> havePassword then do {
       has \<leftarrow> has_cb authInd c;
       (status, s) \<leftarrow>
         (if authTries c = 0 \<and> has then do { s \<leftarrow> call_void env (AUTH_IND (clientBdAddr c)) s; Some (OI_OK, s) }
          else OI_OBEXSRV_AcceptConnect env (connectionHandle c) True OI_OK None s);
       if OI_SUCCESS status then Some (status, upd (\<lambda>c. c\<lparr>pRawHeaders := leave_headers (pRawHeaders c)\<rparr>) s)
       else ConnectError env status s
     } else do {
       let s = upd (\<lambda>c. c\<lparr>authTries := authTries c + 1, connectIndicated := True\<rparr>) s;
       let realm = (case c_authentication c of
                      None \<Rightarrow> None
                    | Some a \<Rightarrow> if realm_len (auth_realm a) > 0 then Some (auth_realm a) else None);
       s \<leftarrow> call_void env (CONNECT_IND (unauthorized c \<or> authRequested c) uid uidLen realm) s;
       _ \<leftarrow> s_conn s;
       Some (OI_OK, upd (\<lambda>c. c\<lparr>pRawHeaders := NO_HEADERS\<rparr>) s)
     }
   }"

definition ConnectCommand :: "'w SRV_ENV \<Rightarrow> OI_BYTE_STREAM \<Rightarrow> 'w OBEX_SRV \<Rightarrow> (OI_STATUS \<times> 'w OBEX_SRV) option" where
  "ConnectCommand env rcvPacket s = do {
     c \<leftarrow> s_conn s;
     if c_state c \<noteq> LOWER_LAYER_CONNECTED then ConnectError env OI_OBEX_SERVICE_UNAVAILABLE s
     else do {
       (status, pkt, s) \<leftarrow> connect_fields rcvPacket s;
       if \<not> OI_SUCCESS status then ConnectError env status s
       else do {
         (status, headers, s) \<leftarrow> ParseHeaderList env pkt s;
         if \<not> OI_SUCCESS status then ConnectError env status s
         else do {
           (status, s) \<leftarrow> connect_target env headers (upd (\<lambda>c. c\<lparr>pRawHeaders := HEADERS (listed headers)\<rparr>) s);
           if \<not> OI_SUCCESS status then ConnectError env status s
           else do {
             (status, havePassword, uid, uidLen, s) \<leftarrow> connect_auth env headers s;
             if \<not> OI_SUCCESS status then ConnectError env status s
             else connect_proceed env havePassword uid uidLen s
           }
         }
       }
     }
   }"

section \<open>Received packets\<close>

definition LowerRecvDataInd :: "'w SRV_ENV \<Rightarrow> bytes \<Rightarrow> 'w OBEX_SRV \<Rightarrow> 'w OBEX_SRV option" where
  "LowerRecvDataInd env dataBuf s =
     (case s_conn s of None \<Rightarrow> Some s | Some c \<Rightarrow>
     if c_state c = OBEX_DISCONNECT_COMPLETING then Some s
     else if c_state c = OBEX_DISCONNECTING then drop_link env s
     else do {
       pkt \<leftarrow> ByteStream_Init blank_stream 0 dataBuf (of_nat (length dataBuf));
       pkt \<leftarrow> ByteStream_Open pkt BYTESTREAM_READ;
       (cmdCode, pkt) \<leftarrow> ByteStream_GetUINT8 pkt;
       pkt \<leftarrow> ByteStream_Skip pkt 2;
       let cmd = OI_OBEX_FINAL cmdCode;
       let final = (cmdCode AND OI_OBEX_FINAL_BIT = OI_OBEX_FINAL_BIT);
       if cmd = OI_OBEX_FINAL OI_OBEX_CMD_CONNECT then map_option snd (ConnectCommand env pkt s)
       else if cmd = OI_OBEX_FINAL OI_OBEX_CMD_DISCONNECT then do {
         (status, s) \<leftarrow> OI_OBEXCOMMON_SendOk env s;
         if OI_SUCCESS status then Some (SetState OBEX_DISCONNECTING s) else drop_link env s
       } else if cmd = OI_OBEX_FINAL OI_OBEX_CMD_PUT then map_option snd (PutCommand env pkt final s)
       else if cmd = OI_OBEX_FINAL OI_OBEX_CMD_GET then map_option snd (GetCommand env pkt final s)
       else if cmd = OI_OBEX_FINAL OI_OBEX_CMD_SET_PATH then map_option snd (SetPathCommand env pkt s)
       else if cmd = OI_OBEX_FINAL OI_OBEX_CMD_ACTION then map_option snd (ActionCommand env pkt s)
       else if cmd = OI_OBEX_FINAL OI_OBEX_CMD_SESSION then map_option snd (SessionCommand env pkt s)
       else if cmd = OI_OBEX_FINAL OI_OBEX_CMD_ABORT then map_option snd (handleAbortCommand env pkt s)
       else ErrorResponse env OI_OBEX_BAD_REQUEST s
     })"

section \<open>The lower layer connects\<close>

definition LowerConnectCfm :: "'w SRV_ENV \<Rightarrow> u16 \<Rightarrow> u16 \<Rightarrow> OI_STATUS \<Rightarrow> 'w OBEX_SRV \<Rightarrow> 'w OBEX_SRV option" where
  "LowerConnectCfm env recvMtu sendMtu result s =
     (case s_conn s of None \<Rightarrow> Some s | Some c \<Rightarrow>
     if OI_SUCCESS result then do {
       let supported = (os_srm (s_server s) AND OI_OBEX_SRM_SUPPORTED \<noteq> 0 \<and> e_l2cap env (s_world s));
       let s = SetState LOWER_LAYER_CONNECTED
         (upd (\<lambda>c. c\<lparr>maxRecvPktLen := min recvMtu (maxRecvPktLen c),
            c_common := (c_common c)\<lparr>maxSendPktLen := sendMtu,
              srm := (if supported then OI_OBEX_SRM_SUPPORTED else c_srm c AND NOT OI_OBEX_SRM_SUPPORTED)\<rparr>\<rparr>) s);
       s \<leftarrow> (if connectTimeout c \<noteq> 0 then CancelFunc (connectTimeout c) s else Some s);
       let timeout = (case os_targets (s_server s) of
            t # _ \<Rightarrow> if ti_authRequired t \<noteq> OI_OBEXSRV_AUTH_NONE then e_authTimeout env else e_connectTimeout env
          | [] \<Rightarrow> e_connectTimeout env);
       (status, h, d) \<leftarrow> OI_Dispatch_RegisterTimedFunc True (Some F_ConnectTimeout)
          (Some (SetUINT32_LittleEndian (connectionHandle c))) timeout (s_disp s);
       Some (upd (\<lambda>c. c\<lparr>connectTimeout := h\<rparr>) (s\<lparr>s_disp := d\<rparr>))
     } else Some (s\<lparr>s_linked := False, s_conn := None\<rparr>))"

text \<open>A new connection, zeroed: its address and handle are what the allocators give.\<close>

definition fresh_connection :: "'w SRV_ENV \<Rightarrow> u32 \<Rightarrow> u32 \<Rightarrow> u8 \<Rightarrow> bytes \<Rightarrow> OBEXSRV_CONNECTION" where
  "fresh_connection env p h server_srm addr =
     \<lparr>c_addr = p, c_context = 0,
      c_common = \<lparr>mbuf = None, hdrBuf = replicate 8 0, srm = server_srm, maxSendPktLen = OI_OBEX_MIN_PACKET_SIZE,
        currentOpcode = 0, bodySegment = \<lparr>hdr_id = 0, hdr_val = UINT32 0\<rparr>, progressBytes = 0\<rparr>,
      connectionHandle = h, authenticating = False, c_readOnly = False, c_authentication = None, srmParam = 0,
      maxRecvPktLen = e_maxPktLen env, pRawHeaders = NO_HEADERS, clientSpecifiedTarget = False, currentTarget = None,
      connectTimeout = 0, abortPending = False, abortResponsePending = False, abortMbuf = None, authTries = 0,
      forcedDisconnect = False, unauthorized = False, authRequested = False, connectIndicated = False, c_final = False,
      c_state = LOWER_LAYER_CONNECTING, bg_busy = False, bg_current = 0, bg_head = 0, bg_tail = 0, bg_contexts = [],
      clientBdAddr = addr\<rparr>"

definition LowerConnectInd :: "'w SRV_ENV \<Rightarrow> u32 option \<Rightarrow> u32 \<Rightarrow> bytes \<Rightarrow> 'w OBEX_SRV \<Rightarrow> 'w OBEX_SRV option" where
  "LowerConnectInd env mem_addr handle addr s =
     (let reject = (\<lambda>s. Some (s\<lparr>s_world := snd (e_accept env False (s_world s))\<rparr>)) in
      case mem_addr of
        None \<Rightarrow> reject s
      | Some p \<Rightarrow>
          if handle = 0 then reject s
          else let (status, w) = e_accept env True (s_world s); s = s\<lparr>s_world := w\<rparr> in
            if \<not> OI_SUCCESS status then reject s
            else Some (s\<lparr>s_conn := Some (fresh_connection env p handle (os_srm (s_server s)) addr), s_linked := True\<rparr>))"

section \<open>Servers and targets\<close>

text \<open>The registration with the lower protocols: \<open>lowers\<close> answers for each with its server handle, or
  fails. It gives the handles, 0 where it failed.\<close>

definition OI_OBEXSRV_RegisterServer ::
    "nat \<Rightarrow> (bytes option \<times> u16) option \<Rightarrow> OI_OBEXSRV_CB_LIST option \<Rightarrow> OI_OBEXSRV_AUTHENTICATION \<Rightarrow> bool \<Rightarrow>
       nat option list \<Rightarrow> (nat \<Rightarrow> bool) \<Rightarrow> u32 \<Rightarrow> (OI_STATUS \<times> OBEX_SERVER option \<times> nat) option" where
  "OI_OBEXSRV_RegisterServer initFlag target CBs auth enableSRM lowers mem handle = do {
     OI_ASSERT (lowers \<noteq> []);
     cbs \<leftarrow> CBs;
     if (case target of Some (None, _) \<Rightarrow> True | _ \<Rightarrow> False) then Some (OI_STATUS_INVALID_PARAMETERS, None, initFlag)
     else if \<not> mem 0 \<or> handle = 0 \<or> \<not> mem 1 \<or> (\<forall>r \<in> set lowers. r = None)
     then Some (OI_STATUS_NO_RESOURCES, None, initFlag)
     else Some (OI_OK, Some \<lparr>os_context = 0, os_handle = handle,
       os_targets = [\<lparr>ti_target = (case target of Some t \<Rightarrow> t | None \<Rightarrow> (None, 0)), ti_CBList = cbs, ti_authRequired = auth\<rparr>],
       os_srm = (if enableSRM then OI_OBEX_SRM_SUPPORTED else 0),
       os_lowerProtocolList = map (\<lambda>r. case r of Some l \<Rightarrow> l | None \<Rightarrow> 0) lowers\<rparr>, initFlag + 1)
   }"

definition OI_OBEXSRV_RegisterSecondaryTarget ::
    "bool \<Rightarrow> bytes option \<times> u16 \<Rightarrow> OI_OBEXSRV_CB_LIST \<Rightarrow> OI_OBEXSRV_AUTHENTICATION \<Rightarrow> u32 \<Rightarrow> 'w OBEX_SRV \<Rightarrow>
       (OI_STATUS \<times> 'w OBEX_SRV) option" where
  "OI_OBEXSRV_RegisterSecondaryTarget calloc_ok target cbs auth serverHandle s =
     (if os_handle (s_server s) \<noteq> serverHandle then Some (OI_STATUS_INVALID_HANDLE, s)
      else do {
        found \<leftarrow> FindTarget (os_targets (s_server s)) (Some target);
        if found \<noteq> None then Some (OI_STATUS_ALREADY_REGISTERED, s)
        else if \<not> calloc_ok then Some (OI_STATUS_NO_RESOURCES, s)
        else let info = \<lparr>ti_target = target, ti_CBList = cbs, ti_authRequired = auth\<rparr> in
          Some (OI_OK, s\<lparr>s_server := (s_server s)\<lparr>os_targets :=
            (case os_targets (s_server s) of t # ts \<Rightarrow> t # info # ts | [] \<Rightarrow> [info])\<rparr>\<rparr>)
      })"

text \<open>The lower servers are deregistered up to the first slot that is empty; \<open>dereg\<close> answers for each.
  Besides the status: the lower servers that were deregistered, and what the initialisation count becomes.\<close>

definition OI_OBEXSRV_DeregisterServer ::
    "(nat \<Rightarrow> OI_STATUS) \<Rightarrow> u32 \<Rightarrow> 'w OBEX_SRV \<Rightarrow> OI_STATUS \<times> nat list \<times> nat" where
  "OI_OBEXSRV_DeregisterServer dereg serverHandle s =
     (if os_handle (s_server s) \<noteq> serverHandle then (OI_STATUS_INVALID_HANDLE, [], s_initFlag s)
      else if s_linked s then (OI_STATUS_STILL_CONNECTED, [], s_initFlag s)
      else let ls = takeWhile (\<lambda>l. l \<noteq> 0) (os_lowerProtocolList (s_server s)) in
        (if ls = [] then OI_OK else dereg (last ls), ls, s_initFlag s - 1))"

definition OI_OBEXSRV_IsServerBusy :: "u32 \<Rightarrow> 'w OBEX_SRV \<Rightarrow> bool" where
  "OI_OBEXSRV_IsServerBusy serverHandle s \<longleftrightarrow> os_handle (s_server s) = serverHandle \<and> s_linked s"

section \<open>Reading the state\<close>

definition OI_OBEXSRV_GetTarget :: "u32 \<Rightarrow> 'w OBEX_SRV \<Rightarrow> (OI_STATUS \<times> (bytes option \<times> u16)) option" where
  "OI_OBEXSRV_GetTarget h s =
     (case LookupConnection h s of
        None \<Rightarrow> Some (OI_OBEX_NOT_CONNECTED, (None, 0))
      | Some c \<Rightarrow> map_option (\<lambda>t. (OI_OK, ti_target t)) (currentTarget c))"

definition OI_OBEXSRV_GetServerHandle :: "u32 \<Rightarrow> 'w OBEX_SRV \<Rightarrow> u32" where
  "OI_OBEXSRV_GetServerHandle h s = (case LookupConnection h s of Some c \<Rightarrow> os_handle (s_server s) | None \<Rightarrow> 0)"

definition OI_OBEXSRV_GetClientAddr :: "u32 \<Rightarrow> 'w OBEX_SRV \<Rightarrow> OI_STATUS \<times> bytes" where
  "OI_OBEXSRV_GetClientAddr h s =
     (case LookupConnection h s of None \<Rightarrow> (OI_OBEX_NOT_CONNECTED, []) | Some c \<Rightarrow> (OI_OK, clientBdAddr c))"

definition before_connecting :: "CONNECTION_STATE set" where
  "before_connecting = {DISCONNECTED, LOWER_LAYER_CONNECTING, LOWER_LAYER_CONNECTED}"

definition OI_OBEXSRV_OptimalBodyHeaderSize :: "u32 \<Rightarrow> 'w OBEX_SRV \<Rightarrow> u16" where
  "OI_OBEXSRV_OptimalBodyHeaderSize h s =
     (case LookupConnection h s of
        None \<Rightarrow> 0
      | Some c \<Rightarrow> if c_state c \<in> before_connecting then 0 else maxSendPktLen (c_common c) - 6)"

definition OI_OBEXSRV_GetConnectionContext :: "u32 \<Rightarrow> 'w OBEX_SRV \<Rightarrow> nat" where
  "OI_OBEXSRV_GetConnectionContext h s = (case LookupConnection h s of Some c \<Rightarrow> c_context c | None \<Rightarrow> 0)"

definition OI_OBEXSRV_SetConnectionContext :: "u32 \<Rightarrow> nat \<Rightarrow> 'w OBEX_SRV \<Rightarrow> OI_STATUS \<times> 'w OBEX_SRV" where
  "OI_OBEXSRV_SetConnectionContext h x s =
     (case LookupConnection h s of
        None \<Rightarrow> (OI_STATUS_INVALID_HANDLE, s)
      | Some c \<Rightarrow> (OI_OK, upd (\<lambda>c. c\<lparr>c_context := x\<rparr>) s))"

definition OI_OBEXSRV_GetRawHeaderList :: "u32 \<Rightarrow> 'w OBEX_SRV \<Rightarrow> OI_STATUS \<times> RAW_HEADERS option" where
  "OI_OBEXSRV_GetRawHeaderList h s =
     (case LookupConnection h s of None \<Rightarrow> (OI_OBEX_INVALID_OPERATION, None) | Some c \<Rightarrow> (OI_OK, Some (pRawHeaders c)))"

end
