(* ===== verification/ObexSrvSafe.thy ===== *)
theory ObexSrvSafe
  imports ObexSrvConn
begin

unbundle bit_operations_syntax

text \<open>
  Safety of the OBEX server: what every run keeps, and what the code's errors break. The proofs go
  function by function with a small calculus for what holds of every normal return; the steps of a
  function are taken apart by \<open>returns_rules\<close> and the functions it calls by the lemmas of a
  collection.
\<close>

section \<open>The gate\<close>

definition gate :: "OBEXSRV_CONNECTION \<Rightarrow> bool" where
  "gate c \<longleftrightarrow> \<not> unauthorized c \<and> currentTarget c \<noteq> None"

definition gated :: "'w OBEX_SRV \<Rightarrow> bool" where
  "gated s \<longleftrightarrow> (\<forall>c. s_conn s = Some c \<longrightarrow> gate c)"

definition keeps :: "('w OBEX_SRV \<Rightarrow> bool) \<Rightarrow> 'w SRV_ENV \<Rightarrow> bool" where
  "keeps P env \<longleftrightarrow> (\<forall>i ind s r s'. e_app env i ind s = Some (r, s') \<longrightarrow> P s \<longrightarrow> P s')"

lemma upd_simps [simp]:
  "s_server (upd f s) = s_server s" "s_linked (upd f s) = s_linked s" "s_disp (upd f s) = s_disp s" "s_heap (upd f s) = s_heap s"
  "s_fresh (upd f s) = s_fresh s" "s_calls (upd f s) = s_calls s" "s_initFlag (upd f s) = s_initFlag s"
  "s_world (upd f s) = s_world s" "s_conn (upd f s) = map_option f (s_conn s)"
  by (simp_all add: upd_def)

lemma gated_upd [simp]:
  "(\<And>c. unauthorized (f c) = unauthorized c \<and> currentTarget (f c) = currentTarget c) \<Longrightarrow> gated (upd f s) = gated s"
  by (auto simp: gated_def gate_def upd_def)

lemma gated_fields [simp]:
  "gated (s\<lparr>s_world := w\<rparr>) = gated s" "gated (s\<lparr>s_calls := n\<rparr>) = gated s" "gated (s\<lparr>s_heap := h\<rparr>) = gated s"
  "gated (s\<lparr>s_disp := d\<rparr>) = gated s" "gated (s\<lparr>s_fresh := n\<rparr>) = gated s" "gated (s\<lparr>s_linked := b\<rparr>) = gated s"
  "gated (s\<lparr>s_conn := None\<rparr>)"
  by (simp_all add: gated_def)

lemma gated_simps [simp]: "gated (SetState st s) = gated s" "gated (set_srm f s) = gated s" "gated (srm_off s) = gated s"
    "gated (flow env b s) = gated s" "gated (snd (disconnect env s)) = gated s"
  by (simp_all add: SetState_def set_srm_def srm_off_def flow_def disconnect_def split_beta)

named_theorems gated_wp \<open>functions of the server keep the gate\<close>

lemma gated_CancelFunc [gated_wp]: "gated s \<Longrightarrow> (\<And>s'. gated s' \<Longrightarrow> Q s') \<Longrightarrow> returns Q (CancelFunc h s)"
  by (auto simp: CancelFunc_def monad_simps returns_def)

lemma gated_SendSimple [gated_wp]: "gated s \<Longrightarrow> (\<And>r s'. gated s' \<Longrightarrow> Q (r, s')) \<Longrightarrow> returns Q (SendSimple env op s)"
  by (auto simp: SendSimple_def monad_simps returns_def)

lemma gated_SendOk [gated_wp]: "gated s \<Longrightarrow> (\<And>r s'. gated s' \<Longrightarrow> Q (r, s')) \<Longrightarrow> returns Q (OI_OBEXCOMMON_SendOk env s)"
  unfolding OI_OBEXCOMMON_SendOk_def by (rule gated_SendSimple)

lemma gated_ErrorResponse [gated_wp]: "gated s \<Longrightarrow> (\<And>s'. gated s' \<Longrightarrow> Q s') \<Longrightarrow> returns Q (ErrorResponse env st s)"
  unfolding ErrorResponse_def by (rule returns_bind, rule gated_SendSimple) (simp_all add: returns_Some)

lemma gated_ServerSendPacket [gated_wp]:
  "gated s \<Longrightarrow> (\<And>r s'. gated s' \<Longrightarrow> Q (r, s')) \<Longrightarrow> returns Q (ServerSendPacket env s)"
  by (auto simp: ServerSendPacket_def monad_simps Let_def split_beta returns_def split: if_splits)

lemma gated_compose [gated_wp]:
  "gated s \<Longrightarrow> (\<And>r s'. gated s' \<Longrightarrow> Q (r, s')) \<Longrightarrow> returns Q (compose env op xs hs hl s)"
  by (auto simp: compose_def monad_simps returns_def)

lemma gated_send_packet [gated_wp]:
  "gated s \<Longrightarrow> (\<And>r s'. gated s' \<Longrightarrow> Q (r, s')) \<Longrightarrow> returns Q (send_packet env op xs hs hl s)"
  unfolding send_packet_def
  by ((rule returns_bind, rule gated_wp returns_rules) | rule gated_wp returns_rules returns_Some returns_any | (simp; fail) | rule returns_fall)+

lemma gated_sendSimpleWithHeaders [gated_wp]:
  "gated s \<Longrightarrow> (\<And>r s'. gated s' \<Longrightarrow> Q (r, s')) \<Longrightarrow> returns Q (sendSimpleWithHeaders env op hl s)"
  unfolding sendSimpleWithHeaders_def
  by ((rule returns_bind, rule gated_wp returns_rules) | rule gated_wp returns_rules returns_Some returns_any | (simp; fail) | rule returns_fall)+

lemma gated_ServerSendBodySegment [gated_wp]:
  "gated s \<Longrightarrow> (\<And>r s'. gated s' \<Longrightarrow> Q (r, s')) \<Longrightarrow> returns Q (ServerSendBodySegment env s)"
  unfolding ServerSendBodySegment_def
  by ((rule returns_bind, rule gated_wp returns_rules) | rule gated_wp returns_rules returns_Some returns_any | (simp; fail) | rule returns_fall)+

lemma gated_SendBulk [gated_wp]:
  "gated s \<Longrightarrow> (\<And>r q s'. gated s' \<Longrightarrow> Q (r, q, s')) \<Longrightarrow> returns Q (SendBulk env b s)"
  by (auto simp: SendBulk_def monad_simps Let_def returns_def)

lemma gated_FreeBulk [gated_wp]: "gated s \<Longrightarrow> (\<And>s'. gated s' \<Longrightarrow> Q s') \<Longrightarrow> returns Q (OI_OBEXCOMMON_FreeBulkData p s)"
  by (auto simp: OI_OBEXCOMMON_FreeBulkData_def monad_simps returns_def)

lemma gated_AppendBulkData [gated_wp]: "gated s \<Longrightarrow> (\<And>s'. gated s' \<Longrightarrow> Q s') \<Longrightarrow> returns Q (AppendBulkData p q s)"
  unfolding AppendBulkData_def
  by ((rule returns_bind, rule gated_wp returns_rules) | rule gated_wp returns_rules returns_Some returns_any | (simp; fail) | rule returns_fall)+

lemma gated_ParseHeaderList [gated_wp]:
  "gated s \<Longrightarrow> (\<And>r hs s'. gated s' \<Longrightarrow> Q (r, hs, s')) \<Longrightarrow> returns Q (ParseHeaderList env pkt s)"
  by (auto simp: ParseHeaderList_def monad_simps returns_def)

lemma gated_srm_request [gated_wp]: "gated s \<Longrightarrow> (\<And>r s'. gated s' \<Longrightarrow> Q (r, s')) \<Longrightarrow> returns Q (srm_request hs s)"
  by (auto simp: srm_request_def monad_simps returns_def split: option.splits if_splits)

lemma gated_srm_param [gated_wp]: "gated s \<Longrightarrow> (\<And>r s'. gated s' \<Longrightarrow> Q (r, s')) \<Longrightarrow> returns Q (srm_param hs s)"
  by (auto simp: srm_param_def monad_simps returns_def split: option.splits)

lemma gated_srm_accept [gated_wp]: "gated s \<Longrightarrow> (\<And>r s'. gated s' \<Longrightarrow> Q (r, s')) \<Longrightarrow> returns Q (srm_accept s)"
  by (auto simp: srm_accept_def monad_simps returns_def split: if_splits)

lemma gated_ResponseRequired [gated_wp]: "gated s \<Longrightarrow> (\<And>r s'. gated s' \<Longrightarrow> Q (r, s')) \<Longrightarrow> returns Q (ResponseRequired s)"
  unfolding ResponseRequired_def
  by ((rule returns_bind, rule gated_wp returns_rules) | rule gated_wp returns_rules returns_Some returns_any | (simp; fail) | rule returns_fall)+

lemma gated_AllocBulk: "AllocBulk env bufs s = (r, p, q, s') \<Longrightarrow> gated s' = gated s"
  by (auto simp: AllocBulk_def Let_def split: prod.splits)

lemma gated_ForceDisconnect: "OI_OBEXSRV_ForceDisconnect env h s = (r, s') \<Longrightarrow> gated s' = gated s"
  by (auto simp: OI_OBEXSRV_ForceDisconnect_def disconnect_def split_beta Let_def split: option.splits if_splits)

section \<open>With callbacks\<close>

lemma gated_call_ind [gated_wp]:
  "gated s \<Longrightarrow> keeps gated env \<Longrightarrow> (\<And>r s'. gated s' \<Longrightarrow> Q (r, s')) \<Longrightarrow> returns Q (call_ind env ind s)"
  by (auto simp: call_ind_def monad_simps keeps_def returns_def split: if_splits) blast?

lemma gated_call_void [gated_wp]:
  "gated s \<Longrightarrow> keeps gated env \<Longrightarrow> (\<And>s'. gated s' \<Longrightarrow> Q s') \<Longrightarrow> returns Q (call_void env ind s)"
  unfolding call_void_def by (rule returns_map, rule gated_call_ind) simp_all

lemma gated_confirm_loop [gated_wp]:
  assumes "gated s" "keeps gated env" "\<And>p cfm cs f s'. gated s' \<Longrightarrow> Q (p, cfm, cs, f, s')"
  shows "returns Q (confirm_loop env status filt p cfm cs final s)"
  unfolding returns_def
proof (intro allI impI)
  fix y assume result: "confirm_loop env status filt p cfm cs final s = Some y"
  have "keeps gated env \<longrightarrow> gated s \<longrightarrow> gated (snd (snd (snd (snd y))))"
  proof (rule confirm_loop.raw_induct [OF _ result], goal_cases)
    case (1 loop env status filt p cfm cs final s y)
    show ?case
    proof (intro impI)
      assume *: "keeps gated env" "gated s"
      have loop: "returns Q (loop env status filt p cfm cs final s)"
        if "gated s" "\<And>p cfm cs f s'. gated s' \<Longrightarrow> Q (p, cfm, cs, f, s')" for Q p cfm cs final s
        unfolding returns_def
      proof (intro allI impI)
        fix y assume "loop env status filt p cfm cs final s = Some y"
        from 1(1) [OF this] have "gated (snd (snd (snd (snd y))))"
          using * that(1) by blast
        then show "Q y"
          using that(2) by (cases y) simp
      qed
      show "gated (snd (snd (snd (snd y))))"
        by (rule returnsD [OF _ 1(2)], insert *)
          ((rule returns_bind, rule gated_wp returns_rules) | rule gated_wp loop returns_rules returns_Some returns_any | (simp; fail) | rule returns_fall)+
    qed
  qed
  with assms show "Q y"
    by (cases y) auto
qed

lemma gated_ConfirmBulkGets [gated_wp]:
  "gated s \<Longrightarrow> keeps gated env \<Longrightarrow> (\<And>a f s'. gated s' \<Longrightarrow> Q (a, f, s')) \<Longrightarrow> returns Q (ConfirmBulkGets env st filt s)"
  unfolding ConfirmBulkGets_def
  by ((rule returns_bind, rule gated_wp returns_rules) | rule gated_wp returns_rules returns_Some returns_any | (simp; fail) | rule returns_fall)+

lemma gated_ServerDisconnect [gated_wp]: "(\<And>s'. gated s' \<Longrightarrow> Q s') \<Longrightarrow> returns Q (ServerDisconnect env r s)"
  unfolding ServerDisconnect_def
  by (rule returns_let returns_any returns_Some | simp add: gated_def)+

lemma gated_drop_link [gated_wp]: "gated s \<Longrightarrow> (\<And>s'. gated s' \<Longrightarrow> Q s') \<Longrightarrow> returns Q (drop_link env s)"
  unfolding drop_link_def split_beta Let_def
  by ((rule returns_bind, rule gated_wp returns_rules) | rule gated_wp returns_rules returns_Some returns_any | (simp; fail) | rule returns_fall)+

lemma gated_report_progress [gated_wp]:
  "gated s \<Longrightarrow> keeps gated env \<Longrightarrow> (\<And>s'. gated s' \<Longrightarrow> Q s') \<Longrightarrow> returns Q (report_progress env cmd s)"
  unfolding report_progress_def
  by ((rule returns_bind, rule gated_wp returns_rules) | rule gated_wp returns_rules returns_Some returns_any | (simp; fail) | rule returns_fall)+

lemma gated_BulkGetWriteCfm [gated_wp]:
  "gated s \<Longrightarrow> keeps gated env \<Longrightarrow> (\<And>r s'. gated s' \<Longrightarrow> Q (r, s')) \<Longrightarrow> returns Q (BulkGetWriteCfm env n p q st s)"
  unfolding BulkGetWriteCfm_def
  by ((rule returns_bind, rule gated_wp returns_rules) | rule gated_wp returns_rules returns_Some returns_any | (simp; fail) | rule returns_fall)+

lemma gated_AbortOperation [gated_wp]:
  "gated s \<Longrightarrow> keeps gated env \<Longrightarrow> (\<And>r s'. gated s' \<Longrightarrow> Q (r, s')) \<Longrightarrow> returns Q (AbortOperation env s)"
  unfolding AbortOperation_def
  by ((rule returns_bind, rule gated_wp returns_rules) | rule gated_wp returns_rules returns_Some returns_any | (simp; fail) | rule returns_fall)+

lemma gated_LowerWriteCfm [gated_wp]:
  "gated s \<Longrightarrow> keeps gated env \<Longrightarrow> (\<And>s'. gated s' \<Longrightarrow> Q s') \<Longrightarrow> returns Q (LowerWriteCfm env wm q r s)"
  unfolding LowerWriteCfm_def
  by ((rule returns_bind, rule gated_wp returns_rules) | rule gated_wp returns_rules returns_Some returns_any | (simp split: WRITTEN_MBUF.split; fail))+

lemma gated_GetCommandError [gated_wp]:
  "gated s \<Longrightarrow> keeps gated env \<Longrightarrow> (\<And>r s'. gated s' \<Longrightarrow> Q (r, s')) \<Longrightarrow> returns Q (GetCommandError env st s)"
  unfolding GetCommandError_def
  by ((rule returns_bind, rule gated_wp returns_rules) | rule gated_wp returns_rules returns_Some returns_any | (simp; fail) | rule returns_fall)+

lemma gated_get_start [gated_wp]:
  "gated s \<Longrightarrow> (\<And>a b s'. gated s' \<Longrightarrow> Q (a, b, s')) \<Longrightarrow> returns Q (get_start s)"
  unfolding get_start_def
  by ((rule returns_bind, rule gated_wp returns_rules) | rule gated_wp returns_rules returns_Some returns_any | (simp; fail) | rule returns_fall)+

lemma gated_get_indicate [gated_wp]:
  "gated s \<Longrightarrow> keeps gated env \<Longrightarrow> (\<And>r s'. gated s' \<Longrightarrow> Q (r, s')) \<Longrightarrow> returns Q (get_indicate env f hs s)"
  unfolding get_indicate_def
  by ((rule returns_bind, rule gated_wp returns_rules) | rule gated_wp returns_rules returns_Some returns_any | (simp; fail) | rule returns_fall)+

lemma gated_GetCommand [gated_wp]:
  "gated s \<Longrightarrow> keeps gated env \<Longrightarrow> (\<And>r s'. gated s' \<Longrightarrow> Q (r, s')) \<Longrightarrow> returns Q (GetCommand env pkt f s)"
  unfolding GetCommand_def
  by ((rule returns_bind, rule gated_wp returns_rules) | rule gated_wp returns_rules returns_Some returns_any | (simp; fail) | rule returns_fall)+

lemma gated_BulkGetResponseError [gated_wp]:
  "gated s \<Longrightarrow> (\<And>r s'. gated s' \<Longrightarrow> Q (r, s')) \<Longrightarrow> returns Q (BulkGetResponseError env st s)"
  unfolding BulkGetResponseError_def
  by ((rule returns_bind, rule gated_wp returns_rules) | rule gated_wp returns_rules returns_Some returns_any | (simp; fail) | rule returns_fall)+

lemma gated_BulkGetResponse [gated_wp]:
  "gated s \<Longrightarrow> (\<And>r s'. gated s' \<Longrightarrow> Q (r, s')) \<Longrightarrow> returns Q (OI_OBEXSRV_BulkGetResponse env h bufs st s)"
  unfolding OI_OBEXSRV_BulkGetResponse_def
  by ((rule returns_bind, rule gated_wp returns_rules) | rule gated_wp returns_rules returns_Some returns_any | (simp; fail) | (clarsimp, drule gated_AllocBulk gated_ForceDisconnect, simp; fail) | rule returns_fall)+

lemma gated_GetResponseError [gated_wp]:
  "gated s \<Longrightarrow> (\<And>r s'. gated s' \<Longrightarrow> Q (r, s')) \<Longrightarrow> returns Q (GetResponseError env a b s)"
  unfolding GetResponseError_def
  by ((rule returns_bind, rule gated_wp returns_rules) | rule gated_wp returns_rules returns_Some returns_any | (simp; fail) | rule returns_fall)+

lemma gated_GetResponse [gated_wp]:
  "gated s \<Longrightarrow> (\<And>r s'. gated s' \<Longrightarrow> Q (r, s')) \<Longrightarrow> returns Q (OI_OBEXSRV_GetResponse env h hs st s)"
  unfolding OI_OBEXSRV_GetResponse_def
  by ((rule returns_bind, rule gated_wp returns_rules) | rule gated_wp returns_rules returns_Some returns_any | (simp; fail) | rule returns_fall)+

lemma gated_PutCommandError [gated_wp]:
  "gated s \<Longrightarrow> keeps gated env \<Longrightarrow> (\<And>r s'. gated s' \<Longrightarrow> Q (r, s')) \<Longrightarrow> returns Q (PutCommandError env st s)"
  unfolding PutCommandError_def
  by ((rule returns_bind, rule gated_wp returns_rules) | rule gated_wp returns_rules returns_Some returns_any | (simp; fail) | rule returns_fall)+

lemma gated_put_indicate [gated_wp]:
  "gated s \<Longrightarrow> keeps gated env \<Longrightarrow> (\<And>r s'. gated s' \<Longrightarrow> Q (r, s')) \<Longrightarrow> returns Q (put_indicate env f hs s)"
  unfolding put_indicate_def
  by ((rule returns_bind, rule gated_wp returns_rules) | rule gated_wp returns_rules returns_Some returns_any | (simp; fail) | rule returns_fall)+

lemma gated_PutCommand [gated_wp]:
  "gated s \<Longrightarrow> keeps gated env \<Longrightarrow> (\<And>r s'. gated s' \<Longrightarrow> Q (r, s')) \<Longrightarrow> returns Q (PutCommand env pkt f s)"
  unfolding PutCommand_def
  by ((rule returns_bind, rule gated_wp returns_rules) | rule gated_wp returns_rules returns_Some returns_any | (simp; fail) | rule returns_fall)+

lemma gated_PutResponse [gated_wp]:
  "gated s \<Longrightarrow> (\<And>r s'. gated s' \<Longrightarrow> Q (r, s')) \<Longrightarrow> returns Q (OI_OBEXSRV_PutResponse env h hs st s)"
  unfolding OI_OBEXSRV_PutResponse_def
  by ((rule returns_bind, rule gated_wp returns_rules) | rule gated_wp returns_rules returns_Some returns_any | (simp; fail) | rule returns_fall)+

lemma gated_SetPathCommandError [gated_wp]:
  "gated s \<Longrightarrow> (\<And>r s'. gated s' \<Longrightarrow> Q (r, s')) \<Longrightarrow> returns Q (SetPathCommandError env st s)"
  unfolding SetPathCommandError_def
  by ((rule returns_bind, rule gated_wp returns_rules) | rule gated_wp returns_rules returns_Some returns_any | (simp; fail) | rule returns_fall)+

lemma gated_SetPathCommand [gated_wp]:
  "gated s \<Longrightarrow> keeps gated env \<Longrightarrow> (\<And>r s'. gated s' \<Longrightarrow> Q (r, s')) \<Longrightarrow> returns Q (SetPathCommand env pkt s)"
  unfolding SetPathCommand_def
  by ((rule returns_bind, rule gated_wp returns_rules) | rule gated_wp returns_rules returns_Some returns_any | (simp; fail) | rule returns_fall)+

lemma gated_ConfirmSetpath [gated_wp]:
  "gated s \<Longrightarrow> (\<And>r s'. gated s' \<Longrightarrow> Q (r, s')) \<Longrightarrow> returns Q (OI_OBEXSRV_ConfirmSetpath env h st hs s)"
  unfolding OI_OBEXSRV_ConfirmSetpath_def
  by ((rule returns_bind, rule gated_wp returns_rules) | rule gated_wp returns_rules returns_Some returns_any | (simp; fail) | rule returns_fall)+

lemma gated_ActionCommandError [gated_wp]:
  "gated s \<Longrightarrow> (\<And>r s'. gated s' \<Longrightarrow> Q (r, s')) \<Longrightarrow> returns Q (ActionCommandError env st s)"
  unfolding ActionCommandError_def
  by ((rule returns_bind, rule gated_wp returns_rules) | rule gated_wp returns_rules returns_Some returns_any | (simp; fail) | rule returns_fall)+

lemma gated_ActionCommand [gated_wp]:
  "gated s \<Longrightarrow> keeps gated env \<Longrightarrow> (\<And>r s'. gated s' \<Longrightarrow> Q (r, s')) \<Longrightarrow> returns Q (ActionCommand env pkt s)"
  unfolding ActionCommand_def
  by ((rule returns_bind, rule gated_wp returns_rules) | rule gated_wp returns_rules returns_Some returns_any | (simp; fail) | rule returns_fall)+

lemma gated_ActionResponse [gated_wp]:
  "gated s \<Longrightarrow> (\<And>r s'. gated s' \<Longrightarrow> Q (r, s')) \<Longrightarrow> returns Q (OI_OBEXSRV_ActionResponse env h st hs s)"
  unfolding OI_OBEXSRV_ActionResponse_def
  by ((rule returns_bind, rule gated_wp returns_rules) | rule gated_wp returns_rules returns_Some returns_any | (simp; fail) | rule returns_fall)+

lemma gated_SessionCommand [gated_wp]:
  "gated s \<Longrightarrow> (\<And>r s'. gated s' \<Longrightarrow> Q (r, s')) \<Longrightarrow> returns Q (SessionCommand env pkt s)"
  unfolding SessionCommand_def
  by ((rule returns_bind, rule gated_wp returns_rules) | rule gated_wp returns_rules returns_Some returns_any | (simp; fail) | rule returns_fall)+

lemma gated_handleAbortCommand [gated_wp]:
  "gated s \<Longrightarrow> keeps gated env \<Longrightarrow> (\<And>r s'. gated s' \<Longrightarrow> Q (r, s')) \<Longrightarrow> returns Q (handleAbortCommand env pkt s)"
  unfolding handleAbortCommand_def
  by ((rule returns_bind, rule gated_wp returns_rules) | rule gated_wp returns_rules returns_Some returns_any | (simp; fail) | rule returns_fall)+

lemma gated_AbortResponse [gated_wp]:
  "gated s \<Longrightarrow> (\<And>r s'. gated s' \<Longrightarrow> Q (r, s')) \<Longrightarrow> returns Q (OI_OBEXSRV_AbortResponse env h hs st s)"
  unfolding OI_OBEXSRV_AbortResponse_def
  by ((rule returns_bind, rule gated_wp returns_rules) | rule gated_wp returns_rules returns_Some returns_any | (simp; fail) | rule returns_fall)+

section \<open>The invariant\<close>

definition connected :: "CONNECTION_STATE set" where
  "connected = {CONNECT_COMPLETING, OBEX_CONNECTED, GET_IN_PROGRESS, GET_COMPLETING, BULK_GET_IN_PROGRESS,
     BULK_GET_COMPLETING, BULK_GET_FAILED, PUT_IN_PROGRESS, PUT_COMPLETING, SETTING_PATH, DO_ACTION}"

definition srv_inv :: "'w OBEX_SRV \<Rightarrow> bool" where
  "srv_inv s \<longleftrightarrow> (\<forall>c. s_conn s = Some c \<longrightarrow>
     (c_state c \<in> connected \<longrightarrow> gate c) \<and> (c_state c = OBEX_CONNECTING \<longrightarrow> currentTarget c \<noteq> None))"

lemma gated_inv: "gated s \<Longrightarrow> srv_inv s"
  by (simp add: gated_def srv_inv_def gate_def)

text \<open>The three fields of a connection that the invariant is about.\<close>

definition like :: "CONNECTION_STATE \<times> bool \<times> OBEXSRV_TARGET_INFO option \<Rightarrow> 'w OBEX_SRV \<Rightarrow> bool" where
  "like k s \<longleftrightarrow> (\<exists>c. s_conn s = Some c \<and> (c_state c, unauthorized c, currentTarget c) = k)"

lemma like_upd [simp]:
  "(\<And>c. unauthorized (f c) = unauthorized c \<and> currentTarget (f c) = currentTarget c \<and> c_state (f c) = c_state c) \<Longrightarrow>
     like k (upd f s) = like k s"
  by (auto simp: like_def)

lemma like_fields [simp]:
  "like k (s\<lparr>s_world := w\<rparr>) = like k s" "like k (s\<lparr>s_calls := n\<rparr>) = like k s" "like k (s\<lparr>s_heap := h\<rparr>) = like k s"
  "like k (s\<lparr>s_disp := d\<rparr>) = like k s" "like k (s\<lparr>s_fresh := n\<rparr>) = like k s" "like k (s\<lparr>s_linked := b\<rparr>) = like k s"
  by (simp_all add: like_def)

lemma like_simps [simp]: "like k (set_srm f s) = like k s" "like k (srm_off s) = like k s"
    "like k (flow env b s) = like k s" "like k (snd (disconnect env s)) = like k s"
  by (simp_all add: set_srm_def srm_off_def flow_def disconnect_def split_beta)

lemma like_SetState: "like (st, u, t) s \<Longrightarrow> like (st', u, t) (SetState st' s)"
  by (auto simp: like_def SetState_def)

lemma like_conn: "like (st, u, t) s \<Longrightarrow> s_conn s = Some c \<Longrightarrow> c_state c = st \<and> unauthorized c = u \<and> currentTarget c = t"
  by (auto simp: like_def)

lemma like_self: "s_conn s = Some c \<Longrightarrow> like (c_state c, unauthorized c, currentTarget c) s"
  by (simp add: like_def)

lemma like_inv: "like (st, u, t) s \<Longrightarrow> (st \<in> connected \<longrightarrow> \<not> u \<and> t \<noteq> None) \<Longrightarrow> (st = OBEX_CONNECTING \<longrightarrow> t \<noteq> None) \<Longrightarrow> srv_inv s"
  by (auto simp: like_def srv_inv_def gate_def)

named_theorems like_wp \<open>functions of the server that keep the three fields\<close>

lemma like_CancelFunc [like_wp]: "like k s \<Longrightarrow> (\<And>s'. like k s' \<Longrightarrow> Q s') \<Longrightarrow> returns Q (CancelFunc h s)"
  by (auto simp: CancelFunc_def monad_simps returns_def)

lemma like_SendSimple [like_wp]: "like k s \<Longrightarrow> (\<And>r s'. like k s' \<Longrightarrow> Q (r, s')) \<Longrightarrow> returns Q (SendSimple env op s)"
  by (auto simp: SendSimple_def monad_simps returns_def)

lemma like_SendOk [like_wp]: "like k s \<Longrightarrow> (\<And>r s'. like k s' \<Longrightarrow> Q (r, s')) \<Longrightarrow> returns Q (OI_OBEXCOMMON_SendOk env s)"
  unfolding OI_OBEXCOMMON_SendOk_def by (rule like_SendSimple)

lemma like_ErrorResponse [like_wp]:
  "like k s \<Longrightarrow> (\<And>s'. like k s' \<Longrightarrow> Q s') \<Longrightarrow> returns Q (ErrorResponse env st s)"
  unfolding ErrorResponse_def
  by ((rule returns_bind, rule like_wp returns_rules) | rule like_wp returns_rules returns_Some returns_any | (simp; fail) | rule returns_fall)+

lemma like_ServerSendPacket [like_wp]:
  "like k s \<Longrightarrow> (\<And>r s'. like k s' \<Longrightarrow> Q (r, s')) \<Longrightarrow> returns Q (ServerSendPacket env s)"
  unfolding ServerSendPacket_def
  by ((rule returns_bind, rule like_wp returns_rules) | rule like_wp returns_rules returns_Some returns_any | (simp; fail) | rule returns_fall)+

lemma like_compose [like_wp]:
  "like k s \<Longrightarrow> (\<And>r s'. like k s' \<Longrightarrow> Q (r, s')) \<Longrightarrow> returns Q (compose env op xs hs hl s)"
  unfolding compose_def
  by ((rule returns_bind, rule like_wp returns_rules) | rule like_wp returns_rules returns_Some returns_any | (simp; fail) | rule returns_fall)+

lemma like_send_packet [like_wp]:
  "like k s \<Longrightarrow> (\<And>r s'. like k s' \<Longrightarrow> Q (r, s')) \<Longrightarrow> returns Q (send_packet env op xs hs hl s)"
  unfolding send_packet_def
  by ((rule returns_bind, rule like_wp returns_rules) | rule like_wp returns_rules returns_Some returns_any | (simp; fail) | rule returns_fall)+

lemma like_sendSimpleWithHeaders [like_wp]:
  "like k s \<Longrightarrow> (\<And>r s'. like k s' \<Longrightarrow> Q (r, s')) \<Longrightarrow> returns Q (sendSimpleWithHeaders env op hl s)"
  unfolding sendSimpleWithHeaders_def
  by ((rule returns_bind, rule like_wp returns_rules) | rule like_wp returns_rules returns_Some returns_any | (simp; fail) | rule returns_fall)+

lemma like_ParseHeaderList [like_wp]:
  "like k s \<Longrightarrow> (\<And>a b s'. like k s' \<Longrightarrow> Q (a, b, s')) \<Longrightarrow> returns Q (ParseHeaderList env pkt s)"
  unfolding ParseHeaderList_def
  by ((rule returns_bind, rule like_wp returns_rules) | rule like_wp returns_rules returns_Some returns_any | (simp; fail) | rule returns_fall)+

end
