(* ===== verification/ObexSrvGate.thy ===== *)
theory ObexSrvGate
  imports ObexSrvSafe
begin

unbundle bit_operations_syntax

text \<open>
  The authentication gate of the OBEX server over whole runs: the calls an application may make, the
  events of the stack, and the invariant that a connection on which requests are answered is
  authorized and has a target. GET requests in a state in which none is expected are left out of the
  runs: \<open>ObexSrvProps\<close> shows what they do to the invariant.
\<close>

section \<open>Calls of the application\<close>

text \<open>What the application may do: call the functions of the server, in any order.\<close>

inductive srv_api :: "'w SRV_ENV \<Rightarrow> 'w OBEX_SRV \<Rightarrow> 'w OBEX_SRV \<Rightarrow> bool" for env where
  api_refl: "srv_api env s s"
| api_get: "srv_api env s x \<Longrightarrow> OI_OBEXSRV_GetResponse env h hs st x = Some (r, y) \<Longrightarrow> srv_api env s y"
| api_bulk: "srv_api env s x \<Longrightarrow> OI_OBEXSRV_BulkGetResponse env h bufs st x = Some (r, y) \<Longrightarrow> srv_api env s y"
| api_put: "srv_api env s x \<Longrightarrow> OI_OBEXSRV_PutResponse env h hs st x = Some (r, y) \<Longrightarrow> srv_api env s y"
| api_action: "srv_api env s x \<Longrightarrow> OI_OBEXSRV_ActionResponse env h st hs x = Some (r, y) \<Longrightarrow> srv_api env s y"
| api_setpath: "srv_api env s x \<Longrightarrow> OI_OBEXSRV_ConfirmSetpath env h st hs x = Some (r, y) \<Longrightarrow> srv_api env s y"
| api_abort: "srv_api env s x \<Longrightarrow> OI_OBEXSRV_AbortResponse env h hs rsp x = Some (r, y) \<Longrightarrow> srv_api env s y"
| api_accept: "srv_api env s x \<Longrightarrow> OI_OBEXSRV_AcceptConnect env h accept st hs x = Some (r, y) \<Longrightarrow> srv_api env s y"
| api_auth_accept: "srv_api env s x \<Longrightarrow> OI_OBEXSRV_AuthAccept env h realm accept x = Some (r, y) \<Longrightarrow> srv_api env s y"
| api_auth: "srv_api env s x \<Longrightarrow> OI_OBEXSRV_AuthenticationResponse env h uid n pw ro x = Some (r, y) \<Longrightarrow> srv_api env s y"
| api_force: "srv_api env s x \<Longrightarrow> OI_OBEXSRV_ForceDisconnect env h x = (r, y) \<Longrightarrow> srv_api env s y"
| api_context: "srv_api env s x \<Longrightarrow> OI_OBEXSRV_SetConnectionContext h v x = (r, y) \<Longrightarrow> srv_api env s y"
| api_world: "srv_api env s x \<Longrightarrow> srv_api env s (x\<lparr>s_world := w\<rparr>)"

definition app_ok :: "'w SRV_ENV \<Rightarrow> bool" where
  "app_ok env \<longleftrightarrow> (\<forall>i ind s r s'. e_app env i ind s = Some (r, s') \<longrightarrow> srv_api env s s')"

lemma LookupConnection_conn: "LookupConnection h s = Some c \<Longrightarrow> s_conn s = Some c \<and> connectionHandle c = h"
  by (auto simp: LookupConnection_def split: option.splits if_splits)

text \<open>The answers leave a connection alone that is not in their state.\<close>

lemma answer_closed:
  assumes "\<And>c. s_conn s = Some c \<Longrightarrow> c_state c \<notin> connected"
  shows "OI_OBEXSRV_GetResponse env h hs st s = Some (r, y) \<Longrightarrow> y = s"
    and "OI_OBEXSRV_BulkGetResponse env h bufs st s = Some (r, y) \<Longrightarrow> y = s"
    and "OI_OBEXSRV_PutResponse env h hs st s = Some (r, y) \<Longrightarrow> y = s"
    and "OI_OBEXSRV_ActionResponse env h st hs s = Some (r, y) \<Longrightarrow> y = s"
    and "OI_OBEXSRV_ConfirmSetpath env h st hs s = Some (r, y) \<Longrightarrow> y = s"
  using assms
  by (auto simp: OI_OBEXSRV_GetResponse_def OI_OBEXSRV_BulkGetResponse_def OI_OBEXSRV_PutResponse_def OI_OBEXSRV_ActionResponse_def
      OI_OBEXSRV_ConfirmSetpath_def connected_def dest!: LookupConnection_conn split: option.split_asm if_split_asm)

lemma not_gated_closed: "srv_inv s \<Longrightarrow> \<not> gated s \<Longrightarrow> s_conn s = Some c \<Longrightarrow> c_state c \<notin> connected \<and> \<not> gate c"
  by (auto simp: srv_inv_def gated_def)

lemma inv_upd [simp]:
  "(\<And>c. unauthorized (f c) = unauthorized c \<and> currentTarget (f c) = currentTarget c \<and> c_state (f c) = c_state c) \<Longrightarrow>
     srv_inv (upd f s) = srv_inv s"
  by (auto simp: srv_inv_def gate_def)

lemma inv_fields [simp]:
  "srv_inv (s\<lparr>s_world := w\<rparr>) = srv_inv s" "srv_inv (s\<lparr>s_calls := n\<rparr>) = srv_inv s" "srv_inv (s\<lparr>s_heap := h\<rparr>) = srv_inv s"
  "srv_inv (s\<lparr>s_disp := d\<rparr>) = srv_inv s" "srv_inv (s\<lparr>s_fresh := n\<rparr>) = srv_inv s" "srv_inv (s\<lparr>s_linked := b\<rparr>) = srv_inv s"
  "srv_inv (s\<lparr>s_conn := None\<rparr>)"
  by (simp_all add: srv_inv_def)

lemma inv_SetState: "st \<notin> connected \<Longrightarrow> st \<noteq> OBEX_CONNECTING \<Longrightarrow> srv_inv (SetState st s)"
  by (auto simp: srv_inv_def SetState_def)

lemma inv_ForceDisconnect: "OI_OBEXSRV_ForceDisconnect env h s = (r, y) \<Longrightarrow> srv_inv s \<Longrightarrow> srv_inv y"
  by (auto simp: OI_OBEXSRV_ForceDisconnect_def disconnect_def split_beta Let_def inv_SetState connected_def split: option.splits if_splits)

lemma inv_AbortResponse: "OI_OBEXSRV_AbortResponse env h hs rsp s = Some (r, y) \<Longrightarrow> srv_inv s \<Longrightarrow> srv_inv y"
  by (auto simp: OI_OBEXSRV_AbortResponse_def monad_simps Let_def split: option.splits if_splits)


section \<open>Connecting\<close>

lemma gated_put_auth [simp]: "gated (put_auth a s) = gated s"
  by (simp add: put_auth_def)

lemma like_put_auth [simp]: "like k (put_auth a s) = like k s"
  by (simp add: put_auth_def)

lemma inv_put_auth [simp]: "srv_inv (put_auth a s) = srv_inv s"
  by (simp add: put_auth_def)

lemma gated_accept_headers [gated_wp]:
  "gated s \<Longrightarrow> (\<And>a b s'. gated s' \<Longrightarrow> Q (a, b, s')) \<Longrightarrow> returns Q (accept_headers env realm s)"
  unfolding accept_headers_def
  by ((rule returns_bind, rule gated_wp returns_rules) | rule gated_wp returns_rules returns_Some returns_any | (simp; fail) | rule returns_fall)+

lemma gated_acceptConnect [gated_wp]:
  "gated s \<Longrightarrow> (\<And>r s'. gated s' \<Longrightarrow> Q (r, s')) \<Longrightarrow> returns Q (acceptConnect env h realm accept st hs s)"
  unfolding acceptConnect_def
  by ((rule returns_bind, rule gated_wp returns_rules) | rule gated_wp returns_rules returns_Some returns_any | (simp; fail) | rule returns_fall)+

text \<open>A refused connection, and the challenge for one that is not authorized, leave the state at
  \<open>LOWER_LAYER_CONNECTED\<close>.\<close>

lemma like_accept_headers:
  "like (st, True, t) s \<Longrightarrow> (\<And>a b s'. like (LOWER_LAYER_CONNECTED, True, t) s' \<Longrightarrow> Q (a, b, s')) \<Longrightarrow>
     returns Q (accept_headers env realm s)"
  unfolding accept_headers_def
  by ((rule returns_bind, rule returns_rules) | rule returns_rules returns_Some returns_any |
      (simp add: like_SetState; fail) | (frule (1) like_conn; simp; fail) | rule returns_fall)+

lemma like_refuse:
  "like (st, u, t) s \<Longrightarrow> (\<And>r s'. like (LOWER_LAYER_CONNECTED, u, t) s' \<Longrightarrow> Q (r, s')) \<Longrightarrow> (\<And>r. Q (r, s)) \<Longrightarrow>
     returns Q (acceptConnect env h realm False inSt hs s)"
  unfolding acceptConnect_def if_False Option.bind.bind_lunit prod.case
  by ((rule returns_bind, rule like_send_packet [of "(LOWER_LAYER_CONNECTED, u, t)"] returns_rules) | rule like_wp returns_rules returns_Some returns_any |
      (simp add: like_SetState; fail) | rule returns_fall)+

lemma like_challenge:
  "like (st, True, t) s \<Longrightarrow> (\<And>r s'. like (LOWER_LAYER_CONNECTED, True, t) s' \<Longrightarrow> Q (r, s')) \<Longrightarrow> (\<And>r. Q (r, s)) \<Longrightarrow>
     returns Q (acceptConnect env h realm True inSt hs s)"
  unfolding acceptConnect_def if_True
  by ((rule returns_bind, rule like_accept_headers like_wp returns_rules) | rule like_wp returns_rules returns_Some returns_any |
      (simp add: like_SetState; fail) | rule returns_fall)+

text \<open>The invariant for the functions that accept a connection, in any state they are called in.\<close>

named_theorems inv_wp \<open>functions of the server keep the invariant\<close>

lemma inv_lower: "like (LOWER_LAYER_CONNECTED, u, t) s \<Longrightarrow> srv_inv s"
  by (erule like_inv) (simp_all add: connected_def)

lemma inv_refuse [inv_wp]:
  assumes "srv_inv s" "\<And>r s'. srv_inv s' \<Longrightarrow> Q (r, s')"
  shows "returns Q (acceptConnect env h realm False inSt hs s)"
proof (cases "s_conn s")
  case None
  then show ?thesis
    using assms by (simp add: acceptConnect_def LookupConnection_def returns_Some)
next
  case (Some c)
  show ?thesis
    by (rule like_refuse [OF like_self [OF Some]]) (use assms in \<open>auto dest: inv_lower\<close>)
qed

lemma inv_accept [inv_wp]:
  assumes "srv_inv s" "\<And>c. s_conn s = Some c \<Longrightarrow> c_state c = OBEX_CONNECTING" "\<And>r s'. srv_inv s' \<Longrightarrow> Q (r, s')"
  shows "returns Q (acceptConnect env h realm True inSt hs s)"
proof (cases "s_conn s")
  case None
  then show ?thesis
    using assms by (simp add: acceptConnect_def LookupConnection_def returns_Some)
next
  case (Some c)
  show ?thesis
  proof (cases "unauthorized c")
    case True
    then have "like (c_state c, True, currentTarget c) s"
      using like_self [OF Some] by simp
    then show ?thesis
      by (rule like_challenge) (use assms in \<open>auto dest: inv_lower\<close>)
  next
    case False
    then have "gated s"
      using assms(1) assms(2) [OF Some] Some by (auto simp: gated_def gate_def srv_inv_def)
    then show ?thesis
      by (rule gated_acceptConnect) (use assms(3) gated_inv in blast)
  qed
qed

lemma inv_AcceptConnect [inv_wp]:
  "srv_inv s \<Longrightarrow> (\<And>r s'. srv_inv s' \<Longrightarrow> Q (r, s')) \<Longrightarrow> returns Q (OI_OBEXSRV_AcceptConnect env h accept st hs s)"
  unfolding OI_OBEXSRV_AcceptConnect_def
  by (cases accept; simp only: simp_thms)
    (rule inv_wp returns_rules returns_Some | assumption | (clarsimp dest!: LookupConnection_conn; fail) | blast)+

lemma inv_AuthAccept [inv_wp]:
  "srv_inv s \<Longrightarrow> (\<And>r s'. srv_inv s' \<Longrightarrow> Q (r, s')) \<Longrightarrow> returns Q (OI_OBEXSRV_AuthAccept env h realm accept s)"
  unfolding OI_OBEXSRV_AuthAccept_def
  by (cases accept; simp only: simp_thms)
    ((rule returns_bind, rule inv_wp) | rule inv_wp returns_rules returns_Some | assumption | (clarsimp dest!: LookupConnection_conn; fail))+

lemma inv_reindicate [inv_wp]: "srv_inv s \<Longrightarrow> (\<And>s'. srv_inv s' \<Longrightarrow> Q s') \<Longrightarrow> returns Q (reindicate s)"
  by (auto simp: reindicate_def monad_simps returns_def)

lemma gated_reindicate [gated_wp]: "gated s \<Longrightarrow> (\<And>s'. gated s' \<Longrightarrow> Q s') \<Longrightarrow> returns Q (reindicate s)"
  by (auto simp: reindicate_def monad_simps returns_def)

lemma inv_authorize:
  "srv_inv s \<Longrightarrow> srv_inv (upd (\<lambda>c. c\<lparr>unauthorized := False\<rparr>) s)"
  by (auto simp: srv_inv_def gate_def)

lemma inv_AuthenticationResponse [inv_wp]:
  "srv_inv s \<Longrightarrow> (\<And>r s'. srv_inv s' \<Longrightarrow> Q (r, s')) \<Longrightarrow>
     returns Q (OI_OBEXSRV_AuthenticationResponse env h uid n pw ro s)"
  unfolding OI_OBEXSRV_AuthenticationResponse_def
  by ((rule returns_bind, rule inv_wp returns_rules) | rule inv_wp returns_rules returns_Some returns_any |
      (simp add: inv_authorize inv_SetState connected_def; fail) | rule returns_fall)+

lemma gated_AcceptConnect [gated_wp]:
  "gated s \<Longrightarrow> (\<And>r s'. gated s' \<Longrightarrow> Q (r, s')) \<Longrightarrow> returns Q (OI_OBEXSRV_AcceptConnect env h accept st hs s)"
  unfolding OI_OBEXSRV_AcceptConnect_def
  by ((rule returns_bind, rule gated_wp returns_rules) | rule gated_wp returns_rules returns_Some returns_any | (simp; fail) | rule returns_fall)+

lemma gated_AuthAccept [gated_wp]:
  "gated s \<Longrightarrow> (\<And>r s'. gated s' \<Longrightarrow> Q (r, s')) \<Longrightarrow> returns Q (OI_OBEXSRV_AuthAccept env h realm accept s)"
  unfolding OI_OBEXSRV_AuthAccept_def
  by ((rule returns_bind, rule gated_wp returns_rules) | rule gated_wp returns_rules returns_Some returns_any | (simp; fail) | rule returns_fall)+

lemma gated_authorize: "gated s \<Longrightarrow> gated (upd (\<lambda>c. c\<lparr>unauthorized := False\<rparr>) s)"
  by (auto simp: gated_def gate_def)

lemma gated_AuthenticationResponse [gated_wp]:
  "gated s \<Longrightarrow> (\<And>r s'. gated s' \<Longrightarrow> Q (r, s')) \<Longrightarrow>
     returns Q (OI_OBEXSRV_AuthenticationResponse env h uid n pw ro s)"
  unfolding OI_OBEXSRV_AuthenticationResponse_def
  by ((rule returns_bind, rule gated_wp returns_rules) | rule gated_wp returns_rules returns_Some returns_any |
      (simp add: gated_authorize; fail) | rule returns_fall)+

lemma SetContext_keeps: "OI_OBEXSRV_SetConnectionContext h v s = (r, y) \<Longrightarrow> gated y = gated s \<and> srv_inv y = srv_inv s"
  by (auto simp: OI_OBEXSRV_SetConnectionContext_def split: option.splits)

lemma returns_second: "m = Some (r, y) \<Longrightarrow> returns (\<lambda>(r, s). P s) m \<Longrightarrow> P y"
  by (simp add: returns_def)

text \<open>An answer keeps the invariant: in an open gate the gate, else the state.\<close>

lemma answer_rule:
  assumes inv: "srv_inv s" and Q: "\<And>r s'. srv_inv s' \<Longrightarrow> Q (r, s')"
    and gate_open: "gated s \<Longrightarrow> returns (\<lambda>(r, s'). gated s') m"
    and gate_closed: "\<And>r y. (\<And>c. s_conn s = Some c \<Longrightarrow> c_state c \<notin> connected) \<Longrightarrow> m = Some (r, y) \<Longrightarrow> y = s"
  shows "returns Q m"
proof (rule returns_fall)
  fix x assume m: "m = Some x"
  obtain r y where x: "x = (r, y)"
    by (cases x)
  have "srv_inv y"
  proof (cases "gated s")
    case True
    from returnsD [OF gate_open [OF this] m] show ?thesis
      by (simp add: x gated_inv)
  next
    case False
    then have "y = s"
      using not_gated_closed [OF inv] by (intro gate_closed [OF _ m [unfolded x]]) blast
    with inv show ?thesis
      by simp
  qed
  then show "Q x"
    unfolding x by (rule Q)
qed

lemma answer_inv:
  assumes "srv_inv s" "\<And>r s'. srv_inv s' \<Longrightarrow> Q (r, s')"
  shows "returns Q (OI_OBEXSRV_GetResponse env h hs st s)"
    and "returns Q (OI_OBEXSRV_BulkGetResponse env h bufs st s)"
    and "returns Q (OI_OBEXSRV_PutResponse env h hs st s)"
    and "returns Q (OI_OBEXSRV_ActionResponse env h st hs s)"
    and "returns Q (OI_OBEXSRV_ConfirmSetpath env h st hs s)"
  by (rule answer_rule, rule assms(1), rule assms(2), assumption, rule gated_wp, assumption, simp, erule (1) answer_closed)+

text \<open>What the application may call keeps the gate, and keeps the invariant.\<close>

lemma api_gated: "srv_api env s y \<Longrightarrow> gated s \<Longrightarrow> gated y"
proof (induction rule: srv_api.induct)
  case (api_force s x h r y)
  then show ?case
    using gated_ForceDisconnect by blast
next
  case (api_context s x h v r y)
  then show ?case
    using SetContext_keeps by blast
qed (assumption | (erule returns_second, rule gated_wp, simp, simp) | simp)+

lemma api_inv: "srv_api env s y \<Longrightarrow> srv_inv s \<Longrightarrow> srv_inv y"
proof (induction rule: srv_api.induct)
  case (api_force s x h r y)
  then show ?case
    using inv_ForceDisconnect by blast
next
  case (api_context s x h v r y)
  then show ?case
    using SetContext_keeps by blast
next
  case (api_abort s x h hs rsp r y)
  then show ?case
    using inv_AbortResponse by blast
qed (assumption | (erule returns_second, rule answer_inv inv_wp, simp, simp) | simp)+

lemma app_keeps: "app_ok env \<Longrightarrow> keeps gated env" "app_ok env \<Longrightarrow> keeps srv_inv env"
  unfolding app_ok_def keeps_def by (blast intro: api_gated, blast intro: api_inv)

section \<open>The functions the stack calls\<close>

lemma inv_call_void [inv_wp]:
  "srv_inv s \<Longrightarrow> keeps srv_inv env \<Longrightarrow> (\<And>s'. srv_inv s' \<Longrightarrow> Q s') \<Longrightarrow> returns Q (call_void env ind s)"
  by (auto simp: call_void_def call_ind_def monad_simps keeps_def returns_def split: if_splits)

text \<open>A command is either in an open gate, or in a state in which it leaves the three fields alone.\<close>

lemma inv_cases:
  assumes "srv_inv s" "\<And>r s'. srv_inv s' \<Longrightarrow> Q (r, s')"
    and "gated s \<Longrightarrow> returns (\<lambda>(r, s'). gated s') m"
    and "\<And>c. s_conn s = Some c \<Longrightarrow> c_state c \<notin> connected \<Longrightarrow> returns (\<lambda>(r, s'). srv_inv s') m"
  shows "returns Q m"
proof (rule returns_fall)
  fix x assume m: "m = Some x"
  obtain r y where x: "x = (r, y)"
    by (cases x)
  have "srv_inv y"
  proof (cases "gated s")
    case True
    from returnsD [OF assms(3) [OF this] m] show ?thesis
      by (simp add: x gated_inv)
  next
    case False
    then obtain c where "s_conn s = Some c"
      by (auto simp: gated_def)
    with not_gated_closed [OF assms(1) False] returnsD [OF assms(4) m, of c] show ?thesis
      by (simp add: x)
  qed
  then show "Q x"
    unfolding x by (rule assms(2))
qed

lemma closed_inv: "s_conn s = Some c \<Longrightarrow> c_state c \<notin> connected \<Longrightarrow> srv_inv s \<Longrightarrow>
    like (c_state c, unauthorized c, currentTarget c) s' \<Longrightarrow> srv_inv s'"
  by (auto simp: like_def srv_inv_def)

lemma returns_pair: "returns Q (f a b) \<Longrightarrow> returns Q (case (a, b) of (a, b) \<Rightarrow> f a b)"
  by simp

lemma like_state: "like (st, u, t) s \<Longrightarrow> s_conn s = Some c \<Longrightarrow> c_state c = st"
  by (simp add: like_conn)

lemma like_PutCommandError [like_wp]:
  "like (st, u, t) s \<Longrightarrow> st \<notin> {OBEX_CONNECTED, PUT_IN_PROGRESS, PUT_COMPLETING} \<Longrightarrow>
     (\<And>r s'. like (st, u, t) s' \<Longrightarrow> Q (r, s')) \<Longrightarrow> returns Q (PutCommandError env e s)"
  unfolding PutCommandError_def
  by ((drule (1) like_state, simp; fail) | (rule returns_bind, rule like_wp returns_rules) | rule like_wp returns_pair returns_rules returns_Some returns_any |
       (simp; fail) | rule returns_fall)+

lemma like_SetPathCommandError [like_wp]:
  "like (st, u, t) s \<Longrightarrow> st \<notin> {SETTING_PATH} \<Longrightarrow>
     (\<And>r s'. like (st, u, t) s' \<Longrightarrow> Q (r, s')) \<Longrightarrow> returns Q (SetPathCommandError env e s)"
  unfolding SetPathCommandError_def
  by ((rule returns_bind, rule like_wp returns_rules) | rule like_wp returns_pair returns_rules returns_Some returns_any |
       (frule (1) like_state, simp; fail) | (simp; fail) | rule returns_fall)+

lemma like_ActionCommandError [like_wp]:
  "like k s \<Longrightarrow> (\<And>r s'. like k s' \<Longrightarrow> Q (r, s')) \<Longrightarrow> returns Q (ActionCommandError env e s)"
  unfolding ActionCommandError_def
  by ((rule returns_bind, rule like_wp returns_rules) | rule like_wp returns_pair returns_rules returns_Some returns_any |
      (simp; fail) | rule returns_fall)+

lemma like_closed_commands [like_wp]:
  assumes "like (st, u, t) s" "st \<notin> connected" "\<And>r s'. like (st, u, t) s' \<Longrightarrow> Q (r, s')"
  shows "returns Q (PutCommand env pkt f s)"
    and "returns Q (SetPathCommand env pkt s)"
    and "returns Q (ActionCommand env pkt s)"
    and "returns Q (SessionCommand env pkt s)"
  unfolding PutCommand_def SetPathCommand_def ActionCommand_def SessionCommand_def
  by (insert assms, unfold connected_def)
    ((drule (1) like_state, simp; fail) | (rule returns_bind, rule like_wp returns_rules) | rule like_wp returns_pair returns_rules returns_Some returns_any |
       (simp; fail))+

lemma inv_commands [inv_wp]:
  assumes inv: "srv_inv s" and app: "keeps gated env" and Q: "\<And>r s'. srv_inv s' \<Longrightarrow> Q (r, s')"
  shows "returns Q (PutCommand env pkt f s)"
    and "returns Q (SetPathCommand env pkt s)"
    and "returns Q (ActionCommand env pkt s)"
    and "returns Q (SessionCommand env pkt s)"
proof -
  have *: "srv_inv s'" if "s_conn s = Some c" "c_state c \<notin> connected" "like (c_state c, unauthorized c, currentTarget c) s'"
    for c and s'
    using closed_inv that inv by blast
  show "returns Q (PutCommand env pkt f s)"
    by (rule inv_cases, rule inv, erule Q, rule gated_wp, assumption, rule app, simp,
      rule like_wp, erule like_self, assumption, simp add: *)
  show "returns Q (SetPathCommand env pkt s)"
    by (rule inv_cases, rule inv, erule Q, rule gated_wp, assumption, rule app, simp,
      rule like_wp, erule like_self, assumption, simp add: *)
  show "returns Q (ActionCommand env pkt s)"
    by (rule inv_cases, rule inv, erule Q, rule gated_wp, assumption, rule app, simp,
      rule like_wp, erule like_self, assumption, simp add: *)
  show "returns Q (SessionCommand env pkt s)"
    by (rule inv_cases, rule inv, erule Q, rule gated_wp, assumption, simp,
      rule like_wp, erule like_self, assumption, simp add: *)
qed

text \<open>The same for functions that give the state alone.\<close>

lemma inv_cases_state:
  assumes "srv_inv s" "\<And>s'. srv_inv s' \<Longrightarrow> Q s'"
    and "gated s \<Longrightarrow> returns gated m"
    and "\<And>c. s_conn s = Some c \<Longrightarrow> c_state c \<notin> connected \<Longrightarrow> returns srv_inv m"
  shows "returns Q m"
proof -
  have "returns (\<lambda>(r, s). Q s) (map_option (Pair ()) m)"
    by (rule inv_cases [OF assms(1)])
      (use assms in \<open>auto intro!: returns_map simp: returns_def\<close>)
  then show ?thesis
    by (cases m) (auto simp: returns_def)
qed

lemma like_AbortOperation [like_wp]:
  "like (st, u, t) s \<Longrightarrow> st \<notin> connected \<Longrightarrow> (\<And>r s'. like (st, u, t) s' \<Longrightarrow> Q (r, s')) \<Longrightarrow> returns Q (AbortOperation env s)"
  unfolding AbortOperation_def connected_def
  by ((drule (1) like_state, simp; fail) | (rule returns_bind, rule like_wp returns_rules) | rule like_wp returns_pair returns_rules returns_Some returns_any |
       (simp; fail) | rule returns_fall)+

lemma inv_AbortOperation [inv_wp]:
  assumes inv: "srv_inv s" and app: "keeps gated env" and Q: "\<And>r s'. srv_inv s' \<Longrightarrow> Q (r, s')"
  shows "returns Q (AbortOperation env s)"
  by (rule inv_cases, rule inv, erule Q, rule gated_wp, assumption, rule app, simp,
      rule like_wp, erule like_self, assumption, simp add: closed_inv inv)

lemma inv_ErrorResponse [inv_wp]: "srv_inv s \<Longrightarrow> (\<And>s'. srv_inv s' \<Longrightarrow> Q s') \<Longrightarrow> returns Q (ErrorResponse env st s)"
  by (auto simp: ErrorResponse_def SendSimple_def monad_simps returns_def srm_off_def set_srm_def)

lemma inv_SendOk [inv_wp]: "srv_inv s \<Longrightarrow> (\<And>r s'. srv_inv s' \<Longrightarrow> Q (r, s')) \<Longrightarrow> returns Q (OI_OBEXCOMMON_SendOk env s)"
  by (auto simp: OI_OBEXCOMMON_SendOk_def SendSimple_def monad_simps returns_def)

lemma inv_ParseHeaderList [inv_wp]:
  "srv_inv s \<Longrightarrow> (\<And>r hs s'. srv_inv s' \<Longrightarrow> Q (r, hs, s')) \<Longrightarrow> returns Q (ParseHeaderList env pkt s)"
  by (auto simp: ParseHeaderList_def monad_simps returns_def)

lemma inv_CancelFunc [inv_wp]: "srv_inv s \<Longrightarrow> (\<And>s'. srv_inv s' \<Longrightarrow> Q s') \<Longrightarrow> returns Q (CancelFunc h s)"
  by (auto simp: CancelFunc_def monad_simps returns_def)

lemma inv_ServerDisconnect [inv_wp]: "(\<And>s'. srv_inv s' \<Longrightarrow> Q s') \<Longrightarrow> returns Q (ServerDisconnect env r s)"
  by (rule gated_ServerDisconnect) (simp add: gated_inv)

lemma inv_drop_link [inv_wp]: "(\<And>s'. srv_inv s' \<Longrightarrow> Q s') \<Longrightarrow> returns Q (drop_link env s)"
  unfolding drop_link_def split_beta Let_def
  by ((rule inv_wp returns_rules returns_Some) | assumption | (simp add: disconnect_def split_beta inv_SetState connected_def; fail))+

lemma inv_handleAbortCommand [inv_wp]:
  "srv_inv s \<Longrightarrow> keeps gated env \<Longrightarrow> keeps srv_inv env \<Longrightarrow> (\<And>r s'. srv_inv s' \<Longrightarrow> Q (r, s')) \<Longrightarrow>
     returns Q (handleAbortCommand env pkt s)"
  unfolding handleAbortCommand_def
  by ((rule returns_bind, rule inv_wp returns_rules) | rule inv_wp returns_pair returns_rules returns_Some returns_any | (simp; fail) | rule returns_fall)+

lemma inv_ConnectError [inv_wp]:
  "srv_inv s \<Longrightarrow> (\<And>r s'. srv_inv s' \<Longrightarrow> Q (r, s')) \<Longrightarrow> returns Q (ConnectError env st s)"
  unfolding ConnectError_def
  by ((rule returns_bind, rule inv_wp returns_rules) | rule inv_wp returns_pair returns_rules returns_Some returns_any | (simp; fail) | rule returns_fall)+

section \<open>A CONNECT request\<close>

text \<open>While the request is checked the state is \<open>LOWER_LAYER_CONNECTED\<close>; the flag says that the target is
  known.\<close>

definition in_check :: "bool \<Rightarrow> 'w OBEX_SRV \<Rightarrow> bool" where
  "in_check known s \<longleftrightarrow> (\<exists>c. s_conn s = Some c \<and> c_state c = LOWER_LAYER_CONNECTED \<and> (known \<longrightarrow> currentTarget c \<noteq> None))"

lemma in_check_upd [simp]:
  "(\<And>c. c_state (f c) = c_state c \<and> currentTarget (f c) = currentTarget c) \<Longrightarrow> in_check b (upd f s) = in_check b s"
  by (auto simp: in_check_def)

lemma in_check_target: "in_check b s \<Longrightarrow> in_check True (upd (\<lambda>c. c\<lparr>currentTarget := Some t, clientSpecifiedTarget := x\<rparr>) s)"
  by (auto simp: in_check_def)

lemma in_check_fields [simp]: "in_check b (s\<lparr>s_calls := n\<rparr>) = in_check b s" "in_check b (put_auth a s) = in_check b s"
  by (auto simp: in_check_def put_auth_def)

lemma in_check_inv: "in_check b s \<Longrightarrow> srv_inv s"
  by (auto simp: in_check_def srv_inv_def connected_def)

lemma in_check_connecting: "in_check True s \<Longrightarrow> srv_inv (SetState OBEX_CONNECTING s)"
  by (auto simp: in_check_def srv_inv_def SetState_def connected_def)

named_theorems in_check_wp \<open>steps of a CONNECT request\<close>

lemma in_check_ParseHeaderList [in_check_wp]:
  "in_check b s \<Longrightarrow> (\<And>r hs s'. in_check b s' \<Longrightarrow> Q (r, hs, s')) \<Longrightarrow> returns Q (ParseHeaderList env pkt s)"
  by (auto simp: ParseHeaderList_def monad_simps returns_def)

lemma in_check_connect_fields [in_check_wp]:
  "in_check b s \<Longrightarrow> (\<And>r p s'. in_check b s' \<Longrightarrow> Q (r, p, s')) \<Longrightarrow> returns Q (connect_fields pkt s)"
  unfolding connect_fields_def
  by ((rule returns_bind, rule returns_rules) | rule returns_pair returns_rules returns_Some returns_any | (simp; fail) | rule returns_fall)+

lemma in_check_new_auth [in_check_wp]:
  "in_check b s \<Longrightarrow> (\<And>r s'. in_check b s' \<Longrightarrow> Q (r, s')) \<Longrightarrow> returns Q (new_auth env s)"
  unfolding new_auth_def
  by ((rule returns_bind, rule returns_rules) | rule returns_pair returns_rules returns_Some returns_any | (simp; fail) | rule returns_fall)+

lemma in_check_weak: "in_check True s \<Longrightarrow> in_check b s"
  by (auto simp: in_check_def)

lemma in_check_connect_target [in_check_wp]:
  "in_check False s \<Longrightarrow> (\<And>r s'. in_check (OI_SUCCESS r) s' \<Longrightarrow> Q (r, s')) \<Longrightarrow> returns Q (connect_target env hs s)"
  unfolding connect_target_def
  by ((rule returns_bind, rule in_check_new_auth [where b = True] returns_rules) | rule returns_pair returns_rules returns_Some returns_any |
      (simp add: in_check_target in_check_weak; fail) | rule returns_fall)+

text \<open>Whether it is authorized is decided; the target is known.\<close>

lemma in_check_connect_auth [in_check_wp]:
  "in_check True s \<Longrightarrow> (\<And>r b u n s'. in_check True s' \<Longrightarrow> Q (r, b, u, n, s')) \<Longrightarrow> returns Q (connect_auth env hs s)"
  unfolding connect_auth_def
  by ((rule returns_bind, rule in_check_new_auth [where b = True] returns_rules) | rule returns_pair returns_rules returns_Some returns_any |
      (simp; fail) | rule returns_fall)+

lemma inv_connect_proceed [inv_wp]:
  "in_check True s \<Longrightarrow> keeps srv_inv env \<Longrightarrow> (\<And>r s'. srv_inv s' \<Longrightarrow> Q (r, s')) \<Longrightarrow> returns Q (connect_proceed env pw uid n s)"
  unfolding connect_proceed_def
  by ((rule returns_bind, rule inv_wp returns_rules) | rule inv_wp returns_pair returns_rules returns_Some returns_any |
      (simp add: in_check_connecting; fail) | rule returns_fall)+

lemma inv_ConnectCommand [inv_wp]:
  "srv_inv s \<Longrightarrow> keeps srv_inv env \<Longrightarrow> (\<And>r s'. srv_inv s' \<Longrightarrow> Q (r, s')) \<Longrightarrow> returns Q (ConnectCommand env pkt s)"
  unfolding ConnectCommand_def
  by ((rule returns_bind, rule in_check_connect_fields [where b = False] in_check_ParseHeaderList [where b = False]
        in_check_connect_target in_check_connect_auth) | rule inv_wp returns_pair returns_rules returns_Some returns_any |
      (simp add: in_check_inv; fail) | (simp add: in_check_def; fail) | rule returns_fall)+

section \<open>Events\<close>

lemma inv_unfold_open: "srv_inv s \<Longrightarrow> s_conn s = Some c \<Longrightarrow> c_state c \<in> connected \<Longrightarrow> gated s"
  by (auto simp: srv_inv_def gated_def)

lemma inv_LowerWriteCfm [inv_wp]:
  assumes inv: "srv_inv s" and app: "keeps gated env" and Q: "\<And>s'. srv_inv s' \<Longrightarrow> Q s'"
  shows "returns Q (LowerWriteCfm env wm q r s)"
proof (rule inv_cases_state)
  fix c assume c: "s_conn s = Some c" and closed: "c_state c \<notin> connected"
  then have unchanged: "srv_inv (upd (\<lambda>c. c\<lparr>c_common := f (c_common c)\<rparr>) s)" "srv_inv (upd (\<lambda>c. c\<lparr>abortMbuf := None\<rparr>) s)" for f
    using inv by simp_all
  have world: "srv_inv (snd (disconnect env s')) = srv_inv s'" for s'
    by (simp add: disconnect_def split_beta)
  show "returns srv_inv (LowerWriteCfm env wm q r s)"
    unfolding LowerWriteCfm_def c option.case
    by (insert closed inv, unfold connected_def)
      ((simp; fail) | rule returns_rules returns_any returns_Some inv_drop_link | (simp add: world split: WRITTEN_MBUF.split; fail))+
qed (use inv Q app in \<open>auto intro: gated_LowerWriteCfm\<close>)

lemma inv_GetCommand [inv_wp]:
  assumes "srv_inv s" "\<And>c. s_conn s = Some c \<Longrightarrow> c_state c \<in> connected" "keeps gated env" "\<And>r s'. srv_inv s' \<Longrightarrow> Q (r, s')"
  shows "returns Q (GetCommand env pkt f s)"
proof (cases "s_conn s")
  case None
  then show ?thesis
    by (simp add: GetCommand_def get_start_def returns_None)
next
  case (Some c)
  then have "gated s"
    using assms inv_unfold_open by blast
  then show ?thesis
    by (rule gated_GetCommand) (use assms gated_inv in auto)
qed

text \<open>A GET request is expected in the states of the GET operations and when there is no operation.\<close>

definition get_states :: "CONNECTION_STATE set" where
  "get_states = {OBEX_CONNECTED, GET_IN_PROGRESS, GET_COMPLETING, BULK_GET_IN_PROGRESS, BULK_GET_COMPLETING, BULK_GET_FAILED}"

definition expected :: "bytes \<Rightarrow> 'w OBEX_SRV \<Rightarrow> bool" where
  "expected dataBuf s \<longleftrightarrow> (\<forall>c. s_conn s = Some c \<longrightarrow> dataBuf \<noteq> [] \<longrightarrow>
     OI_OBEX_FINAL (dataBuf ! 0) = OI_OBEX_FINAL OI_OBEX_CMD_GET \<longrightarrow>
     c_state c \<in> get_states \<union> {OBEX_DISCONNECTING, OBEX_DISCONNECT_COMPLETING})"

lemma first_byte:
  assumes "ByteStream_Init blank_stream 0 buf n = Some a" "ByteStream_Open a rw = Some b" "ByteStream_GetUINT8 b = Some (x, d)"
  shows "buf \<noteq> [] \<and> x = buf ! 0"
  using assms by (auto simp: ByteStream_Init_def ByteStream_Open_def ByteStream_GetUINT8_def monad_simps bs_peek_def take_Suc_conv_app_nth
      split: if_splits)

lemma inv_LowerRecvDataInd [inv_wp]:
  "srv_inv s \<Longrightarrow> keeps gated env \<Longrightarrow> keeps srv_inv env \<Longrightarrow> expected buf s \<Longrightarrow> (\<And>s'. srv_inv s' \<Longrightarrow> Q s') \<Longrightarrow>
     returns Q (LowerRecvDataInd env buf s)"
  unfolding LowerRecvDataInd_def Let_def
  by ((rule returns_bind, rule inv_wp returns_rules) | rule inv_wp returns_pair returns_rules returns_Some returns_any |
      (simp; fail) | (simp add: inv_SetState connected_def; fail) |
      (auto simp: expected_def get_states_def connected_def dest: first_byte; fail) | rule returns_fall)+

section \<open>Runs\<close>

text \<open>One event: a call of the application, something the lower layer reports, or a function that the
  dispatcher calls. A connection is made when there is none; the dispatcher's own steps change its
  state in any way.\<close>

inductive srv_step :: "'w SRV_ENV \<Rightarrow> 'w OBEX_SRV \<Rightarrow> 'w OBEX_SRV \<Rightarrow> bool" for env where
  step_api: "srv_api env s s' \<Longrightarrow> srv_step env s s'"
| step_dispatch: "srv_step env s (s\<lparr>s_disp := d\<rparr>)"
| step_connect_ind: "s_conn s = None \<Longrightarrow> LowerConnectInd env mem h addr s = Some s' \<Longrightarrow> srv_step env s s'"
| step_connect_cfm: "LowerConnectCfm env rmtu smtu r s = Some s' \<Longrightarrow> srv_step env s s'"
| step_recv: "expected buf s \<Longrightarrow> LowerRecvDataInd env buf s = Some s' \<Longrightarrow> srv_step env s s'"
| step_write_cfm: "LowerWriteCfm env wm q r s = Some s' \<Longrightarrow> srv_step env s s'"
| step_disconnect_ind: "LowerDisconnectInd env r s = Some s' \<Longrightarrow> srv_step env s s'"
| step_timeout: "ConnectTimeout env h s = Some s' \<Longrightarrow> srv_step env s s'"
| step_reindicate: "ReIndicateConnect env a s = Some s' \<Longrightarrow> srv_step env s s'"
| step_abort: "dispatchedAbortCommand env h s = Some s' \<Longrightarrow> srv_step env s s'"

inductive srv_run :: "'w SRV_ENV \<Rightarrow> 'w OBEX_SRV \<Rightarrow> 'w OBEX_SRV \<Rightarrow> bool" for env where
  run_start: "srv_run env s s"
| run_step: "srv_run env s s' \<Longrightarrow> srv_step env s' s'' \<Longrightarrow> srv_run env s s''"

lemma inv_LowerConnectCfm [inv_wp]:
  "srv_inv s \<Longrightarrow> (\<And>s'. srv_inv s' \<Longrightarrow> Q s') \<Longrightarrow> returns Q (LowerConnectCfm env rmtu smtu r s)"
  unfolding LowerConnectCfm_def
  by ((rule returns_bind, rule inv_wp returns_rules) | rule inv_wp returns_pair returns_rules returns_Some returns_any |
      (simp; fail) | (simp add: inv_SetState connected_def; fail) | rule returns_fall)+

lemma inv_LowerConnectInd [inv_wp]:
  "srv_inv s \<Longrightarrow> (\<And>s'. srv_inv s' \<Longrightarrow> Q s') \<Longrightarrow> returns Q (LowerConnectInd env mem h addr s)"
  unfolding LowerConnectInd_def
  by ((rule returns_rules returns_Some) | (simp; fail) | (simp add: srv_inv_def fresh_connection_def connected_def; fail))+

lemma inv_LowerDisconnectInd [inv_wp]: "(\<And>s'. srv_inv s' \<Longrightarrow> Q s') \<Longrightarrow> srv_inv s \<Longrightarrow> returns Q (LowerDisconnectInd env r s)"
  unfolding LowerDisconnectInd_def
  by (rule inv_wp returns_rules returns_Some | assumption | simp)+

lemma inv_ConnectTimeout [inv_wp]: "srv_inv s \<Longrightarrow> (\<And>s'. srv_inv s' \<Longrightarrow> Q s') \<Longrightarrow> returns Q (ConnectTimeout env h s)"
  unfolding ConnectTimeout_def
  by (rule returns_rules returns_any returns_Some | assumption | (drule inv_ForceDisconnect, simp, simp; fail))+

lemma inv_ReIndicateConnect [inv_wp]:
  "srv_inv s \<Longrightarrow> keeps srv_inv env \<Longrightarrow> (\<And>s'. srv_inv s' \<Longrightarrow> Q s') \<Longrightarrow> returns Q (ReIndicateConnect env a s)"
  unfolding ReIndicateConnect_def
  by (rule inv_wp returns_rules returns_any returns_Some | assumption | (simp; fail))+

lemma inv_dispatchedAbortCommand [inv_wp]:
  "srv_inv s \<Longrightarrow> keeps gated env \<Longrightarrow> (\<And>s'. srv_inv s' \<Longrightarrow> Q s') \<Longrightarrow> returns Q (dispatchedAbortCommand env h s)"
  unfolding dispatchedAbortCommand_def
  by (rule inv_wp returns_rules returns_any returns_Some | assumption | (simp; fail))+

lemma step_inv: "srv_step env s s' \<Longrightarrow> app_ok env \<Longrightarrow> srv_inv s \<Longrightarrow> srv_inv s'"
proof (induction rule: srv_step.induct)
  case (step_api s s')
  then show ?case
    using api_inv by blast
qed (simp | (erule returnsD [rotated], rule inv_wp, (assumption | (erule app_keeps) | simp)+; fail))+

lemma run_inv: "srv_run env s s' \<Longrightarrow> app_ok env \<Longrightarrow> srv_inv s \<Longrightarrow> srv_inv s'"
  by (induction rule: srv_run.induct) (simp_all add: step_inv)

end
