(* ===== verification/ObexSrvProps.thy ===== *)
theory ObexSrvProps
  imports ObexSrvGate
begin

unbundle bit_operations_syntax

text \<open>
  Properties of the OBEX server: the gate in every run and how a GET request out of order breaks it,
  what opens the gate, the one final answer of a request, and concrete runs on a small server.
\<close>

section \<open>A concrete server\<close>

text \<open>The world is the list of the packets written; the application's callbacks do nothing.\<close>

definition demo_env :: "bytes list SRV_ENV" where
  "demo_env = \<lparr>e_write = (\<lambda>w m early bulk. (OI_OK, False, w @ [mbuf_content m])), e_disconnect = (\<lambda>w. (OI_OK, w)),
     e_flowControl = (\<lambda>on w. w), e_accept = (\<lambda>ok w. (OI_OK, w)), e_l2cap = (\<lambda>w. True),
     e_app = (\<lambda>i ind s. Some (OI_OK, s)), e_mem = (\<lambda>call i. True), e_privateKey = Some [0x6B, 0],
     e_connectTimeout = 50, e_authTimeout = 100, e_maxPktLen = 1000, e_timestamp = replicate 8 1,
     e_md5ctx = demo_ctx, e_psize = 4\<rparr>"

definition demo_target :: "OI_OBEXSRV_AUTHENTICATION \<Rightarrow> OBEXSRV_TARGET_INFO" where
  "demo_target a = \<lparr>ti_target = (None, 0), ti_CBList = \<lparr>cb_id = 0, cb_names = {connectInd, disconnectInd, getInd, putInd}\<rparr>,
     ti_authRequired = a\<rparr>"

definition demo_srv :: "OI_OBEXSRV_AUTHENTICATION \<Rightarrow> bytes list OBEX_SRV" where
  "demo_srv a = \<lparr>s_conn = None, s_server = \<lparr>os_context = 0, os_handle = 1, os_targets = [demo_target a],
      os_srm = OI_OBEX_SRM_SUPPORTED, os_lowerProtocolList = [1]\<rparr>, s_linked = False,
     s_disp = snd (OI_Dispatch_Init 4 False \<lparr>Running = False, ImmediateDispatch = False, MaxUsedEntry = -1, numActiveEntries = 0,
        TableSize = 0, nextTimeout = 0, Table = None, serviceCallback = False, d_init = False, d_now = \<lparr>seconds = 0, mseconds = 0\<rparr>,
        d_requests = [], d_freed = [], d_calls = []\<rparr>),
     s_heap = (\<lambda>p. None), s_fresh = 1, s_calls = 0, s_initFlag = 1, s_world = []\<rparr>"

definition demo_linked :: "OI_OBEXSRV_AUTHENTICATION \<Rightarrow> bytes list OBEX_SRV option" where
  "demo_linked a = do {
     s \<leftarrow> LowerConnectInd demo_env (Some 1) 7 [] (demo_srv a);
     LowerConnectCfm demo_env 1000 1000 OI_OK s
   }"

definition demo_connected :: "OI_OBEXSRV_AUTHENTICATION \<Rightarrow> bytes list OBEX_SRV option" where
  "demo_connected a = do {
     s \<leftarrow> demo_linked a;
     s \<leftarrow> LowerRecvDataInd demo_env [0x80, 0, 7, 0x10, 0, 4, 0] s;
     (_, s) \<leftarrow> OI_OBEXSRV_AcceptConnect demo_env 7 True OI_OK None s;
     LowerWriteCfm demo_env WM_common False OI_OK s
   }"

text \<open>The equation of the partial function, for evaluation.\<close>

declare confirm_loop.simps [code]

section \<open>The gate\<close>

lemma demo_app: "app_ok demo_env"
  by (auto simp: app_ok_def demo_env_def intro: api_refl)

lemma demo_linked_run: "demo_linked a = Some s \<Longrightarrow> srv_run demo_env (demo_srv a) s"
  by (auto simp: demo_linked_def monad_simps demo_srv_def intro!: run_step [OF run_step [OF run_start step_connect_ind] step_connect_cfm])

lemma demo_connected_run:
  assumes "demo_connected a = Some s"
  shows "srv_run demo_env (demo_srv a) s"
proof -
  let ?buf = "[0x80, 0, 7, 0x10, 0, 4, 0] :: bytes"
  from assms obtain x y r z where steps: "demo_linked a = Some x" "LowerRecvDataInd demo_env ?buf x = Some y"
      "OI_OBEXSRV_AcceptConnect demo_env 7 True OI_OK None y = Some (r, z)" "LowerWriteCfm demo_env WM_common False OI_OK z = Some s"
    by (auto simp: demo_connected_def monad_simps)
  have "expected ?buf x"
    by (simp add: expected_def OI_OBEX_FINAL_def OI_OBEX_FINAL_BIT_def OI_OBEX_CMD_GET_def)
  with steps(2) have "srv_run demo_env (demo_srv a) y"
    by (intro run_step [OF demo_linked_run [OF steps(1)]] step_recv)
  then have "srv_run demo_env (demo_srv a) z"
    by (rule run_step) (rule step_api, rule api_accept, rule api_refl, rule steps(3))
  then show ?thesis
    by (rule run_step) (rule step_write_cfm, rule steps(4))
qed

text \<open>C1: In every state that a server reaches from one without a connection, with an application that only
  calls the functions of the server and a client that sends GET requests only where one is expected:
  a connection on which requests are carried out is authorized and has a target.\<close>

theorem requests_are_authorized:
  assumes "app_ok env" "srv_run env s s'" "s_conn s = None" "s_conn s' = Some c" "c_state c \<in> connected"
  shows "\<not> unauthorized c \<and> currentTarget c \<noteq> None"
proof -
  have "srv_inv s"
    using assms(3) by (simp add: srv_inv_def)
  from run_inv [OF assms(2,1) this] assms(4,5) show ?thesis
    by (simp add: srv_inv_def gate_def)
qed

lemma requests_are_authorized_witness:
  "\<exists>s c. srv_run demo_env (demo_srv OI_OBEXSRV_AUTH_NONE) s \<and> s_conn s = Some c \<and> c_state c = OBEX_CONNECTED \<and>
     \<not> unauthorized c \<and> currentTarget c \<noteq> None"
proof -
  have "case demo_connected OI_OBEXSRV_AUTH_NONE of None \<Rightarrow> False | Some s \<Rightarrow>
      map_option c_state (s_conn s) = Some OBEX_CONNECTED"
    by code_simp
  then obtain s c where s: "demo_connected OI_OBEXSRV_AUTH_NONE = Some s" "s_conn s = Some c" "c_state c = OBEX_CONNECTED"
    by (auto split: option.splits)
  have "\<not> unauthorized c \<and> currentTarget c \<noteq> None"
    by (rule requests_are_authorized [OF demo_app demo_connected_run [OF s(1)] _ s(2)])
      (simp_all add: demo_srv_def s(3) connected_def)
  with s demo_connected_run [OF s(1)] show ?thesis
    by blast
qed

section \<open>A GET request before the connection\<close>

text \<open>The packet of \<open>SendSimple\<close>, and what sending it does.\<close>

definition simple_packet :: "u8 \<Rightarrow> OI_MBUF" where
  "simple_packet opcode = MBUF ((zeroed_hdr 1)\<lparr>numBytes := 3\<rparr>) [CELL_INLINE 3 [opcode, 0, 3]]"

lemma wrap_simple: "OI_MBUF_Wrap True ok (Some [opcode, 0, 3]) 3 MBUF_COPY = Some (Some (simple_packet opcode))"
  by (simp add: OI_MBUF_Wrap_def OI_MBUF_Alloc_def InitCell_def MBUF_INLINE_BUF_SIZE_def read_ptr_def simple_packet_def)

lemma free_simple: "\<exists>x. OI_MBUF_Free (simple_packet opcode) = Some x"
  by (simp add: OI_MBUF_Free_def OI_MBUF_Clear_def simple_packet_def monad_simps)

lemma simple_packet_content [simp]: "mbuf_content (simple_packet opcode) = [opcode, 0, 3]"
  by (simp add: mbuf_content_def simple_packet_def zeroed_hdr_def)

lemma wrap_nothing: "OI_MBUF_Wrap False ok (Some [opcode, 0, 3]) 3 MBUF_COPY = Some None"
  by (simp add: OI_MBUF_Wrap_def OI_MBUF_Alloc_def)

lemma SendSimple_eq:
  assumes "s_conn s = Some c"
  shows "SendSimple env opcode s =
    (if e_mem env (s_calls s) 0
     then let (status, _, w) = e_write env (s_world s) (simple_packet opcode) True False
       in Some (status, s\<lparr>s_world := w, s_calls := Suc (s_calls s)\<rparr>)
     else Some (OI_STATUS_OUT_OF_MEMORY, s\<lparr>s_calls := Suc (s_calls s)\<rparr>))"
proof (cases "e_mem env (s_calls s) 0")
  case True
  obtain x where "OI_MBUF_Free (simple_packet opcode) = Some x"
    using free_simple by blast
  with True assms show ?thesis
    by (simp add: SendSimple_def OI_OBEXCOMMON_SendSimple_def wrap_simple monad_simps split_beta Let_def)
next
  case False
  with assms show ?thesis
    by (simp add: SendSimple_def OI_OBEXCOMMON_SendSimple_def wrap_nothing monad_simps)
qed

lemma conn_simps [simp]:
  "s_conn (SetState st s) = map_option (\<lambda>c. c\<lparr>c_state := st\<rparr>) (s_conn s)"
  "s_conn (srm_off s) = map_option (\<lambda>c. c\<lparr>c_common := (c_common c)\<lparr>srm := c_srm c AND NOT OI_OBEX_SRM_ENABLED\<rparr>\<rparr>) (s_conn s)"
  by (simp_all add: SetState_def srm_off_def set_srm_def)

lemma ErrorResponse_keeps:
  assumes "s_conn s = Some c"
  shows "\<exists>s'. ErrorResponse env st s = Some s' \<and>
    s_conn s' = Some (c\<lparr>c_common := (c_common c)\<lparr>srm := c_srm c AND NOT OI_OBEX_SRM_ENABLED\<rparr>\<rparr>)"
proof -
  have "s_conn (srm_off s) = Some (c\<lparr>c_common := (c_common c)\<lparr>srm := c_srm c AND NOT OI_OBEX_SRM_ENABLED\<rparr>\<rparr>)"
    by (simp add: srm_off_def set_srm_def assms)
  then show ?thesis
    by (simp add: ErrorResponse_def SendSimple_eq monad_simps split_beta Let_def)
qed

definition out_of_order :: "OBEXSRV_CONNECTION \<Rightarrow> bool" where
  "out_of_order c \<longleftrightarrow> c_state c \<in> {LOWER_LAYER_CONNECTED, OBEX_CONNECTING, PUT_IN_PROGRESS, SETTING_PATH, DO_ACTION}"

text \<open>C5: A GET request that comes when none is expected is refused, but the refusal leaves the connection
  \<open>OBEX_CONNECTED\<close>: without a CONNECT request, with whatever authorization and target it had and with
  the connect timer running, whose function then fails its assertion.\<close>

theorem get_out_of_order_connects:
  assumes "s_conn s = Some c" "out_of_order c"
  shows "\<exists>s' c'. GetCommand env pkt final s = Some (OI_OBEX_OPERATION_IN_PROGRESS, s') \<and>
    s_conn s' = Some c' \<and> c_state c' = OBEX_CONNECTED \<and> unauthorized c' = unauthorized c \<and>
    currentTarget c' = currentTarget c \<and> connectTimeout c' = connectTimeout c \<and>
    ConnectTimeout env (connectionHandle c) s' = None"
proof -
  let ?s = "SetState OBEX_CONNECTED (srm_off (upd (\<lambda>c. c\<lparr>bg_busy := False\<rparr>) s))"
  obtain d where d: "s_conn ?s = Some d" "c_state d = OBEX_CONNECTED" "unauthorized d = unauthorized c"
      "currentTarget d = currentTarget c" "connectTimeout d = connectTimeout c" "connectionHandle d = connectionHandle c"
    by (simp add: assms(1))
  obtain s' where s': "ErrorResponse env OI_OBEX_OPERATION_IN_PROGRESS ?s = Some s'"
      "s_conn s' = Some (d\<lparr>c_common := (c_common d)\<lparr>srm := c_srm d AND NOT OI_OBEX_SRM_ENABLED\<rparr>\<rparr>)"
    using ErrorResponse_keeps [OF d(1)] by blast
  have "GetCommand env pkt final s = GetCommandError env OI_OBEX_OPERATION_IN_PROGRESS (upd (\<lambda>c. c\<lparr>bg_busy := False\<rparr>) s)"
    using assms by (auto simp: GetCommand_def get_start_def out_of_order_def monad_simps OI_SUCCESS_def)
  also have "\<dots> = Some (OI_OBEX_OPERATION_IN_PROGRESS, s')"
    using assms s'(1) by (auto simp: GetCommandError_def out_of_order_def monad_simps OI_SUCCESS_def OI_ASSERT_def)
  finally have "GetCommand env pkt final s = Some (OI_OBEX_OPERATION_IN_PROGRESS, s')" .
  moreover have "ConnectTimeout env (connectionHandle c) s' = None"
    using s'(2) d(2-) by (simp add: ConnectTimeout_def LookupConnection_def OI_ASSERT_def)
  ultimately show ?thesis
    using s'(2) d(2-) by (intro exI [of _ s']
      exI [of _ "d\<lparr>c_common := (c_common d)\<lparr>srm := c_srm d AND NOT OI_OBEX_SRM_ENABLED\<rparr>\<rparr>"]) simp
qed

lemma get_out_of_order_connects_witness:
  "\<exists>s s' c'. srv_run demo_env (demo_srv OI_OBEXSRV_AUTH_PASSWORD) s \<and>
     GetCommand demo_env blank_stream True s = Some (OI_OBEX_OPERATION_IN_PROGRESS, s') \<and>
     s_conn s' = Some c' \<and> c_state c' = OBEX_CONNECTED \<and> currentTarget c' = None \<and> ConnectTimeout demo_env 7 s' = None"
proof -
  have "case demo_linked OI_OBEXSRV_AUTH_PASSWORD of None \<Rightarrow> False | Some s \<Rightarrow>
      (case s_conn s of None \<Rightarrow> False
       | Some c \<Rightarrow> c_state c = LOWER_LAYER_CONNECTED \<and> currentTarget c = None \<and> connectionHandle c = 7)"
    by code_simp
  then obtain s c where s: "demo_linked OI_OBEXSRV_AUTH_PASSWORD = Some s" "s_conn s = Some c"
      "c_state c = LOWER_LAYER_CONNECTED" "currentTarget c = None" "connectionHandle c = 7"
    by (auto split: option.splits)
  have "out_of_order c"
    by (simp add: out_of_order_def s(3))
  from get_out_of_order_connects [OF s(2) this, of demo_env blank_stream True] s(4,5) demo_linked_run [OF s(1)] show ?thesis
    by metis
qed

section \<open>Authentication opens the gate\<close>

definition pw_bytes :: "bytes option \<Rightarrow> bytes" where
  "pw_bytes pw = (case pw of None \<Rightarrow> [0] | Some p \<Rightarrow> p)"

definition shut :: "'w OBEX_SRV \<Rightarrow> bool" where
  "shut s \<longleftrightarrow> (\<exists>c. s_conn s = Some c \<and> unauthorized c)"

lemma shut_upd [simp]: "(\<And>c. unauthorized (f c) = unauthorized c) \<Longrightarrow> shut (upd f s) = shut s"
  by (auto simp: shut_def)

lemma shut_simps [simp]: "shut (SetState st s) = shut s" "shut (put_auth a s) = shut s"
  by (simp_all add: SetState_def put_auth_def)

lemma shut_acceptConnect:
  assumes "shut s" "\<And>r s'. shut s' \<Longrightarrow> Q (r, s')"
  shows "returns Q (acceptConnect env h realm accept st hs s)"
proof -
  obtain c where c: "s_conn s = Some c" "unauthorized c"
    using assms(1) by (auto simp: shut_def)
  have like: "like (c_state c, True, currentTarget c) s"
    using like_self [OF c(1)] c(2) by simp
  show ?thesis
    by (cases accept; simp only: simp_thms; rule like_challenge [OF like] like_refuse [OF like])
      (auto intro!: assms simp: like_def shut_def)
qed

lemma shut_AcceptConnect:
  assumes "shut s" "\<And>r s'. shut s' \<Longrightarrow> Q (r, s')"
  shows "returns Q (OI_OBEXSRV_AcceptConnect env h accept status hs s)"
  unfolding OI_OBEXSRV_AcceptConnect_def
  by (insert assms) (rule returns_rules returns_Some shut_acceptConnect | assumption | (simp; fail))+

text \<open>C2: While a connection waits for the application's password, the answer ends its \<open>unauthorized\<close> mark
  exactly if the password could be saved and the response of the client verifies against it.\<close>
theorem AuthenticationResponse_verifies:
  assumes "s_initFlag s \<noteq> 0" "LookupConnection h s = Some c" "c_state c = OBEX_CONNECTING" "unauthorized c"
    and "auth_part (c\<lparr>c_readOnly := ro\<rparr>) = Some a" "OI_OBEXAUTH_SaveAuthInfo a uid n (pw_bytes pw) = Some (st, a')"
    and result: "OI_OBEXSRV_AuthenticationResponse env h uid n pw ro s = Some (r, s')" and "s_conn s' = Some c'"
  shows "\<not> unauthorized c' \<longleftrightarrow> OI_SUCCESS st \<and>
    OI_OBEXAUTH_Authenticate OI_LITTLE_ENDIAN_BYTE_ORDER (e_psize env) (e_md5ctx env) a' = Some OI_OK"
proof (cases "OI_SUCCESS st \<and> OI_OBEXAUTH_Authenticate OI_LITTLE_ENDIAN_BYTE_ORDER (e_psize env) (e_md5ctx env) a' = Some OI_OK")
  case True
  with assms show ?thesis
    by (auto simp: OI_OBEXSRV_AuthenticationResponse_def pw_bytes_def monad_simps reindicate_def put_auth_def LookupConnection_def
        split: if_splits option.splits)
next
  case False
  have shut: "shut (put_auth a' s)"
    using assms(2,4) by (auto simp: LookupConnection_def shut_def put_auth_def split: option.splits if_splits)
  have "returns (\<lambda>(r, s'). shut s') (OI_OBEXSRV_AuthenticationResponse env h uid n pw ro s)"
    unfolding OI_OBEXSRV_AuthenticationResponse_def assms(2) option.case assms(5) Option.bind.bind_lunit pw_bytes_def [symmetric] assms(6) prod.case Let_def
    by (insert shut assms(1,3,4) False)
       ((rule returns_bind, rule shut_AcceptConnect shut_acceptConnect returns_rules) | rule shut_AcceptConnect shut_acceptConnect returns_pair returns_rules returns_Some returns_any |
        (simp; fail))+
  from returnsD [OF this result] assms(8) False show ?thesis
    by (auto simp: shut_def)
qed

text \<open>A server that waits for the password \<open>s3\<close>; the client's digest is \<open>d\<close>.\<close>

definition demo_waiting :: "bytes \<Rightarrow> bytes list OBEX_SRV" where
  "demo_waiting d = (demo_srv OI_OBEXSRV_AUTH_PASSWORD)\<lparr>s_conn := Some ((fresh_connection demo_env 1 7 0 [])
     \<lparr>c_state := OBEX_CONNECTING, unauthorized := True, currentTarget := Some (demo_target OI_OBEXSRV_AUTH_PASSWORD),
      c_authentication := Some ((authentication demo_peer)\<lparr>responseDigest := d\<rparr>)\<rparr>)\<rparr>"

lemma demo_reindicate: "\<exists>y. OI_Dispatch_RegisterFunc True (Some F_ReIndicateConnect) (Some (SetUINT32_LittleEndian (1 :: u32)))
     (s_disp (demo_srv a)) = Some y"
proof -
  have "OI_Dispatch_RegisterFunc True (Some F_ReIndicateConnect) (Some (SetUINT32_LittleEndian (1 :: u32)))
     (s_disp (demo_srv OI_OBEXSRV_AUTH_NONE)) \<noteq> None"
    by code_simp
  then show ?thesis
    by (simp add: demo_srv_def)
qed

lemma AuthenticationResponse_verifies_witness:
  "\<exists>d r s' c'. OI_OBEXSRV_AuthenticationResponse demo_env 7 None 0 (Some [0x73, 0x33, 0]) False (demo_waiting d) = Some (r, s') \<and>
     s_conn s' = Some c' \<and> \<not> unauthorized c'"
proof -
  let ?pw = "[0x73, 0x33, 0, 0, 0, 0, 0, 0, 0, 0, 0, 0, 0, 0, 0, 0] :: bytes"
  define chunks where "chunks = [(drop 2 (challengeHeader zeroed_auth), ucast OI_OBEX_AUTH_DIGEST_LEN :: u16), ([0x3A], 1), (?pw, 2)]"
  have "readable chunks"
    by (simp add: chunks_def readable_def zeroed_auth_def OI_OBEX_AUTH_DIGEST_LEN_def)
  then obtain d where d: "md5_run OI_LITTLE_ENDIAN_BYTE_ORDER 4 demo_ctx chunks = Some d"
    using md5_run_ok demo_peer_ok(2) by blast
  let ?c = "the (s_conn (demo_waiting d))"
  let ?a = "\<lparr>readOnly = False, authentication = (authentication demo_peer)\<lparr>responseDigest := d\<rparr>\<rparr>"
  have save: "OI_OBEXAUTH_SaveAuthInfo ?a None 0 (pw_bytes (Some [0x73, 0x33, 0])) = Some (OI_OK, ?a)"
    by (simp add: OI_OBEXAUTH_SaveAuthInfo_def pw_bytes_def OI_StrLen_def demo_peer_def zeroed_auth_def mem_copy_def
        OI_OBEX_MAX_PASSWORD_LEN_def OI_OBEX_MAX_USERID_LEN_def overwrite_def monad_simps)
  have verified: "OI_OBEXAUTH_Authenticate OI_LITTLE_ENDIAN_BYTE_ORDER (e_psize demo_env) (e_md5ctx demo_env) ?a = Some OI_OK"
    using d by (simp add: OI_OBEXAUTH_Authenticate_def demo_env_def demo_peer_def chunks_def monad_simps Let_def zeroed_auth_def)
  have waiting: "LookupConnection 7 (demo_waiting d) = Some ?c" "c_state ?c = OBEX_CONNECTING" "unauthorized ?c"
      "auth_part (?c\<lparr>c_readOnly := False\<rparr>) = Some ?a" "s_initFlag (demo_waiting d) \<noteq> 0"
    by (simp_all add: demo_waiting_def LookupConnection_def fresh_connection_def auth_part_def demo_srv_def)
  obtain y where "OI_Dispatch_RegisterFunc True (Some F_ReIndicateConnect) (Some (SetUINT32_LittleEndian (1 :: u32)))
     (s_disp (demo_srv OI_OBEXSRV_AUTH_PASSWORD)) = Some y"
    using demo_reindicate by blast
  then obtain r s' c' where result: "OI_OBEXSRV_AuthenticationResponse demo_env 7 None 0 (Some [0x73, 0x33, 0]) False (demo_waiting d) = Some (r, s')"
      "s_conn s' = Some c'"
    using waiting save verified
    by (auto simp: OI_OBEXSRV_AuthenticationResponse_def pw_bytes_def reindicate_def put_auth_def monad_simps demo_waiting_def
        fresh_connection_def split_beta)
  have "\<not> unauthorized c'"
    using AuthenticationResponse_verifies [OF waiting(5,1-4) save result] verified by (simp add: OI_SUCCESS_def)
  with result show ?thesis
    by blast
qed

section \<open>One final answer\<close>

definition in_state :: "CONNECTION_STATE set \<Rightarrow> 'w OBEX_SRV \<Rightarrow> bool" where
  "in_state S s \<longleftrightarrow> (\<exists>c. s_conn s = Some c \<and> c_state c \<in> S)"

lemma in_state_like: "in_state S s \<Longrightarrow> \<exists>st u t. st \<in> S \<and> like (st, u, t) s"
  by (auto simp: in_state_def like_def)

lemma like_in_state: "like (st, u, t) s \<Longrightarrow> st \<in> S \<Longrightarrow> in_state S s"
  by (auto simp: in_state_def like_def)

lemma in_state_SetState: "in_state S s \<Longrightarrow> st \<in> S' \<Longrightarrow> in_state S' (SetState st s)"
  by (auto simp: in_state_def SetState_def)

lemma in_state_upd [simp]: "(\<And>c. c_state (f c) = c_state c) \<Longrightarrow> in_state S (upd f s) = in_state S s"
  by (auto simp: in_state_def)

lemma in_state_simps [simp]: "in_state S (set_srm f s) = in_state S s" "in_state S (srm_off s) = in_state S s"
    "in_state S (flow env b s) = in_state S s"
  by (simp_all add: set_srm_def srm_off_def flow_def) (simp add: in_state_def)

named_theorems state_wp \<open>functions of the server that keep the state of the connection\<close>

lemma in_state_sends [state_wp]:
  assumes "in_state S s" "\<And>r s'. in_state S s' \<Longrightarrow> Q (r, s')"
  shows "returns Q (SendSimple env op s)"
    and "returns Q (send_packet env op xs hs hl s)"
    and "returns Q (sendSimpleWithHeaders env op hl s)"
proof -
  obtain st u t where like: "st \<in> S" "like (st, u, t) s"
    using in_state_like [OF assms(1)] by blast
  show "returns Q (SendSimple env op s)"
    by (rule like_SendSimple [OF like(2)]) (use assms(2) like_in_state like(1) in blast)
  show "returns Q (send_packet env op xs hs hl s)"
    by (rule like_send_packet [OF like(2)]) (use assms(2) like_in_state like(1) in blast)
  show "returns Q (sendSimpleWithHeaders env op hl s)"
    by (rule like_sendSimpleWithHeaders [OF like(2)]) (use assms(2) like_in_state like(1) in blast)
qed

lemma in_state_ErrorResponse [state_wp]:
  "in_state S s \<Longrightarrow> (\<And>s'. in_state S s' \<Longrightarrow> Q s') \<Longrightarrow> returns Q (ErrorResponse env st s)"
  unfolding ErrorResponse_def
  by ((rule returns_bind, rule state_wp) | rule returns_pair returns_Some | (simp; fail) | assumption)+

lemma in_state_GetResponseError [state_wp]:
  "in_state S s \<Longrightarrow> OBEX_CONNECTED \<in> S' \<Longrightarrow> (\<And>r s'. in_state S' s' \<Longrightarrow> Q (r, s')) \<Longrightarrow> returns Q (GetResponseError env a b s)"
  unfolding GetResponseError_def
  by ((rule returns_bind, rule in_state_ErrorResponse [where S = S']) | rule returns_pair returns_Some in_state_SetState | (simp; fail) | assumption)+

lemma in_state_srm_accept [state_wp]:
  "in_state S s \<Longrightarrow> (\<And>r s'. in_state S s' \<Longrightarrow> Q (r, s')) \<Longrightarrow> returns Q (srm_accept s)"
  unfolding srm_accept_def by (rule returns_any returns_Some returns_rules | simp split: if_split)+

lemma in_state_ResponseRequired [state_wp]:
  "in_state S s \<Longrightarrow> (\<And>r s'. in_state S s' \<Longrightarrow> Q (r, s')) \<Longrightarrow> returns Q (ResponseRequired s)"
  unfolding ResponseRequired_def Let_def by (rule returns_any returns_Some | simp split: if_split)+

definition answered :: "CONNECTION_STATE set" where
  "answered = {GET_COMPLETING, PUT_COMPLETING, OBEX_CONNECTED}"

text \<open>The request that is in progress.\<close>

definition answering :: "CONNECTION_STATE \<Rightarrow> u32 \<Rightarrow> 'w OBEX_SRV \<Rightarrow> bool" where
  "answering st h s \<longleftrightarrow> map_option c_state (LookupConnection h s) = Some st"

lemma answering_in_state: "answering st h s \<Longrightarrow> in_state {st} s"
  by (auto simp: answering_def in_state_def LookupConnection_def split: option.splits if_splits)

lemma answered_SetState: "in_state S s \<Longrightarrow> st \<in> {GET_COMPLETING, PUT_COMPLETING, OBEX_CONNECTED} \<Longrightarrow> in_state answered (SetState st s)"
  by (rule in_state_SetState) (simp_all add: answered_def)

lemma answered_GetResponseError [state_wp]:
  "in_state S s \<Longrightarrow> (\<And>r s'. in_state answered s' \<Longrightarrow> Q (r, s')) \<Longrightarrow> returns Q (GetResponseError env a b s)"
  by (erule in_state_GetResponseError [where S' = answered]) (simp_all add: answered_def)

lemma answered_Setpath: "in_state S s \<Longrightarrow> LookupConnection h s = Some c \<Longrightarrow> c_state c = SETTING_PATH \<Longrightarrow>
    returns (\<lambda>(r, s'). in_state answered s') (OI_OBEXSRV_ConfirmSetpath env h st hs s)"
  unfolding OI_OBEXSRV_ConfirmSetpath_def
  by ((simp; fail) | (rule returns_bind, rule in_state_ErrorResponse) | rule in_state_sends returns_pair returns_rules returns_Some |
    (simp add: answered_SetState; fail) | (rule answered_SetState, assumption))+

lemma answered_Action: "in_state S s \<Longrightarrow> LookupConnection h s = Some c \<Longrightarrow> c_state c = DO_ACTION \<Longrightarrow>
    returns (\<lambda>(r, s'). in_state answered s') (OI_OBEXSRV_ActionResponse env h st hs s)"
  unfolding OI_OBEXSRV_ActionResponse_def
  by ((simp; fail) | (rule returns_bind, rule in_state_sends [where S = S]) | rule answered_GetResponseError returns_pair returns_rules returns_Some |
    (simp add: answered_SetState; fail))+

lemma answered_Get: "in_state S s \<Longrightarrow> LookupConnection h s = Some c \<Longrightarrow> c_state c = GET_IN_PROGRESS \<Longrightarrow> st \<noteq> OI_OBEX_CONTINUE \<Longrightarrow>
    returns (\<lambda>(r, s'). in_state answered s') (OI_OBEXSRV_GetResponse env h hs st s)"
  unfolding OI_OBEXSRV_GetResponse_def
  by ((simp; fail) | (rule returns_bind, rule in_state_srm_accept [where S = answered] in_state_sends [where S = answered]) |
    rule answered_GetResponseError returns_pair returns_rules returns_Some returns_any |
    (simp add: answered_SetState; fail))+

lemma answered_Put: "in_state S s \<Longrightarrow> LookupConnection h s = Some c \<Longrightarrow> c_state c = PUT_IN_PROGRESS \<Longrightarrow> st \<noteq> OI_OBEX_CONTINUE \<Longrightarrow>
    returns (\<lambda>(r, s'). in_state answered s') (OI_OBEXSRV_PutResponse env h hs st s)"
  unfolding OI_OBEXSRV_PutResponse_def
  by ((simp; fail) | (rule returns_bind, rule in_state_ResponseRequired [where S = answered] in_state_srm_accept [where S = answered] in_state_sends [where S = answered] returns_rules) |
    rule in_state_sends answered_GetResponseError returns_pair returns_rules returns_Some returns_any |
    (simp add: answered_SetState; fail))+

lemma in_state_SendBulk [state_wp]:
  assumes "in_state S s" "\<And>r b s'. in_state S s' \<Longrightarrow> Q (r, b, s')"
  shows "returns Q (SendBulk env busy s)"
  unfolding SendBulk_def Let_def
  by (rule returns_any returns_Some assms(2) | (use assms(1) in \<open>auto simp: in_state_def\<close>; fail))+

lemma in_state_AppendBulkData [state_wp]:
  assumes "in_state S s" "\<And>s'. in_state S s' \<Longrightarrow> Q s'"
  shows "returns Q (AppendBulkData p q s)"
proof -
  have "in_state S s'" if "AppendBulkData p q s = Some s'" for s'
    using that assms(1) by (auto simp: AppendBulkData_def monad_simps in_state_def split: if_splits)
  with assms(2) show ?thesis
    by (simp add: returns_def)
qed

lemma in_state_FreeBulk [state_wp]:
  assumes "in_state S s" "\<And>s'. in_state S s' \<Longrightarrow> Q s'"
  shows "returns Q (OI_OBEXCOMMON_FreeBulkData p s)"
  unfolding OI_OBEXCOMMON_FreeBulkData_def
  by (rule returns_any returns_Some assms(2) | (use assms(1) in \<open>auto simp: in_state_def\<close>; fail))+

definition bulk_answered :: "CONNECTION_STATE set" where
  "bulk_answered = {BULK_GET_COMPLETING, BULK_GET_FAILED, OBEX_CONNECTED, OBEX_DISCONNECT_COMPLETING}"

lemma bulk_answered_ForceDisconnect:
  "OI_OBEXSRV_ForceDisconnect env h s = (r, s') \<Longrightarrow> in_state bulk_answered s \<Longrightarrow> in_state bulk_answered s'"
  by (auto simp: OI_OBEXSRV_ForceDisconnect_def disconnect_def SetState_def in_state_def bulk_answered_def split: option.splits if_splits prod.splits)

lemma bulk_answered_error [state_wp]:
  assumes "in_state S s" "\<And>r s'. in_state bulk_answered s' \<Longrightarrow> Q (r, s')"
  shows "returns Q (BulkGetResponseError env st s)"
proof -
  have state: "in_state bulk_answered (SetState BULK_GET_FAILED s)" "in_state bulk_answered (SetState OBEX_CONNECTED (srm_off (SetState BULK_GET_FAILED s)))"
    using assms(1) by (simp_all add: in_state_SetState [where S = S] in_state_SetState [where S = bulk_answered] bulk_answered_def)
  show ?thesis
    unfolding BulkGetResponseError_def Let_def
    by ((rule returns_bind, rule in_state_ErrorResponse [where S = bulk_answered] returns_rules)
        | rule returns_any returns_rules returns_Some assms(2) in_state_ErrorResponse [where S = bulk_answered] | (use state in simp; fail) | assumption)+
qed

lemma AllocBulk_state: "AllocBulk env bufs s = (r, p, q, s') \<Longrightarrow> in_state S s' = in_state S s"
  by (auto simp: AllocBulk_def in_state_def Let_def split: prod.splits)

text \<open>A bulk GET takes one final answer: with data, or with an error.\<close>

definition takes_bulk :: "'w OBEX_SRV \<Rightarrow> 'a list \<Rightarrow> OI_STATUS \<Rightarrow> bool" where
  "takes_bulk s bufs status \<longleftrightarrow> (bufs \<noteq> [] \<or> \<not> OI_SUCCESS status) \<and>
     (case s_conn s of None \<Rightarrow> False | Some c \<Rightarrow> \<not> abortPending c \<and>
        (bg_tail c = 0 \<or> map_option (\<lambda>n. bd_final (bn_block n)) (s_heap s (bg_tail c)) = Some False))"

lemma answered_Bulk:
  assumes "in_state S s" "LookupConnection h s = Some c" "c_state c = BULK_GET_IN_PROGRESS" "takes_bulk s bufs st" "st \<noteq> OI_OBEX_CONTINUE"
  shows "returns (\<lambda>(r, s'). in_state bulk_answered s') (OI_OBEXSRV_BulkGetResponse env h bufs st s)"
proof -
  have c: "s_conn s = Some c"
    using assms(2) by (auto simp: LookupConnection_def split: option.splits if_splits)
  with assms(4) have tail: "(if bg_tail c \<noteq> 0 then map_option (\<lambda>n. bd_final (bn_block n)) (s_heap s (bg_tail c)) else Some False) = Some False"
    and "\<not> abortPending c" "bufs \<noteq> [] \<or> \<not> OI_SUCCESS st"
    by (auto simp: takes_bulk_def)
  obtain r p q s' where alloc: "AllocBulk env bufs s = (r, p, q, s')"
    by (cases "AllocBulk env bufs s")
  have s': "in_state S s'"
    using AllocBulk_state [OF alloc] assms(1) by simp
  have completing: "in_state bulk_answered (SetState BULK_GET_COMPLETING (s'\<lparr>s_heap := hp\<rparr>))" for hp
    using s' by (auto simp: in_state_def bulk_answered_def SetState_def)
  note wp = in_state_SendBulk [where S = bulk_answered] in_state_AppendBulkData [where S = bulk_answered]
    in_state_FreeBulk [where S = bulk_answered] bulk_answered_error [where S = bulk_answered]
  show ?thesis
    using assms(3,5) \<open>\<not> abortPending c\<close> \<open>bufs \<noteq> [] \<or> _\<close>
    unfolding OI_OBEXSRV_BulkGetResponse_def assms(2) option.case tail alloc Let_def prod.case Option.bind.bind_lunit
    by (simp only: if_True if_False CONNECTION_STATE.distinct simp_thms)
      (rule returns_if | rule bulk_answered_error [OF assms(1)] bulk_answered_error [OF s']
        | (rule returns_bind, rule wp) | rule wp returns_pair returns_rules returns_Some returns_any
        | (simp add: completing; fail) | (drule bulk_answered_ForceDisconnect, (simp; fail), (simp; fail)))+
qed

text \<open>A final answer of the application to the request that is in progress.\<close>

definition final_answer ::
    "'w SRV_ENV \<Rightarrow> u32 \<Rightarrow> OI_OBEX_HEADER list option \<Rightarrow> (bytes option \<times> u32) list \<Rightarrow> OI_STATUS \<Rightarrow> 'w OBEX_SRV \<Rightarrow>
       (OI_STATUS \<times> 'w OBEX_SRV) option" where
  "final_answer env h hs bufs status s =
     (if answering SETTING_PATH h s then OI_OBEXSRV_ConfirmSetpath env h status hs s
      else if answering DO_ACTION h s then OI_OBEXSRV_ActionResponse env h status hs s
      else if status = OI_OBEX_CONTINUE then None
      else if answering GET_IN_PROGRESS h s then OI_OBEXSRV_GetResponse env h hs status s
      else if answering PUT_IN_PROGRESS h s then OI_OBEXSRV_PutResponse env h hs status s
      else if answering BULK_GET_IN_PROGRESS h s \<and> takes_bulk s bufs status then OI_OBEXSRV_BulkGetResponse env h bufs status s
      else None)"

lemma final_answer_state:
  assumes "final_answer env h hs bufs status s = Some (r, s')"
  shows "in_state (answered \<union> bulk_answered) s'"
proof -
  have found: "in_state {st} s \<and> (\<exists>c. LookupConnection h s = Some c \<and> c_state c = st)" if "answering st h s" for st
    using that answering_in_state [OF that] by (auto simp: answering_def)
  have weak: "returns (\<lambda>(r, s'). in_state (answered \<union> bulk_answered) s') m"
    if "returns (\<lambda>(r, s'). in_state S s') m" "S \<subseteq> answered \<union> bulk_answered" for S and m :: "(OI_STATUS \<times> 'a OBEX_SRV) option"
    using that by (fastforce simp: returns_def in_state_def)
  have "returns (\<lambda>(r, s'). in_state (answered \<union> bulk_answered) s') (final_answer env h hs bufs status s)"
    unfolding final_answer_def
    by (rule returns_rules | (drule found, elim conjE exE, rule weak, rule answered_Setpath answered_Action answered_Get answered_Put, assumption+, blast)
        | (elim conjE, drule found, elim conjE exE, rule weak, rule answered_Bulk, assumption+, blast))+
  from returnsD [OF this assms] show ?thesis
    by simp
qed

definition refused :: "(OI_STATUS \<times> 'w OBEX_SRV) option \<Rightarrow> 'w OBEX_SRV \<Rightarrow> bool" where
  "refused m s \<longleftrightarrow> (\<exists>e. m = Some (e, s) \<and> \<not> OI_SUCCESS e)"

text \<open>C6: A request gets one final answer, by whichever function, bulk transfers included: once the application
  has given it, every further answer gives an error and changes nothing. The exception is a bulk answer without
  buffers while the last bulk data are on their way: it is taken to be the end of the transfer, gives \<open>OI_OK\<close>, and
  changes nothing either.\<close>

theorem one_final_answer:
  assumes "final_answer env h hs bufs status s = Some (r, s')"
  shows "refused (OI_OBEXSRV_GetResponse env h' hs' st s') s' \<and> refused (OI_OBEXSRV_PutResponse env h' hs' st s') s' \<and>
    refused (OI_OBEXSRV_ActionResponse env h' st hs' s') s' \<and> refused (OI_OBEXSRV_ConfirmSetpath env h' st hs' s') s' \<and>
    (if answering BULK_GET_COMPLETING h' s' \<and> bufs' = [] then OI_OBEXSRV_BulkGetResponse env h' bufs' st s' = Some (OI_OK, s')
     else refused (OI_OBEXSRV_BulkGetResponse env h' bufs' st s') s')"
proof -
  obtain c where c: "s_conn s' = Some c" "c_state c \<in> answered \<union> bulk_answered"
    using final_answer_state [OF assms] by (auto simp: in_state_def)
  note defs = LookupConnection_def answered_def bulk_answered_def refused_def OI_SUCCESS_def answering_def
  have "refused (OI_OBEXSRV_GetResponse env h' hs' st s') s'" "refused (OI_OBEXSRV_PutResponse env h' hs' st s') s'"
    using c by (auto simp: OI_OBEXSRV_GetResponse_def OI_OBEXSRV_PutResponse_def defs)
  moreover have "refused (OI_OBEXSRV_ActionResponse env h' st hs' s') s'" "refused (OI_OBEXSRV_ConfirmSetpath env h' st hs' s') s'"
    using c by (auto simp: OI_OBEXSRV_ActionResponse_def OI_OBEXSRV_ConfirmSetpath_def defs)
  moreover have "if answering BULK_GET_COMPLETING h' s' \<and> bufs' = [] then OI_OBEXSRV_BulkGetResponse env h' bufs' st s' = Some (OI_OK, s')
     else refused (OI_OBEXSRV_BulkGetResponse env h' bufs' st s') s'"
    using c by (auto simp: OI_OBEXSRV_BulkGetResponse_def defs)
  ultimately show ?thesis
    by blast
qed

text \<open>The server that is connected without authentication gets a GET request for a name.\<close>

definition demo_get :: "bytes list OBEX_SRV option" where
  "demo_get = do {
     s \<leftarrow> demo_connected OI_OBEXSRV_AUTH_NONE;
     LowerRecvDataInd demo_env [0x83, 0, 12, 0x01, 0, 5, 0, 0, 0x97, 1, 0x98, 2] s
   }"

lemma one_final_answer_witness:
  "\<exists>s s'. demo_get = Some s \<and> final_answer demo_env 7 None [] OI_OBEX_NOT_FOUND s = Some (OI_OK, s') \<and>
     refused (OI_OBEXSRV_GetResponse demo_env 7 (Some []) OI_OK s') s'"
proof -
  have "case demo_get of None \<Rightarrow> False | Some s \<Rightarrow> map_option fst (final_answer demo_env 7 None [] OI_OBEX_NOT_FOUND s) = Some OI_OK"
    by code_simp
  then obtain s s' where s: "demo_get = Some s" "final_answer demo_env 7 None [] OI_OBEX_NOT_FOUND s = Some (OI_OK, s')"
    by (auto split: option.splits)
  from one_final_answer [OF s(2)] s show ?thesis
    by blast
qed

section \<open>What the runs show\<close>

text \<open>The single response parameter of a GET request is kept. That of a PUT request that asks for single
  response mode is not: the wrong header is taken out of the list before it is looked for.\<close>

lemma get_keeps_srm_param: "map_option (\<lambda>s. map_option srmParam (s_conn s)) demo_get = Some (Some 2)"
  by code_simp

lemma put_loses_srm_param:
  "map_option (\<lambda>s. map_option srmParam (s_conn s))
     (do { s \<leftarrow> demo_connected OI_OBEXSRV_AUTH_NONE;
           LowerRecvDataInd demo_env [0x02, 0, 12, 0x01, 0, 5, 0, 0, 0x97, 1, 0x98, 2] s }) = Some (Some SRM_PARAM_NONE)"
  by code_simp

text \<open>The application that rejects an authentication request answers with success.\<close>

lemma rejected_authentication_succeeds:
  "map_option (\<lambda>(r, s). (r, map_option c_state (s_conn s), s_world s)) (OI_OBEXSRV_AuthAccept demo_env 7 None False (demo_waiting [])) =
     Some (OI_OK, Some LOWER_LAYER_CONNECTED, [[0xA0, 0, 7, 0x10, 0, 3, 0xE8]])"
  by code_simp

text \<open>An application that looks at the headers of a CONNECT request when it is told of it sees their number,
  here 1, but no list: that is freed before. While the client is challenged the pointer is even left to where the
  list was.\<close>

definition looking :: "bytes list SRV_ENV" where
  "looking = demo_env\<lparr>e_app := (\<lambda>i ind s. Some (OI_OK, case OI_OBEXSRV_GetRawHeaderList 7 s of
     (_, Some (HEADERS hl)) \<Rightarrow> s\<lparr>s_world := s_world s @ [[hl_count hl, if hl_list hl = None then 0 else 1]]\<rparr>
   | _ \<Rightarrow> s))\<rparr>"

lemma connect_headers_are_freed:
  "map_option s_world (Option.bind (demo_linked OI_OBEXSRV_AUTH_NONE)
     (LowerRecvDataInd looking [0x80, 0, 12, 0x10, 0, 4, 0, 0xC0, 0, 0, 0, 5])) = Some [[1, 0]]"
  by code_simp

lemma challenge_leaves_stale_headers:
  "map_option (\<lambda>s. map_option pRawHeaders (s_conn s)) (Option.bind (demo_linked OI_OBEXSRV_AUTH_PASSWORD)
     (LowerRecvDataInd demo_env [0x80, 0, 12, 0x10, 0, 4, 0, 0xC0, 0, 0, 0, 5])) = Some (Some STALE_HEADERS)"
  by code_simp

end
