(* ===== verification/ObexSrvQueue.thy ===== *)
theory ObexSrvQueue
  imports ObexSrvProps
begin

unbundle bit_operations_syntax

text \<open>
  The queue of bulk data blocks of the OBEX server: what the confirmation of the blocks does with the
  queue, with the memory and with the application.
\<close>

section \<open>What is confirmed\<close>

definition confirmable :: "CONFIRM_FILTER \<Rightarrow> OBEX_BULK_DATA \<Rightarrow> bool" where
  "confirmable filt b \<longleftrightarrow> bytesSent b \<le> bytesConfirmed b \<and> (filt = CONFIRM_COMPLETED \<longrightarrow> blockSize b \<le> bytesConfirmed b)"

text \<open>The buffers go to the application in batches of at most \<open>MAX_CONFIRM\<close>; the last batch has a status
  of its own.\<close>

fun batches :: "'a list \<Rightarrow> 'a list list" where
  "batches [] = []"
| "batches (x # xs) = take MAX_CONFIRM (x # xs) # batches (drop (MAX_CONFIRM - 1) xs)"

definition confirmations :: "OI_STATUS \<Rightarrow> OI_STATUS \<Rightarrow> (bytes option \<times> u32) list \<Rightarrow> SRV_IND list" where
  "confirmations st last_st xs = (if xs = [] then [] else
     map (\<lambda>b. BULK_GET_IND b st) (butlast (batches xs)) @ [BULK_GET_IND (last (batches xs)) last_st])"

lemma batches_append: "length xs = MAX_CONFIRM \<Longrightarrow> batches (xs @ ys) = xs # batches ys"
  by (cases xs) (auto simp: MAX_CONFIRM_def)

lemma batches_short: "xs \<noteq> [] \<Longrightarrow> length xs \<le> MAX_CONFIRM \<Longrightarrow> batches xs = [xs]"
  by (cases xs) (auto simp: MAX_CONFIRM_def)

lemma batches_empty [simp]: "batches xs = [] \<longleftrightarrow> xs = []"
  by (cases xs) simp_all

lemma confirmations_append:
  "length xs = MAX_CONFIRM \<Longrightarrow> ys \<noteq> [] \<Longrightarrow> confirmations st l (xs @ ys) = BULK_GET_IND xs st # confirmations st l ys"
  by (auto simp: confirmations_def batches_append)

lemma confirmations_short: "xs \<noteq> [] \<Longrightarrow> length xs \<le> MAX_CONFIRM \<Longrightarrow> confirmations st l xs = [BULK_GET_IND xs l]"
  by (simp add: confirmations_def batches_short)

lemma confirmations_Nil [simp]: "confirmations st l [] = []"
  by (simp add: confirmations_def)

text \<open>The application takes note of confirmations and does not call back.\<close>

definition takes_note :: "'w SRV_ENV \<Rightarrow> (SRV_IND \<Rightarrow> 'w \<Rightarrow> 'w) \<Rightarrow> bool" where
  "takes_note env note \<longleftrightarrow>
     (\<forall>i bufs st s. \<exists>r. e_app env i (BULK_GET_IND bufs st) s = Some (r, s\<lparr>s_world := note (BULK_GET_IND bufs st) (s_world s)\<rparr>))"

definition listening :: "OBEXSRV_CONNECTION \<Rightarrow> bool" where
  "listening c \<longleftrightarrow> (\<exists>t. currentTarget c = Some t \<and> bulkGetInd \<in> cb_names (ti_CBList t))"

lemma note_call:
  assumes "takes_note env note" "s_conn s = Some c" "listening c"
  shows "\<exists>r. call_ind env (BULK_GET_IND bufs st) s = Some (r, s\<lparr>s_world := note (BULK_GET_IND bufs st) (s_world s)\<rparr>)"
proof -
  obtain t where "currentTarget c = Some t" "bulkGetInd \<in> cb_names (ti_CBList t)"
    using assms(3) by (auto simp: listening_def)
  moreover obtain r where "e_app env (cb_id (ti_CBList t)) (BULK_GET_IND bufs st) s =
      Some (r, s\<lparr>s_world := note (BULK_GET_IND bufs st) (s_world s)\<rparr>)"
    using assms(1) unfolding takes_note_def by blast
  ultimately show ?thesis
    using assms(2) by (simp add: call_ind_def)
qed

text \<open>The state after \<open>k\<close> blocks of the queue are confirmed.\<close>

definition dequeued :: "nat list \<Rightarrow> nat \<Rightarrow> 'w OBEX_SRV \<Rightarrow> 'w OBEX_SRV" where
  "dequeued ps k s = (if k = 0 then s else
     upd (\<lambda>c. c\<lparr>bg_head := first (drop k ps), bg_tail := (if k = length ps then 0 else bg_tail c),
                bg_current := (if k = length ps then 0 else bg_current c)\<rparr>)
       (s\<lparr>s_heap := (\<lambda>q. if q \<in> set (take k ps) then None else s_heap s q)\<rparr>))"

definition noted :: "(SRV_IND \<Rightarrow> 'w \<Rightarrow> 'w) \<Rightarrow> SRV_IND list \<Rightarrow> 'w OBEX_SRV \<Rightarrow> 'w OBEX_SRV" where
  "noted note inds s = s\<lparr>s_world := fold note inds (s_world s)\<rparr>"

definition finish :: "'w SRV_ENV \<Rightarrow> nat \<times> (bytes option \<times> u32) list \<times> OI_STATUS \<times> bool \<times> 'w OBEX_SRV \<Rightarrow>
    (bool \<times> bool \<times> 'w OBEX_SRV) option" where
  "finish env = (\<lambda>(bulkData, cfm, cfmStatus, final, s). do {
     s \<leftarrow> (if cfm \<noteq> [] then call_void env (BULK_GET_IND cfm cfmStatus) s else Some s);
     Some (bulkData = 0, final, s)
   })"

definition confirmed :: "CONFIRM_FILTER \<Rightarrow> OBEX_BULK_DATA list \<Rightarrow> nat" where
  "confirmed filt bs = length (takeWhile (confirmable filt) bs)"

definition buffers :: "OBEX_BULK_DATA list \<Rightarrow> (bytes option \<times> u32) list" where
  "buffers = map (\<lambda>b. (blockBuffer b, blockSize b))"

lemma finish_eq:
  assumes "takes_note env note" "s_conn s = Some c" "listening c" "length cfm < MAX_CONFIRM"
  shows "finish env (p, cfm, st, fin, s) = Some (p = 0, fin, noted note (confirmations st st cfm) s)"
proof (cases "cfm = []")
  case True
  then show ?thesis
    by (simp add: finish_def noted_def)
next
  case False
  obtain r where "call_ind env (BULK_GET_IND cfm st) s = Some (r, s\<lparr>s_world := note (BULK_GET_IND cfm st) (s_world s)\<rparr>)"
    using note_call [OF assms(1-3)] by blast
  with False assms(4) show ?thesis
    by (simp add: finish_def call_void_def noted_def confirmations_short monad_simps)
qed

lemma noted_dequeued: "noted note xs (dequeued ps k s) = dequeued ps k (noted note xs s)"
  by (rule OBEX_SRV.equality) (simp_all add: noted_def dequeued_def cong: if_cong)

lemma noted_noted [simp]: "noted note ys (noted note xs s) = noted note (xs @ ys) s"
  by (simp add: noted_def)

lemma noted_conn [simp]: "s_conn (noted note xs s) = s_conn s" "s_heap (noted note xs s) = s_heap s"
  by (simp_all add: noted_def)

text \<open>One step of the loop: the first block is taken off the queue.\<close>

definition dequeue :: "nat \<Rightarrow> nat \<Rightarrow> 'w OBEX_SRV \<Rightarrow> 'w OBEX_SRV" where
  "dequeue p next s = upd (\<lambda>c. c\<lparr>bg_head := next, bg_tail := (if next = 0 then 0 else bg_tail c),
       bg_current := (if next = 0 then 0 else bg_current c)\<rparr>) (s\<lparr>s_heap := (s_heap s)(p := None)\<rparr>)"

lemma dequeued_Suc:
  assumes "s_conn s = Some c" "first qs = 0 \<longleftrightarrow> qs = []" "k \<le> length qs"
  shows "dequeued (p # qs) (Suc k) s = dequeued qs k (dequeue p (first qs) s)"
proof (cases "k = 0")
  case True
  then show ?thesis
    using assms by (intro OBEX_SRV.equality) (simp_all add: dequeued_def dequeue_def fun_eq_iff)
next
  case False
  have heap: "(\<lambda>q. if q \<in> set (take (Suc k) (p # qs)) then None else s_heap s q) =
      (\<lambda>q. if q \<in> set (take k qs) then None else ((s_heap s)(p := None)) q)"
    by (rule ext) simp
  have "qs \<noteq> []" "first qs \<noteq> 0"
    using False assms by auto
  with False show ?thesis
    by (intro OBEX_SRV.equality) (simp_all only: dequeued_def dequeue_def heap upd_simps, simp_all add: assms(1) cong: if_cong)
qed

text \<open>One step of the loop, over a block that is confirmed.\<close>

lemma confirm_loop_step:
  assumes "s_heap s p = Some \<lparr>bn_block = b, bn_next = n\<rparr>" "p \<noteq> 0" "confirmable filt b" "s_conn s = Some c"
  shows "confirm_loop env status filt p cfm st fin s =
    (if length (cfm @ [(blockBuffer b, blockSize b)]) = MAX_CONFIRM
     then Option.bind (call_ind env (BULK_GET_IND (cfm @ [(blockBuffer b, blockSize b)]) (if n = 0 then status else st)) (dequeue p n s))
       (\<lambda>(_, s). confirm_loop env status filt n [] (if n = 0 then status else st) (bd_final b) s)
     else confirm_loop env status filt n (cfm @ [(blockBuffer b, blockSize b)]) (if n = 0 then status else st) (bd_final b) (dequeue p n s))"
proof -
  have "\<not> (bytesConfirmed b < bytesSent b \<or> filt = CONFIRM_COMPLETED \<and> bytesConfirmed b < blockSize b)"
    using assms(3) by (auto simp: confirmable_def not_less)
  then show ?thesis
    unfolding confirm_loop.simps [of env status filt p]
    by (simp only: if_False if_not_P assms(1,2,4) Option.bind.bind_lunit Let_def dequeue_def
        BULK_NODE.simps refl not_False_eq_True simp_thms)
qed

text \<open>As long as the array is not full the application is not called.\<close>

lemma confirm_loop_short:
  "bulk_path (s_heap s) p ps bs \<Longrightarrow> s_conn s = Some c \<Longrightarrow> k = confirmed filt bs \<Longrightarrow> length cfm + k < MAX_CONFIRM \<Longrightarrow>
    confirm_loop env status filt p cfm st fin s =
      Some (first (drop k ps), cfm @ buffers (take k bs), if k = length ps \<and> k \<noteq> 0 then status else st,
        if k = 0 then fin else bd_final (bs ! (k - 1)), dequeued ps k s)"
proof (induction ps arbitrary: p bs s c cfm st fin k)
  case Nil
  then have "bs = []" "p = 0"
    by (cases bs; simp)+
  with Nil show ?case
    by (simp add: confirm_loop.simps confirmed_def buffers_def dequeued_def)
next
  case (Cons q qs)
  from Cons.prems(1) obtain b bs' n where bs: "bs = b # bs'" "p = q" "p \<noteq> 0" "p \<notin> set qs"
      "s_heap s p = Some \<lparr>bn_block = b, bn_next = n\<rparr>" "bulk_path (s_heap s) n qs bs'"
    by (cases bs) auto
  have n: "n = first qs"
    by (rule bulk_path_first [OF bs(6)])
  have nil: "first qs = 0 \<longleftrightarrow> qs = []"
    using bulk_path_nonzero [OF bs(6)] by (cases qs) auto
  show ?case
  proof (cases "confirmable filt b")
    case False
    then have "confirm_loop env status filt p cfm st fin s = Some (p, cfm, st, fin, s)"
      using bs(3,5) by (auto simp: confirm_loop.simps [of env status filt p] confirmable_def not_le)
    then show ?thesis
      using False Cons.prems(3) by (simp add: bs(1,2) confirmed_def buffers_def dequeued_def)
  next
    case True
    define k' where "k' = confirmed filt bs'"
    have k: "k = Suc k'"
      using Cons.prems(3) True by (simp add: k'_def bs(1) confirmed_def)
    let ?cfm = "cfm @ [(blockBuffer b, blockSize b)]"
    have path: "bulk_path (s_heap (dequeue p n s)) n qs bs'"
      using bulk_path_other [OF bs(6,4)] by (simp add: dequeue_def)
    obtain d where d: "s_conn (dequeue p n s) = Some d"
      using Cons.prems(2) by (simp add: dequeue_def)
    have "k' \<le> length qs" "length bs' = length qs"
      using bulk_path_length [OF bs(6)] length_takeWhile_le [of "confirmable filt" bs'] by (simp_all add: k'_def confirmed_def)
    moreover have "dequeued qs k' (dequeue p n s) = dequeued (q # qs) k s"
      using dequeued_Suc [OF Cons.prems(2) nil, of k' q] calculation(1) by (simp add: k bs(2) n)
    moreover have "length ?cfm \<noteq> MAX_CONFIRM" "length ?cfm + k' < MAX_CONFIRM"
      using Cons.prems(4) by (simp_all add: k)
    ultimately show ?thesis
      using Cons.IH [OF path d k'_def] confirm_loop_step [OF bs(5,3) True Cons.prems(2)]
      by (auto simp: k bs(1) buffers_def n nil nth_Cons')
  qed
qed

lemma confirm_loop_finish:
  assumes app: "takes_note env note"
  shows "bulk_path (s_heap s) p ps bs \<Longrightarrow> s_conn s = Some c \<Longrightarrow> listening c \<Longrightarrow> length cfm < MAX_CONFIRM \<Longrightarrow> k = confirmed filt bs \<Longrightarrow>
    Option.bind (confirm_loop env status filt p cfm st fin s) (finish env) =
      Some (k = length ps, if k = 0 then fin else bd_final (bs ! (k - 1)),
        noted note (confirmations st (if k = length ps \<and> k \<noteq> 0 then status else st) (cfm @ buffers (take k bs))) (dequeued ps k s))"
proof (induction ps arbitrary: p bs s c cfm st fin k)
  case Nil
  then have "bs = []" "p = 0"
    by (cases bs; simp)+
  with Nil show ?case
    by (simp add: confirm_loop.simps finish_eq [OF app] confirmed_def buffers_def dequeued_def)
next
  case (Cons q qs)
  from Cons.prems(1) obtain b bs' n where bs: "bs = b # bs'" "p = q" "p \<noteq> 0" "p \<notin> set qs"
      "s_heap s p = Some \<lparr>bn_block = b, bn_next = n\<rparr>" "bulk_path (s_heap s) n qs bs'"
    by (cases bs) auto
  have n: "n = first qs"
    by (rule bulk_path_first [OF bs(6)])
  have nil: "first qs = 0 \<longleftrightarrow> qs = []"
    using bulk_path_nonzero [OF bs(6)] by (cases qs) auto
  show ?case
  proof (cases "confirmable filt b")
    case False
    then have "confirm_loop env status filt p cfm st fin s = Some (p, cfm, st, fin, s)"
      using bs(3,5) by (auto simp: confirm_loop.simps [of env status filt p] confirmable_def not_le)
    moreover have "k = 0"
      using False Cons.prems(5) by (simp add: bs(1) confirmed_def)
    ultimately show ?thesis
      using bs(2,3) by (simp add: finish_eq [OF app Cons.prems(2-4)] buffers_def dequeued_def)
  next
    case True
    define k' where "k' = confirmed filt bs'"
    have k: "k = Suc k'"
      using Cons.prems(5) True by (simp add: k'_def bs(1) confirmed_def)
    let ?st = "if n = 0 then status else st"
    let ?cfm = "cfm @ [(blockBuffer b, blockSize b)]"
    let ?s = "dequeue p n s"
    have step: "confirm_loop env status filt p cfm st fin s =
        (if length ?cfm = MAX_CONFIRM
         then Option.bind (call_ind env (BULK_GET_IND ?cfm ?st) ?s) (\<lambda>(_, s). confirm_loop env status filt n [] ?st (bd_final b) s)
         else confirm_loop env status filt n ?cfm ?st (bd_final b) ?s)"
      by (rule confirm_loop_step [OF bs(5,3) True Cons.prems(2)])
    have path: "bulk_path (s_heap ?s) n qs bs'"
      using bulk_path_other [OF bs(6,4)] by (simp add: dequeue_def)
    obtain d where d: "s_conn ?s = Some d" "listening d"
      using Cons.prems(2,3) by (simp add: dequeue_def listening_def)
    have k'_le: "k' \<le> length qs" "length bs' = length qs"
      using bulk_path_length [OF bs(6)] length_takeWhile_le [of "confirmable filt" bs'] by (simp_all add: k'_def confirmed_def)
    have state: "dequeued qs k' ?s = dequeued (q # qs) k s"
      using dequeued_Suc [OF Cons.prems(2) nil k'_le(1), of q] by (simp add: k bs(2) n)
    have flags: "(if k' = 0 then bd_final b else bd_final (bs' ! (k' - 1))) = bd_final (bs ! (k - 1))"
      by (cases k') (simp_all add: k bs(1))
    let ?l = "if k' = length qs \<and> k' \<noteq> 0 then status else ?st"
    let ?xs = "buffers (take k' bs')"
    have xs: "cfm @ buffers (take k bs) = ?cfm @ ?xs"
      by (simp add: k bs(1) buffers_def)
    have st: "?st = (if qs = [] then status else st)" "?l = (if k = length (q # qs) then status else st)"
      using k'_le by (auto simp: n nil k)
    have eqk: "(k = length (q # qs)) = (k' = length qs)" "(k = 0) = False" "(k = length (q # qs) \<and> k \<noteq> 0) = (k = length (q # qs))"
      by (auto simp: k)
    have xs_nil: "?xs = [] \<longleftrightarrow> k' = 0"
      using k'_le by (auto simp: buffers_def)
    show ?thesis
    proof (cases "length ?cfm = MAX_CONFIRM")
      case True
      obtain r where call: "call_ind env (BULK_GET_IND ?cfm ?st) ?s =
          Some (r, noted note [BULK_GET_IND ?cfm ?st] ?s)"
        using note_call [OF app d] by (auto simp: noted_def)
      have "confirmations st ?l (?cfm @ ?xs) = BULK_GET_IND ?cfm ?st # confirmations ?st ?l ?xs"
      proof (cases "?xs = []")
        case True
        with \<open>length ?cfm = MAX_CONFIRM\<close> show ?thesis
          using confirmations_short [of ?cfm] xs_nil by simp
      next
        case False
        then have "?st = st"
          using k'_le xs_nil st(1) by auto
        then show ?thesis
          by (simp only: confirmations_append [OF \<open>length ?cfm = MAX_CONFIRM\<close> False])
      qed
      then have conf: "noted note (confirmations ?st ?l ?xs) (noted note [BULK_GET_IND ?cfm ?st] x) = noted note (confirmations st ?l (?cfm @ ?xs)) x" for x :: "'a OBEX_SRV"
        by (simp add: noted_def)
      let ?s' = "noted note [BULK_GET_IND ?cfm ?st] ?s"
      have "bulk_path (s_heap ?s') n qs bs'" "s_conn ?s' = Some d"
        using path d(1) by simp_all
      from Cons.IH [OF this d(2) _ k'_def, of "[]" ?st "bd_final b"]
      have "Option.bind (confirm_loop env status filt n [] ?st (bd_final b) ?s') (finish env) =
          Some (k' = length qs, if k' = 0 then bd_final b else bd_final (bs' ! (k' - 1)),
            noted note (confirmations ?st ?l ?xs) (dequeued qs k' ?s'))"
        by (simp only: append_Nil) (simp add: MAX_CONFIRM_def)
      then show ?thesis
        unfolding step if_P [OF True] call Option.bind.bind_lunit prod.case
        by (simp only: noted_dequeued [symmetric] state conf) (simp only: flags xs eqk st(2) if_False simp_thms)
    next
      case False
      then have short: "length ?cfm < MAX_CONFIRM"
        using Cons.prems(4) by simp
      have "confirmations ?st ?l (?cfm @ ?xs) = confirmations st ?l (?cfm @ ?xs)"
        using short xs_nil k'_le by (cases "qs = []") (simp_all add: st(1) confirmations_short)
      with Cons.IH [OF path d short k'_def, of ?st "bd_final b"] False show ?thesis
        unfolding step if_not_P [OF False]
        by (simp only: state) (simp only: flags xs eqk st(2) if_False simp_thms)
    qed
  qed
qed

text \<open>The batches are the list, in order, and none is empty or longer than the array of the code.\<close>

lemma batches_concat: "concat (batches xs) = xs"
  by (induction xs rule: batches.induct) (simp_all add: MAX_CONFIRM_def)

lemma batches_bounded: "b \<in> set (batches xs) \<Longrightarrow> b \<noteq> [] \<and> length b \<le> MAX_CONFIRM"
  by (induction xs rule: batches.induct) (auto simp: MAX_CONFIRM_def)

text \<open>C7: \<open>ConfirmBulkGets\<close> takes the longest prefix of confirmed blocks off the queue, frees their nodes and
  no other, hands their buffers to the application in order, with the given status on the last call exactly if the
  queue is then empty, and reports the final flag of the last block. Fewer than 16 blocks are handed over in one call
  after all of this, so that the application may do anything in it; more blocks go in batches of 16, which is
  stated for an application that only takes note of them and calls no function of the server from its callback.\<close>

theorem ConfirmBulkGets_spec:
  assumes "s_conn s = Some c" "bulk_path (s_heap s) (bg_head c) ps bs"
    and "k = confirmed filt bs" "st = (if status = OI_OBEX_CONTINUE then OI_OBEX_CONTINUE else OI_OK)"
    and "last_st = (if k = length ps \<and> k \<noteq> 0 then status else st)"
  shows "(k < MAX_CONFIRM \<longrightarrow> ConfirmBulkGets env status filt s =
      (if k = 0 then Some (ps = [], False, s)
       else map_option (\<lambda>(_, s'). (k = length ps, bd_final (bs ! (k - 1)), s'))
         (call_ind env (BULK_GET_IND (buffers (take k bs)) last_st) (dequeued ps k s)))) \<and>
    (takes_note env note \<and> listening c \<longrightarrow> ConfirmBulkGets env status filt s =
      Some (k = length ps, k \<noteq> 0 \<and> bd_final (bs ! (k - 1)),
        noted note (confirmations st last_st (buffers (take k bs))) (dequeued ps k s)))"
proof (intro conjI impI)
  have st: "(if status = OI_OBEX_CONTINUE then status else OI_OK) = st"
    using assms(4) by simp
  have call: "ConfirmBulkGets env status filt s = Option.bind (confirm_loop env status filt (bg_head c) [] st False s) (finish env)"
    unfolding ConfirmBulkGets_def finish_def assms(1) Option.bind.bind_lunit st ..
  have len: "length bs = length ps" "k \<le> length ps"
    using bulk_path_length [OF assms(2)] length_takeWhile_le [of "confirmable filt" bs] assms(3) by (simp_all add: confirmed_def)
  have all: "first (drop k ps) = 0 \<longleftrightarrow> k = length ps"
  proof -
    have "0 \<notin> set (drop k ps)"
      using bulk_path_nonzero [OF assms(2)] by (meson in_set_dropD)
    then show ?thesis
      using len(2) by (cases "drop k ps") (auto dest: arg_cong [of _ _ length])
  qed
  show "ConfirmBulkGets env status filt s =
      (if k = 0 then Some (ps = [], False, s)
       else map_option (\<lambda>(_, s'). (k = length ps, bd_final (bs ! (k - 1)), s'))
         (call_ind env (BULK_GET_IND (buffers (take k bs)) last_st) (dequeued ps k s)))" if "k < MAX_CONFIRM"
  proof -
    have "confirm_loop env status filt (bg_head c) [] st False s =
        Some (first (drop k ps), buffers (take k bs), last_st, if k = 0 then False else bd_final (bs ! (k - 1)), dequeued ps k s)"
      using confirm_loop_short [OF assms(2,1,3), of "[]" env status st False] that by (simp add: assms(5))
    then show ?thesis
      unfolding call using all len
      by (cases "k = 0") (auto simp: finish_def buffers_def dequeued_def call_void_def option.map_comp monad_simps map_option_case split: option.split)
  qed
  show "ConfirmBulkGets env status filt s = Some (k = length ps, k \<noteq> 0 \<and> bd_final (bs ! (k - 1)),
        noted note (confirmations st last_st (buffers (take k bs))) (dequeued ps k s))" if "takes_note env note \<and> listening c"
  proof -
    have "(if k = 0 then False else x) = (k \<noteq> 0 \<and> x)" for x
      by simp
    with confirm_loop_finish [OF conjunct1 [OF that] assms(2,1) conjunct2 [OF that] _ assms(3), of "[]" status st False] show ?thesis
      unfolding call assms(5) by (simp only: append_Nil) (simp add: MAX_CONFIRM_def)
  qed
qed

text \<open>A queue of two blocks, the second of which is half confirmed.\<close>

definition demo_pair :: "OBEX_BULK_DATA list" where
  "demo_pair = [\<lparr>blockBuffer = Some [1, 2], blockSize = 2, bytesSent = 2, bytesConfirmed = 2, bd_final = False\<rparr>,
     \<lparr>blockBuffer = Some [3, 4], blockSize = 2, bytesSent = 1, bytesConfirmed = 1, bd_final = True\<rparr>]"

definition demo_queue :: "bytes list OBEX_SRV" where
  "demo_queue = (demo_waiting [])\<lparr>s_heap := [1 \<mapsto> \<lparr>bn_block = demo_pair ! 0, bn_next = 2\<rparr>, 2 \<mapsto> \<lparr>bn_block = demo_pair ! 1, bn_next = 0\<rparr>],
     s_conn := map_option (\<lambda>c. c\<lparr>bg_head := 1, bg_tail := 2, bg_current := 2, currentTarget := Some
       ((demo_target OI_OBEXSRV_AUTH_NONE)\<lparr>ti_CBList := \<lparr>cb_id = 0, cb_names = {bulkGetInd}\<rparr>\<rparr>)\<rparr>) (s_conn (demo_waiting []))\<rparr>"

definition demo_note :: "SRV_IND \<Rightarrow> bytes list \<Rightarrow> bytes list" where
  "demo_note ind w = (case ind of BULK_GET_IND bufs st \<Rightarrow> w @ map (\<lambda>(b, n). the b) bufs | _ \<Rightarrow> w)"

lemma ConfirmBulkGets_spec_witness:
  "\<exists>s'. ConfirmBulkGets (demo_env\<lparr>e_app := \<lambda>i ind s. Some (OI_OK, s\<lparr>s_world := demo_note ind (s_world s)\<rparr>)\<rparr>)
       OI_OBEX_CONTINUE CONFIRM_COMPLETED demo_queue = Some (False, False, s') \<and>
     s_world s' = [[1, 2]] \<and> s_heap s' 1 = None \<and> s_heap s' 2 = s_heap demo_queue 2 \<and> map_option bg_head (s_conn s') = Some 2"
  (is "\<exists>s'. ConfirmBulkGets ?env _ _ _ = _ \<and> _ s'")
proof -
  let ?c = "the (s_conn demo_queue)"
  have "takes_note ?env demo_note"
    by (simp add: takes_note_def)
  moreover have queue: "s_conn demo_queue = Some ?c" "listening ?c" "bulk_path (s_heap demo_queue) (bg_head ?c) [1, 2] demo_pair"
    by (simp_all add: demo_queue_def demo_waiting_def listening_def demo_pair_def)
  moreover have "1 = confirmed CONFIRM_COMPLETED demo_pair"
    by (simp add: confirmed_def demo_pair_def confirmable_def word_le_nat_alt)
  moreover have "OI_OBEX_CONTINUE = (if OI_OBEX_CONTINUE = OI_OBEX_CONTINUE then OI_OBEX_CONTINUE else OI_OK)"
    and "OI_OBEX_CONTINUE = (if 1 = length [1 :: nat, 2] \<and> (1 :: nat) \<noteq> 0 then OI_OBEX_CONTINUE else OI_OBEX_CONTINUE)"
    by simp_all
  ultimately have "ConfirmBulkGets ?env OI_OBEX_CONTINUE CONFIRM_COMPLETED demo_queue =
      Some (1 = length [1 :: nat, 2], (1 :: nat) \<noteq> 0 \<and> bd_final (demo_pair ! (1 - 1)),
        noted demo_note (confirmations OI_OBEX_CONTINUE OI_OBEX_CONTINUE (buffers (take 1 demo_pair))) (dequeued [1, 2] 1 demo_queue))"
      (is "_ = Some (_, _, ?s)")
    using ConfirmBulkGets_spec by blast
  moreover have "s_world ?s = [[1, 2]]"
    by (simp add: noted_def dequeued_def buffers_def demo_pair_def confirmations_short MAX_CONFIRM_def demo_note_def
        demo_queue_def demo_waiting_def demo_srv_def)
  moreover have "s_heap ?s 1 = None" "s_heap ?s 2 = s_heap demo_queue 2" "map_option bg_head (s_conn ?s) = Some 2"
    using queue(1) by (auto simp: dequeued_def)
  ultimately show ?thesis
    by (simp add: demo_pair_def)
qed

end
