(* ===== verification/Containers.thy ===== *)
theory Containers
  imports Dispatch
begin

unbundle bit_operations_syntax

text \<open>
  The small containers of \<open>stack/support\<close>: the handle table of \<open>oi_handle.c\<close>, the map of
  \<open>oi_simplemap.c\<close> and the doubly linked lists of \<open>oi_list.c\<close>, each with the abstract structure it
  implements. What the handle table is for is lost once in two to the power of 23 allocations.
\<close>

section \<open>Handles\<close>

text \<open>Pointers are numbers, \<open>NULL\<close> is 0; a handle is the 32-bit value that is cast to a pointer.\<close>

record HANDLE_INTERNAL =
  refData :: nat
  handleType :: nat
  h_salt :: u32

record HANDLES =
  handles :: "HANDLE_INTERNAL list"
  next_salt :: u32

definition OI_MAX_HANDLES :: nat where "OI_MAX_HANDLES = 128"
definition INDEX_BITS :: nat where "INDEX_BITS = 9"
definition SALT_BITS :: nat where "SALT_BITS = 32 - INDEX_BITS"
definition SALT_MASK :: u32 where "SALT_MASK = push_bit SALT_BITS 1 - 1"

definition initial_handles :: HANDLES where
  "initial_handles = \<lparr>handles = replicate OI_MAX_HANDLES \<lparr>refData = 0, handleType = 0, h_salt = 0\<rparr>, next_salt = 0x4E61436C\<rparr>"

fun free_handle :: "HANDLE_INTERNAL list \<Rightarrow> nat \<Rightarrow> nat option" where
  "free_handle [] i = None"
| "free_handle (e # es) i = (if h_salt e = 0 then Some i else free_handle es (Suc i))"

definition bump :: "u32 \<Rightarrow> u32" where
  "bump salt = (if salt + 1 = 0 then 1 else salt + 1)"

definition handle_of :: "nat \<Rightarrow> u32 \<Rightarrow> u32" where
  "handle_of i salt = push_bit SALT_BITS (of_nat i) OR (salt AND SALT_MASK)"

definition OI_HANDLE_Alloc :: "nat \<Rightarrow> nat \<Rightarrow> HANDLES \<Rightarrow> u32 \<times> HANDLES" where
  "OI_HANDLE_Alloc ty data s =
     (if data = 0 then (0, s)
      else case free_handle (handles s) 0 of
        None \<Rightarrow> (0, s)
      | Some i \<Rightarrow> let salt = bump (next_salt s) in
          (handle_of i salt,
           \<lparr>handles = (handles s)[i := \<lparr>refData = data, handleType = ty, h_salt = salt\<rparr>], next_salt = salt\<rparr>))"

text \<open>The entry a handle leads to, if its index and its salt fit.\<close>

definition handle_entry :: "u32 \<Rightarrow> HANDLES \<Rightarrow> (nat \<times> HANDLE_INTERNAL) option" where
  "handle_entry h s = (let i = unat (drop_bit SALT_BITS h) in
     if i < length (handles s) \<and> h_salt (handles s ! i) AND SALT_MASK = h AND SALT_MASK then Some (i, handles s ! i) else None)"

definition OI_HANDLE_IsValid :: "u32 \<Rightarrow> nat \<Rightarrow> HANDLES \<Rightarrow> bool" where
  "OI_HANDLE_IsValid h ty s = (case handle_entry h s of Some (_, e) \<Rightarrow> handleType e = ty | None \<Rightarrow> False)"

definition OI_HANDLE_Deref :: "u32 \<Rightarrow> HANDLES \<Rightarrow> nat" where
  "OI_HANDLE_Deref h s = (case handle_entry h s of Some (_, e) \<Rightarrow> refData e | None \<Rightarrow> 0)"

definition OI_HANDLE_Free :: "u32 \<Rightarrow> HANDLES \<Rightarrow> OI_STATUS \<times> HANDLES" where
  "OI_HANDLE_Free h s =
     (case handle_entry h s of
        Some (i, e) \<Rightarrow> (OI_OK, s\<lparr>handles := (handles s)[i := e\<lparr>h_salt := 0\<rparr>]\<rparr>)
      | None \<Rightarrow> (OI_STATUS_INVALID_HANDLE, s))"

subsection \<open>What a handle stands for\<close>

definition handles_ok :: "HANDLES \<Rightarrow> bool" where
  "handles_ok s \<longleftrightarrow> length (handles s) = OI_MAX_HANDLES"

lemma SALT_MASK_eq: "SALT_MASK = mask 23"
  by (simp add: SALT_MASK_def SALT_BITS_def INDEX_BITS_def mask_eq_exp_minus_1)

lemma bit_small_nat: "i < 2 ^ k \<Longrightarrow> bit (i :: nat) n \<Longrightarrow> n < k"
  by (metis bit_take_bit_iff take_bit_nat_eq_self)

lemma index_handle_of:
  assumes "i < OI_MAX_HANDLES"
  shows "unat (drop_bit SALT_BITS (handle_of i salt)) = i" "handle_of i salt AND SALT_MASK = salt AND SALT_MASK"
proof -
  have small: "n < 7" if "bit i n" for n
    using assms bit_small_nat [of i 7 n] that by (simp add: OI_MAX_HANDLES_def)
  have "drop_bit 23 (push_bit 23 (of_nat i :: u32) OR (salt AND mask 23)) = of_nat i"
    by (intro bit_word_eqI) (auto simp: bit_simps dest: small)
  then show "unat (drop_bit SALT_BITS (handle_of i salt)) = i"
    using assms by (simp add: handle_of_def SALT_MASK_eq SALT_BITS_def INDEX_BITS_def OI_MAX_HANDLES_def take_bit_nat_eq_self unsigned_of_nat)
  show "handle_of i salt AND SALT_MASK = salt AND SALT_MASK"
    unfolding handle_of_def SALT_MASK_eq SALT_BITS_def INDEX_BITS_def
    by (rule bit_word_eqI) (auto simp: bit_simps)
qed

lemma free_handle_Some: "free_handle es k = Some i \<Longrightarrow> k \<le> i \<and> i - k < length es \<and> h_salt (es ! (i - k)) = 0"
  by (induction es k rule: free_handle.induct) (auto simp: Suc_diff_le split: if_splits dest!: Suc_leD)

lemma handle_entry_own:
  "i < length (handles s) \<Longrightarrow> i < OI_MAX_HANDLES \<Longrightarrow>
     handle_entry (handle_of i salt) s =
       (if h_salt (handles s ! i) AND SALT_MASK = salt AND SALT_MASK then Some (i, handles s ! i) else None)"
  by (simp add: handle_entry_def index_handle_of Let_def)

lemma handle_entry_other:
  "unat (drop_bit SALT_BITS h) \<noteq> i \<Longrightarrow> handle_entry h \<lparr>handles = (handles s)[i := e], next_salt = n\<rparr> = handle_entry h s"
  by (simp add: handle_entry_def Let_def)

text \<open>What happens to the table over time: allocations and frees, in any order.\<close>

datatype HANDLE_OP = ALLOC nat nat | FREE u32

fun handle_op :: "HANDLE_OP \<Rightarrow> HANDLES \<Rightarrow> HANDLES" where
  "handle_op (ALLOC ty data) s = snd (OI_HANDLE_Alloc ty data s)"
| "handle_op (FREE h) s = snd (OI_HANDLE_Free h s)"

definition handle_ops :: "HANDLE_OP list \<Rightarrow> HANDLES \<Rightarrow> HANDLES" where
  "handle_ops = fold handle_op"

fun is_alloc :: "HANDLE_OP \<Rightarrow> bool" where
  "is_alloc (ALLOC ty data) = True"
| "is_alloc (FREE h) = False"

definition allocs :: "HANDLE_OP list \<Rightarrow> nat" where
  "allocs ops = length (filter is_alloc ops)"

lemma handle_ops_simps [simp]:
  "handle_ops [] s = s" "handle_ops (p # ops) s = handle_ops ops (handle_op p s)"
  "allocs [] = 0" "allocs (p # ops) = (if is_alloc p then 1 else 0) + allocs ops" "allocs (ops @ ops') = allocs ops + allocs ops'"
  by (simp_all add: handle_ops_def allocs_def)

lemma handles_ok_op: "handles_ok s \<Longrightarrow> handles_ok (handle_op p s)"
  by (cases p) (auto simp: handles_ok_def OI_HANDLE_Alloc_def OI_HANDLE_Free_def Let_def split: option.splits)

lemma handles_ok_ops: "handles_ok s \<Longrightarrow> handles_ok (handle_ops ops s)"
  by (induction ops arbitrary: s) (simp_all add: handles_ok_op)

text \<open>The salts of the allocations after a salt differ from it, modulo two to the power of 23, for a long
  time: zero is left out once in two to the power of 32.\<close>

lemma unat_below: "unat (x :: u32) < 4294967296"
proof -
  have "unat x < 2 ^ LENGTH(32)"
    by (rule unsigned_less)
  then show ?thesis
    by simp
qed

lemma unat_bump: "unat (bump x) = (if unat x = 4294967295 then 1 else unat x + 1)"
  using unat_below [of x] unfolding bump_def by (auto simp: unat_arith_simps unat_plus_if')

lemma unat_bumps:
  "k < 4294967295 \<Longrightarrow> unat ((bump ^^ k) x) = (if unat x + k < 4294967296 then unat x + k else unat x + k + 1 - 4294967296)"
proof (induction k)
  case 0
  then show ?case
    using unat_below [of x] by simp
next
  case (Suc k)
  then show ?case
    using unat_below [of x] by (auto simp: unat_bump)
qed

lemma bumps_differ:
  assumes "0 < k" "k < 2 ^ 23 - 1"
  shows "(bump ^^ k) x AND SALT_MASK \<noteq> x AND SALT_MASK"
proof
  assume eq: "(bump ^^ k) x AND SALT_MASK = x AND SALT_MASK"
  have low: "unat (y AND SALT_MASK) = unat y mod 2 ^ 23" for y :: u32
    by (simp only: SALT_MASK_eq take_bit_eq_mask [symmetric] unsigned_take_bit_eq) (simp only: take_bit_eq_mod)
  have "unat ((bump ^^ k) x) mod 2 ^ 23 = unat x mod 2 ^ 23"
    using eq by (metis low)
  moreover obtain j where j: "0 < j" "j < 2 ^ 23" "unat ((bump ^^ k) x) = unat x + j \<or> unat ((bump ^^ k) x) + 512 * 2 ^ 23 = unat x + j"
    using unat_bumps [of k x] assms by (cases "unat x + k < 4294967296") (force intro: that [of k] that [of "k + 1"])+
  ultimately have "(unat x + j) mod 2 ^ 23 = unat x mod 2 ^ 23"
    by (metis mod_mult_self1)
  then have "2 ^ 23 dvd unat x + j - unat x"
    by (subst mod_eq_dvd_iff_nat [symmetric]) simp_all
  with j show False
    by (auto dest: dvd_imp_le)
qed

text \<open>Up to its own free the entry of a handle stays, after that its slot is free or has a later salt.\<close>

definition slot_kept :: "u32 \<Rightarrow> HANDLE_INTERNAL \<Rightarrow> HANDLES \<Rightarrow> bool" where
  "slot_kept h e s \<longleftrightarrow> handles_ok s \<and> h_salt e \<noteq> 0 \<and>
     (\<exists>i. i < OI_MAX_HANDLES \<and> h = handle_of i (h_salt e) \<and> handles s ! i = e)"

lemma handle_entry_kept: "slot_kept h e s \<Longrightarrow> \<exists>i. handle_entry h s = Some (i, e)"
  by (auto simp: slot_kept_def handle_entry_own handles_ok_def)

lemma same_handle:
  assumes "i < OI_MAX_HANDLES" "unat (drop_bit SALT_BITS g) = i" "g AND SALT_MASK = salt AND SALT_MASK"
  shows "g = handle_of i salt"
proof -
  have "g = push_bit 23 (drop_bit 23 g) OR (g AND mask 23)"
    by (rule bit_word_eqI) (auto simp: bit_simps not_le)
  moreover have "drop_bit 23 g = of_nat i"
    using assms(2) by (simp add: SALT_BITS_def INDEX_BITS_def flip: assms(2))
  ultimately show ?thesis
    using assms(3) by (simp add: handle_of_def SALT_MASK_eq SALT_BITS_def INDEX_BITS_def)
qed

lemma slot_kept_op:
  assumes "slot_kept h e s" "p \<noteq> FREE h"
  shows "slot_kept h e (handle_op p s)"
proof -
  from assms(1) obtain i where i: "handles_ok s" "h_salt e \<noteq> 0" "i < OI_MAX_HANDLES" "h = handle_of i (h_salt e)" "handles s ! i = e"
    by (auto simp: slot_kept_def)
  have "handles (handle_op p s) ! i = e"
  proof (cases p)
    case (ALLOC ty data)
    then show ?thesis
      using i free_handle_Some [of "handles s" 0]
      by (auto simp: OI_HANDLE_Alloc_def Let_def nth_list_update split: option.splits)
  next
    case (FREE g)
    have "k \<noteq> i" if "handle_entry g s = Some (k, d)" for k d
      using that assms(2) FREE i same_handle [of i g "h_salt e"] by (auto simp: handle_entry_def Let_def split: if_splits)
    then show ?thesis
      using FREE i(5) by (auto simp: OI_HANDLE_Free_def split: option.splits)
  qed
  then show ?thesis
    using i handles_ok_op [OF i(1)] by (auto simp: slot_kept_def)
qed

lemma slot_kept_ops: "slot_kept h e s \<Longrightarrow> FREE h \<notin> set ops \<Longrightarrow> slot_kept h e (handle_ops ops s)"
  by (induction ops arbitrary: s) (auto simp: slot_kept_op)

text \<open>The salts since \<open>x\<close> are those of \<open>k\<close> allocations at most; the slot is free or has one of them.\<close>

lemma next_salt_op: "next_salt (handle_op p s) = next_salt s \<or> is_alloc p \<and> next_salt (handle_op p s) = bump (next_salt s)"
  by (cases p) (auto simp: OI_HANDLE_Alloc_def OI_HANDLE_Free_def Let_def split: option.splits)

definition salt_within :: "nat \<Rightarrow> u32 \<Rightarrow> u32 \<Rightarrow> bool" where
  "salt_within n x y \<longleftrightarrow> (\<exists>k \<le> n. y = (bump ^^ k) x)"

lemma salt_within_op:
  assumes "salt_within n x (next_salt s)"
  shows "salt_within ((if is_alloc p then 1 else 0) + n) x (next_salt (handle_op p s))"
proof -
  obtain k where k: "k \<le> n" "next_salt s = (bump ^^ k) x"
    using assms by (auto simp: salt_within_def)
  show ?thesis
    using next_salt_op [of p s] k exI [of "\<lambda>k'. k' \<le> Suc n \<and> bump (next_salt s) = (bump ^^ k') x" "Suc k"]
    by (auto simp: salt_within_def intro: le_SucI)
qed

lemma salt_within_ops: "salt_within n x (next_salt s) \<Longrightarrow> salt_within (allocs ops + n) x (next_salt (handle_ops ops s))"
proof (induction ops arbitrary: s n)
  case (Cons p ops)
  show ?case
    using Cons.IH [OF salt_within_op [OF Cons.prems, of p]] by (simp add: add.commute add.left_commute)
qed simp

definition slot_passed :: "nat \<Rightarrow> nat \<Rightarrow> u32 \<Rightarrow> HANDLES \<Rightarrow> bool" where
  "slot_passed i n x s \<longleftrightarrow> handles_ok s \<and> salt_within n x (next_salt s) \<and>
     (h_salt (handles s ! i) = 0 \<or> (\<exists>k. 0 < k \<and> k \<le> n \<and> h_salt (handles s ! i) = (bump ^^ k) x))"

lemma slot_passed_op:
  assumes "slot_passed i n x s" "i < OI_MAX_HANDLES"
  shows "slot_passed i ((if is_alloc p then 1 else 0) + n) x (handle_op p s)"
proof -
  have ok: "handles_ok s" "salt_within n x (next_salt s)"
    and salt: "h_salt (handles s ! i) = 0 \<or> (\<exists>k. 0 < k \<and> k \<le> n \<and> h_salt (handles s ! i) = (bump ^^ k) x)"
    using assms(1) by (auto simp: slot_passed_def)
  obtain k where k: "k \<le> n" "next_salt s = (bump ^^ k) x"
    using ok(2) by (auto simp: salt_within_def)
  have upd: "(handles s)[k := d] ! i = (if k = i then d else handles s ! i)" for k d
    using ok(1) assms(2) by (simp add: nth_list_update handles_ok_def)
  have "h_salt (handles (handle_op p s) ! i) = 0 \<or> h_salt (handles (handle_op p s) ! i) = h_salt (handles s ! i) \<or>
      is_alloc p \<and> h_salt (handles (handle_op p s) ! i) = bump (next_salt s)"
    by (cases p) (auto simp: OI_HANDLE_Alloc_def OI_HANDLE_Free_def upd Let_def split: option.splits prod.splits)
  moreover have "\<exists>k'. 0 < k' \<and> k' \<le> 1 + n \<and> bump (next_salt s) = (bump ^^ k') x"
    using k by (intro exI [of _ "Suc k"]) simp
  ultimately have "h_salt (handles (handle_op p s) ! i) = 0 \<or>
      (\<exists>k. 0 < k \<and> k \<le> (if is_alloc p then 1 else 0) + n \<and> h_salt (handles (handle_op p s) ! i) = (bump ^^ k) x)"
    using salt by (elim disjE exE) (auto intro: le_SucI)
  then show ?thesis
    unfolding slot_passed_def using handles_ok_op [OF ok(1), of p] salt_within_op [OF ok(2), of p] by blast
qed

lemma slot_passed_ops: "slot_passed i n x s \<Longrightarrow> i < OI_MAX_HANDLES \<Longrightarrow> slot_passed i (allocs ops + n) x (handle_ops ops s)"
proof (induction ops arbitrary: s n)
  case (Cons p ops)
  show ?case
    using Cons.IH [OF slot_passed_op [OF Cons.prems, of p] Cons.prems(2)] by (simp add: add.commute add.left_commute)
qed simp

lemma handle_entry_passed:
  assumes "slot_passed i n x s" "i < OI_MAX_HANDLES" "n < 2 ^ 23 - 1" "x AND SALT_MASK \<noteq> 0"
  shows "handle_entry (handle_of i x) s = None"
proof -
  have "h_salt (handles s ! i) AND SALT_MASK \<noteq> x AND SALT_MASK"
    using assms(1,3,4) bumps_differ by (fastforce simp: slot_passed_def)
  then show ?thesis
    using assms(1,2) by (simp add: handle_entry_own slot_passed_def handles_ok_def)
qed


text \<open>C38: A handle leads to its data under its type, whatever else is allocated and freed, until it is freed
  itself; that succeeds and leaves every handle with another index as it is. From then on it leads to nothing, whatever
  is allocated and freed after that, also in its slot, as long as there are fewer than two to the power of
  23, less one, allocations after its own. The 23 bits of its salt must not be zero.\<close>

theorem handle_life:
  assumes "handles_ok s" "OI_HANDLE_Alloc ty data s = (h, s1)" "h AND SALT_MASK \<noteq> 0"
    and "FREE h \<notin> set ops" "OI_HANDLE_Free h (handle_ops ops s1) = (status, s2)"
  shows "OI_HANDLE_Deref h (handle_ops ops s1) = data \<and> OI_HANDLE_IsValid h ty' (handle_ops ops s1) = (ty' = ty) \<and>
    status = OI_OK \<and>
    (drop_bit SALT_BITS g \<noteq> drop_bit SALT_BITS h \<longrightarrow> OI_HANDLE_Deref g s2 = OI_HANDLE_Deref g (handle_ops ops s1)) \<and>
    (allocs (ops @ ops') < 2 ^ 23 - 1 \<longrightarrow>
       OI_HANDLE_Deref h (handle_ops ops' s2) = 0 \<and> \<not> OI_HANDLE_IsValid h ty' (handle_ops ops' s2))"
proof -
  let ?x = "bump (next_salt s)" and ?s = "handle_ops ops s1"
  obtain i where i: "free_handle (handles s) 0 = Some i"
    using assms(2,3) by (auto simp: OI_HANDLE_Alloc_def split: if_splits option.splits)
  then have small: "i < OI_MAX_HANDLES"
    using free_handle_Some [OF i] assms(1) by (simp add: handles_ok_def)
  let ?e = "\<lparr>refData = data, handleType = ty, h_salt = ?x\<rparr>"
  have h: "h = handle_of i ?x" and s1: "s1 = \<lparr>handles = (handles s)[i := ?e], next_salt = ?x\<rparr>"
    using assms(2,3) i by (auto simp: OI_HANDLE_Alloc_def Let_def split: if_splits)
  have x: "?x AND SALT_MASK \<noteq> 0" "?x \<noteq> 0"
    using assms(3) index_handle_of(2) [OF small, of ?x] by (auto simp: h)
  have "slot_kept h ?e s1"
    using assms(1) small x h by (auto simp: slot_kept_def handles_ok_def s1)
  then have kept: "slot_kept h ?e ?s"
    using slot_kept_ops assms(4) by blast
  then have ok: "handles_ok ?s"
    by (simp add: slot_kept_def)
  from handle_entry_kept [OF kept] have entry: "handle_entry h ?s = Some (i, ?e)"
    using small ok by (auto simp: h handle_entry_own handles_ok_def split: if_splits)
  then have s2: "s2 = \<lparr>handles = (handles ?s)[i := ?e\<lparr>h_salt := 0\<rparr>], next_salt = next_salt ?s\<rparr>" and status: "status = OI_OK"
    using assms(5) by (auto simp: OI_HANDLE_Free_def)
  have "salt_within (allocs ops + 0) ?x (next_salt ?s)"
    by (rule salt_within_ops) (auto simp: salt_within_def s1 intro!: exI [of _ 0])
  then have "slot_passed i (allocs ops) ?x s2"
    using ok small by (simp add: slot_passed_def s2 handles_ok_def)
  then have gone: "handle_entry h (handle_ops ops' s2) = None" if "allocs (ops @ ops') < 2 ^ 23 - 1"
    using slot_passed_ops [of i "allocs ops" ?x s2 ops'] small that x(1) handle_entry_passed [OF _ small]
    by (simp add: h add.commute)
  have other: "handle_entry g s2 = handle_entry g ?s" if "drop_bit SALT_BITS g \<noteq> drop_bit SALT_BITS h"
  proof -
    have "unat (drop_bit SALT_BITS g) \<noteq> i"
      using that index_handle_of(1) [OF small, of ?x] by (metis h unsigned_word_eqI)
    then show ?thesis
      using handle_entry_other [of g i ?s] by (simp add: s2)
  qed
  show ?thesis
    using entry gone other status by (auto simp: OI_HANDLE_Deref_def OI_HANDLE_IsValid_def)
qed

text \<open>When the salt reaches a multiple of two to the power of 23, freeing the handle succeeds but changes
  nothing that a check sees: the freed handle still leads to the data and can be freed again. In the first
  slot the handle is even \<open>NULL\<close>, although the slot is taken.\<close>

theorem handle_zero_salt:
  assumes "handles_ok s" "free_handle (handles s) 0 = Some i" "data \<noteq> 0" "bump (next_salt s) AND SALT_MASK = 0"
    and "OI_HANDLE_Alloc ty data s = (h, s')" "OI_HANDLE_Free h s' = (status, s'')"
  shows "status = OI_OK \<and> OI_HANDLE_Deref h s'' = data \<and> OI_HANDLE_IsValid h ty s'' \<and>
    fst (OI_HANDLE_Free h s'') = OI_OK \<and> (h = 0 \<longleftrightarrow> i = 0)"
proof -
  let ?salt = "bump (next_salt s)"
  have i: "i < OI_MAX_HANDLES" "length (handles s) = OI_MAX_HANDLES"
    using free_handle_Some [OF assms(2)] assms(1) by (simp_all add: handles_ok_def)
  from assms(2,3,5) have h: "h = handle_of i ?salt"
    and s': "s' = \<lparr>handles = (handles s)[i := \<lparr>refData = data, handleType = ty, h_salt = ?salt\<rparr>], next_salt = ?salt\<rparr>"
    by (auto simp: OI_HANDLE_Alloc_def Let_def)
  have entry: "handle_entry h s' = Some (i, \<lparr>refData = data, handleType = ty, h_salt = ?salt\<rparr>)"
    using i by (simp add: h s' handle_entry_own)
  from assms(6) have s'': "s'' = \<lparr>handles = (handles s)[i := \<lparr>refData = data, handleType = ty, h_salt = 0\<rparr>], next_salt = ?salt\<rparr>"
    and status: "status = OI_OK"
    unfolding OI_HANDLE_Free_def entry by (auto simp: s')
  have still: "handle_entry h s'' = Some (i, \<lparr>refData = data, handleType = ty, h_salt = 0\<rparr>)"
    using i assms(4) by (simp add: h s'' handle_entry_own)
  have "h = 0 \<longleftrightarrow> i = 0"
  proof
    assume "h = 0"
    then show "i = 0"
      using index_handle_of(1) [OF i(1), of ?salt] by (simp add: h)
  qed (simp add: h handle_of_def assms(4))
  with still status show ?thesis
    by (simp add: OI_HANDLE_Deref_def OI_HANDLE_IsValid_def OI_HANDLE_Free_def)
qed

lemma initial_handles_ok: "handles_ok initial_handles" "free_handle (handles initial_handles) 0 = Some 0"
  by (simp_all add: handles_ok_def initial_handles_def OI_MAX_HANDLES_def replicate_eq_replicate numeral_eq_Suc)

lemma handle_life_witness:
  "let (h, s1) = OI_HANDLE_Alloc 5 77 initial_handles; s = handle_ops [ALLOC 6 88] s1; s2 = snd (OI_HANDLE_Free h s) in
     OI_HANDLE_Deref h s = 77 \<and> OI_HANDLE_Deref h (handle_ops [ALLOC 7 99] s2) = 0"
proof -
  obtain h s1 where alloc: "OI_HANDLE_Alloc 5 77 initial_handles = (h, s1)"
    by fastforce
  obtain st s2 where free: "OI_HANDLE_Free h (handle_ops [ALLOC 6 88] s1) = (st, s2)"
    by fastforce
  have "h AND SALT_MASK = bump (next_salt initial_handles) AND SALT_MASK"
    using alloc initial_handles_ok(2) index_handle_of(2) [of 0] by (auto simp: OI_HANDLE_Alloc_def OI_MAX_HANDLES_def Let_def)
  also have "\<dots> \<noteq> 0"
    by (simp add: bump_def initial_handles_def SALT_MASK_eq mask_eq_exp_minus_1)
  finally show ?thesis
    using handle_life [OF initial_handles_ok(1) alloc _ _ free, of 5 0 "[ALLOC 7 99]"] alloc free by simp
qed

lemma handle_zero_salt_witness:
  "let (h, s') = OI_HANDLE_Alloc 5 77 (initial_handles\<lparr>next_salt := 0x4E7FFFFF\<rparr>); (status, s'') = OI_HANDLE_Free h s' in
     h = 0 \<and> OI_HANDLE_Deref h s'' = 77"
proof -
  let ?s = "initial_handles\<lparr>next_salt := 0x4E7FFFFF\<rparr>"
  obtain h s' where alloc: "OI_HANDLE_Alloc 5 77 ?s = (h, s')"
    by fastforce
  obtain st s'' where free: "OI_HANDLE_Free h s' = (st, s'')"
    by fastforce
  have "bump (next_salt ?s) AND SALT_MASK = 0"
    by (simp add: bump_def SALT_MASK_eq mask_eq_exp_minus_1)
  moreover have "handles_ok ?s" "free_handle (handles ?s) 0 = Some 0"
    using initial_handles_ok by (simp_all add: handles_ok_def)
  ultimately show ?thesis
    using handle_zero_salt [OF _ _ _ _ alloc free, of 0] unfolding Let_def alloc prod.case free by auto
qed

section \<open>The simple map\<close>

text \<open>The entries in the order of the list, each with its address.\<close>

record Entry =
  en_addr :: nat
  en_key :: nat
  en_ns :: nat
  en_value :: nat

definition entry_for :: "nat \<Rightarrow> nat \<Rightarrow> Entry \<Rightarrow> bool" where
  "entry_for key ns e \<longleftrightarrow> en_key e = key \<and> en_ns e = ns"

definition Get :: "nat \<Rightarrow> nat \<Rightarrow> Entry list \<Rightarrow> Entry option" where
  "Get key ns m = find (entry_for key ns) m"

text \<open>\<open>malloc\<close> is the address of a new entry, or nothing.\<close>

definition OI_SimpleMap_Add :: "nat option \<Rightarrow> nat \<Rightarrow> nat \<Rightarrow> nat \<Rightarrow> Entry list \<Rightarrow> Entry list" where
  "OI_SimpleMap_Add malloc key ns v m =
     (case Get key ns m of
        Some e \<Rightarrow> map (\<lambda>x. if en_addr x = en_addr e then x\<lparr>en_value := v\<rparr> else x) m
      | None \<Rightarrow> (case malloc of None \<Rightarrow> m | Some a \<Rightarrow> \<lparr>en_addr = a, en_key = key, en_ns = ns, en_value = v\<rparr> # m))"

fun OI_SimpleMap_Remove :: "nat \<Rightarrow> nat \<Rightarrow> Entry list \<Rightarrow> nat \<times> Entry list" where
  "OI_SimpleMap_Remove key ns [] = (0, [])"
| "OI_SimpleMap_Remove key ns (e # m) =
     (if entry_for key ns e then (en_value e, m)
      else let (v, m) = OI_SimpleMap_Remove key ns m in (v, e # m))"

definition OI_SimpleMap_Get :: "nat \<Rightarrow> nat \<Rightarrow> Entry list \<Rightarrow> nat" where
  "OI_SimpleMap_Get key ns m = (case Get key ns m of Some e \<Rightarrow> en_value e | None \<Rightarrow> 0)"

text \<open>The iterator is \<open>NULL\<close>, the address of an entry, or its own address as the end marker.\<close>

datatype ITER = ITER_NULL | ITER_AT nat | ITER_END

fun enum_from :: "nat \<Rightarrow> Entry list \<Rightarrow> nat \<times> ITER" where
  "enum_from ns [] = (0, ITER_NULL)"
| "enum_from ns (e # m) =
     (if en_ns e = ns then (en_key e, case m of [] \<Rightarrow> ITER_END | x # _ \<Rightarrow> ITER_AT (en_addr x)) else enum_from ns m)"

definition OI_SimpleMap_Enum :: "ITER \<Rightarrow> nat \<Rightarrow> Entry list \<Rightarrow> (nat \<times> ITER) option" where
  "OI_SimpleMap_Enum iter ns m =
     (case iter of
        ITER_END \<Rightarrow> Some (0, ITER_NULL)
      | ITER_NULL \<Rightarrow> Some (enum_from ns m)
      | ITER_AT a \<Rightarrow> (let rest = dropWhile (\<lambda>e. en_addr e \<noteq> a) m in if rest = [] then None else Some (enum_from ns rest)))"

subsection \<open>The map it implements\<close>

definition map_ok :: "Entry list \<Rightarrow> bool" where
  "map_ok m \<longleftrightarrow> distinct (map en_addr m) \<and> distinct (map (\<lambda>e. (en_key e, en_ns e)) m)"

definition contents :: "Entry list \<Rightarrow> nat \<times> nat \<Rightarrow> nat option" where
  "contents m = map_of (map (\<lambda>e. ((en_key e, en_ns e), en_value e)) m)"

lemma contents_simps [simp]:
  "contents [] = Map.empty" "contents (e # m) = (contents m)((en_key e, en_ns e) \<mapsto> en_value e)"
  by (simp_all add: contents_def)

lemma contents_None: "contents m (key, ns) = None \<longleftrightarrow> (\<forall>e \<in> set m. \<not> entry_for key ns e)"
  by (induction m) (auto simp: entry_for_def)

lemma contents_Get: "map_option en_value (Get key ns m) = contents m (key, ns)"
  by (induction m) (auto simp: Get_def entry_for_def)

lemma Get_None: "Get key ns m = None \<longleftrightarrow> contents m (key, ns) = None"
  by (simp flip: contents_Get)

lemma Get_Some: "Get key ns m = Some e \<Longrightarrow> e \<in> set m \<and> entry_for key ns e"
  by (auto simp: Get_def find_Some_iff)

lemma map_ok_Cons: "map_ok (e # m) \<longleftrightarrow> map_ok m \<and> en_addr e \<notin> en_addr ` set m \<and> contents m (en_key e, en_ns e) = None"
  by (auto simp: map_ok_def contents_None entry_for_def image_iff)

lemma set_value_keys:
  "map (\<lambda>e. (en_key e, en_ns e)) (map (\<lambda>x. if P x then x\<lparr>en_value := v\<rparr> else x) m) = map (\<lambda>e. (en_key e, en_ns e)) m"
  "map en_addr (map (\<lambda>x. if P x then x\<lparr>en_value := v\<rparr> else x) m) = map en_addr m"
  by (induction m) auto

lemma set_value_contents:
  assumes "map_ok m" "e \<in> set m" "entry_for key ns e"
  shows "contents (map (\<lambda>x. if en_addr x = en_addr e then x\<lparr>en_value := v\<rparr> else x) m) = (contents m)((key, ns) \<mapsto> v)"
  using assms
proof (induction m)
  case (Cons x m)
  show ?case
  proof (cases "x = e")
    case True
    have "map (\<lambda>x. if en_addr x = en_addr e then x\<lparr>en_value := v\<rparr> else x) m = m"
      using Cons.prems(1) True by (intro map_idI) (auto simp: map_ok_Cons image_iff)
    with True Cons.prems(3) show ?thesis
      by (auto simp: entry_for_def fun_eq_iff)
  next
    case False
    then have e: "e \<in> set m" "en_addr x \<noteq> en_addr e" "(en_key x, en_ns x) \<noteq> (key, ns)"
      using Cons.prems by (auto simp: map_ok_Cons contents_None entry_for_def image_iff)
    with Cons.IH Cons.prems(1,3) show ?thesis
      by (auto simp: map_ok_Cons fun_upd_twist)
  qed
qed simp

lemma map_ok_set_value: "map_ok m \<Longrightarrow> map_ok (map (\<lambda>x. if P x then x\<lparr>en_value := v\<rparr> else x) m)"
  unfolding map_ok_def set_value_keys .

text \<open>C39: The simple map is a map from keys in their namespace: adding sets the value of the key and of no
  other, removing gives the value that was there and takes out only this key, and a key occurs once.\<close>

theorem SimpleMap_refines:
  assumes "map_ok m" "a \<notin> en_addr ` set m"
  shows "OI_SimpleMap_Get key ns m = (case contents m (key, ns) of Some v \<Rightarrow> v | None \<Rightarrow> 0) \<and>
    map_ok (OI_SimpleMap_Add (Some a) key ns v m) \<and>
    contents (OI_SimpleMap_Add (Some a) key ns v m) = (contents m)((key, ns) \<mapsto> v) \<and>
    map_ok (snd (OI_SimpleMap_Remove key ns m)) \<and>
    fst (OI_SimpleMap_Remove key ns m) = OI_SimpleMap_Get key ns m \<and>
    contents (snd (OI_SimpleMap_Remove key ns m)) = (contents m)((key, ns) := None)"
proof -
  have get: "OI_SimpleMap_Get key ns m = (case contents m (key, ns) of Some v \<Rightarrow> v | None \<Rightarrow> 0)" for m
    by (simp add: OI_SimpleMap_Get_def flip: contents_Get) (simp split: option.split)
  have add: "map_ok (OI_SimpleMap_Add (Some a) key ns v m) \<and> contents (OI_SimpleMap_Add (Some a) key ns v m) = (contents m)((key, ns) \<mapsto> v)"
  proof (cases "Get key ns m")
    case None
    then have "contents m (key, ns) = None"
      by (simp only: Get_None)
    then show ?thesis
      using assms None by (simp add: OI_SimpleMap_Add_def map_ok_Cons)
  next
    case (Some e)
    then show ?thesis
      using assms(1) Get_Some [OF Some] set_value_contents [of m e key ns v]
      by (simp add: OI_SimpleMap_Add_def map_ok_set_value)
  qed
  have "map_ok (snd (OI_SimpleMap_Remove key ns m)) \<and> fst (OI_SimpleMap_Remove key ns m) = OI_SimpleMap_Get key ns m \<and>
      contents (snd (OI_SimpleMap_Remove key ns m)) = (contents m)((key, ns) := None) \<and>
      set (snd (OI_SimpleMap_Remove key ns m)) \<subseteq> set m"
    using assms(1)
  proof (induction m)
    case (Cons e m)
    then show ?case
      by (auto simp: get map_ok_Cons entry_for_def split_beta Let_def fun_upd_twist split: option.splits)
  qed (simp add: get map_ok_def)
  with get add show ?thesis
    by blast
qed

lemma SimpleMap_refines_witness:
  "fst (OI_SimpleMap_Remove 1 9 (OI_SimpleMap_Add (Some 100) 1 9 42 [])) = 42"
proof -
  have "map_ok (OI_SimpleMap_Add (Some 100) 1 9 42 [])" "contents (OI_SimpleMap_Add (Some 100) 1 9 42 []) (1, 9) = Some 42"
    using SimpleMap_refines [of "[]" 100 1 9 42] by (simp_all add: map_ok_def)
  then show ?thesis
    using SimpleMap_refines [of "OI_SimpleMap_Add (Some 100) 1 9 42 []" 101 1 9 0]
    by (simp add: OI_SimpleMap_Add_def Get_def)
qed

subsection \<open>Enumeration\<close>

text \<open>Calls until \<open>NULL\<close> is returned, at most \<open>n\<close> of them.\<close>

fun enum_calls :: "nat \<Rightarrow> ITER \<Rightarrow> nat \<Rightarrow> Entry list \<Rightarrow> (nat list \<times> ITER) option" where
  "enum_calls 0 iter ns m = None"
| "enum_calls (Suc n) iter ns m = do {
     (key, iter) \<leftarrow> OI_SimpleMap_Enum iter ns m;
     if key = 0 then Some ([], iter)
     else do {
       (keys, iter) \<leftarrow> enum_calls n iter ns m;
       Some (key # keys, iter)
     }
   }"

lemma dropWhile_address:
  "distinct (map en_addr (xs @ y # ys)) \<Longrightarrow> dropWhile (\<lambda>e. en_addr e \<noteq> en_addr y) (xs @ y # ys) = y # ys"
  by (induction xs) auto

text \<open>The iterator that stands for the rest of the list.\<close>

definition at_rest :: "Entry list \<Rightarrow> ITER" where
  "at_rest rest = (case rest of [] \<Rightarrow> ITER_END | e # _ \<Rightarrow> ITER_AT (en_addr e))"

lemma Enum_rest:
  "distinct (map en_addr (xs @ rest)) \<Longrightarrow> OI_SimpleMap_Enum (at_rest rest) ns (xs @ rest) = Some (enum_from ns rest)"
  by (cases rest) (auto simp: at_rest_def OI_SimpleMap_Enum_def dropWhile_address)

lemma enum_from_cases:
  "enum_from ns rest = (case dropWhile (\<lambda>e. en_ns e \<noteq> ns) rest of [] \<Rightarrow> (0, ITER_NULL) | e # m \<Rightarrow> (en_key e, at_rest m))"
  by (induction rest) (auto simp: at_rest_def)

lemma enum_calls_rest:
  assumes "distinct (map en_addr (xs @ rest))" "\<forall>e \<in> set rest. en_key e \<noteq> 0" "length rest < n"
  shows "enum_calls n (at_rest rest) ns (xs @ rest) = Some (map en_key (filter (\<lambda>e. en_ns e = ns) rest), ITER_NULL)"
  using assms
proof (induction n arbitrary: xs rest)
  case (Suc n)
  note enum = Enum_rest [OF Suc.prems(1), of ns] enum_from_cases [of ns rest]
  show ?case
  proof (cases "dropWhile (\<lambda>e. en_ns e \<noteq> ns) rest")
    case Nil
    then have "filter (\<lambda>e. en_ns e = ns) rest = []"
      by (simp add: filter_empty_conv dropWhile_eq_Nil_conv)
    with enum Nil show ?thesis
      by simp
  next
    case (Cons e m)
    define ys where "ys = takeWhile (\<lambda>e. en_ns e \<noteq> ns) rest"
    have rest: "rest = ys @ e # m"
      unfolding ys_def Cons [symmetric] by simp
    have "filter (\<lambda>e. en_ns e = ns) ys = []" "en_ns e = ns"
      using hd_dropWhile [of "\<lambda>e. en_ns e \<noteq> ns" rest] Cons by (auto simp: ys_def filter_empty_conv dest: set_takeWhileD)
    then have keys: "filter (\<lambda>e. en_ns e = ns) rest = e # filter (\<lambda>e. en_ns e = ns) m"
      by (simp add: rest)
    have "enum_calls n (at_rest m) ns ((xs @ ys @ [e]) @ m) = Some (map en_key (filter (\<lambda>e. en_ns e = ns) m), ITER_NULL)"
      using Suc.prems by (intro Suc.IH) (auto simp: rest)
    moreover have "en_key e \<noteq> 0"
      using Suc.prems(2) by (simp add: rest)
    ultimately show ?thesis
      using enum Cons by (simp add: keys monad_simps) (simp add: rest)
  qed
qed simp

text \<open>Enumerating a namespace ends: after at most one call more than there are entries it returns \<open>NULL\<close>
  with the iterator reset, and the calls before gave every key of the namespace once.\<close>

theorem SimpleMap_Enum_all:
  assumes "map_ok m" "\<forall>e \<in> set m. en_key e \<noteq> 0"
  shows "\<exists>keys. enum_calls (Suc (length m)) ITER_NULL ns m = Some (keys, ITER_NULL) \<and> distinct keys \<and>
    set keys = {key. contents m (key, ns) \<noteq> None}"
proof -
  have "enum_calls (Suc (length m)) (at_rest m) ns ([] @ m) = Some (map en_key (filter (\<lambda>e. en_ns e = ns) m), ITER_NULL)"
    using assms by (intro enum_calls_rest) (simp_all add: map_ok_def)
  moreover have "enum_calls (Suc (length m)) ITER_NULL ns m = enum_calls (Suc (length m)) (at_rest m) ns ([] @ m)"
  proof (cases m)
    case Nil
    then show ?thesis by (simp add: at_rest_def OI_SimpleMap_Enum_def)
  next
    case (Cons e m')
    then show ?thesis
      by (simp add: at_rest_def OI_SimpleMap_Enum_def)
  qed
  moreover have "distinct (map en_key (filter (\<lambda>e. en_ns e = ns) m))"
  proof -
    have "distinct (map (\<lambda>e. (en_key e, en_ns e)) (filter (\<lambda>e. en_ns e = ns) m))"
      using assms(1) by (simp add: map_ok_def distinct_map_filter)
    then show ?thesis
      by (auto simp: distinct_map inj_on_def)
  qed
  moreover have "set (map en_key (filter (\<lambda>e. en_ns e = ns) m)) = {key. contents m (key, ns) \<noteq> None}"
    by (auto simp: contents_None entry_for_def)
  ultimately show ?thesis
    by auto
qed

lemma SimpleMap_Enum_all_witness:
  "\<exists>keys. enum_calls 2 ITER_NULL 9 [\<lparr>en_addr = 100, en_key = 1, en_ns = 9, en_value = 42\<rparr>] = Some (keys, ITER_NULL)"
  using SimpleMap_Enum_all [of "[\<lparr>en_addr = 100, en_key = 1, en_ns = 9, en_value = 42\<rparr>]" 9]
  by (auto simp: map_ok_def numeral_2_eq_2)

section \<open>Doubly linked lists\<close>

text \<open>The memory gives each element its \<open>next\<close> and \<open>prev\<close>; following a pointer to no element is undefined.\<close>

record OI_LIST_ELEM =
  el_next :: nat
  el_prev :: nat

type_synonym list_memory = "nat \<Rightarrow> OI_LIST_ELEM option"

definition set_next :: "nat \<Rightarrow> nat \<Rightarrow> list_memory \<Rightarrow> list_memory option" where
  "set_next a x h = do { e \<leftarrow> h a; Some (h(a \<mapsto> e\<lparr>el_next := x\<rparr>)) }"

definition set_prev :: "nat \<Rightarrow> nat \<Rightarrow> list_memory \<Rightarrow> list_memory option" where
  "set_prev a x h = do { e \<leftarrow> h a; Some (h(a \<mapsto> e\<lparr>el_prev := x\<rparr>)) }"

definition list_link :: "nat \<Rightarrow> nat \<Rightarrow> nat \<Rightarrow> list_memory \<Rightarrow> list_memory option" where
  "list_link newElem prev next h =
     (if newElem = 0 \<or> prev = 0 \<or> next = 0 then Some h
      else do {
        h \<leftarrow> set_next prev newElem h;
        h \<leftarrow> set_next newElem next h;
        h \<leftarrow> set_prev newElem prev h;
        set_prev next newElem h
      })"

definition OI_List_DynamicInit :: "nat \<Rightarrow> list_memory \<Rightarrow> list_memory option" where
  "OI_List_DynamicInit elem h =
     (if elem = 0 then Some h else do { h \<leftarrow> set_prev elem elem h; set_next elem elem h })"

definition OI_List_Add :: "nat \<Rightarrow> nat \<Rightarrow> list_memory \<Rightarrow> list_memory option" where
  "OI_List_Add newElem list h = (if list = 0 then Some h else do { l \<leftarrow> h list; list_link newElem list (el_next l) h })"

definition OI_List_AddTail :: "nat \<Rightarrow> nat \<Rightarrow> list_memory \<Rightarrow> list_memory option" where
  "OI_List_AddTail newElem list h = (if list = 0 then Some h else do { l \<leftarrow> h list; list_link newElem (el_prev l) list h })"

definition OI_List_Del :: "nat \<Rightarrow> list_memory \<Rightarrow> (nat \<times> list_memory) option" where
  "OI_List_Del elem h =
     (if elem = 0 then Some (0, h)
      else do {
        e \<leftarrow> h elem;
        p \<leftarrow> h (el_prev e);
        n \<leftarrow> h (el_next e);
        if el_next p \<noteq> elem \<or> el_prev n \<noteq> elem then Some (elem, h)
        else do {
          h \<leftarrow> set_next (el_prev e) (el_next e) h;
          h \<leftarrow> set_prev (el_next e) (el_prev e) h;
          h \<leftarrow> set_next elem 0 h;
          h \<leftarrow> set_prev elem 0 h;
          Some (el_prev e, h)
        }
      })"

definition OI_List_IsEmpty :: "nat \<Rightarrow> list_memory \<Rightarrow> bool option" where
  "OI_List_IsEmpty head h = map_option (\<lambda>l. el_next l = head) (h head)"

definition OI_List_RemoveHead :: "nat \<Rightarrow> list_memory \<Rightarrow> (nat \<times> list_memory) option" where
  "OI_List_RemoveHead list h =
     (if list = 0 then Some (0, h)
      else do {
        empty \<leftarrow> OI_List_IsEmpty list h;
        if empty then Some (0, h)
        else do {
          l \<leftarrow> h list;
          (_, h) \<leftarrow> OI_List_Del (el_next l) h;
          Some (el_next l, h)
        }
      })"

partial_function (option) count_from :: "nat \<Rightarrow> nat \<Rightarrow> list_memory \<Rightarrow> u32 \<Rightarrow> u32 option" where
  "count_from pos list h count =
     (if pos = list then Some count
      else Option.bind (h pos) (\<lambda>e. count_from (el_next e) list h (count + 1)))"

definition OI_List_CountElements :: "nat \<Rightarrow> list_memory \<Rightarrow> u32 option" where
  "OI_List_CountElements list h = do { l \<leftarrow> h list; count_from (el_next l) list h 0 }"

subsection \<open>The sequence a list stands for\<close>

fun segment :: "list_memory \<Rightarrow> nat \<Rightarrow> nat list \<Rightarrow> nat \<Rightarrow> bool" where
  "segment h a [] b \<longleftrightarrow> True"
| "segment h a (x # xs) b \<longleftrightarrow> h x = Some \<lparr>el_next = hd (xs @ [b]), el_prev = a\<rparr> \<and> segment h x xs b"

definition ring :: "list_memory \<Rightarrow> nat \<Rightarrow> nat list \<Rightarrow> bool" where
  "ring h l xs \<longleftrightarrow> distinct (l # xs) \<and> 0 \<notin> set (l # xs) \<and>
     h l = Some \<lparr>el_next = hd (xs @ [l]), el_prev = last (l # xs)\<rparr> \<and> segment h l xs l"

lemma segment_append: "segment h a (xs @ ys) b \<longleftrightarrow> segment h a xs (hd (ys @ [b])) \<and> segment h (last (a # xs)) ys b"
  by (induction xs arbitrary: a) auto

lemma segment_other: "q \<notin> set xs \<Longrightarrow> segment (h(q := v)) a xs b = segment h a xs b"
  by (induction xs arbitrary: a) auto

text \<open>The ring taken apart at a place: the elements before and after it.\<close>

lemma ring_split:
  "ring h l (xs @ ys) \<longleftrightarrow> distinct (l # xs @ ys) \<and> 0 \<notin> set (l # xs @ ys) \<and>
     h l = Some \<lparr>el_next = hd (xs @ ys @ [l]), el_prev = last (l # xs @ ys)\<rparr> \<and>
     segment h l xs (hd (ys @ [l])) \<and> segment h (last (l # xs)) ys l"
  unfolding ring_def segment_append by auto

lemma list_link_ring:
  assumes "ring h l (xs @ ys)" "x \<notin> set (l # xs @ ys)" "x \<noteq> 0" "h x = Some e"
  shows "\<exists>h'. list_link x (last (l # xs)) (hd (ys @ [l])) h = Some h' \<and> ring h' l (xs @ x # ys)"
proof (cases xs rule: rev_cases)
  case Nil
  show ?thesis
  proof (cases ys)
    case Nil
    with assms \<open>xs = []\<close> show ?thesis
      by (auto simp: ring_def list_link_def set_next_def set_prev_def monad_simps)
  next
    case (Cons y zs)
    with assms \<open>xs = []\<close> show ?thesis
      by (auto simp: ring_def list_link_def set_next_def set_prev_def monad_simps segment_other)
  qed
next
  case (snoc us u)
  show ?thesis
  proof (cases ys)
    case Nil
    with assms snoc show ?thesis
      by (auto simp: ring_def list_link_def set_next_def set_prev_def monad_simps segment_other segment_append hd_append)
  next
    case (Cons y zs)
    with assms snoc show ?thesis
      by (auto simp: ring_def list_link_def set_next_def set_prev_def monad_simps segment_other segment_append hd_append)
  qed
qed

lemma OI_List_Del_ring:
  assumes "ring h l (xs @ x # ys)"
  shows "\<exists>h'. OI_List_Del x h = Some (last (l # xs), h') \<and> ring h' l (xs @ ys) \<and> h' x = Some \<lparr>el_next = 0, el_prev = 0\<rparr>"
proof (cases xs rule: rev_cases)
  case Nil
  show ?thesis
  proof (cases ys)
    case Nil
    with assms \<open>xs = []\<close> show ?thesis
      by (auto simp: ring_def OI_List_Del_def set_next_def set_prev_def monad_simps)
  next
    case (Cons y zs)
    with assms \<open>xs = []\<close> show ?thesis
      by (auto simp: ring_def OI_List_Del_def set_next_def set_prev_def monad_simps segment_other)
  qed
next
  case (snoc us u)
  show ?thesis
  proof (cases ys)
    case Nil
    with assms snoc show ?thesis
      by (auto simp: ring_def OI_List_Del_def set_next_def set_prev_def monad_simps segment_other segment_append hd_append)
  next
    case (Cons y zs)
    with assms snoc show ?thesis
      by (auto simp: ring_def OI_List_Del_def set_next_def set_prev_def monad_simps segment_other segment_append hd_append)
  qed
qed

lemma count_from_segment:
  "segment h a xs l \<Longrightarrow> l \<notin> set xs \<Longrightarrow> count_from (hd (xs @ [l])) l h n = Some (n + of_nat (length xs))"
proof (induction xs arbitrary: a n)
  case Nil
  then show ?case
    by (simp add: count_from.simps [of l l h])
next
  case (Cons x xs)
  then show ?case
    using Cons.IH [of x "n + 1"] by (simp add: count_from.simps [of x l h])
qed

text \<open>C40: The list operations keep the ring of forward and backward pointers and are the operations on the
  sequence of elements, which may be empty: adding an element at the front and at the end, deleting an element
  wherever it is, removing the first, which gives \<open>NULL\<close> and changes nothing if there is none, and counting.\<close>

theorem OI_List_refines:
  assumes "ring h l xs" "x \<notin> set (l # xs)" "x \<noteq> 0" "h x \<noteq> None"
  shows "(\<exists>h'. OI_List_Add x l h = Some h' \<and> ring h' l (x # xs)) \<and>
    (\<exists>h'. OI_List_AddTail x l h = Some h' \<and> ring h' l (xs @ [x])) \<and>
    (\<forall>y \<in> set xs. \<exists>p h'. OI_List_Del y h = Some (p, h') \<and> ring h' l (remove1 y xs)) \<and>
    (\<exists>h'. OI_List_RemoveHead l h = Some (if xs = [] then 0 else hd xs, h') \<and> ring h' l (tl xs) \<and> (xs = [] \<longrightarrow> h' = h)) \<and>
    OI_List_CountElements l h = Some (of_nat (length xs))"
proof (intro conjI ballI)
  have l: "h l = Some \<lparr>el_next = hd (xs @ [l]), el_prev = last (l # xs)\<rparr>" "l \<noteq> 0" "segment h l xs l" "l \<notin> set xs" "distinct xs"
    using assms(1) by (simp_all add: ring_def)
  obtain e where e: "h x = Some e"
    using assms(4) by blast
  show "\<exists>h'. OI_List_Add x l h = Some h' \<and> ring h' l (x # xs)"
    using list_link_ring [of h l "[]" xs x e] assms(1-3) e l by (simp add: OI_List_Add_def)
  show "\<exists>h'. OI_List_AddTail x l h = Some h' \<and> ring h' l (xs @ [x])"
    using list_link_ring [of h l xs "[]" x e] assms(1-3) e l by (simp add: OI_List_AddTail_def)
  show "\<exists>p h'. OI_List_Del y h = Some (p, h') \<and> ring h' l (remove1 y xs)" if y: "y \<in> set xs" for y
  proof -
    obtain us vs where "xs = us @ y # vs" "y \<notin> set us"
      using split_list_first [OF y] by blast
    then show ?thesis
      using OI_List_Del_ring [of h l us y vs] assms(1) by (auto simp: remove1_append)
  qed
  show "\<exists>h'. OI_List_RemoveHead l h = Some (if xs = [] then 0 else hd xs, h') \<and> ring h' l (tl xs) \<and> (xs = [] \<longrightarrow> h' = h)"
  proof (cases xs)
    case Nil
    then show ?thesis
      using assms(1) l by (simp add: OI_List_RemoveHead_def OI_List_IsEmpty_def)
  next
    case (Cons z zs)
    then show ?thesis
      using OI_List_Del_ring [of h l "[]" z zs] assms(1) l by (auto simp: OI_List_RemoveHead_def OI_List_IsEmpty_def)
  qed
  show "OI_List_CountElements l h = Some (of_nat (length xs))"
    using count_from_segment [OF l(3,4)] l(1) by (simp add: OI_List_CountElements_def)
qed

text \<open>A list with the elements 20 and 30 and the header 10, and an element 40 apart.\<close>

definition demo_list :: list_memory where
  "demo_list = [10 \<mapsto> \<lparr>el_next = 20, el_prev = 30\<rparr>, 20 \<mapsto> \<lparr>el_next = 30, el_prev = 10\<rparr>, 30 \<mapsto> \<lparr>el_next = 10, el_prev = 20\<rparr>,
     40 \<mapsto> \<lparr>el_next = 0, el_prev = 0\<rparr>]"

lemma OI_List_refines_witness:
  "\<exists>p h'. OI_List_Del 20 demo_list = Some (p, h') \<and> ring h' 10 [30]"
proof -
  have "ring demo_list 10 [20, 30]"
    by (simp add: ring_def demo_list_def)
  from OI_List_refines [OF this, of 40] show ?thesis
    by (simp add: demo_list_def)
qed

end
