(* ===== verification/ObexCli.thy ===== *)
theory ObexCli
  imports ObexShared Containers
begin

unbundle bit_operations_syntax

text \<open>
  The OBEX client of \<open>profiles/obex/obexcli.c\<close>, first part: the state, the end of a connection, the
  timeouts and the sending of packets.

  The connections are records of a heap. A handle is looked up in the table of handles, which the
  client shares with other modules, and leads to an address; a function that follows an address
  where no connection is, because it has been freed or belongs to something else, is undefined
  (\<^term>\<open>None\<close>). The dispatcher and the bulk data blocks are the same as those of the server.

  Parameters, in the record \<open>CLI_ENV\<close>: the functions of the lower layer, which act on a world of their
  own; the application's callbacks, which may do anything to the whole state, calls of the client's
  functions included; the answers of the allocator, by call and by allocation; the configuration.

  A function pointer is a number that stands for a function of the application, 0 for \<open>NULL\<close>; a call
  through \<open>NULL\<close> is undefined.
\<close>

section \<open>Data\<close>

text \<open>The order of the states matters.\<close>

datatype CLI_CONNECTION_STATE =
    INVALID_CONNECTION | LOWER_LAYER_CONNECTING | LOWER_LAYER_CONNECTED | OBEX_DISCONNECTING
  | OBEX_CONNECTED | OBEX_ABORTING | OBEX_GETTING | OBEX_PUTTING | OBEX_SETTING_PATH | OBEX_BULK_PUTTING
  | OBEX_DO_ACTION

fun state_num :: "CLI_CONNECTION_STATE \<Rightarrow> nat" where
  "state_num INVALID_CONNECTION = 0"
| "state_num LOWER_LAYER_CONNECTING = 1"
| "state_num LOWER_LAYER_CONNECTED = 2"
| "state_num OBEX_DISCONNECTING = 3"
| "state_num OBEX_CONNECTED = 4"
| "state_num OBEX_ABORTING = 5"
| "state_num OBEX_GETTING = 6"
| "state_num OBEX_PUTTING = 7"
| "state_num OBEX_SETTING_PATH = 8"
| "state_num OBEX_BULK_PUTTING = 9"
| "state_num OBEX_DO_ACTION = 10"

instantiation CLI_CONNECTION_STATE :: linorder
begin

definition less_eq_state_def: "(a :: CLI_CONNECTION_STATE) \<le> b \<longleftrightarrow> state_num a \<le> state_num b"
definition less_state_def: "(a :: CLI_CONNECTION_STATE) < b \<longleftrightarrow> state_num a < state_num b"

instance
proof
  fix x y :: CLI_CONNECTION_STATE
  show "x \<le> y \<Longrightarrow> y \<le> x \<Longrightarrow> x = y"
    by (cases x; cases y) (simp_all add: less_eq_state_def)
qed (auto simp: less_eq_state_def less_state_def)

end

lemmas state_order = less_eq_state_def less_state_def

definition COMMAND_IN_PROGRESS :: "CLI_CONNECTION_STATE \<Rightarrow> bool" where
  "COMMAND_IN_PROGRESS state \<longleftrightarrow> state \<ge> OBEX_GETTING"

datatype ABORT_STATE = NO_ABORT | ABORT_PENDING | ABORT_SENT

datatype OI_OBEXCLI_AUTHENTICATION =
  OI_OBEXCLI_AUTH_NONE | OI_OBEXCLI_AUTH_PASSWORD | OI_OBEXCLI_AUTH_USERID_AND_PASSWORD

text \<open>The union \<open>CB\<close> of a connection. Its first word is shared by the callback of the operation in
  progress and the status of a bulk transfer; the three pointers of a bulk transfer lie behind it.\<close>

datatype CB_KIND = K_PUT | K_GET | K_CONNECT | K_SETPATH | K_ACTION

datatype CB_WORD = CBW_zero | CBW_fn CB_KIND nat | CBW_status OI_STATUS

datatype ABORT_FN = NO_FN | DefaultAbortCfm | APP_FN nat

record OBEXCLI_CONNECTION =
  k_common :: OBEX_COMMON
  k_handle :: u32
  k_auth :: "OBEX_AUTHENTICATION option"
  k_authenticating :: bool
  k_readOnly :: bool
  k_pRawHeaders :: "OI_OBEX_HEADER_LIST option"
  srmpValid :: bool
  srmpWaitReceived :: bool
  k_maxRecvPktLen :: u16
  k_context :: nat
  responseTimeout :: OI_INTERVAL
  timeoutCB :: u32
  k_disconnectInd :: nat
  challengeCB :: nat
  progressCB :: nat
  bulkPutCfm :: nat
  cb_word :: CB_WORD
  cb_current :: nat
  cb_head :: nat
  cb_tail :: nat
  connectHdrs :: "OI_OBEX_HEADER list"
  k_cid :: u32
  k_abort :: ABORT_STATE
  abortingState :: CLI_CONNECTION_STATE
  abortConfirm :: ABORT_FN
  k_busy :: bool
  srmRequested :: bool
  disconnectingLowerLayer :: bool
  k_authRequired :: OI_OBEXCLI_AUTHENTICATION
  k_state :: CLI_CONNECTION_STATE

text \<open>The functions the client gives to the dispatcher. Their argument is the address of the
  connection; the status of a \<open>CommandError\<close> is kept with the function.\<close>

datatype CLI_FUNC = F_ResponseTimeout | F_CommandError OI_STATUS

record 'w OBEX_CLI =
  cl_conns :: "nat \<Rightarrow> OBEXCLI_CONNECTION option"
  cl_fresh :: nat
  cl_handles :: HANDLES
  cl_disp :: "CLI_FUNC DISPATCH_STATE"
  cl_heap :: "nat \<Rightarrow> BULK_NODE option"
  cl_freshNode :: nat
  cl_calls :: nat
  cl_initFlag :: u32
  cl_world :: 'w

text \<open>The callbacks of the application with their arguments, besides the handle of the connection.\<close>

datatype CLI_IND =
    CONNECT_CFM bool OI_STATUS
  | CLI_DISCONNECT_IND
  | CHALLENGE_IND bool "OI_OBEX_REALM option"
  | CLI_PROGRESS_IND u8 u32
  | BULK_PUT_CFM "(bytes option \<times> u32) list" OI_STATUS
  | PUT_CFM "OI_OBEX_HEADER list option" OI_STATUS
  | GET_RECV_DATA "OI_OBEX_HEADER list option" OI_STATUS
  | SETPATH_CFM OI_STATUS
  | ACTION_CFM OI_STATUS
  | ABORT_CFM

text \<open>The protocols below OBEX: what is not one of the three is kept as its number.\<close>

datatype LOWER_PROTOCOL = OI_OBEX_LOWER_RFCOMM | OI_OBEX_LOWER_L2CAP | OI_OBEX_LOWER_TCPIP | OTHER_PROTOCOL nat

record 'w CLI_ENV =
  v_write :: "nat \<Rightarrow> 'w \<Rightarrow> OI_MBUF \<Rightarrow> bool \<Rightarrow> bool \<Rightarrow> OI_STATUS \<times> bool \<times> 'w"
  v_disconnect :: "nat \<Rightarrow> 'w \<Rightarrow> OI_STATUS \<times> 'w"
  v_flowControl :: "nat \<Rightarrow> bool \<Rightarrow> 'w \<Rightarrow> 'w"
  v_connect :: "nat \<Rightarrow> bytes \<Rightarrow> LOWER_PROTOCOL \<Rightarrow> u16 \<Rightarrow> 'w \<Rightarrow> OI_STATUS \<times> 'w"
  v_getCID :: "nat \<Rightarrow> 'w \<Rightarrow> u16"
  v_app :: "nat \<Rightarrow> u32 \<Rightarrow> CLI_IND \<Rightarrow> 'w OBEX_CLI \<Rightarrow> 'w OBEX_CLI option"
  v_mem :: "nat \<Rightarrow> nat \<Rightarrow> bool"
  v_privateKey :: "bytes option"
  v_responseTimeout :: OI_INTERVAL
  v_maxPktLen :: u16
  v_timestamp :: bytes
  v_md5ctx :: MD5_CONTEXT
  v_psize :: nat

section \<open>Constants\<close>

definition OBEX_ABORT_TIMEOUT :: OI_INTERVAL where "OBEX_ABORT_TIMEOUT = OI_SECONDS 2"
definition OBEX_DISCONNECT_TIMEOUT :: OI_INTERVAL where "OBEX_DISCONNECT_TIMEOUT = OI_SECONDS 5"
definition ABORT_RSP_LEN :: nat where "ABORT_RSP_LEN = 3"
definition OI_OBEX_INVALID_CONNECTION_ID :: u32 where "OI_OBEX_INVALID_CONNECTION_ID = 0xFFFFFFFF"
definition OI_OBEX_SRM_PARAM_WAIT :: u8 where "OI_OBEX_SRM_PARAM_WAIT = 1"
definition OI_OBEX_RSP_CREATED :: u8 where "OI_OBEX_RSP_CREATED = 0x21"
definition OI_OBEX_CONNECT_FLAGS :: u8 where "OI_OBEX_CONNECT_FLAGS = 0"
definition OI_OBEX_MAX_CONNECT_HDRS :: nat where "OI_OBEX_MAX_CONNECT_HDRS = 4"
definition OI_OBEX_BODY_PKT_OVERHEAD :: u16 where "OI_OBEX_BODY_PKT_OVERHEAD = 6"

section \<open>The state\<close>

text \<open>Reading and changing the connection at an address, which must be there.\<close>

definition conn :: "nat \<Rightarrow> 'w OBEX_CLI \<Rightarrow> OBEXCLI_CONNECTION option" where
  "conn p s = cl_conns s p"

definition cset :: "nat \<Rightarrow> (OBEXCLI_CONNECTION \<Rightarrow> OBEXCLI_CONNECTION) \<Rightarrow> 'w OBEX_CLI \<Rightarrow> 'w OBEX_CLI option" where
  "cset p f s = map_option (\<lambda>c. s\<lparr>cl_conns := (cl_conns s)(p := Some (f c))\<rparr>) (conn p s)"

definition SetState_cli :: "nat \<Rightarrow> CLI_CONNECTION_STATE \<Rightarrow> 'w OBEX_CLI \<Rightarrow> 'w OBEX_CLI option" where
  "SetState_cli p st = cset p (\<lambda>c. c\<lparr>k_state := st\<rparr>)"

definition SetAbortState :: "nat \<Rightarrow> ABORT_STATE \<Rightarrow> 'w OBEX_CLI \<Rightarrow> 'w OBEX_CLI option" where
  "SetAbortState p st = cset p (\<lambda>c. c\<lparr>k_abort := st\<rparr>)"

definition set_busy :: "nat \<Rightarrow> bool \<Rightarrow> 'w OBEX_CLI \<Rightarrow> 'w OBEX_CLI option" where
  "set_busy p b = cset p (\<lambda>c. c\<lparr>k_busy := b\<rparr>)"

definition set_srm_cli :: "nat \<Rightarrow> (u8 \<Rightarrow> u8) \<Rightarrow> 'w OBEX_CLI \<Rightarrow> 'w OBEX_CLI option" where
  "set_srm_cli p f = cset p (\<lambda>c. c\<lparr>k_common := (k_common c)\<lparr>srm := f (srm (k_common c))\<rparr>\<rparr>)"

definition srm_on :: "OBEXCLI_CONNECTION \<Rightarrow> bool" where
  "srm_on c \<longleftrightarrow> srm (k_common c) AND OI_OBEX_SRM_ENABLED \<noteq> 0"

definition srm_supported :: "OBEXCLI_CONNECTION \<Rightarrow> bool" where
  "srm_supported c \<longleftrightarrow> srm (k_common c) AND OI_OBEX_SRM_SUPPORTED \<noteq> 0"

text \<open>The connection of a handle: an address and what is there. The first \<^term>\<open>None\<close> is a handle
  that leads nowhere.\<close>

definition LookupConnection_cli :: "u32 \<Rightarrow> 'w OBEX_CLI \<Rightarrow> (nat \<times> OBEXCLI_CONNECTION) option option" where
  "LookupConnection_cli h s =
     (let p = OI_HANDLE_Deref h (cl_handles s)
      in if p = 0 then Some None else map_option (\<lambda>c. Some (p, c)) (conn p s))"

text \<open>A call of the application.\<close>

definition call_app :: "'w CLI_ENV \<Rightarrow> nat \<Rightarrow> nat \<Rightarrow> CLI_IND \<Rightarrow> 'w OBEX_CLI \<Rightarrow> 'w OBEX_CLI option" where
  "call_app env p fn ind s = do {
     c \<leftarrow> conn p s;
     if fn = 0 then None else v_app env fn (k_handle c) ind s
   }"

text \<open>A call of the function in the union, which must have been stored under this name.\<close>

definition call_word :: "'w CLI_ENV \<Rightarrow> nat \<Rightarrow> CB_KIND \<Rightarrow> CLI_IND \<Rightarrow> 'w OBEX_CLI \<Rightarrow> 'w OBEX_CLI option" where
  "call_word env p kind ind s = do {
     c \<leftarrow> conn p s;
     case cb_word c of
       CBW_fn k fn \<Rightarrow> if k = kind then call_app env p fn ind s else None
     | _ \<Rightarrow> None
   }"

definition call_abortConfirm :: "'w CLI_ENV \<Rightarrow> nat \<Rightarrow> 'w OBEX_CLI \<Rightarrow> 'w OBEX_CLI option" where
  "call_abortConfirm env p s = do {
     c \<leftarrow> conn p s;
     case abortConfirm c of
       NO_FN \<Rightarrow> None
     | DefaultAbortCfm \<Rightarrow> Some s
     | APP_FN fn \<Rightarrow> call_app env p fn ABORT_CFM s
   }"

text \<open>The status of a bulk transfer; the number that a function pointer gives there is not known.\<close>

definition bulk_status :: "OBEXCLI_CONNECTION \<Rightarrow> OI_STATUS option" where
  "bulk_status c = (case cb_word c of CBW_zero \<Rightarrow> Some OI_OK | CBW_status st \<Rightarrow> Some st | CBW_fn _ _ \<Rightarrow> None)"

definition set_bulk_status :: "nat \<Rightarrow> OI_STATUS \<Rightarrow> 'w OBEX_CLI \<Rightarrow> 'w OBEX_CLI option" where
  "set_bulk_status p st = cset p (\<lambda>c. c\<lparr>cb_word := CBW_status st\<rparr>)"

definition cli_flow :: "'w CLI_ENV \<Rightarrow> nat \<Rightarrow> bool \<Rightarrow> 'w OBEX_CLI \<Rightarrow> 'w OBEX_CLI" where
  "cli_flow env p on s = s\<lparr>cl_world := v_flowControl env p on (cl_world s)\<rparr>"

definition cli_disconnect :: "'w CLI_ENV \<Rightarrow> nat \<Rightarrow> 'w OBEX_CLI \<Rightarrow> OI_STATUS \<times> 'w OBEX_CLI" where
  "cli_disconnect env p s = (let (status, w) = v_disconnect env p (cl_world s) in (status, s\<lparr>cl_world := w\<rparr>))"

section \<open>Confirming bulk data\<close>

text \<open>The walk over the blocks that are not confirmed yet: can all of them be?\<close>

partial_function (option) all_confirmed :: "(nat \<Rightarrow> BULK_NODE option) \<Rightarrow> nat \<Rightarrow> bool option" where
  "all_confirmed h p =
     (if p = 0 then Some True
      else Option.bind (h p) (\<lambda>n.
        if bytesConfirmed (bn_block n) < bytesSent (bn_block n) then Some False else all_confirmed h (bn_next n)))"

definition CanConfirmAllBulkPuts :: "nat \<Rightarrow> 'w OBEX_CLI \<Rightarrow> bool option" where
  "CanConfirmAllBulkPuts p s = do {
     c \<leftarrow> conn p s;
     all_confirmed (cl_heap s) (cb_head c)
   }"

text \<open>The status that the callback for a block gets: \<^term>\<open>None\<close> if the final block is not confirmed
  yet.\<close>

definition block_status :: "bool \<Rightarrow> OI_STATUS \<Rightarrow> OI_STATUS option" where
  "block_status final cfmStatus =
     (if final then if cfmStatus = OI_OBEX_CONTINUE then None else Some cfmStatus
      else Some (if OI_SUCCESS cfmStatus then OI_OBEX_CONTINUE else cfmStatus))"

definition unlink_head :: "nat \<Rightarrow> nat \<Rightarrow> nat \<Rightarrow> 'w OBEX_CLI \<Rightarrow> 'w OBEX_CLI option" where
  "unlink_head p bulkData next s =
     cset p (\<lambda>c. c\<lparr>cb_head := next, cb_tail := (if next = 0 then 0 else cb_tail c),
                   cb_current := (if next = 0 then 0 else cb_current c)\<rparr>)
       (s\<lparr>cl_heap := (cl_heap s)(bulkData := None)\<rparr>)"

text \<open>The loop's variables: \<open>bulkData\<close>, the buffers collected for the next call and their status.\<close>

partial_function (option) confirm_puts ::
    "'w CLI_ENV \<Rightarrow> nat \<Rightarrow> OI_STATUS \<Rightarrow> CONFIRM_FILTER \<Rightarrow> nat \<Rightarrow> (bytes option \<times> u32) list \<Rightarrow> OI_STATUS \<Rightarrow> 'w OBEX_CLI \<Rightarrow>
       (nat \<times> (bytes option \<times> u32) list \<times> OI_STATUS \<times> 'w OBEX_CLI) option" where
  "confirm_puts env p status filt bulkData cfm cfmStatus s =
     (if bulkData = 0 then Some (bulkData, cfm, cfmStatus, s)
      else Option.bind (cl_heap s bulkData) (\<lambda>n.
        Option.bind (conn p s) (\<lambda>c.
        Option.bind (bulk_status c) (\<lambda>stored.
        let b = bn_block n;
            cfmStatus = (if \<not> OI_SUCCESS stored then stored else status)
        in if filt = CONFIRM_COMPLETED \<and> bytesConfirmed b < blockSize b
           then Option.bind (set_bulk_status p (if cfmStatus = OI_OBEX_CONTINUE then OI_OK else cfmStatus) s) (\<lambda>s.
                  Some (bulkData, cfm, cfmStatus, s))
           else case block_status (bd_final b) cfmStatus of
             None \<Rightarrow> Some (bulkData, cfm, cfmStatus, s)
           | Some cfmStatus \<Rightarrow>
               let cfm = cfm @ [(blockBuffer b, blockSize b)]
               in Option.bind (unlink_head p bulkData (bn_next n) s) (\<lambda>s.
                    if length cfm = MAX_CONFIRM
                    then Option.bind (call_app env p (bulkPutCfm c) (BULK_PUT_CFM cfm cfmStatus) s) (\<lambda>s.
                           confirm_puts env p status filt (bn_next n) [] cfmStatus s)
                    else confirm_puts env p status filt (bn_next n) cfm cfmStatus s)))))"

text \<open>The last call is made even if it has nothing to confirm. The result is whether all blocks were
  confirmed.\<close>

definition ConfirmBulkPuts ::
    "'w CLI_ENV \<Rightarrow> nat \<Rightarrow> OI_STATUS \<Rightarrow> CONFIRM_FILTER \<Rightarrow> 'w OBEX_CLI \<Rightarrow> (bool \<times> 'w OBEX_CLI) option" where
  "ConfirmBulkPuts env p status filt s = do {
     c \<leftarrow> conn p s;
     (bulkData, cfm, cfmStatus, s) \<leftarrow> confirm_puts env p status filt (cb_head c) [] OI_OK s;
     c \<leftarrow> conn p s;
     s \<leftarrow> call_app env p (bulkPutCfm c) (BULK_PUT_CFM cfm cfmStatus) s;
     Some (bulkData = 0, s)
   }"

definition ConfirmBulkPuts_void ::
    "'w CLI_ENV \<Rightarrow> nat \<Rightarrow> OI_STATUS \<Rightarrow> CONFIRM_FILTER \<Rightarrow> 'w OBEX_CLI \<Rightarrow> 'w OBEX_CLI option" where
  "ConfirmBulkPuts_void env p status filt s = map_option snd (ConfirmBulkPuts env p status filt s)"

definition AbortConfirm :: "'w CLI_ENV \<Rightarrow> nat \<Rightarrow> 'w OBEX_CLI \<Rightarrow> 'w OBEX_CLI option" where
  "AbortConfirm env p s = do {
     c \<leftarrow> conn p s;
     s \<leftarrow> (if abortingState c = OBEX_BULK_PUTTING then
             if cb_head c \<noteq> 0 then ConfirmBulkPuts_void env p OI_OBEX_CLIENT_ABORTED_COMMAND CONFIRM_ALL s
             else do {
               st \<leftarrow> bulk_status c;
               call_app env p (bulkPutCfm c) (BULK_PUT_CFM [] st) s
             }
           else if abortingState c = OBEX_PUTTING then call_word env p K_PUT (PUT_CFM None OI_OBEX_CLIENT_ABORTED_COMMAND) s
           else if abortingState c = OBEX_GETTING then call_word env p K_GET (GET_RECV_DATA None OI_OBEX_CLIENT_ABORTED_COMMAND) s
           else Some s);
     s \<leftarrow> SetAbortState p NO_ABORT s;
     s \<leftarrow> SetState_cli p OBEX_CONNECTED s;
     s \<leftarrow> set_busy p False s;
     call_abortConfirm env p s
   }"

section \<open>The end of a connection\<close>

definition cancel_timeout :: "nat \<Rightarrow> 'w OBEX_CLI \<Rightarrow> 'w OBEX_CLI option" where
  "cancel_timeout p s = do {
     c \<leftarrow> conn p s;
     if timeoutCB c \<noteq> 0 then do {
       (_, d) \<leftarrow> OI_Dispatch_CancelFunc (timeoutCB c) (cl_disp s);
       cset p (\<lambda>c. c\<lparr>timeoutCB := 0\<rparr>) (s\<lparr>cl_disp := d\<rparr>)
     } else Some s
   }"

definition drop_mbuf :: "nat \<Rightarrow> 'w OBEX_CLI \<Rightarrow> 'w OBEX_CLI option" where
  "drop_mbuf p s = do {
     c \<leftarrow> conn p s;
     case mbuf (k_common c) of
       None \<Rightarrow> Some s
     | Some m \<Rightarrow> do {
         _ \<leftarrow> OI_MBUF_Free m;
         cset p (\<lambda>c. c\<lparr>k_common := (k_common c)\<lparr>mbuf := None\<rparr>\<rparr>) s
       }
   }"

text \<open>The switch on the state the connection had: the operation in progress is confirmed.\<close>

definition confirm_if_aborting :: "'w CLI_ENV \<Rightarrow> nat \<Rightarrow> 'w OBEX_CLI \<Rightarrow> 'w OBEX_CLI option" where
  "confirm_if_aborting env p s = do {
     c \<leftarrow> conn p s;
     if k_abort c \<noteq> NO_ABORT then call_abortConfirm env p s else Some s
   }"

definition report_end ::
    "'w CLI_ENV \<Rightarrow> nat \<Rightarrow> CLI_CONNECTION_STATE \<Rightarrow> OI_STATUS \<Rightarrow> 'w OBEX_CLI \<Rightarrow> 'w OBEX_CLI option" where
  "report_end env p state status s = do {
     c \<leftarrow> conn p s;
     case state of
       LOWER_LAYER_CONNECTING \<Rightarrow> do {
         s \<leftarrow> call_word env p K_CONNECT (CONNECT_CFM False status) s;
         cset p (\<lambda>c. c\<lparr>k_disconnectInd := 0\<rparr>) s
       }
     | LOWER_LAYER_CONNECTED \<Rightarrow> do {
         s \<leftarrow> call_word env p K_CONNECT (CONNECT_CFM False status) s;
         cset p (\<lambda>c. c\<lparr>k_disconnectInd := 0\<rparr>) s
       }
     | OBEX_GETTING \<Rightarrow> do {
         s \<leftarrow> (if k_busy c then call_word env p K_GET (GET_RECV_DATA None status) s else Some s);
         confirm_if_aborting env p s
       }
     | OBEX_BULK_PUTTING \<Rightarrow> do {
         s \<leftarrow> ConfirmBulkPuts_void env p status CONFIRM_ALL s;
         confirm_if_aborting env p s
       }
     | OBEX_PUTTING \<Rightarrow> do {
         s \<leftarrow> (if k_busy c then call_word env p K_PUT (PUT_CFM None status) s else Some s);
         confirm_if_aborting env p s
       }
     | OBEX_DO_ACTION \<Rightarrow> call_word env p K_ACTION (ACTION_CFM status) s
     | OBEX_SETTING_PATH \<Rightarrow> call_word env p K_SETPATH (SETPATH_CFM status) s
     | OBEX_ABORTING \<Rightarrow> AbortConfirm env p s
     | _ \<Rightarrow> Some s
   }"

definition FreeConnection :: "'w CLI_ENV \<Rightarrow> nat \<Rightarrow> OI_STATUS \<Rightarrow> 'w OBEX_CLI \<Rightarrow> 'w OBEX_CLI option" where
  "FreeConnection env p status s = do {
     c \<leftarrow> conn p s;
     s \<leftarrow> SetState_cli p INVALID_CONNECTION s;
     s \<leftarrow> cancel_timeout p s;
     s \<leftarrow> drop_mbuf p s;
     let status = (if k_abort c \<noteq> NO_ABORT then OI_OBEX_CLIENT_ABORTED_COMMAND else status);
     s \<leftarrow> SetAbortState p NO_ABORT s;
     s \<leftarrow> report_end env p (k_state c) status s;
     s \<leftarrow> cset p (\<lambda>c. c\<lparr>k_auth := None\<rparr>) s;
     c \<leftarrow> conn p s;
     s \<leftarrow> (if k_disconnectInd c \<noteq> 0 then call_app env p (k_disconnectInd c) CLI_DISCONNECT_IND s else Some s);
     c \<leftarrow> conn p s;
     OI_ASSERT (cl_initFlag s \<noteq> 0);
     Some (s\<lparr>cl_handles := snd (OI_HANDLE_Free (k_handle c) (cl_handles s)), cl_conns := (cl_conns s)(p := None),
             cl_initFlag := cl_initFlag s - 1\<rparr>)
   }"

text \<open>The context of the lower connection is the address of the connection, or \<open>NULL\<close>.\<close>

definition LowerDisconnectInd_cli :: "'w CLI_ENV \<Rightarrow> nat \<Rightarrow> OI_STATUS \<Rightarrow> 'w OBEX_CLI \<Rightarrow> 'w OBEX_CLI option" where
  "LowerDisconnectInd_cli env p reason s =
     (if p = 0 then Some s
      else do {
        c \<leftarrow> conn p s;
        FreeConnection env p (if OI_SUCCESS reason \<and> k_state c \<ge> OBEX_CONNECTED then OI_OBEX_NOT_CONNECTED else reason) s
      })"

text \<open>What the lower layer answers to the request to disconnect is only logged.\<close>

definition FatalObexError :: "'w CLI_ENV \<Rightarrow> nat \<Rightarrow> OI_STATUS \<Rightarrow> 'w OBEX_CLI \<Rightarrow> 'w OBEX_CLI option" where
  "FatalObexError env p status s = do {
     s \<leftarrow> SetAbortState p NO_ABORT s;
     c \<leftarrow> conn p s;
     if k_state c \<ge> LOWER_LAYER_CONNECTED then do {
       s \<leftarrow> cset p (\<lambda>c. c\<lparr>disconnectingLowerLayer := True\<rparr>) s;
       Some (snd (cli_disconnect env p s))
     } else FreeConnection env p status s
   }"

text \<open>The functions that the dispatcher calls get the address of the connection.\<close>

definition pointer_arg :: "nat \<Rightarrow> bytes" where
  "pointer_arg p = SetUINT32_LittleEndian (of_nat p :: u32)"

definition CommandError :: "'w CLI_ENV \<Rightarrow> nat \<Rightarrow> OI_STATUS \<Rightarrow> 'w OBEX_CLI \<Rightarrow> 'w OBEX_CLI option" where
  "CommandError env p status s = FatalObexError env p status s"

definition ReportError :: "nat \<Rightarrow> OI_STATUS \<Rightarrow> 'w OBEX_CLI \<Rightarrow> 'w OBEX_CLI option" where
  "ReportError p status s = do {
     (_, _, d) \<leftarrow> OI_Dispatch_RegisterFunc True (Some (F_CommandError status)) (Some (pointer_arg p)) (cl_disp s);
     Some (s\<lparr>cl_disp := d\<rparr>)
   }"

definition ResponseTimeout :: "'w CLI_ENV \<Rightarrow> nat \<Rightarrow> 'w OBEX_CLI \<Rightarrow> 'w OBEX_CLI option" where
  "ResponseTimeout env p s = FatalObexError env p OI_OBEX_CONNECTION_TIMEOUT s"

definition SetCommandTimeout :: "nat \<Rightarrow> OI_INTERVAL \<Rightarrow> 'w OBEX_CLI \<Rightarrow> 'w OBEX_CLI option" where
  "SetCommandTimeout p timeout s = do {
     c \<leftarrow> conn p s;
     valid \<leftarrow> OI_Dispatch_IsValidHandle (timeoutCB c) (cl_disp s);
     if valid then do {
       (_, d) \<leftarrow> OI_Dispatch_SetFuncTimeout (timeoutCB c) timeout (cl_disp s);
       Some (s\<lparr>cl_disp := d\<rparr>)
     } else do {
       (_, h, d) \<leftarrow> OI_Dispatch_RegisterTimedFunc True (Some F_ResponseTimeout) (Some (pointer_arg p)) timeout (cl_disp s);
       cset p (\<lambda>c. c\<lparr>timeoutCB := h\<rparr>) (s\<lparr>cl_disp := d\<rparr>)
     }
   }"

section \<open>Sending\<close>

definition MapResponse :: "u8 \<Rightarrow> OI_STATUS \<Rightarrow> OI_STATUS" where
  "MapResponse rspCode status =
     (if rspCode = OI_OBEX_FINAL OI_OBEX_RSP_OK then OI_OK
      else if rspCode = OI_OBEX_FINAL OI_OBEX_RSP_CONTINUE then OI_OBEX_CONTINUE
      else if rspCode = OI_OBEX_FINAL OI_OBEX_RSP_BAD_REQUEST then OI_OBEX_BAD_REQUEST
      else if rspCode = OI_OBEX_FINAL OI_OBEX_RSP_FORBIDDEN then OI_OBEX_ACCESS_DENIED
      else if rspCode = OI_OBEX_FINAL OI_OBEX_RSP_NOT_FOUND then OI_OBEX_NOT_FOUND
      else if rspCode = OI_OBEX_FINAL OI_OBEX_RSP_NOT_IMPLEMENTED then OI_OBEX_NOT_IMPLEMENTED
      else if rspCode = OI_OBEX_FINAL OI_OBEX_RSP_LENGTH_REQUIRED then OI_OBEX_LENGTH_REQUIRED
      else if rspCode = OI_OBEX_FINAL OI_OBEX_RSP_SERVICE_UNAVAILABLE then OI_OBEX_SERVICE_UNAVAILABLE
      else if rspCode = OI_OBEX_FINAL OI_OBEX_RSP_NOT_ACCEPTABLE then OI_OBEX_VALUE_NOT_ACCEPTABLE
      else if rspCode = OI_OBEX_FINAL OI_OBEX_RSP_PRECONDITION_FAILED then OI_OBEX_PRECONDITION_FAILED
      else if rspCode = OI_OBEX_FINAL OI_OBEX_RSP_DATABASE_FULL then OI_OBEX_DATABASE_FULL
      else if rspCode = OI_OBEX_FINAL OI_OBEX_RSP_CONFLICT then OI_OBEX_CONFLICT
      else if rspCode = OI_OBEX_FINAL OI_OBEX_RSP_NOT_MODIFIED then OI_OBEX_NOT_MODIFIED
      else if rspCode = OI_OBEX_FINAL OI_OBEX_RSP_DATABASE_LOCKED then OI_OBEX_DATABASE_LOCKED
      else if rspCode = OI_OBEX_FINAL OI_OBEX_RSP_INTERNAL_SERVER_ERROR then OI_OBEX_INTERNAL_SERVER_ERROR
      else if rspCode = OI_OBEX_FINAL OI_OBEX_RSP_UNSUPPORTED_MEDIA_TYPE then OI_OBEX_UNSUPPORTED_MEDIA_TYPE
      else if rspCode = OI_OBEX_FINAL OI_OBEX_RSP_UNAUTHORIZED then OI_OBEX_UNAUTHORIZED
      else if rspCode = OI_OBEX_FINAL OI_OBEX_RSP_PARTIAL_CONTENT then OI_OBEX_PARTIAL_CONTENT
      else if rspCode = OI_OBEX_FINAL OI_OBEX_RSP_METHOD_NOT_ALLOWED then OI_OBEX_METHOD_NOT_ALLOWED
      else status)"

definition ClientSendPacket ::
    "'w CLI_ENV \<Rightarrow> nat \<Rightarrow> OI_INTERVAL \<Rightarrow> 'w OBEX_CLI \<Rightarrow> (OI_STATUS \<times> 'w OBEX_CLI) option" where
  "ClientSendPacket env p timeout s = do {
     c \<leftarrow> conn p s;
     m \<leftarrow> mbuf (k_common c);
     let (status, queueFull, w) = v_write env p (cl_world s) m False False;
     let s = s\<lparr>cl_world := w\<rparr>;
     if OI_SUCCESS status then
       if currentOpcode (k_common c) \<noteq> OI_OBEX_CMD_DISCONNECT then do {
         s \<leftarrow> SetCommandTimeout p timeout s;
         Some (status, s)
       } else Some (status, s)
     else do {
       _ \<leftarrow> OI_MBUF_Free m;
       s \<leftarrow> cset p (\<lambda>c. c\<lparr>k_common := (k_common c)\<lparr>mbuf := None\<rparr>\<rparr>) s;
       Some (status, s)
     }
   }"

definition ClientSendBodySegment :: "'w CLI_ENV \<Rightarrow> nat \<Rightarrow> 'w OBEX_CLI \<Rightarrow> (OI_STATUS \<times> 'w OBEX_CLI) option" where
  "ClientSendBodySegment env p s = do {
     c \<leftarrow> conn p s;
     (status, common) \<leftarrow> OI_OBEXCOMMON_MarshalBodySegment (v_mem env (cl_calls s) 0) (\<lambda>i. v_mem env (cl_calls s) (Suc i)) (k_common c);
     s \<leftarrow> cset p (\<lambda>c. c\<lparr>k_common := common\<rparr>) (s\<lparr>cl_calls := Suc (cl_calls s)\<rparr>);
     if OI_SUCCESS status then ClientSendPacket env p (responseTimeout c) s else Some (status, s)
   }"

text \<open>\<open>OI_OBEXCOMMON_InitPacket\<close>, some bytes after the packet header, \<open>OI_OBEXCOMMON_MarshalPacket\<close>, and
  \<open>ClientSendPacket\<close> if the packet could be composed.\<close>

definition send_request ::
    "'w CLI_ENV \<Rightarrow> nat \<Rightarrow> u8 \<Rightarrow> u8 list \<Rightarrow> OI_OBEX_HEADER list \<Rightarrow> OI_OBEX_HEADER list option \<Rightarrow> OI_INTERVAL \<Rightarrow> 'w OBEX_CLI \<Rightarrow>
       (OI_STATUS \<times> 'w OBEX_CLI) option" where
  "send_request env p opcode extra headers hdrList timeout s = do {
     c \<leftarrow> conn p s;
     (common, pkt) \<leftarrow> OI_OBEXCOMMON_InitPacket (k_common c) opcode;
     pkt \<leftarrow> put_all extra pkt;
     (status, common) \<leftarrow> OI_OBEXCOMMON_MarshalPacket (v_mem env (cl_calls s) 0) (\<lambda>i. v_mem env (cl_calls s) (Suc i))
                           common pkt headers hdrList;
     s \<leftarrow> cset p (\<lambda>c. c\<lparr>k_common := common\<rparr>) (s\<lparr>cl_calls := Suc (cl_calls s)\<rparr>);
     if OI_SUCCESS status then ClientSendPacket env p timeout s else Some (status, s)
   }"

definition cid_header :: "OBEXCLI_CONNECTION \<Rightarrow> OI_OBEX_HEADER list" where
  "cid_header c = (if k_cid c \<noteq> OI_OBEX_INVALID_CONNECTION_ID
     then [\<lparr>hdr_id = OI_OBEX_HDR_CONNECTION_ID, hdr_val = UINT32 (k_cid c)\<rparr>] else [])"

definition ClientSendCommand ::
    "'w CLI_ENV \<Rightarrow> nat \<Rightarrow> u8 \<Rightarrow> OI_INTERVAL \<Rightarrow> OI_OBEX_HEADER list option \<Rightarrow> 'w OBEX_CLI \<Rightarrow> (OI_STATUS \<times> 'w OBEX_CLI) option" where
  "ClientSendCommand env p opcode timeout optHeaders s = do {
     OI_ASSERT (opcode AND OI_OBEX_FINAL_BIT \<noteq> 0);
     c \<leftarrow> conn p s;
     (status, s) \<leftarrow> send_request env p opcode [] (cid_header c) optHeaders timeout s;
     s \<leftarrow> set_busy p True s;
     Some (status, s)
   }"

definition SendAbort :: "'w CLI_ENV \<Rightarrow> nat \<Rightarrow> 'w OBEX_CLI \<Rightarrow> 'w OBEX_CLI option" where
  "SendAbort env p s = do {
     c \<leftarrow> conn p s;
     if k_abort c = ABORT_SENT then Some s
     else if \<not> COMMAND_IN_PROGRESS (k_state c) then Some s
     else do {
       s \<leftarrow> cset p (\<lambda>c. c\<lparr>abortingState := k_state c\<rparr>) s;
       let s = (if srm_on c then cli_flow env p True s else s);
       s \<leftarrow> SetState_cli p OBEX_ABORTING s;
       s \<leftarrow> cset p (\<lambda>c. c\<lparr>abortConfirm := (if abortConfirm c = NO_FN then DefaultAbortCfm else abortConfirm c)\<rparr>) s;
       (status, s) \<leftarrow> ClientSendCommand env p OI_OBEX_CMD_ABORT OBEX_ABORT_TIMEOUT None s;
       if OI_SUCCESS status then do {
         s \<leftarrow> set_busy p True s;
         SetAbortState p ABORT_SENT s
       } else FatalObexError env p OI_OBEX_ERROR s
     }
   }"

end
