(* ===== verification/ObexCliOps.thy ===== *)
theory ObexCliOps
  imports ObexCli
begin

unbundle bit_operations_syntax

text \<open>
  The OBEX client, second part: the functions that the application calls. Each checks that the
  connection is there and in a state for the operation, stores the callback and sends the request.
\<close>

section \<open>Bulk puts\<close>

text \<open>\<open>OI_OBEXCOMMON_SendBulk\<close> on the list from \<open>bulkPut.current\<close> on.\<close>

definition SendBulk_cli :: "'w CLI_ENV \<Rightarrow> nat \<Rightarrow> 'w OBEX_CLI \<Rightarrow> (OI_STATUS \<times> 'w OBEX_CLI) option" where
  "SendBulk_cli env p s = do {
     c \<leftarrow> conn p s;
     OI_ASSERT (\<not> k_busy c);
     if cb_head c = 0 then Some (OI_OK, s)
     else do {
       ps \<leftarrow> bulk_nodes (cl_heap s) (cb_current c);
       st \<leftarrow> OI_OBEXCOMMON_SendBulk (v_write env p) (v_mem env (cl_calls s)) (k_common c) (cl_world s)
               (map (\<lambda>p. bn_block (the (cl_heap s p))) ps) (k_busy c);
       let rest = drop (length (bk_passed st)) ps;
       s \<leftarrow> cset p (\<lambda>c. c\<lparr>cb_current := (case rest of [] \<Rightarrow> 0 | q # _ \<Rightarrow> q), k_busy := bk_busy st\<rparr>)
              (s\<lparr>cl_heap := put_nodes ps (bk_passed st @ bk_current st) (cl_heap s), cl_world := bk_conn st,
                 cl_calls := Suc (cl_calls s)\<rparr>);
       if OI_SUCCESS (bk_status st) \<and> (bk_final st \<or> \<not> srm_on c) then do {
         s \<leftarrow> SetCommandTimeout p (responseTimeout c) s;
         Some (bk_status st, s)
       } else Some (bk_status st, s)
     }
   }"

definition AllocBulk_cli ::
    "'w CLI_ENV \<Rightarrow> (bytes option \<times> u32) list \<Rightarrow> 'w OBEX_CLI \<Rightarrow> OI_STATUS \<times> nat \<times> nat \<times> 'w OBEX_CLI" where
  "AllocBulk_cli env buffers s =
     (let (status, blocks) = OI_OBEXCOMMON_AllocBulkData (v_mem env (cl_calls s)) buffers;
          q = cl_freshNode s
      in (status, (if blocks = [] then 0 else q), (if blocks = [] then 0 else q + length blocks - 1),
          s\<lparr>cl_heap := link_blocks q blocks (cl_heap s), cl_freshNode := q + length blocks, cl_calls := Suc (cl_calls s)\<rparr>))"

definition AppendBulkData_cli :: "nat \<Rightarrow> nat \<Rightarrow> nat \<Rightarrow> 'w OBEX_CLI \<Rightarrow> 'w OBEX_CLI option" where
  "AppendBulkData_cli p bulkDataHead bulkDataTail s = do {
     c \<leftarrow> conn p s;
     s \<leftarrow> (if cb_tail c \<noteq> 0 then do {
              n \<leftarrow> cl_heap s (cb_tail c);
              OI_ASSERT (\<not> bd_final (bn_block n));
              Some (s\<lparr>cl_heap := (cl_heap s)(cb_tail c := Some (n\<lparr>bn_next := bulkDataHead\<rparr>))\<rparr>)
            } else do {
              OI_ASSERT (cb_head c = 0);
              cset p (\<lambda>c. c\<lparr>cb_head := bulkDataHead\<rparr>) s
            });
     cset p (\<lambda>c. c\<lparr>cb_tail := bulkDataTail, cb_current := (if cb_current c = 0 then bulkDataHead else cb_current c)\<rparr>) s
   }"

text \<open>An error status of the application ends the transfer with an abort.\<close>

definition bulk_put_abort :: "'w CLI_ENV \<Rightarrow> nat \<Rightarrow> OI_STATUS \<Rightarrow> 'w OBEX_CLI \<Rightarrow> (OI_STATUS \<times> 'w OBEX_CLI) option" where
  "bulk_put_abort env p status s = do {
     s \<leftarrow> SetAbortState p ABORT_PENDING s;
     s \<leftarrow> set_bulk_status p status s;
     can \<leftarrow> CanConfirmAllBulkPuts p s;
     s \<leftarrow> (if can then SendAbort env p s else Some s);
     Some (OI_OK, s)
   }"

text \<open>The blocks are queued, and sent if the lower layer is not busy.\<close>

definition bulk_put_queue ::
    "'w CLI_ENV \<Rightarrow> nat \<Rightarrow> (bytes option \<times> u32) list \<Rightarrow> bool \<Rightarrow> 'w OBEX_CLI \<Rightarrow> (OI_STATUS \<times> 'w OBEX_CLI) option" where
  "bulk_put_queue env p buffers final s =
     (let (status, bulkDataHead, bulkDataTail, s) = AllocBulk_cli env buffers s in
      if OI_SUCCESS status then do {
        n \<leftarrow> cl_heap s bulkDataTail;
        let s = s\<lparr>cl_heap := (cl_heap s)(bulkDataTail := Some (n\<lparr>bn_block := (bn_block n)\<lparr>bd_final := final\<rparr>\<rparr>))\<rparr>;
        s \<leftarrow> AppendBulkData_cli p bulkDataHead bulkDataTail s;
        c \<leftarrow> conn p s;
        if \<not> k_busy c then SendBulk_cli env p s else Some (status, s)
      } else Some (status, s))"

definition start_bulk_put :: "nat \<Rightarrow> OI_STATUS \<Rightarrow> 'w OBEX_CLI \<Rightarrow> 'w OBEX_CLI option" where
  "start_bulk_put p status s = do {
     c \<leftarrow> conn p s;
     if k_state c = OBEX_PUTTING
     then cset p (\<lambda>c. c\<lparr>k_state := OBEX_BULK_PUTTING, cb_head := 0, cb_tail := 0, cb_current := 0,
                       cb_word := CBW_status (if status = OI_OBEX_CONTINUE then OI_OK else status)\<rparr>) s
     else Some s
   }"

definition OI_OBEXCLI_BulkPut ::
    "'w CLI_ENV \<Rightarrow> u32 \<Rightarrow> (bytes option \<times> u32) list \<Rightarrow> OI_STATUS \<Rightarrow> 'w OBEX_CLI \<Rightarrow> (OI_STATUS \<times> 'w OBEX_CLI) option" where
  "OI_OBEXCLI_BulkPut env h buffers status s = do {
     let final = (status \<noteq> OI_OBEX_CONTINUE);
     found \<leftarrow> LookupConnection_cli h s;
     case found of
       None \<Rightarrow> Some (OI_OBEX_NOT_CONNECTED, s)
     | Some (p, c) \<Rightarrow>
       if k_state c < OBEX_CONNECTED then Some (OI_OBEX_NOT_CONNECTED, s)
       else if bulkPutCfm c = 0 then Some (OI_STATUS_INVALID_PARAMETERS, s)
       else if k_abort c \<noteq> NO_ABORT then Some (OI_OBEX_CLIENT_ABORTED_COMMAND, s)
       else if k_busy c \<and> k_state c \<noteq> OBEX_BULK_PUTTING then Some (OI_OBEX_OPERATION_IN_PROGRESS, s)
       else do {
         s \<leftarrow> start_bulk_put p status s;
         c \<leftarrow> conn p s;
         if \<not> OI_SUCCESS status \<and> status \<noteq> OI_OBEX_CONTINUE then bulk_put_abort env p status s
         else if k_state c \<noteq> OBEX_BULK_PUTTING then Some (OI_STATUS_INVALID_STATE, s)
         else do {
           final_seen \<leftarrow> (if cb_tail c \<noteq> 0 then map_option (\<lambda>n. bd_final (bn_block n)) (cl_heap s (cb_tail c)) else Some False);
           if final_seen then Some (OI_STATUS_INVALID_STATE, s)
           else if buffers = [] then Some (OI_STATUS_INVALID_PARAMETERS, s)
           else do {
             (status, s) \<leftarrow> bulk_put_queue env p buffers final s;
             s \<leftarrow> (if \<not> OI_SUCCESS status then FatalObexError env p status s else Some s);
             Some (OI_OK, s)
           }
         }
       }
   }"

section \<open>PUT and GET\<close>

text \<open>The first packet of an operation starts with the connection id, and single response mode is off
  until the server agrees to it.\<close>

definition begin_operation :: "nat \<Rightarrow> CLI_CONNECTION_STATE \<Rightarrow> 'w OBEX_CLI \<Rightarrow> (OI_OBEX_HEADER list \<times> 'w OBEX_CLI) option" where
  "begin_operation p state s = do {
     c \<leftarrow> conn p s;
     if k_state c = OBEX_CONNECTED then do {
       s \<leftarrow> cset p (\<lambda>c. c\<lparr>srmRequested := False,
              k_common := (k_common c)\<lparr>srm := srm (k_common c) AND NOT OI_OBEX_SRM_ENABLED, progressBytes := 0\<rparr>,
              k_state := state\<rparr>) s;
       Some (cid_header c, s)
     } else Some ([], s)
   }"

definition srm_request_header :: "OI_OBEX_HEADER" where
  "srm_request_header = hdr_u8 OI_OBEX_HDR_SINGLE_RESPONSE_MODE OI_OBEX_SRM_ENABLED"

text \<open>The request goes out; if that fails the operation is over.\<close>

definition finish_request :: "nat \<Rightarrow> OI_STATUS \<Rightarrow> 'w OBEX_CLI \<Rightarrow> (OI_STATUS \<times> 'w OBEX_CLI) option" where
  "finish_request p status s =
     (if OI_SUCCESS status then do { s \<leftarrow> set_busy p True s; Some (OI_OK, s) }
      else do { s \<leftarrow> SetState_cli p OBEX_CONNECTED s; Some (status, s) })"

definition put_request ::
    "'w CLI_ENV \<Rightarrow> nat \<Rightarrow> u8 \<Rightarrow> OI_OBEX_HEADER list \<Rightarrow> 'w OBEX_CLI \<Rightarrow> (OI_STATUS \<times> 'w OBEX_CLI) option" where
  "put_request env p cmd cmdHeaders s = do {
     (cid, s) \<leftarrow> begin_operation p OBEX_PUTTING s;
     c \<leftarrow> conn p s;
     let ask = (\<not> srmRequested c \<and> srm_supported c);
     s \<leftarrow> (if ask then cset p (\<lambda>c. c\<lparr>srmRequested := True\<rparr>) s else Some s);
     (status, s) \<leftarrow> send_request env p cmd [] (cid @ (if ask then [srm_request_header] else [])) (Some cmdHeaders)
                      (responseTimeout c) s;
     finish_request p status s
   }"

definition OI_OBEXCLI_Put ::
    "'w CLI_ENV \<Rightarrow> u32 \<Rightarrow> OI_OBEX_HEADER list option \<Rightarrow> nat \<Rightarrow> OI_STATUS \<Rightarrow> 'w OBEX_CLI \<Rightarrow> (OI_STATUS \<times> 'w OBEX_CLI) option" where
  "OI_OBEXCLI_Put env h cmdHeaders putCfm status s = do {
     let cmd = (if status = OI_OBEX_CONTINUE then OI_OBEX_CMD_PUT else OI_OBEX_FINAL OI_OBEX_CMD_PUT);
     OI_ASSERT (putCfm \<noteq> 0);
     found \<leftarrow> LookupConnection_cli h s;
     case found of
       None \<Rightarrow> Some (OI_OBEX_NOT_CONNECTED, s)
     | Some (p, c) \<Rightarrow>
       if k_state c < OBEX_CONNECTED then Some (OI_OBEX_NOT_CONNECTED, s)
       else if k_abort c \<noteq> NO_ABORT then Some (OI_OBEX_CLIENT_ABORTED_COMMAND, s)
       else if k_busy c \<or> k_state c \<noteq> OBEX_CONNECTED \<and> k_state c \<noteq> OBEX_PUTTING then Some (OI_OBEX_OPERATION_IN_PROGRESS, s)
       else do {
         s \<leftarrow> cset p (\<lambda>c. c\<lparr>cb_word := CBW_fn K_PUT putCfm\<rparr>) s;
         if \<not> OI_SUCCESS status \<and> status \<noteq> OI_OBEX_CONTINUE then do {
           s \<leftarrow> SendAbort env p s;
           Some (OI_OK, s)
         } else case cmdHeaders of
           None \<Rightarrow> Some (OI_STATUS_INVALID_PARAMETERS, s)
         | Some hdrs \<Rightarrow> put_request env p cmd hdrs s
       }
   }"

definition get_request ::
    "'w CLI_ENV \<Rightarrow> nat \<Rightarrow> OI_OBEX_HEADER list option \<Rightarrow> bool \<Rightarrow> 'w OBEX_CLI \<Rightarrow> (OI_STATUS \<times> 'w OBEX_CLI) option" where
  "get_request env p cmdHeaders final s = do {
     (cid, s) \<leftarrow> begin_operation p OBEX_GETTING s;
     c \<leftarrow> conn p s;
     let ask = (final \<and> \<not> srmRequested c \<and> srm_supported c);
     s \<leftarrow> (if ask then cset p (\<lambda>c. c\<lparr>srmpValid := False, srmpWaitReceived := False, srmRequested := True\<rparr>) s else Some s);
     (status, s) \<leftarrow> send_request env p (if final then OI_OBEX_FINAL OI_OBEX_CMD_GET else OI_OBEX_CMD_GET) []
                      (cid @ (if ask then [srm_request_header] else [])) cmdHeaders (responseTimeout c) s;
     finish_request p status s
   }"

definition OI_OBEXCLI_Get ::
    "'w CLI_ENV \<Rightarrow> u32 \<Rightarrow> OI_OBEX_HEADER list option \<Rightarrow> nat \<Rightarrow> bool \<Rightarrow> 'w OBEX_CLI \<Rightarrow> (OI_STATUS \<times> 'w OBEX_CLI) option" where
  "OI_OBEXCLI_Get env h cmdHeaders getRecvData final s = do {
     OI_ASSERT (getRecvData \<noteq> 0);
     found \<leftarrow> LookupConnection_cli h s;
     case found of
       None \<Rightarrow> Some (OI_OBEX_NOT_CONNECTED, s)
     | Some (p, c) \<Rightarrow>
       if k_state c < OBEX_CONNECTED then Some (OI_OBEX_NOT_CONNECTED, s)
       else if k_busy c \<or> k_state c \<noteq> OBEX_CONNECTED \<and> k_state c \<noteq> OBEX_GETTING then Some (OI_OBEX_OPERATION_IN_PROGRESS, s)
       else do {
         let s = (if srm_on c then cli_flow env p True s else s);
         if k_abort c \<noteq> NO_ABORT then Some (OI_OK, s)
         else do {
           s \<leftarrow> cset p (\<lambda>c. c\<lparr>cb_word := CBW_fn K_GET getRecvData\<rparr>) s;
           if final \<and> k_state c = OBEX_GETTING \<and> srm_on c then do {
             s \<leftarrow> SetCommandTimeout p (responseTimeout c) s;
             Some (OI_OK, s)
           } else get_request env p cmdHeaders final s
         }
       }
   }"

section \<open>Abort\<close>

definition OI_OBEXCLI_Abort :: "'w CLI_ENV \<Rightarrow> u32 \<Rightarrow> ABORT_FN \<Rightarrow> 'w OBEX_CLI \<Rightarrow> (OI_STATUS \<times> 'w OBEX_CLI) option" where
  "OI_OBEXCLI_Abort env h abortCfm s = do {
     found \<leftarrow> LookupConnection_cli h s;
     case found of
       None \<Rightarrow> Some (OI_OBEX_NOT_CONNECTED, s)
     | Some (p, c) \<Rightarrow>
       if k_state c < OBEX_CONNECTED then Some (OI_OBEX_NOT_CONNECTED, s)
       else if k_state c \<noteq> OBEX_GETTING \<and> k_state c \<noteq> OBEX_PUTTING \<and> k_state c \<noteq> OBEX_BULK_PUTTING
       then Some (OI_STATUS_INVALID_STATE, s)
       else do {
         s \<leftarrow> (if k_busy c then SetAbortState p ABORT_PENDING s else SendAbort env p s);
         s \<leftarrow> cset p (\<lambda>c. c\<lparr>abortConfirm := abortCfm\<rparr>) s;
         Some (OI_OK, s)
       }
   }"

section \<open>SETPATH and ACTION\<close>

definition name_header :: "u16 list \<times> u16 \<Rightarrow> OI_OBEX_HEADER" where
  "name_header name = \<lparr>hdr_id = OI_OBEX_HDR_NAME, hdr_val = UNICODE (fst name) (snd name)\<rparr>"

text \<open>The checks that the two operations share: the status of an early return.\<close>

definition idle_check :: "u32 \<Rightarrow> 'w OBEX_CLI \<Rightarrow> (OI_STATUS + nat \<times> OBEXCLI_CONNECTION) option" where
  "idle_check h s = do {
     found \<leftarrow> LookupConnection_cli h s;
     Some (case found of
       None \<Rightarrow> Inl OI_OBEX_NOT_CONNECTED
     | Some (p, c) \<Rightarrow>
         if k_state c < OBEX_CONNECTED then Inl OI_OBEX_NOT_CONNECTED
         else if k_busy c \<or> k_state c \<noteq> OBEX_CONNECTED then Inl OI_OBEX_OPERATION_IN_PROGRESS
         else Inr (p, c))
   }"

definition OI_OBEXCLI_SetPath ::
    "'w CLI_ENV \<Rightarrow> u32 \<Rightarrow> (u16 list \<times> u16) option \<Rightarrow> bool \<Rightarrow> bool \<Rightarrow> nat \<Rightarrow> OI_OBEX_HEADER list option \<Rightarrow> 'w OBEX_CLI \<Rightarrow>
       (OI_STATUS \<times> 'w OBEX_CLI) option" where
  "OI_OBEXCLI_SetPath env h folder dontCreate upLevel setpathCfm cmdHeaders s = do {
     OI_ASSERT (setpathCfm \<noteq> 0);
     check \<leftarrow> idle_check h s;
     case check of
       Inl status \<Rightarrow> Some (status, s)
     | Inr (p, c) \<Rightarrow> do {
         s \<leftarrow> cset p (\<lambda>c. c\<lparr>cb_word := CBW_fn K_SETPATH setpathCfm\<rparr>) s;
         let name = name_header (case folder of None \<Rightarrow> ([], 0) | Some name \<Rightarrow> name);
         let flags = (if dontCreate then OI_OBEX_SETPATH_NO_CREATE else 0) OR (if upLevel then OI_OBEX_SETPATH_UP_LEVEL else 0);
         s \<leftarrow> SetState_cli p OBEX_SETTING_PATH s;
         (status, s) \<leftarrow> send_request env p (OI_OBEX_FINAL OI_OBEX_CMD_SET_PATH) [flags, 0] (cid_header c @ [name]) cmdHeaders
                          (responseTimeout c) s;
         finish_request p status s
       }
   }"

definition OI_OBEXCLI_DoAction ::
    "'w CLI_ENV \<Rightarrow> u32 \<Rightarrow> u8 \<Rightarrow> (u16 list \<times> u16) option \<Rightarrow> OI_OBEX_HEADER list option \<Rightarrow> nat \<Rightarrow> 'w OBEX_CLI \<Rightarrow>
       (OI_STATUS \<times> 'w OBEX_CLI) option" where
  "OI_OBEXCLI_DoAction env h actionId objectName actionHdrs actionCfm s = do {
     OI_ASSERT (actionHdrs \<noteq> None);
     OI_ASSERT (actionCfm \<noteq> 0);
     check \<leftarrow> idle_check h s;
     case check of
       Inl status \<Rightarrow> Some (status, s)
     | Inr (p, c) \<Rightarrow> do {
         s \<leftarrow> cset p (\<lambda>c. c\<lparr>cb_word := CBW_fn K_ACTION actionCfm\<rparr>) s;
         name \<leftarrow> objectName;
         s \<leftarrow> SetState_cli p OBEX_DO_ACTION s;
         (status, s) \<leftarrow> send_request env p (OI_OBEX_FINAL OI_OBEX_CMD_ACTION) []
                          (cid_header c @ [hdr_u8 OI_OBEX_HDR_ACTION_ID actionId, name_header name]) actionHdrs
                          (responseTimeout c) s;
         finish_request p status s
       }
   }"

end
