(* ===== verification/ObexCliRecv.thy ===== *)
theory ObexCliRecv
  imports ObexCliOps
begin

unbundle bit_operations_syntax

text \<open>
  The OBEX client, third part: what the lower layer reports. Received packets are responses, and the
  state of the connection says to which request; a write confirmation moves a bulk transfer on; the
  confirmation of the lower connection starts the OBEX connection.
\<close>

section \<open>Headers of a response\<close>

definition ParseHeaderList_cli ::
    "'w CLI_ENV \<Rightarrow> nat \<Rightarrow> OI_BYTE_STREAM \<Rightarrow> 'w OBEX_CLI \<Rightarrow> (OI_STATUS \<times> OI_OBEX_HEADER_LIST \<times> 'w OBEX_CLI) option" where
  "ParseHeaderList_cli env p rcvPacket s = do {
     c \<leftarrow> conn p s;
     (status, hl, common, _) \<leftarrow> OI_OBEXCOMMON_ParseHeaderList (v_mem env (cl_calls s) 0) (k_common c) rcvPacket;
     s \<leftarrow> cset p (\<lambda>c. c\<lparr>k_common := common\<rparr>) (s\<lparr>cl_calls := Suc (cl_calls s)\<rparr>);
     Some (status, hl, s)
   }"

text \<open>The headers that a search walks over: there is no array behind a count if there was no memory.\<close>

definition hl_headers :: "OI_OBEX_HEADER_LIST \<Rightarrow> OI_OBEX_HEADER list option" where
  "hl_headers hl = (if hl_count hl = 0 then Some [] else hl_list hl)"

text \<open>The single response mode header of a response. It is taken out of the list if it enables the
  mode, or always. The first component is whether it was there.\<close>

definition srm_mode :: "nat \<Rightarrow> bool \<Rightarrow> OI_OBEX_HEADER list \<Rightarrow> 'w OBEX_CLI \<Rightarrow> (bool \<times> OI_OBEX_HEADER list \<times> 'w OBEX_CLI) option" where
  "srm_mode p always headers s =
     (case OI_OBEX_FindHeader headers OI_OBEX_HDR_SINGLE_RESPONSE_MODE of
        None \<Rightarrow> Some (False, headers, s)
      | Some h \<Rightarrow> do {
          v \<leftarrow> uint8_of h;
          s \<leftarrow> (if v = OI_OBEX_SRM_ENABLED then set_srm_cli p (\<lambda>f. f OR OI_OBEX_SRM_ENABLED) s else Some s);
          Some (True,
            if v = OI_OBEX_SRM_ENABLED \<or> always then snd (OI_OBEXCOMMON_DeleteHeaderFromList headers OI_OBEX_HDR_SINGLE_RESPONSE_MODE)
            else headers, s)
        })"

definition srm_wait :: "nat \<Rightarrow> bool \<Rightarrow> 'w OBEX_CLI \<Rightarrow> 'w OBEX_CLI option" where
  "srm_wait p wait s = cset p (\<lambda>c. c\<lparr>srmpWaitReceived := wait,
     k_common := (k_common c)\<lparr>srm := (if wait then srm (k_common c) AND NOT OI_OBEX_SRM_ENABLED
                                      else srm (k_common c) OR OI_OBEX_SRM_ENABLED)\<rparr>\<rparr>) s"

text \<open>The parameters header: it counts in the response with the mode header, and after that if it was
  there. It suspends single response mode or takes it up again.\<close>

definition srm_parameters ::
    "nat \<Rightarrow> bool \<Rightarrow> OI_OBEX_HEADER list \<Rightarrow> 'w OBEX_CLI \<Rightarrow> (bool \<times> OI_OBEX_HEADER list \<times> 'w OBEX_CLI) option" where
  "srm_parameters p initial headers s =
     (case OI_OBEX_FindHeader headers OI_OBEX_HDR_SINGLE_RESPONSE_PARAMETERS of
        None \<Rightarrow> Some (False, headers, s)
      | Some h \<Rightarrow> do {
          v \<leftarrow> uint8_of h;
          s \<leftarrow> (if initial then do {
                  s \<leftarrow> cset p (\<lambda>c. c\<lparr>srmpValid := True\<rparr>) s;
                  c \<leftarrow> conn p s;
                  if v = OI_OBEX_SRM_PARAM_WAIT \<and> srm_on c then srm_wait p True s else Some s
                } else do {
                  c \<leftarrow> conn p s;
                  if \<not> srmpValid c then Some s
                  else if v = OI_OBEX_SRM_PARAM_WAIT then if \<not> srmpWaitReceived c then srm_wait p True s else Some s
                  else if v = OI_OBEX_SRM_PARAM_RSVP then if srmpWaitReceived c then srm_wait p False s else Some s
                  else Some s
                });
          Some (True, snd (OI_OBEXCOMMON_DeleteHeaderFromList headers OI_OBEX_HDR_SINGLE_RESPONSE_PARAMETERS), s)
        })"

text \<open>The two headers together. Without a parameters header a suspended mode is taken up again, which
  the last component says.\<close>

definition srm_headers ::
    "nat \<Rightarrow> bool \<Rightarrow> OI_OBEX_HEADER_LIST \<Rightarrow> 'w OBEX_CLI \<Rightarrow> (OI_OBEX_HEADER list \<times> bool \<times> 'w OBEX_CLI) option" where
  "srm_headers p always hl s = do {
     headers \<leftarrow> hl_headers hl;
     (mode, headers, s) \<leftarrow> srm_mode p always headers s;
     (params, headers, s) \<leftarrow> srm_parameters p mode headers s;
     c \<leftarrow> conn p s;
     if \<not> params \<and> srmpWaitReceived c then do {
       s \<leftarrow> srm_wait p False s;
       Some (headers, True, s)
     } else Some (headers, False, s)
   }"

definition cli_progress :: "'w CLI_ENV \<Rightarrow> nat \<Rightarrow> u8 \<Rightarrow> 'w OBEX_CLI \<Rightarrow> 'w OBEX_CLI option" where
  "cli_progress env p cmd s = do {
     c \<leftarrow> conn p s;
     if progressCB c \<noteq> 0 \<and> progressBytes (k_common c) \<noteq> 0
     then call_app env p (progressCB c) (CLI_PROGRESS_IND cmd (progressBytes (k_common c))) s else Some s
   }"

definition put_progress :: "'w CLI_ENV \<Rightarrow> nat \<Rightarrow> 'w OBEX_CLI \<Rightarrow> 'w OBEX_CLI option" where
  "put_progress env p s = do {
     c \<leftarrow> conn p s;
     if k_state c = OBEX_PUTTING \<or> k_state c = OBEX_BULK_PUTTING then cli_progress env p OI_OBEX_CMD_PUT s else Some s
   }"

text \<open>A callback during which the headers of the response can be fetched.\<close>

definition with_raw_headers ::
    "nat \<Rightarrow> OI_OBEX_HEADER_LIST \<Rightarrow> ('w OBEX_CLI \<Rightarrow> 'w OBEX_CLI option) \<Rightarrow> 'w OBEX_CLI \<Rightarrow> 'w OBEX_CLI option" where
  "with_raw_headers p hl callback s = do {
     s \<leftarrow> cset p (\<lambda>c. c\<lparr>k_pRawHeaders := Some hl\<rparr>) s;
     s \<leftarrow> callback s;
     cset p (\<lambda>c. c\<lparr>k_pRawHeaders := None\<rparr>) s
   }"

section \<open>Responses to SETPATH, ACTION and DISCONNECT\<close>

definition SetpathResponse :: "'w CLI_ENV \<Rightarrow> nat \<Rightarrow> OI_BYTE_STREAM \<Rightarrow> u8 \<Rightarrow> 'w OBEX_CLI \<Rightarrow> 'w OBEX_CLI option" where
  "SetpathResponse env p rcvPacket rspCode s = do {
     let rspCode = (if rspCode = OI_OBEX_FINAL OI_OBEX_RSP_CREATED then OI_OBEX_FINAL OI_OBEX_RSP_OK else rspCode);
     let status = MapResponse rspCode OI_OBEX_ERROR;
     let status = (if status = OI_OBEX_NOT_FOUND then OI_OBEX_NO_SUCH_FOLDER else status);
     s \<leftarrow> SetState_cli p OBEX_CONNECTED s;
     (_, hl, s) \<leftarrow> ParseHeaderList_cli env p rcvPacket s;
     s \<leftarrow> set_busy p False s;
     with_raw_headers p hl (call_word env p K_SETPATH (SETPATH_CFM status)) s
   }"

definition ActionResponse :: "'w CLI_ENV \<Rightarrow> nat \<Rightarrow> OI_BYTE_STREAM \<Rightarrow> u8 \<Rightarrow> 'w OBEX_CLI \<Rightarrow> 'w OBEX_CLI option" where
  "ActionResponse env p rcvPacket rspCode s = do {
     let status = MapResponse rspCode OI_OBEX_ERROR;
     s \<leftarrow> SetState_cli p OBEX_CONNECTED s;
     (_, hl, s) \<leftarrow> ParseHeaderList_cli env p rcvPacket s;
     s \<leftarrow> set_busy p False s;
     with_raw_headers p hl (call_word env p K_ACTION (ACTION_CFM status)) s
   }"

definition DisconnectResponse :: "'w CLI_ENV \<Rightarrow> nat \<Rightarrow> u8 \<Rightarrow> 'w OBEX_CLI \<Rightarrow> 'w OBEX_CLI option" where
  "DisconnectResponse env p rspCode s =
     (let status = MapResponse rspCode OI_OBEX_DISCONNECT_FAILED in
      if \<not> OI_SUCCESS status then FatalObexError env p status s
      else do {
        s \<leftarrow> cset p (\<lambda>c. c\<lparr>disconnectingLowerLayer := True\<rparr>) s;
        let (status, s) = cli_disconnect env p s;
        if \<not> OI_SUCCESS status then FatalObexError env p OI_OBEX_DISCONNECT_FAILED s else Some s
      })"

section \<open>Responses to a PUT\<close>

text \<open>The transfer is being aborted.\<close>

definition bulk_put_aborting :: "'w CLI_ENV \<Rightarrow> nat \<Rightarrow> 'w OBEX_CLI \<Rightarrow> 'w OBEX_CLI option" where
  "bulk_put_aborting env p s = do {
     c \<leftarrow> conn p s;
     can \<leftarrow> (if k_abort c = ABORT_PENDING then CanConfirmAllBulkPuts p s else Some False);
     if can then
       if k_state c = OBEX_BULK_PUTTING then SendAbort env p s
       else do {
         s \<leftarrow> ConfirmBulkPuts_void env p OI_OBEX_CLIENT_ABORTED_COMMAND CONFIRM_ALL s;
         s \<leftarrow> SetState_cli p OBEX_CONNECTED s;
         s \<leftarrow> SetAbortState p NO_ABORT s;
         s \<leftarrow> set_busy p False s;
         call_abortConfirm env p s
       }
     else Some s
   }"

text \<open>The completed blocks are confirmed and, if the transfer goes on, the next ones sent.\<close>

definition bulk_put_confirm :: "'w CLI_ENV \<Rightarrow> nat \<Rightarrow> OI_STATUS \<Rightarrow> 'w OBEX_CLI \<Rightarrow> 'w OBEX_CLI option" where
  "bulk_put_confirm env p status s = do {
     (done_all, s) \<leftarrow> ConfirmBulkPuts env p status CONFIRM_COMPLETED s;
     if status \<noteq> OI_OBEX_CONTINUE then do {
       s \<leftarrow> SetState_cli p OBEX_CONNECTED s;
       s \<leftarrow> set_busy p False s;
       if done_all then Some s else set_bulk_status p OI_OBEX_ERROR s
     } else do {
       s \<leftarrow> set_busy p False s;
       map_option snd (SendBulk_cli env p s)
     }
   }"

definition BulkPutResponse :: "'w CLI_ENV \<Rightarrow> nat \<Rightarrow> OI_BYTE_STREAM \<Rightarrow> u8 \<Rightarrow> 'w OBEX_CLI \<Rightarrow> 'w OBEX_CLI option" where
  "BulkPutResponse env p rcvPacket rspCode s = do {
     (status, hl, s) \<leftarrow> ParseHeaderList_cli env p rcvPacket s;
     let status = (if OI_SUCCESS status then MapResponse rspCode OI_OBEX_PUT_RESPONSE_ERROR else status);
     c \<leftarrow> conn p s;
     if k_abort c \<noteq> NO_ABORT then bulk_put_aborting env p s
     else do {
       (_, resumed, s) \<leftarrow> srm_headers p False hl s;
       if resumed then do {
         s \<leftarrow> ConfirmBulkPuts_void env p status CONFIRM_COMPLETED s;
         s \<leftarrow> set_busy p False s;
         map_option snd (SendBulk_cli env p s)
       } else do {
         s \<leftarrow> set_busy p True s;
         c \<leftarrow> conn p s;
         if \<not> OI_SUCCESS status \<and> (srm_on c \<or> status \<noteq> OI_OBEX_CONTINUE) then do {
           can \<leftarrow> (if status = OI_OBEX_ACCESS_DENIED then CanConfirmAllBulkPuts p s else Some False);
           if can then bulk_put_confirm env p status s
           else do {
             stored \<leftarrow> bulk_status c;
             s \<leftarrow> (if OI_SUCCESS stored then set_bulk_status p status s else Some s);
             FatalObexError env p status s
           }
         } else do {
           s \<leftarrow> (if \<not> srm_supported c then put_progress env p s else Some s);
           bulk_put_confirm env p status s
         }
       }
     }
   }"

text \<open>The rest of a body header that did not fit into its packet is sent. The first component is
  whether that was done; otherwise the status is that of the response, or of the failed packet.\<close>

definition send_rest ::
    "'w CLI_ENV \<Rightarrow> nat \<Rightarrow> CLI_CONNECTION_STATE \<Rightarrow> OI_STATUS \<Rightarrow> 'w OBEX_CLI \<Rightarrow> (bool \<times> OI_STATUS \<times> 'w OBEX_CLI) option" where
  "send_rest env p state status s = do {
     c \<leftarrow> conn p s;
     if k_state c = state \<and> OI_OBEX_IS_A_BODY_HEADER (hdr_id (bodySegment (k_common c))) then do {
       (status, s) \<leftarrow> ClientSendBodySegment env p s;
       Some (OI_SUCCESS status, status, s)
     } else Some (False, status, s)
   }"

definition PutResponse :: "'w CLI_ENV \<Rightarrow> nat \<Rightarrow> OI_BYTE_STREAM \<Rightarrow> u8 \<Rightarrow> 'w OBEX_CLI \<Rightarrow> 'w OBEX_CLI option" where
  "PutResponse env p rcvPacket rspCode s = do {
     (status, hl, s) \<leftarrow> ParseHeaderList_cli env p rcvPacket s;
     let status = (if OI_SUCCESS status then MapResponse rspCode OI_OBEX_PUT_RESPONSE_ERROR else status);
     s \<leftarrow> (if status \<noteq> OI_OBEX_CONTINUE then SetState_cli p OBEX_CONNECTED s else Some s);
     c \<leftarrow> conn p s;
     if k_abort c \<noteq> NO_ABORT then
       if k_abort c = ABORT_PENDING then
         if k_state c = OBEX_PUTTING then SendAbort env p s
         else do {
           s \<leftarrow> SetState_cli p OBEX_CONNECTED s;
           s \<leftarrow> SetAbortState p NO_ABORT s;
           s \<leftarrow> set_busy p False s;
           s \<leftarrow> call_word env p K_PUT (PUT_CFM None OI_OBEX_CLIENT_ABORTED_COMMAND) s;
           call_abortConfirm env p s
         }
       else Some s
     else do {
       (headers, _, s) \<leftarrow> srm_headers p False hl s;
       (sent, status, s) \<leftarrow> send_rest env p OBEX_PUTTING status s;
       if sent then Some s
       else do {
         s \<leftarrow> set_busy p False s;
         call_word env p K_PUT (PUT_CFM (Some headers) status) s
       }
     }
   }"

section \<open>Responses to a GET\<close>

definition GetResponse :: "'w CLI_ENV \<Rightarrow> nat \<Rightarrow> OI_BYTE_STREAM \<Rightarrow> u8 \<Rightarrow> 'w OBEX_CLI \<Rightarrow> 'w OBEX_CLI option" where
  "GetResponse env p rcvPacket rspCode s = do {
     (status, hl, s) \<leftarrow> ParseHeaderList_cli env p rcvPacket s;
     let status = (if OI_SUCCESS status then MapResponse rspCode OI_OBEX_GET_RESPONSE_ERROR else status);
     s \<leftarrow> (if status \<noteq> OI_OBEX_CONTINUE then do { s \<leftarrow> SetState_cli p OBEX_CONNECTED s; SetAbortState p NO_ABORT s } else Some s);
     c \<leftarrow> conn p s;
     if k_abort c \<noteq> NO_ABORT then SendAbort env p s
     else do {
       (headers, _, s) \<leftarrow> srm_headers p True hl s;
       (sent, status, s) \<leftarrow> send_rest env p OBEX_GETTING status s;
       if sent then Some s
       else do {
         c \<leftarrow> conn p s;
         let s = (if status = OI_OBEX_CONTINUE \<and> srm_on c then cli_flow env p False s else s);
         s \<leftarrow> set_busy p False s;
         s \<leftarrow> call_word env p K_GET (GET_RECV_DATA (Some headers) status) s;
         cli_progress env p OI_OBEX_CMD_GET s
       }
     }
   }"

section \<open>Connecting\<close>

definition auth_part_cli :: "OBEXCLI_CONNECTION \<Rightarrow> AUTH_COMMON option" where
  "auth_part_cli c = map_option (\<lambda>a. \<lparr>readOnly = k_readOnly c, authentication = a\<rparr>) (k_auth c)"

definition put_auth_cli :: "nat \<Rightarrow> AUTH_COMMON \<Rightarrow> 'w OBEX_CLI \<Rightarrow> 'w OBEX_CLI option" where
  "put_auth_cli p a = cset p (\<lambda>c. c\<lparr>k_readOnly := readOnly a, k_auth := Some (authentication a)\<rparr>)"

text \<open>The client's challenge and its response to a challenge of the server.\<close>

definition connect_challenge ::
    "'w CLI_ENV \<Rightarrow> nat \<Rightarrow> OI_OBEX_REALM option \<Rightarrow> 'w OBEX_CLI \<Rightarrow> (OI_OBEX_HEADER list \<times> 'w OBEX_CLI) option" where
  "connect_challenge env p realm s = do {
     c \<leftarrow> conn p s;
     if k_authRequired c \<noteq> OI_OBEXCLI_AUTH_NONE then do {
       a \<leftarrow> auth_part_cli c;
       (h, a) \<leftarrow> OI_OBEXAUTH_ComposeChallenge OI_LITTLE_ENDIAN_BYTE_ORDER (v_psize env) (v_md5ctx env) (v_timestamp env)
                   (v_privateKey env) realm a;
       s \<leftarrow> put_auth_cli p a s;
       Some ([h], s)
     } else Some ([], s)
   }"

definition connect_answer :: "'w CLI_ENV \<Rightarrow> nat \<Rightarrow> 'w OBEX_CLI \<Rightarrow> (OI_OBEX_HEADER list \<times> 'w OBEX_CLI) option" where
  "connect_answer env p s = do {
     c \<leftarrow> conn p s;
     if k_authenticating c then do {
       a \<leftarrow> auth_part_cli c;
       (h, a) \<leftarrow> OI_OBEXAUTH_ComposeResponse OI_LITTLE_ENDIAN_BYTE_ORDER (v_psize env) (v_md5ctx env) a;
       s \<leftarrow> put_auth_cli p a s;
       Some ([h], s)
     } else Some ([], s)
   }"

definition SendConnectRequest ::
    "'w CLI_ENV \<Rightarrow> nat \<Rightarrow> OI_INTERVAL \<Rightarrow> OI_OBEX_REALM option \<Rightarrow> 'w OBEX_CLI \<Rightarrow> (OI_STATUS \<times> 'w OBEX_CLI) option" where
  "SendConnectRequest env p timeout realm s = do {
     c \<leftarrow> conn p s;
     OI_ASSERT (k_state c = LOWER_LAYER_CONNECTED);
     (challenge, s) \<leftarrow> connect_challenge env p realm s;
     (answer, s) \<leftarrow> connect_answer env p s;
     (status, s) \<leftarrow> send_request env p OI_OBEX_CMD_CONNECT
       ([OI_OBEX_VERSION_NUMBER, OI_OBEX_CONNECT_FLAGS] @ SetUINT16_BigEndian (k_maxRecvPktLen c))
       (challenge @ answer) (Some (connectHdrs c)) timeout s;
     if OI_SUCCESS status then do { s \<leftarrow> set_busy p True s; Some (OI_OK, s) } else Some (status, s)
   }"

definition OI_OBEXCLI_Authentication ::
    "'w CLI_ENV \<Rightarrow> u32 \<Rightarrow> bytes option \<Rightarrow> u8 \<Rightarrow> bytes option \<Rightarrow> OI_OBEX_REALM option \<Rightarrow> 'w OBEX_CLI \<Rightarrow>
       (OI_STATUS \<times> 'w OBEX_CLI) option" where
  "OI_OBEXCLI_Authentication env h uid uidLen pw realm s = do {
     found \<leftarrow> LookupConnection_cli h s;
     case found of
       None \<Rightarrow> Some (OI_STATUS_INVALID_PARAMETERS, s)
     | Some (p, c) \<Rightarrow>
       if k_busy c then Some (OI_OBEX_OPERATION_IN_PROGRESS, s)
       else if \<not> k_authenticating c \<and> k_authRequired c = OI_OBEXCLI_AUTH_NONE then Some (OI_OBEX_METHOD_NOT_ALLOWED, s)
       else do {
         (status, s) \<leftarrow> (case pw of
            None \<Rightarrow> Some (OI_OBEX_CLIENT_ABORTED_COMMAND, s)
          | Some pw \<Rightarrow> do {
              a \<leftarrow> auth_part_cli c;
              (status, a) \<leftarrow> OI_OBEXAUTH_SaveAuthInfo a uid uidLen pw;
              s \<leftarrow> put_auth_cli p a s;
              if OI_SUCCESS status then SendConnectRequest env p (v_responseTimeout env) realm s else Some (status, s)
            });
         if OI_SUCCESS status then do {
           s \<leftarrow> set_busy p True s;
           Some (OI_OK, s)
         } else do {
           c \<leftarrow> conn p s;
           a \<leftarrow> auth_part_cli c;
           s \<leftarrow> put_auth_cli p (OI_OBEXAUTH_Reset a) s;
           s \<leftarrow> ReportError p OI_OBEX_CLIENT_ABORTED_COMMAND s;
           Some (status, s)
         }
       }
   }"

text \<open>The fixed part of the response: the version, the flags, which are skipped without a look at the
  end of the packet, and the packet length of the server.\<close>

definition connect_rsp_fields ::
    "nat \<Rightarrow> OI_BYTE_STREAM \<Rightarrow> 'w OBEX_CLI \<Rightarrow> (OI_STATUS \<times> OI_BYTE_STREAM \<times> 'w OBEX_CLI) option" where
  "connect_rsp_fields p pkt s = do {
     (version, pkt) \<leftarrow> ByteStream_GetUINT8_Checked pkt 0;
     if OI_OBEX_MAJOR_VERSION_NUMBER version \<noteq> 1 then Some (OI_OBEX_UNSUPPORTED_VERSION, pkt, s)
     else do {
       pkt \<leftarrow> ByteStream_Skip pkt 1;
       (n, pkt) \<leftarrow> ByteStream_GetUINT16_Checked pkt 0 OI_BIG_ENDIAN_BYTE_ORDER;
       if ByteStream_Error pkt then Some (OI_OBEX_INCOMPLETE_PACKET, pkt, s)
       else do {
         c \<leftarrow> conn p s;
         let n = min (maxSendPktLen (k_common c)) n;
         s \<leftarrow> cset p (\<lambda>c. c\<lparr>k_common := (k_common c)\<lparr>maxSendPktLen := n\<rparr>\<rparr>) s;
         Some (if n < OI_OBEX_MIN_PACKET_SIZE then OI_OBEX_VALUE_NOT_ACCEPTABLE else OI_OK, pkt, s)
       }
     }
   }"

text \<open>The server asks for authentication: the application is asked for a password. The status is an
  error if the connection fails.\<close>

definition connect_unauthorized ::
    "'w CLI_ENV \<Rightarrow> nat \<Rightarrow> OI_OBEX_HEADER_LIST \<Rightarrow> 'w OBEX_CLI \<Rightarrow> (OI_STATUS \<times> 'w OBEX_CLI) option" where
  "connect_unauthorized env p hl s = do {
     headers \<leftarrow> hl_headers hl;
     s \<leftarrow> cset p (\<lambda>c. c\<lparr>k_authenticating := True\<rparr>) s;
     c \<leftarrow> conn p s;
     case OI_OBEX_FindHeader headers OI_OBEX_HDR_AUTHENTICATION_CHALLENGE of
       None \<Rightarrow> Some (OI_OBEX_REQUIRED_HEADER_NOT_FOUND, s)
     | Some challenge \<Rightarrow>
         (case auth_part_cli c of
            None \<Rightarrow> Some (OI_OBEX_NOT_IMPLEMENTED, s)
          | Some a \<Rightarrow> do {
              (_, a) \<leftarrow> OI_OBEXAUTH_SaveChallenge a challenge;
              s \<leftarrow> put_auth_cli p a s;
              if challengeCB c \<noteq> 0 then do {
                s \<leftarrow> set_busy p False s;
                let realm = auth_realm (authentication a);
                s \<leftarrow> with_raw_headers p hl (call_app env p (challengeCB c)
                       (CHALLENGE_IND (userIdRequested (authentication a)) (if realm_len realm > 0 then Some realm else None))) s;
                Some (OI_OK, s)
              } else Some (OI_OK, s)
            })
   }"

text \<open>Are the first \<open>n\<close> characters the same, up to the end of the string?\<close>

fun strncmp_same :: "nat \<Rightarrow> bytes \<Rightarrow> bytes \<Rightarrow> bool option" where
  "strncmp_same 0 xs ys = Some True"
| "strncmp_same (Suc n) (x # xs) (y # ys) = (if x \<noteq> y then Some False else if x = 0 then Some True else strncmp_same n xs ys)"
| "strncmp_same (Suc n) _ _ = None"

text \<open>The user id that the server gives must be the client's, if one is required.\<close>

definition check_userId :: "OBEX_AUTHENTICATION \<Rightarrow> OI_STATUS option" where
  "check_userId a =
     (if \<not> userIdRequired a then Some OI_OK
      else if userIdRemoteLen a = 0 then Some OI_OBEX_ACCESS_DENIED
      else if userIdLen a = userIdRemoteLen a then do {
        same \<leftarrow> strncmp_same (unat (userIdLen a)) (userId a) (userIdRemote a);
        Some (if same then OI_OK else OI_OBEX_ACCESS_DENIED)
      }
      else Some OI_OBEX_ACCESS_DENIED)"

text \<open>The server authenticates itself to the client, if the client requires it.\<close>

definition connect_verify ::
    "'w CLI_ENV \<Rightarrow> nat \<Rightarrow> OI_OBEX_HEADER list \<Rightarrow> 'w OBEX_CLI \<Rightarrow> (OI_STATUS \<times> 'w OBEX_CLI) option" where
  "connect_verify env p headers s = do {
     c \<leftarrow> conn p s;
     if k_authRequired c = OI_OBEXCLI_AUTH_NONE then Some (OI_OK, s)
     else case OI_OBEX_FindHeader headers OI_OBEX_HDR_AUTHENTICATION_RESPONSE of
       None \<Rightarrow> Some (OI_OBEX_REQUIRED_HEADER_NOT_FOUND, s)
     | Some response \<Rightarrow> do {
         a \<leftarrow> auth_part_cli c;
         (_, a) \<leftarrow> OI_OBEXAUTH_SaveResponse a response;
         s \<leftarrow> put_auth_cli p a s;
         status \<leftarrow> check_userId (authentication a);
         status \<leftarrow> (if OI_SUCCESS status
            then OI_OBEXAUTH_Authenticate OI_LITTLE_ENDIAN_BYTE_ORDER (v_psize env) (v_md5ctx env) a else Some status);
         if OI_SUCCESS status then Some (OI_OK, s)
         else do {
           s \<leftarrow> put_auth_cli p (OI_OBEXAUTH_Reset a) s;
           Some (OI_OBEX_ACCESS_DENIED, s)
         }
       }
   }"

definition connect_established ::
    "'w CLI_ENV \<Rightarrow> nat \<Rightarrow> OI_OBEX_HEADER_LIST \<Rightarrow> 'w OBEX_CLI \<Rightarrow> (OI_STATUS \<times> 'w OBEX_CLI) option" where
  "connect_established env p hl s = do {
     headers \<leftarrow> hl_headers hl;
     s \<leftarrow> (case OI_OBEX_FindHeader headers OI_OBEX_HDR_CONNECTION_ID of
             None \<Rightarrow> Some s
           | Some h \<Rightarrow> do { v \<leftarrow> uint32_of h; cset p (\<lambda>c. c\<lparr>k_cid := v\<rparr>) s });
     (status, s) \<leftarrow> connect_verify env p headers s;
     if \<not> OI_SUCCESS status then Some (status, s)
     else do {
       s \<leftarrow> SetState_cli p OBEX_CONNECTED s;
       s \<leftarrow> set_busy p False s;
       c \<leftarrow> conn p s;
       s \<leftarrow> with_raw_headers p hl (call_word env p K_CONNECT (CONNECT_CFM (k_readOnly c) OI_OK)) s;
       Some (OI_OK, s)
     }
   }"

definition connect_response ::
    "'w CLI_ENV \<Rightarrow> nat \<Rightarrow> OI_BYTE_STREAM \<Rightarrow> u8 \<Rightarrow> 'w OBEX_CLI \<Rightarrow> (OI_STATUS \<times> 'w OBEX_CLI) option" where
  "connect_response env p rcvPacket rspCode s =
     (let status = MapResponse rspCode OI_OBEX_CONNECT_FAILED in
      if \<not> OI_SUCCESS status \<and> status \<noteq> OI_OBEX_UNAUTHORIZED then Some (status, s)
      else do {
        (st, pkt, s) \<leftarrow> connect_rsp_fields p rcvPacket s;
        if \<not> OI_SUCCESS st then Some (st, s)
        else do {
          (st, hl, s) \<leftarrow> ParseHeaderList_cli env p pkt s;
          if \<not> OI_SUCCESS st then Some (st, s)
          else if status = OI_OBEX_UNAUTHORIZED then connect_unauthorized env p hl s
          else connect_established env p hl s
        }
      })"

text \<open>The jump to \<open>ConnectFailed\<close> is an error status.\<close>

definition ConnectResponse :: "'w CLI_ENV \<Rightarrow> nat \<Rightarrow> OI_BYTE_STREAM \<Rightarrow> u8 \<Rightarrow> 'w OBEX_CLI \<Rightarrow> 'w OBEX_CLI option" where
  "ConnectResponse env p rcvPacket rspCode s = do {
     (status, s) \<leftarrow> connect_response env p rcvPacket rspCode s;
     if OI_SUCCESS status then Some s else FatalObexError env p status s
   }"

end
