(* ===== verification/ObexCliLower.thy ===== *)
theory ObexCliLower
  imports ObexCliRecv
begin

unbundle bit_operations_syntax

text \<open>
  The OBEX client, fourth part: the events of the lower layer by state, making and ending a
  connection, and the small functions that read or set a field.
\<close>

section \<open>Write confirmations\<close>

text \<open>The result is the status that is left for the caller to act on.\<close>

definition bulk_write_failed :: "'w CLI_ENV \<Rightarrow> nat \<Rightarrow> OI_STATUS \<Rightarrow> 'w OBEX_CLI \<Rightarrow> (OI_STATUS \<times> 'w OBEX_CLI) option" where
  "bulk_write_failed env p status s = do {
     can \<leftarrow> CanConfirmAllBulkPuts p s;
     c \<leftarrow> conn p s;
     s \<leftarrow> (if can then if k_abort c \<noteq> NO_ABORT then SendAbort env p s else FatalObexError env p status s
           else Some s);
     Some (OI_OK, s)
   }"

text \<open>Single response mode: completed blocks are confirmed and more data written if the queue is not
  full.\<close>

definition bulk_write_next :: "'w CLI_ENV \<Rightarrow> nat \<Rightarrow> bool \<Rightarrow> OI_STATUS \<Rightarrow> 'w OBEX_CLI \<Rightarrow> (OI_STATUS \<times> 'w OBEX_CLI) option" where
  "bulk_write_next env p queueFull status s = do {
     s \<leftarrow> ConfirmBulkPuts_void env p OI_OBEX_CONTINUE CONFIRM_COMPLETED s;
     if queueFull then Some (status, s)
     else do {
       s \<leftarrow> set_busy p False s;
       (status, s) \<leftarrow> SendBulk_cli env p s;
       if OI_SUCCESS status then Some (status, s)
       else do {
         c \<leftarrow> conn p s;
         n \<leftarrow> cl_heap s (cb_head c);
         if bytesConfirmed (bn_block n) < bytesSent (bn_block n) then do {
           s \<leftarrow> set_bulk_status p status s;
           Some (OI_OK, s)
         } else Some (status, s)
       }
     }
   }"

definition BulkPutWriteCfm ::
    "'w CLI_ENV \<Rightarrow> nat \<Rightarrow> u16 \<Rightarrow> nat \<Rightarrow> bool \<Rightarrow> OI_STATUS \<Rightarrow> 'w OBEX_CLI \<Rightarrow> (OI_STATUS \<times> 'w OBEX_CLI) option" where
  "BulkPutWriteCfm env p confirmed bulkData queueFull status s = do {
     s \<leftarrow> cset p (\<lambda>c. c\<lparr>k_common := (k_common c)\<lparr>progressBytes := progressBytes (k_common c) + ucast confirmed\<rparr>\<rparr>) s;
     h \<leftarrow> spread_confirm confirmed bulkData (cl_heap s);
     let s = s\<lparr>cl_heap := h\<rparr>;
     c \<leftarrow> conn p s;
     let status = (if k_abort c \<noteq> NO_ABORT then OI_OBEX_CLIENT_ABORTED_COMMAND else status);
     stored \<leftarrow> bulk_status c;
     let status = (if \<not> OI_SUCCESS stored then stored else status);
     s \<leftarrow> set_bulk_status p status s;
     if \<not> OI_SUCCESS status then bulk_write_failed env p status s
     else if \<not> srm_on c then Some (OI_OK, s)
     else bulk_write_next env p queueFull status s
   }"

text \<open>The mbuf that is confirmed is the connection's, whose context is \<open>NULL\<close>, or one of a bulk
  transfer with its context. Either way the pointer of the connection is cleared.\<close>

datatype CLI_MBUF = CM_common | CM_bulk OI_MBUF nat

definition LowerWriteCfm_cli :: "'w CLI_ENV \<Rightarrow> nat \<Rightarrow> CLI_MBUF \<Rightarrow> bool \<Rightarrow> OI_STATUS \<Rightarrow> 'w OBEX_CLI \<Rightarrow> 'w OBEX_CLI option" where
  "LowerWriteCfm_cli env p wm queueFull result s =
     (if p = 0 then Some s
      else do {
        c \<leftarrow> conn p s;
        (m, context) \<leftarrow> (case wm of
           CM_common \<Rightarrow> map_option (\<lambda>m. (m, 0)) (mbuf (k_common c))
         | CM_bulk m context \<Rightarrow> Some (m, context));
        (numBytes, _, _) \<leftarrow> OI_MBUF_Free m;
        s \<leftarrow> cset p (\<lambda>c. c\<lparr>k_common := (k_common c)\<lparr>mbuf := None\<rparr>\<rparr>) s;
        (result, s) \<leftarrow>
          (if k_state c = OBEX_BULK_PUTTING
           then BulkPutWriteCfm env p (numBytes - of_nat BULK_PUT_HDR_SIZE) context queueFull result s
           else Some (result, s));
        if OI_SUCCESS result then do {
          c \<leftarrow> conn p s;
          if srm_on c then put_progress env p s else Some s
        } else FatalObexError env p result s
      })"

section \<open>Received packets\<close>

text \<open>While an abort is waited for, everything but a short packet with the response OK is discarded.\<close>

definition abort_response :: "'w CLI_ENV \<Rightarrow> nat \<Rightarrow> u8 \<Rightarrow> nat \<Rightarrow> 'w OBEX_CLI \<Rightarrow> 'w OBEX_CLI option" where
  "abort_response env p rspCode dataLen s =
     (if rspCode \<noteq> OI_OBEX_FINAL OI_OBEX_RSP_OK \<or> dataLen > ABORT_RSP_LEN
      then SetCommandTimeout p OBEX_ABORT_TIMEOUT s else AbortConfirm env p s)"

definition dispatch_response ::
    "'w CLI_ENV \<Rightarrow> nat \<Rightarrow> OI_BYTE_STREAM \<Rightarrow> u8 \<Rightarrow> nat \<Rightarrow> 'w OBEX_CLI \<Rightarrow> 'w OBEX_CLI option" where
  "dispatch_response env p pkt rspCode dataLen s = do {
     c \<leftarrow> conn p s;
     case k_state c of
       LOWER_LAYER_CONNECTED \<Rightarrow> ConnectResponse env p pkt rspCode s
     | OBEX_DISCONNECTING \<Rightarrow> DisconnectResponse env p rspCode s
     | OBEX_BULK_PUTTING \<Rightarrow> BulkPutResponse env p pkt rspCode s
     | OBEX_PUTTING \<Rightarrow> if k_abort c \<noteq> NO_ABORT then SendAbort env p s else PutResponse env p pkt rspCode s
     | OBEX_GETTING \<Rightarrow> if k_abort c \<noteq> NO_ABORT then SendAbort env p s else GetResponse env p pkt rspCode s
     | OBEX_SETTING_PATH \<Rightarrow> SetpathResponse env p pkt rspCode s
     | OBEX_DO_ACTION \<Rightarrow> ActionResponse env p pkt rspCode s
     | OBEX_ABORTING \<Rightarrow> abort_response env p rspCode dataLen s
     | _ \<Rightarrow> FatalObexError env p OI_OBEX_ERROR s
   }"

definition LowerRecvDataInd_cli :: "'w CLI_ENV \<Rightarrow> nat \<Rightarrow> bytes \<Rightarrow> 'w OBEX_CLI \<Rightarrow> 'w OBEX_CLI option" where
  "LowerRecvDataInd_cli env p dataBuf s =
     (if p = 0 then Some s
      else do {
        s \<leftarrow> cancel_timeout p s;
        c \<leftarrow> conn p s;
        if disconnectingLowerLayer c then Some s
        else do {
          pkt \<leftarrow> ByteStream_Init blank_stream 0 dataBuf (of_nat (length dataBuf));
          pkt \<leftarrow> ByteStream_Open pkt BYTESTREAM_READ;
          (rspCode, pkt) \<leftarrow> ByteStream_GetUINT8 pkt;
          pkt \<leftarrow> ByteStream_Skip pkt 2;
          dispatch_response env p pkt rspCode (length dataBuf) s
        }
      })"

section \<open>Making a connection\<close>

definition LowerConnectCfm_cli :: "'w CLI_ENV \<Rightarrow> nat \<Rightarrow> u16 \<Rightarrow> u16 \<Rightarrow> OI_STATUS \<Rightarrow> 'w OBEX_CLI \<Rightarrow> 'w OBEX_CLI option" where
  "LowerConnectCfm_cli env p recvMtu sendMtu result s =
     (if p = 0 then Some s
      else do {
        c \<leftarrow> conn p s;
        OI_ASSERT (k_state c = LOWER_LAYER_CONNECTING);
        (result, s) \<leftarrow>
          (if OI_SUCCESS result then do {
             s \<leftarrow> cset p (\<lambda>c. c\<lparr>k_maxRecvPktLen := min recvMtu (k_maxRecvPktLen c),
                    k_common := (k_common c)\<lparr>maxSendPktLen := sendMtu\<rparr>, k_state := LOWER_LAYER_CONNECTED\<rparr>) s;
             if k_authRequired c = OI_OBEXCLI_AUTH_NONE then SendConnectRequest env p (v_responseTimeout env) None s
             else do {
               s \<leftarrow> set_busy p False s;
               a \<leftarrow> k_auth c;
               s \<leftarrow> call_app env p (challengeCB c) (CHALLENGE_IND (userIdRequired a) None) s;
               Some (result, s)
             }
           } else Some (result, s));
        if \<not> OI_SUCCESS result then FatalObexError env p result s else Some s
      })"

text \<open>The lower layer's function that makes a connection, and the protocols it knows.\<close>

definition OI_OBEX_LOWER_Connect ::
    "'w CLI_ENV \<Rightarrow> nat \<Rightarrow> bool \<Rightarrow> bytes \<Rightarrow> LOWER_PROTOCOL \<Rightarrow> u16 \<Rightarrow> 'w \<Rightarrow> OI_STATUS \<times> 'w" where
  "OI_OBEX_LOWER_Connect env p calloc_ok addr protocol mtu w =
     (case protocol of
        OI_OBEX_LOWER_TCPIP \<Rightarrow> (OI_STATUS_NOT_IMPLEMENTED, w)
      | OTHER_PROTOCOL _ \<Rightarrow> (OI_STATUS_INVALID_PARAMETERS, w)
      | _ \<Rightarrow> if calloc_ok then v_connect env p addr protocol mtu w else (OI_STATUS_NO_RESOURCES, w))"

definition zeroed_connection :: OBEXCLI_CONNECTION where
  "zeroed_connection =
     \<lparr>k_common = \<lparr>mbuf = None, hdrBuf = replicate 8 0, srm = 0, maxSendPktLen = 0, currentOpcode = 0,
        bodySegment = \<lparr>hdr_id = 0, hdr_val = UINT32 0\<rparr>, progressBytes = 0\<rparr>,
      k_handle = 0, k_auth = None, k_authenticating = False, k_readOnly = False, k_pRawHeaders = None, srmpValid = False,
      srmpWaitReceived = False, k_maxRecvPktLen = 0, k_context = 0, responseTimeout = 0, timeoutCB = 0, k_disconnectInd = 0,
      challengeCB = 0, progressCB = 0, bulkPutCfm = 0, cb_word = CBW_zero, cb_current = 0, cb_head = 0, cb_tail = 0,
      connectHdrs = [], k_cid = 0, k_abort = NO_ABORT, abortingState = INVALID_CONNECTION, abortConfirm = NO_FN,
      k_busy = False, srmRequested = False, disconnectingLowerLayer = False, k_authRequired = OI_OBEXCLI_AUTH_NONE,
      k_state = INVALID_CONNECTION\<rparr>"

record OI_OBEXCLI_CB_LIST =
  connectCfmCB :: nat
  disconnectIndCB :: nat
  authChallengeIndCB :: nat
  progressIndCB :: nat
  cbl_bulkPutCfm :: nat

text \<open>The fields of a new connection, before the lower layer is asked. The status is an error if the
  memory or the callback for authentication is not there.\<close>

definition new_connection ::
    "'w CLI_ENV \<Rightarrow> bool \<Rightarrow> u32 \<Rightarrow> OI_OBEXCLI_AUTHENTICATION \<Rightarrow> OI_OBEX_HEADER list option \<Rightarrow> OI_OBEXCLI_CB_LIST \<Rightarrow>
       (OI_STATUS \<times> OBEXCLI_CONNECTION) option" where
  "new_connection env auth_mem h auth cmdHeaders callbacks = do {
     let c = zeroed_connection\<lparr>k_handle := h, responseTimeout := v_responseTimeout env, k_maxRecvPktLen := v_maxPktLen env,
       k_state := LOWER_LAYER_CONNECTING, k_disconnectInd := disconnectIndCB callbacks, k_cid := OI_OBEX_INVALID_CONNECTION_ID,
       progressCB := progressIndCB callbacks, bulkPutCfm := cbl_bulkPutCfm callbacks,
       cb_word := CBW_fn K_CONNECT (connectCfmCB callbacks), k_authRequired := auth\<rparr>;
     let authenticate = (authChallengeIndCB callbacks \<noteq> 0 \<or> auth \<noteq> OI_OBEXCLI_AUTH_NONE);
     if authenticate \<and> \<not> auth_mem then Some (OI_STATUS_OUT_OF_MEMORY, c)
     else do {
       let c = (if authenticate then c\<lparr>k_auth := Some (zeroed_auth
                  \<lparr>userIdRequired := (auth = OI_OBEXCLI_AUTH_USERID_AND_PASSWORD)\<rparr>), challengeCB := authChallengeIndCB callbacks\<rparr> else c);
       if authenticate \<and> authChallengeIndCB callbacks = 0 then Some (OI_OBEX_BAD_REQUEST, c)
       else do {
         let hdrs = (case cmdHeaders of None \<Rightarrow> [] | Some hdrs \<Rightarrow> hdrs);
         OI_ASSERT (length hdrs \<le> OI_OBEX_MAX_CONNECT_HDRS);
         Some (OI_OK, c\<lparr>connectHdrs := hdrs\<rparr>)
       }
     }
   }"

text \<open>The handle type is the number of a string; the address that is not used again is that of the
  record. A connection that cannot be made is freed at \<open>ConnectErrorExit\<close>.\<close>

definition ObexClientHandleType :: nat where "ObexClientHandleType = 1"

definition OI_OBEXCLI_Connect ::
    "'w CLI_ENV \<Rightarrow> bytes \<Rightarrow> LOWER_PROTOCOL \<Rightarrow> bool \<Rightarrow> OI_OBEXCLI_AUTHENTICATION \<Rightarrow> OI_OBEX_HEADER list option \<Rightarrow>
       OI_OBEXCLI_CB_LIST \<Rightarrow> 'w OBEX_CLI \<Rightarrow> (OI_STATUS \<times> u32 option \<times> 'w OBEX_CLI) option" where
  "OI_OBEXCLI_Connect env addr protocol enableSRM auth cmdHeaders callbacks s = do {
     OI_ASSERT (connectCfmCB callbacks \<noteq> 0);
     OI_ASSERT (disconnectIndCB callbacks \<noteq> 0);
     let mem = v_mem env (cl_calls s);
     let p = cl_fresh s;
     let s = s\<lparr>cl_calls := Suc (cl_calls s)\<rparr>;
     if \<not> mem 0 then Some (OI_STATUS_NO_RESOURCES, None, s)
     else do {
       let (h, hs) = OI_HANDLE_Alloc ObexClientHandleType p (cl_handles s);
       let s = s\<lparr>cl_fresh := Suc p, cl_handles := hs\<rparr>;
       if h = 0 then Some (OI_STATUS_NO_RESOURCES, None, s)
       else do {
         (status, c) \<leftarrow> new_connection env (mem 1) h auth cmdHeaders callbacks;
         let (status, w) = (if OI_SUCCESS status then OI_OBEX_LOWER_Connect env p (mem 2) addr protocol (v_maxPktLen env) (cl_world s)
                            else (status, cl_world s));
         let s = s\<lparr>cl_world := w\<rparr>;
         if OI_SUCCESS status then do {
           let c = (if enableSRM \<and> protocol = OI_OBEX_LOWER_L2CAP
                    then c\<lparr>k_common := (k_common c)\<lparr>srm := OI_OBEX_SRM_SUPPORTED\<rparr>\<rparr> else c);
           Some (OI_OK, Some h, s\<lparr>cl_conns := (cl_conns s)(p := Some c), cl_initFlag := cl_initFlag s + 1\<rparr>)
         } else Some (status, None, s\<lparr>cl_handles := snd (OI_HANDLE_Free h (cl_handles s))\<rparr>)
       }
     }
   }"

section \<open>Ending a connection\<close>

definition OI_OBEXCLI_Disconnect ::
    "'w CLI_ENV \<Rightarrow> u32 \<Rightarrow> OI_OBEX_HEADER list option \<Rightarrow> 'w OBEX_CLI \<Rightarrow> (OI_STATUS \<times> 'w OBEX_CLI) option" where
  "OI_OBEXCLI_Disconnect env h cmdHeaders s = do {
     found \<leftarrow> LookupConnection_cli h s;
     case found of
       None \<Rightarrow> Some (OI_STATUS_NOT_CONNECTED, s)
     | Some (p, c) \<Rightarrow>
       if k_state c < OBEX_CONNECTED then Some (OI_STATUS_NOT_CONNECTED, s)
       else do {
         (status, s) \<leftarrow> (if k_state c > OBEX_CONNECTED then Some (OI_OBEX_OPERATION_IN_PROGRESS, s)
            else ClientSendCommand env p OI_OBEX_CMD_DISCONNECT OBEX_DISCONNECT_TIMEOUT cmdHeaders s);
         s \<leftarrow> (if OI_SUCCESS status then do {
                 s \<leftarrow> set_busy p True s;
                 SetState_cli p OBEX_DISCONNECTING s
               } else FatalObexError env p status s);
         Some (OI_OK, s)
       }
   }"

section \<open>Fields of a connection\<close>

definition OI_OBEXCLI_SetResponseTimeout :: "u32 \<Rightarrow> OI_INTERVAL \<Rightarrow> 'w OBEX_CLI \<Rightarrow> (OI_STATUS \<times> 'w OBEX_CLI) option" where
  "OI_OBEXCLI_SetResponseTimeout h timeout s = do {
     found \<leftarrow> LookupConnection_cli h s;
     case found of
       None \<Rightarrow> Some (OI_OBEX_NOT_CONNECTED, s)
     | Some (p, c) \<Rightarrow>
       if k_state c < OBEX_CONNECTED then Some (OI_OBEX_NOT_CONNECTED, s)
       else do {
         OI_ASSERT (timeout > 0);
         s \<leftarrow> cset p (\<lambda>c. c\<lparr>responseTimeout := timeout\<rparr>) s;
         Some (OI_OK, s)
       }
   }"

definition OI_OBEXCLI_OptimalBodyHeaderSize :: "u32 \<Rightarrow> 'w OBEX_CLI \<Rightarrow> u16 option" where
  "OI_OBEXCLI_OptimalBodyHeaderSize h s = do {
     found \<leftarrow> LookupConnection_cli h s;
     Some (case found of
       None \<Rightarrow> 0
     | Some (p, c) \<Rightarrow> if k_state c < OBEX_CONNECTED then 0 else maxSendPktLen (k_common c) - OI_OBEX_BODY_PKT_OVERHEAD)
   }"

definition OI_OBEXCLI_SetConnectionContext :: "u32 \<Rightarrow> nat \<Rightarrow> 'w OBEX_CLI \<Rightarrow> (OI_STATUS \<times> 'w OBEX_CLI) option" where
  "OI_OBEXCLI_SetConnectionContext h context s = do {
     found \<leftarrow> (if h = 0 then Some None else LookupConnection_cli h s);
     case found of
       None \<Rightarrow> Some (OI_STATUS_NOT_FOUND, s)
     | Some (p, c) \<Rightarrow> do {
         s \<leftarrow> cset p (\<lambda>c. c\<lparr>k_context := context\<rparr>) s;
         Some (OI_OK, s)
       }
   }"

definition OI_OBEXCLI_GetConnectionContext :: "u32 \<Rightarrow> 'w OBEX_CLI \<Rightarrow> nat option" where
  "OI_OBEXCLI_GetConnectionContext h s = do {
     found \<leftarrow> (if h = 0 then Some None else LookupConnection_cli h s);
     Some (case found of None \<Rightarrow> 0 | Some (p, c) \<Rightarrow> k_context c)
   }"

definition OI_OBEXCLI_GetL2capCID :: "'w CLI_ENV \<Rightarrow> u32 \<Rightarrow> 'w OBEX_CLI \<Rightarrow> (OI_STATUS \<times> u16) option" where
  "OI_OBEXCLI_GetL2capCID env h s = do {
     found \<leftarrow> (if h = 0 then Some None else LookupConnection_cli h s);
     Some (case found of
       None \<Rightarrow> (OI_STATUS_NOT_FOUND, 0)
     | Some (p, c) \<Rightarrow>
         if k_state c \<in> {INVALID_CONNECTION, LOWER_LAYER_CONNECTING, OBEX_DISCONNECTING} then (OI_STATUS_NOT_CONNECTED, 0)
         else (OI_OK, v_getCID env p (cl_world s)))
   }"

definition OI_OBEXCLI_GetRawHeaderList :: "u32 \<Rightarrow> 'w OBEX_CLI \<Rightarrow> (OI_STATUS \<times> OI_OBEX_HEADER_LIST option) option" where
  "OI_OBEXCLI_GetRawHeaderList h s = do {
     found \<leftarrow> LookupConnection_cli h s;
     Some (case found of
       None \<Rightarrow> (OI_OBEX_INVALID_OPERATION, None)
     | Some (p, c) \<Rightarrow> (OI_OK, k_pRawHeaders c))
   }"

end
