(* ===== verification/ObexCliSafe.thy ===== *)
theory ObexCliSafe
  imports ObexCliLower
begin

unbundle bit_operations_syntax

text \<open>
  What every run of the OBEX client keeps: the first word of the union in a connection always has the
  type that the state of the connection stands for. The proofs go function by function with the
  calculus of \<open>Prelude\<close>; what is kept depends only on the state, the word and the state an abort
  came from, so most steps keep it by \<open>simp\<close>.
\<close>

section \<open>The discipline of the union\<close>

fun word_is :: "CB_KIND \<Rightarrow> CB_WORD \<Rightarrow> bool" where
  "word_is k (CBW_fn k' f) \<longleftrightarrow> k' = k \<and> f \<noteq> 0"
| "word_is k w \<longleftrightarrow> False"

fun word_status :: "CB_WORD \<Rightarrow> bool" where
  "word_status (CBW_status st) \<longleftrightarrow> True"
| "word_status w \<longleftrightarrow> False"

text \<open>The word, by the state of the connection and the state that an abort came from.\<close>

fun word_fits :: "CLI_CONNECTION_STATE \<Rightarrow> CB_WORD \<Rightarrow> CLI_CONNECTION_STATE \<Rightarrow> bool" where
  "word_fits LOWER_LAYER_CONNECTING w a \<longleftrightarrow> word_is K_CONNECT w"
| "word_fits LOWER_LAYER_CONNECTED w a \<longleftrightarrow> word_is K_CONNECT w"
| "word_fits OBEX_GETTING w a \<longleftrightarrow> word_is K_GET w"
| "word_fits OBEX_PUTTING w a \<longleftrightarrow> word_is K_PUT w"
| "word_fits OBEX_SETTING_PATH w a \<longleftrightarrow> word_is K_SETPATH w"
| "word_fits OBEX_DO_ACTION w a \<longleftrightarrow> word_is K_ACTION w"
| "word_fits OBEX_BULK_PUTTING w a \<longleftrightarrow> word_status w"
| "word_fits OBEX_ABORTING w OBEX_GETTING \<longleftrightarrow> word_is K_GET w"
| "word_fits OBEX_ABORTING w OBEX_PUTTING \<longleftrightarrow> word_is K_PUT w"
| "word_fits OBEX_ABORTING w OBEX_SETTING_PATH \<longleftrightarrow> word_is K_SETPATH w"
| "word_fits OBEX_ABORTING w OBEX_DO_ACTION \<longleftrightarrow> word_is K_ACTION w"
| "word_fits OBEX_ABORTING w OBEX_BULK_PUTTING \<longleftrightarrow> word_status w"
| "word_fits st w a \<longleftrightarrow> True"

definition word_ok :: "OBEXCLI_CONNECTION \<Rightarrow> bool" where
  "word_ok c \<longleftrightarrow> word_fits (k_state c) (cb_word c) (abortingState c)"

text \<open>A connection in the middle of a bulk transfer stays in one while the application is called, and
  one whose lower connection is there is not freed by a call of the application. Two sets of addresses
  say which connections a function relies on in these ways.\<close>

definition in_bulk :: "CLI_CONNECTION_STATE \<Rightarrow> CLI_CONNECTION_STATE \<Rightarrow> bool" where
  "in_bulk st a \<longleftrightarrow> st = OBEX_BULK_PUTTING \<or> st = OBEX_ABORTING \<and> a = OBEX_BULK_PUTTING"

definition ok_key :: "nat set \<Rightarrow> nat set \<Rightarrow> nat \<Rightarrow> CLI_CONNECTION_STATE \<Rightarrow> CB_WORD \<Rightarrow> CLI_CONNECTION_STATE \<Rightarrow> bool" where
  "ok_key B L p st w a \<longleftrightarrow>
     word_fits st w a \<and> (p \<in> B \<longrightarrow> in_bulk st a) \<and> (p \<in> L \<longrightarrow> st \<ge> LOWER_LAYER_CONNECTED)"

definition ok_conn :: "nat set \<Rightarrow> nat set \<Rightarrow> nat \<Rightarrow> OBEXCLI_CONNECTION \<Rightarrow> bool" where
  "ok_conn B L p c \<longleftrightarrow> ok_key B L p (k_state c) (cb_word c) (abortingState c)"

definition cli_inv :: "nat set \<Rightarrow> nat set \<Rightarrow> 'w OBEX_CLI \<Rightarrow> bool" where
  "cli_inv B L s \<longleftrightarrow> (\<forall>p \<in> B \<union> L. p < cl_fresh s) \<and> (\<forall>p c. conn p s = Some c \<longrightarrow> p < cl_fresh s \<and> ok_conn B L p c)"

definition cli_keeps :: "'w CLI_ENV \<Rightarrow> bool" where
  "cli_keeps env \<longleftrightarrow> (\<forall>B fn h ind s s'. v_app env fn h ind s = Some s' \<longrightarrow> cli_inv B {} s \<longrightarrow> cli_inv B {} s')"

lemma conn_fields [simp]:
  "conn p (s\<lparr>cl_world := w\<rparr>) = conn p s" "conn p (s\<lparr>cl_calls := n\<rparr>) = conn p s" "conn p (s\<lparr>cl_heap := h\<rparr>) = conn p s"
  "conn p (s\<lparr>cl_disp := d\<rparr>) = conn p s" "conn p (s\<lparr>cl_freshNode := n\<rparr>) = conn p s" "conn p (s\<lparr>cl_handles := hs\<rparr>) = conn p s"
  "conn p (s\<lparr>cl_initFlag := i\<rparr>) = conn p s" "conn p (s\<lparr>cl_fresh := n\<rparr>) = conn p s"
  "conn p (s\<lparr>cl_conns := cs\<rparr>) = cs p"
  by (simp_all add: conn_def)

lemma cli_inv_fields [simp]:
  "cli_inv B L (s\<lparr>cl_world := w\<rparr>) = cli_inv B L s" "cli_inv B L (s\<lparr>cl_calls := n\<rparr>) = cli_inv B L s"
  "cli_inv B L (s\<lparr>cl_heap := h\<rparr>) = cli_inv B L s" "cli_inv B L (s\<lparr>cl_disp := d\<rparr>) = cli_inv B L s"
  "cli_inv B L (s\<lparr>cl_freshNode := n\<rparr>) = cli_inv B L s" "cli_inv B L (s\<lparr>cl_handles := hs\<rparr>) = cli_inv B L s"
  "cli_inv B L (s\<lparr>cl_initFlag := i\<rparr>) = cli_inv B L s"
  by (simp_all add: cli_inv_def)

lemma cli_inv_flow [simp]: "cli_inv B L (cli_flow env p b s) = cli_inv B L s" "conn q (cli_flow env p b s) = conn q s"
  by (simp_all add: cli_flow_def)

lemma cli_inv_disconnect [simp]:
  "cli_inv B L (snd (cli_disconnect env p s)) = cli_inv B L s" "conn q (snd (cli_disconnect env p s)) = conn q s"
  by (simp_all add: cli_disconnect_def split_beta)

lemma cli_disconnect_inv: "cli_disconnect env p s = (r, s') \<Longrightarrow> cli_inv B L s' = cli_inv B L s"
  by (metis cli_inv_disconnect(1) snd_conv)

lemma ok_connI: "cli_inv B L s \<Longrightarrow> conn p s = Some c \<Longrightarrow> ok_conn B L p c"
  by (simp add: cli_inv_def)

lemma cli_inv_weak: "cli_inv B L s \<Longrightarrow> B' \<subseteq> B \<Longrightarrow> L' \<subseteq> L \<Longrightarrow> cli_inv B' L' s"
  by (auto simp: cli_inv_def ok_conn_def ok_key_def)

lemma cli_inv_live: "cli_inv B L s \<Longrightarrow> conn p s = Some c \<Longrightarrow> k_state c \<ge> LOWER_LAYER_CONNECTED \<Longrightarrow> cli_inv B (insert p L) s"
  by (auto simp: cli_inv_def ok_conn_def ok_key_def)

lemma cli_inv_bulk: "cli_inv B L s \<Longrightarrow> conn p s = Some c \<Longrightarrow> in_bulk (k_state c) (abortingState c) \<Longrightarrow> cli_inv (insert p B) L s"
  by (auto simp: cli_inv_def ok_conn_def ok_key_def)

lemma live_state: "cli_inv B L s \<Longrightarrow> conn p s = Some c \<Longrightarrow> p \<in> L \<Longrightarrow> k_state c \<ge> LOWER_LAYER_CONNECTED"
  by (auto simp: cli_inv_def ok_conn_def ok_key_def)

lemma not_bulk: "cli_inv B L s \<Longrightarrow> conn p s = Some c \<Longrightarrow> \<not> in_bulk (k_state c) (abortingState c) \<Longrightarrow> p \<notin> B"
  by (auto simp: cli_inv_def ok_conn_def ok_key_def)

lemma returns_mono: "returns P m \<Longrightarrow> (\<And>y. P y \<Longrightarrow> Q y) \<Longrightarrow> returns Q m"
  by (simp add: returns_def)

section \<open>Changes of a connection\<close>

named_theorems cli_wp \<open>functions of the client keep the discipline of the union\<close>

lemma cli_cset:
  assumes "cli_inv B L s" "\<And>c. conn p s = Some c \<Longrightarrow> ok_conn B L p c \<Longrightarrow> ok_conn B L p (f c)"
    "\<And>s' c. cli_inv B L s' \<Longrightarrow> conn p s = Some c \<Longrightarrow> conn p s' = Some (f c) \<Longrightarrow> Q s'"
  shows "returns Q (cset p f s)"
proof -
  have "cli_inv B L (s\<lparr>cl_conns := (cl_conns s)(p := Some (f c))\<rparr>)" if "conn p s = Some c" for c
    using assms(1,2) that by (auto simp: cli_inv_def conn_def)
  then show ?thesis
    using assms(3) by (auto simp: cset_def returns_def conn_def)
qed

text \<open>Fields that do not matter.\<close>

lemma cli_frame [cli_wp]:
  assumes "cli_inv B L s" "\<And>c. k_state (f c) = k_state c \<and> cb_word (f c) = cb_word c \<and> abortingState (f c) = abortingState c"
    "\<And>s'. cli_inv B L s' \<Longrightarrow> Q s'"
  shows "returns Q (cset p f s)"
  by (rule cli_cset [OF assms(1)]) (use assms(2,3) in \<open>auto simp: ok_conn_def\<close>)

lemma cli_SetAbortState [cli_wp]: "cli_inv B L s \<Longrightarrow> (\<And>s'. cli_inv B L s' \<Longrightarrow> Q s') \<Longrightarrow> returns Q (SetAbortState p st s)"
  unfolding SetAbortState_def by (rule cli_frame) simp_all

lemma cli_set_busy [cli_wp]: "cli_inv B L s \<Longrightarrow> (\<And>s'. cli_inv B L s' \<Longrightarrow> Q s') \<Longrightarrow> returns Q (set_busy p b s)"
  unfolding set_busy_def by (rule cli_frame) simp_all

lemma cli_set_srm [cli_wp]: "cli_inv B L s \<Longrightarrow> (\<And>s'. cli_inv B L s' \<Longrightarrow> Q s') \<Longrightarrow> returns Q (set_srm_cli p g s)"
  unfolding set_srm_cli_def by (rule cli_frame) simp_all

lemma cli_srm_wait [cli_wp]: "cli_inv B L s \<Longrightarrow> (\<And>s'. cli_inv B L s' \<Longrightarrow> Q s') \<Longrightarrow> returns Q (srm_wait p b s)"
  unfolding srm_wait_def by (rule cli_frame) simp_all

lemma cli_put_auth [cli_wp]: "cli_inv B L s \<Longrightarrow> (\<And>s'. cli_inv B L s' \<Longrightarrow> Q s') \<Longrightarrow> returns Q (put_auth_cli p a s)"
  unfolding put_auth_cli_def by (rule cli_frame) simp_all

text \<open>States in which the word is not used.\<close>

definition free_state :: "CLI_CONNECTION_STATE \<Rightarrow> bool" where
  "free_state st \<longleftrightarrow> st = OBEX_CONNECTED \<or> st = OBEX_DISCONNECTING"

lemma free_state_simps [simp]: "free_state OBEX_CONNECTED" "free_state OBEX_DISCONNECTING"
  by (simp_all add: free_state_def)

lemma cli_SetState [cli_wp]:
  "cli_inv B L s \<Longrightarrow> p \<notin> B \<Longrightarrow> free_state st \<Longrightarrow> (\<And>s'. cli_inv B L s' \<Longrightarrow> Q s') \<Longrightarrow> returns Q (SetState_cli p st s)"
  unfolding SetState_cli_def
  by (erule cli_cset) (auto simp: free_state_def ok_conn_def ok_key_def state_order)

text \<open>The status of a bulk transfer, where the word can be read as one, or in the transfer.\<close>

lemma word_fits_status: "word_fits st w a \<Longrightarrow> \<nexists>k f. w = CBW_fn k f \<Longrightarrow> word_fits st (CBW_status x) a"
  by (cases "(st, w, a)" rule: word_fits.cases; cases w) simp_all

lemma word_fits_bulk: "in_bulk st a \<Longrightarrow> word_fits st (CBW_status x) a"
  by (auto simp: in_bulk_def)

lemma cli_set_bulk_status:
  assumes "cli_inv B L s" "conn p s = Some c" "bulk_status c = Some st" "\<And>s'. cli_inv B L s' \<Longrightarrow> Q s'"
  shows "returns Q (set_bulk_status p x s)"
  unfolding set_bulk_status_def
  by (rule cli_cset [OF assms(1)])
    (use assms(2-4) in \<open>auto simp: ok_conn_def ok_key_def bulk_status_def intro: word_fits_status split: CB_WORD.splits\<close>)

lemma cli_set_bulk_status_in:
  assumes "cli_inv B L s" "p \<in> B" "\<And>s'. cli_inv B L s' \<Longrightarrow> Q s'"
  shows "returns Q (set_bulk_status p x s)"
  unfolding set_bulk_status_def
  by (rule cli_cset [OF assms(1)]) (use assms(2,3) in \<open>auto simp: ok_conn_def ok_key_def intro: word_fits_bulk\<close>)

section \<open>Sending\<close>

lemma cli_cancel_timeout [cli_wp]:
  "cli_inv B L s \<Longrightarrow> (\<And>s'. cli_inv B L s' \<Longrightarrow> Q s') \<Longrightarrow> returns Q (cancel_timeout p s)"
  unfolding cancel_timeout_def
  by ((rule returns_bind, rule cli_wp returns_rules) | rule cli_wp returns_rules returns_Some returns_any | (simp; fail) | rule returns_fall)+

lemma cli_drop_mbuf [cli_wp]:
  "cli_inv B L s \<Longrightarrow> (\<And>s'. cli_inv B L s' \<Longrightarrow> Q s') \<Longrightarrow> returns Q (drop_mbuf p s)"
  unfolding drop_mbuf_def
  by ((rule returns_bind, rule cli_wp returns_rules) | rule cli_wp returns_rules returns_Some returns_any | (simp; fail) | rule returns_fall)+

lemma cli_SetCommandTimeout [cli_wp]:
  "cli_inv B L s \<Longrightarrow> (\<And>s'. cli_inv B L s' \<Longrightarrow> Q s') \<Longrightarrow> returns Q (SetCommandTimeout p t s)"
  unfolding SetCommandTimeout_def
  by ((rule returns_bind, rule cli_wp returns_rules) | rule cli_wp returns_rules returns_Some returns_any | (simp; fail) | rule returns_fall)+

lemma cli_ReportError [cli_wp]:
  "cli_inv B L s \<Longrightarrow> (\<And>s'. cli_inv B L s' \<Longrightarrow> Q s') \<Longrightarrow> returns Q (ReportError p st s)"
  unfolding ReportError_def
  by ((rule returns_bind, rule cli_wp returns_rules) | rule cli_wp returns_rules returns_Some returns_any | (simp; fail) | rule returns_fall)+

lemma cli_ClientSendPacket [cli_wp]:
  "cli_inv B L s \<Longrightarrow> (\<And>r s'. cli_inv B L s' \<Longrightarrow> Q (r, s')) \<Longrightarrow> returns Q (ClientSendPacket env p t s)"
  unfolding ClientSendPacket_def
  by ((rule returns_bind, rule cli_wp returns_rules) | rule cli_wp returns_rules returns_Some returns_any | (simp; fail) | rule returns_fall)+

lemma cli_ClientSendBodySegment [cli_wp]:
  "cli_inv B L s \<Longrightarrow> (\<And>r s'. cli_inv B L s' \<Longrightarrow> Q (r, s')) \<Longrightarrow> returns Q (ClientSendBodySegment env p s)"
  unfolding ClientSendBodySegment_def
  by ((rule returns_bind, rule cli_wp returns_rules) | rule cli_wp returns_rules returns_Some returns_any | (simp; fail) | rule returns_fall)+

lemma cli_send_request [cli_wp]:
  "cli_inv B L s \<Longrightarrow> (\<And>r s'. cli_inv B L s' \<Longrightarrow> Q (r, s')) \<Longrightarrow> returns Q (send_request env p op xs hs hl t s)"
  unfolding send_request_def
  by ((rule returns_bind, rule cli_wp returns_rules) | rule cli_wp returns_rules returns_Some returns_any | (simp; fail) | rule returns_fall)+

lemma cli_ClientSendCommand [cli_wp]:
  "cli_inv B L s \<Longrightarrow> (\<And>r s'. cli_inv B L s' \<Longrightarrow> Q (r, s')) \<Longrightarrow> returns Q (ClientSendCommand env p op t hl s)"
  unfolding ClientSendCommand_def
  by ((rule returns_bind, rule cli_wp returns_rules) | rule cli_wp returns_rules returns_Some returns_any | (simp; fail) | rule returns_fall)+

lemma cli_SendBulk [cli_wp]:
  "cli_inv B L s \<Longrightarrow> (\<And>r s'. cli_inv B L s' \<Longrightarrow> Q (r, s')) \<Longrightarrow> returns Q (SendBulk_cli env p s)"
  unfolding SendBulk_cli_def
  by ((rule returns_bind, rule cli_wp returns_rules) | rule cli_wp returns_rules returns_Some returns_any | (simp; fail) | rule returns_fall)+

lemma cli_AppendBulkData [cli_wp]:
  "cli_inv B L s \<Longrightarrow> (\<And>s'. cli_inv B L s' \<Longrightarrow> Q s') \<Longrightarrow> returns Q (AppendBulkData_cli p q q' s)"
  unfolding AppendBulkData_cli_def
  by ((rule returns_bind, rule cli_wp returns_rules) | rule cli_wp returns_rules returns_Some returns_any | (simp; fail) | rule returns_fall)+

lemma cli_finish_request [cli_wp]:
  "cli_inv B L s \<Longrightarrow> p \<notin> B \<Longrightarrow> (\<And>r s'. cli_inv B L s' \<Longrightarrow> Q (r, s')) \<Longrightarrow> returns Q (finish_request p st s)"
  unfolding finish_request_def
  by ((rule returns_bind, rule cli_wp returns_rules) | rule cli_wp returns_rules returns_Some returns_any | (simp; fail) | rule returns_fall)+

lemma cli_ParseHeaderList [cli_wp]:
  "cli_inv B L s \<Longrightarrow> (\<And>r hl s'. cli_inv B L s' \<Longrightarrow> Q (r, hl, s')) \<Longrightarrow> returns Q (ParseHeaderList_cli env p pkt s)"
  unfolding ParseHeaderList_cli_def
  by ((rule returns_bind, rule cli_wp returns_rules) | rule cli_wp returns_rules returns_Some returns_any | (simp; fail) | rule returns_fall)+

lemma cli_connect_challenge [cli_wp]:
  "cli_inv B L s \<Longrightarrow> (\<And>hs s'. cli_inv B L s' \<Longrightarrow> Q (hs, s')) \<Longrightarrow> returns Q (connect_challenge env p realm s)"
  unfolding connect_challenge_def
  by ((rule returns_bind, rule cli_wp returns_rules) | rule cli_wp returns_rules returns_Some returns_any | (simp; fail) | rule returns_fall)+

lemma cli_connect_answer [cli_wp]:
  "cli_inv B L s \<Longrightarrow> (\<And>hs s'. cli_inv B L s' \<Longrightarrow> Q (hs, s')) \<Longrightarrow> returns Q (connect_answer env p s)"
  unfolding connect_answer_def
  by ((rule returns_bind, rule cli_wp returns_rules) | rule cli_wp returns_rules returns_Some returns_any | (simp; fail) | rule returns_fall)+

lemma cli_SendConnectRequest [cli_wp]:
  "cli_inv B L s \<Longrightarrow> (\<And>r s'. cli_inv B L s' \<Longrightarrow> Q (r, s')) \<Longrightarrow> returns Q (SendConnectRequest env p t realm s)"
  unfolding SendConnectRequest_def
  by ((rule returns_bind, rule cli_wp returns_rules) | rule cli_wp returns_rules returns_Some returns_any | (simp; fail) | rule returns_fall)+

section \<open>Calls of the application\<close>

text \<open>An error on a live connection frees nothing, and so calls nobody.\<close>

lemma cli_Fatal_live:
  "cli_inv B L s \<Longrightarrow> p \<in> L \<Longrightarrow> (\<And>s'. cli_inv B L s' \<Longrightarrow> Q s') \<Longrightarrow> returns Q (FatalObexError env p st s)"
  unfolding FatalObexError_def
  by ((rule returns_bind, rule cli_wp returns_rules) | rule cli_wp returns_rules returns_Some returns_any
      | (simp; fail) | (drule (2) live_state, simp; fail))+

lemma cli_SetState_to:
  assumes "cli_inv B L s" "conn p s = Some c" "p \<notin> B" "word_fits st (cb_word c) (abortingState c)" "st \<ge> LOWER_LAYER_CONNECTED"
    "\<And>s'. cli_inv B L s' \<Longrightarrow> Q s'"
  shows "returns Q (SetState_cli p st s)"
  unfolding SetState_cli_def
  by (rule cli_cset [OF assms(1)]) (use assms(2-6) in \<open>auto simp: ok_conn_def ok_key_def\<close>)

lemma ok_key_abort:
  "COMMAND_IN_PROGRESS st \<Longrightarrow> ok_key B L p st w a \<Longrightarrow> ok_key B L p st w st \<and> ok_key B L p OBEX_ABORTING w st"
  by (cases st) (auto simp: ok_key_def in_bulk_def COMMAND_IN_PROGRESS_def state_order)

lemma flow_if [simp]: "cli_inv B L (if b then cli_flow env p x s else s) = cli_inv B L s"
    "conn q (if b then cli_flow env p x s else s) = conn q s"
  by simp_all

lemma cli_abort_from:
  assumes "cli_inv B L s" "conn p s = Some c" "COMMAND_IN_PROGRESS (k_state c)"
    "\<And>s'. cli_inv B L s' \<Longrightarrow> conn p s' = Some (c\<lparr>abortingState := k_state c\<rparr>) \<Longrightarrow> Q s'"
  shows "returns Q (cset p (\<lambda>c. c\<lparr>abortingState := k_state c\<rparr>) s)"
  by (rule cli_cset [OF assms(1)]) (use assms(2-4) in \<open>auto simp: ok_conn_def dest: ok_key_abort\<close>)

lemma cli_SetState_aborting:
  assumes "cli_inv B L s" "conn p s = Some c" "COMMAND_IN_PROGRESS (k_state c)" "abortingState c = k_state c"
    "\<And>s'. cli_inv B L s' \<Longrightarrow> Q s'"
  shows "returns Q (SetState_cli p OBEX_ABORTING s)"
  unfolding SetState_cli_def
  by (rule cli_cset [OF assms(1)]) (use assms(2-5) in \<open>auto simp: ok_conn_def dest: ok_key_abort\<close>)

lemma cli_SendAbort [cli_wp]:
  assumes inv: "cli_inv B L s" and Q: "\<And>s'. cli_inv B L s' \<Longrightarrow> Q s'"
  shows "returns Q (SendAbort env p s)"
  unfolding SendAbort_def
proof (rule returns_any, rule returns_if [OF returns_Some], rule Q [OF inv], rule returns_if [OF returns_Some], rule Q [OF inv], goal_cases)
  case (1 c)
  then have live: "cli_inv B (insert p L) s"
    by (intro cli_inv_live [OF inv 1(1)]) (simp add: COMMAND_IN_PROGRESS_def state_order)
  have weak: "cli_inv B (insert p L) s' \<Longrightarrow> Q s'" for s'
    by (rule Q, erule cli_inv_weak) auto
  show ?case
    by (insert 1 live weak)
      ((rule returns_bind, rule cli_abort_from cli_SetState_aborting)
        | (rule returns_bind, rule cli_wp returns_rules) | rule cli_wp returns_rules returns_Some cli_Fatal_live | (simp; fail))+
qed

text \<open>The handle of a connection.\<close>

lemma returns_lookup:
  "(\<And>p c. conn p s = Some c \<Longrightarrow> returns Q (f (Some (p, c)))) \<Longrightarrow> returns Q (f None) \<Longrightarrow>
     returns Q (Option.bind (LookupConnection_cli h s) f)"
  by (cases "conn (OI_HANDLE_Deref h (cl_handles s)) s") (auto simp: LookupConnection_cli_def Let_def returns_None)

lemma returns_idle:
  "(\<And>st. returns Q (f (Inl st))) \<Longrightarrow> (\<And>p c. conn p s = Some c \<Longrightarrow> k_state c = OBEX_CONNECTED \<Longrightarrow> returns Q (f (Inr (p, c)))) \<Longrightarrow>
     returns Q (Option.bind (idle_check h s) f)"
  unfolding idle_check_def bind_assoc
  by (rule returns_lookup) simp_all

lemma cli_begin_operation:
  assumes "cli_inv B L s" "conn p s = Some c" "p \<notin> B" "word_fits st (cb_word c) (abortingState c)" "st \<ge> LOWER_LAYER_CONNECTED"
    "\<And>hs s'. cli_inv B L s' \<Longrightarrow> Q (hs, s')"
  shows "returns Q (begin_operation p st s)"
  unfolding begin_operation_def
proof (rule returns_any, rule returns_if, rule returns_bind, rule cli_cset [OF assms(1)])
qed (use assms in \<open>auto simp: ok_conn_def ok_key_def returns_Some\<close>)

lemma cli_put_request:
  assumes "cli_inv B L s" "conn p s = Some c" "p \<notin> B" "word_is K_PUT (cb_word c)" "\<And>r s'. cli_inv B L s' \<Longrightarrow> Q (r, s')"
  shows "returns Q (put_request env p cmd hs s)"
  unfolding put_request_def
  by (insert assms)
    ((rule returns_bind, rule cli_begin_operation, assumption, assumption) | (rule returns_bind, rule cli_wp returns_rules)
      | rule cli_wp returns_rules returns_Some returns_any | (simp add: state_order; fail))+

lemma cli_get_request:
  assumes "cli_inv B L s" "conn p s = Some c" "p \<notin> B" "word_is K_GET (cb_word c)" "\<And>r s'. cli_inv B L s' \<Longrightarrow> Q (r, s')"
  shows "returns Q (get_request env p hs final s)"
  unfolding get_request_def
  by (insert assms)
    ((rule returns_bind, rule cli_begin_operation, assumption, assumption) | (rule returns_bind, rule cli_wp returns_rules)
      | rule cli_wp returns_rules returns_Some returns_any | (simp add: state_order; fail))+

text \<open>The word is changed in states where it is not used, or to what it is.\<close>

lemma cli_set_word:
  assumes "cli_inv B L s" "conn p s = Some c" "word_fits (k_state c) w (abortingState c)"
    "\<And>s'. cli_inv B L s' \<Longrightarrow> conn p s' = Some (c\<lparr>cb_word := w\<rparr>) \<Longrightarrow> Q s'"
  shows "returns Q (cset p (\<lambda>c. c\<lparr>cb_word := w\<rparr>) s)"
  by (rule cli_cset [OF assms(1)]) (use assms(2-4) in \<open>auto simp: ok_conn_def ok_key_def\<close>)

text \<open>What the guards of an operation say of the state.\<close>

lemma guard_word:
  "\<not> (b \<or> st \<noteq> OBEX_CONNECTED \<and> st \<noteq> OBEX_PUTTING) \<Longrightarrow> f \<noteq> 0 \<Longrightarrow> word_fits st (CBW_fn K_PUT f) a"
  "\<not> (b \<or> st \<noteq> OBEX_CONNECTED \<and> st \<noteq> OBEX_GETTING) \<Longrightarrow> f \<noteq> 0 \<Longrightarrow> word_fits st (CBW_fn K_GET f) a"
  by auto

lemma guard_bulk:
  assumes "cli_inv B L s" "conn p s = Some c"
  shows "\<not> (b \<or> k_state c \<noteq> OBEX_CONNECTED \<and> k_state c \<noteq> OBEX_PUTTING) \<Longrightarrow> p \<notin> B"
    and "\<not> (b \<or> k_state c \<noteq> OBEX_CONNECTED \<and> k_state c \<noteq> OBEX_GETTING) \<Longrightarrow> p \<notin> B"
    and "k_state c = OBEX_CONNECTED \<Longrightarrow> p \<notin> B"
  using not_bulk [OF assms] by (auto simp: in_bulk_def)

lemma assert_Some: "OI_ASSERT b = Some u \<Longrightarrow> b"
  by simp

lemma cli_Put:
  assumes "cli_inv B L s" "\<And>r s'. cli_inv B L s' \<Longrightarrow> Q (r, s')"
  shows "returns Q (OI_OBEXCLI_Put env h hs fn st s)"
  unfolding OI_OBEXCLI_Put_def
  by (insert assms)
    ((rule returns_bind, rule cli_set_word, assumption, assumption) | (rule returns_lookup, simp_all only: option.case prod.case)
      | rule cli_put_request, assumption, assumption
      | (erule guard_word(1), erule assert_Some) | (erule (2) guard_bulk(1)) | (simp only: OBEXCLI_CONNECTION.select_convs OBEXCLI_CONNECTION.update_convs)
      | (rule returns_bind, rule cli_wp returns_rules) | rule cli_wp returns_rules returns_Some returns_any | (simp; fail))+

lemma cli_Get:
  assumes "cli_inv B L s" "\<And>r s'. cli_inv B L s' \<Longrightarrow> Q (r, s')"
  shows "returns Q (OI_OBEXCLI_Get env h hs fn final s)"
  unfolding OI_OBEXCLI_Get_def
  by (insert assms)
    ((rule returns_bind, rule cli_set_word, (simp; fail), (simp; fail)) | (rule cli_get_request, assumption, assumption)
      | (erule guard_word(2), erule assert_Some) | (erule (2) guard_bulk(2)) | (rule returns_lookup returns_idle, simp_all only: option.case prod.case sum.case)
      | (rule returns_bind, rule cli_wp returns_rules) | rule cli_wp returns_rules returns_Some returns_any | (simp; fail))+

lemma cli_Abort:
  assumes "cli_inv B L s" "\<And>r s'. cli_inv B L s' \<Longrightarrow> Q (r, s')"
  shows "returns Q (OI_OBEXCLI_Abort env h fn s)"
  unfolding OI_OBEXCLI_Abort_def
  by (insert assms)
    ( (rule returns_lookup returns_idle, simp_all only: option.case prod.case sum.case)
      | (rule returns_bind, rule cli_wp returns_rules) | rule cli_wp returns_rules returns_Some returns_any | (simp; fail))+

lemma cli_SetPath:
  assumes "cli_inv B L s" "\<And>r s'. cli_inv B L s' \<Longrightarrow> Q (r, s')"
  shows "returns Q (OI_OBEXCLI_SetPath env h folder dc ul fn hs s)"
  unfolding OI_OBEXCLI_SetPath_def
  by (insert assms)
    ((rule returns_bind, rule cli_set_word, assumption, assumption) | (rule returns_bind, rule cli_SetState_to, assumption, assumption)
      | (erule (2) guard_bulk(3)) | (rule returns_lookup returns_idle, simp_all only: option.case prod.case sum.case)
      | (rule returns_bind, rule cli_wp returns_rules) | rule cli_wp returns_rules returns_Some returns_any | (simp; fail) | (simp add: state_order; fail))+

lemma cli_DoAction:
  assumes "cli_inv B L s" "\<And>r s'. cli_inv B L s' \<Longrightarrow> Q (r, s')"
  shows "returns Q (OI_OBEXCLI_DoAction env h i name hs fn s)"
  unfolding OI_OBEXCLI_DoAction_def
  by (insert assms)
    ((rule returns_bind, rule cli_set_word, assumption, assumption) | (rule returns_bind, rule cli_SetState_to, assumption, assumption)
      | (erule (2) guard_bulk(3)) | (rule returns_lookup returns_idle, simp_all only: option.case prod.case sum.case)
      | (rule returns_bind, rule cli_wp returns_rules) | rule cli_wp returns_rules returns_Some returns_any | (simp; fail) | (simp add: state_order; fail))+

lemma cli_Authentication:
  assumes "cli_inv B L s" "\<And>r s'. cli_inv B L s' \<Longrightarrow> Q (r, s')"
  shows "returns Q (OI_OBEXCLI_Authentication env h u ul pw realm s)"
  unfolding OI_OBEXCLI_Authentication_def
  by (insert assms)
    ( (rule returns_lookup returns_idle, simp_all only: option.case prod.case sum.case)
      | (rule returns_bind, rule cli_wp returns_rules) | rule cli_wp returns_rules returns_Some returns_any | (simp; fail))+

lemma cli_SetResponseTimeout:
  assumes "cli_inv B L s" "\<And>r s'. cli_inv B L s' \<Longrightarrow> Q (r, s')"
  shows "returns Q (OI_OBEXCLI_SetResponseTimeout h t s)"
  unfolding OI_OBEXCLI_SetResponseTimeout_def
  by (insert assms)
    ( (rule returns_lookup returns_idle, simp_all only: option.case prod.case sum.case)
      | (rule returns_bind, rule cli_wp returns_rules) | rule cli_wp returns_rules returns_Some returns_any | (simp; fail))+

lemma cli_SetConnectionContext:
  assumes "cli_inv B L s" "\<And>r s'. cli_inv B L s' \<Longrightarrow> Q (r, s')"
  shows "returns Q (OI_OBEXCLI_SetConnectionContext h ctx s)"
proof (cases "h = 0")
  case False
  show ?thesis
    unfolding OI_OBEXCLI_SetConnectionContext_def if_not_P [OF False]
    by (insert assms)
      ((rule returns_lookup, simp_all only: option.case prod.case)
        | (rule returns_bind, rule cli_wp returns_rules) | rule cli_wp returns_rules returns_Some returns_any | (simp; fail))+
qed (use assms in \<open>simp add: OI_OBEXCLI_SetConnectionContext_def returns_Some\<close>)

lemma cli_Disconnect:
  assumes "cli_inv B L s" "\<And>r s'. cli_inv B L s' \<Longrightarrow> Q (r, s')"
  shows "returns Q (OI_OBEXCLI_Disconnect env h hs s)"
  unfolding OI_OBEXCLI_Disconnect_def
proof (rule returns_lookup, simp_all only: option.case prod.case, goal_cases)
  case (1 p c)
  show ?case
  proof (rule returns_if, rule returns_Some, rule assms(2) [OF assms(1)], goal_cases)
    case opened: 1
    then have live: "cli_inv B (insert p L) s"
      by (intro cli_inv_live [OF assms(1) 1]) (simp add: state_order)
    have weak: "cli_inv B (insert p L) s' \<Longrightarrow> Q (r, s')" for r s'
      by (rule assms(2), erule cli_inv_weak) auto
    show ?case
    proof (cases "k_state c = OBEX_CONNECTED")
      case True
      then show ?thesis
        by (insert live weak guard_bulk(3) [OF assms(1) 1 True])
          ((rule returns_bind, rule cli_wp cli_Fatal_live returns_rules) | rule cli_wp cli_Fatal_live returns_rules returns_Some | (simp; fail))+
    next
      case False
      with opened have busy: "k_state c > OBEX_CONNECTED" by simp
      show ?thesis
        unfolding if_P [OF busy] Option.bind.simps prod.case
        by (insert live weak)
          ((rule returns_bind, rule cli_wp cli_Fatal_live returns_rules) | rule cli_wp cli_Fatal_live returns_rules returns_Some | (simp; fail))+
    qed
  qed
qed (use assms in \<open>simp add: returns_Some\<close>)

text \<open>A bulk put may end with an error only where the word is a status, or not used.\<close>

definition bulk_put_allowed :: "u32 \<Rightarrow> OI_STATUS \<Rightarrow> 'w OBEX_CLI \<Rightarrow> bool" where
  "bulk_put_allowed h status s \<longleftrightarrow>
     OI_SUCCESS status \<or> status = OI_OBEX_CONTINUE \<or>
     (case LookupConnection_cli h s of
        Some (Some (p, c)) \<Rightarrow> k_state c \<le> OBEX_CONNECTED \<or> k_state c = OBEX_PUTTING \<or> k_state c = OBEX_BULK_PUTTING
      | _ \<Rightarrow> True)"

lemma AllocBulk_inv: "AllocBulk_cli env bufs s = (r, p, q, s') \<Longrightarrow> cli_inv B L s' = cli_inv B L s"
  by (auto simp: AllocBulk_cli_def Let_def split: prod.splits)

lemma cli_bulk_put_queue:
  assumes "cli_inv B L s" "\<And>r s'. cli_inv B L s' \<Longrightarrow> Q (r, s')"
  shows "returns Q (bulk_put_queue env p bufs final s)"
proof -
  obtain r q q' s' where eq: "AllocBulk_cli env bufs s = (r, q, q', s')"
    by (cases "AllocBulk_cli env bufs s")
  have alloc: "cli_inv B L s'"
    using assms(1) AllocBulk_inv [OF eq] by simp
  show ?thesis
    unfolding bulk_put_queue_def eq Let_def prod.case
    by (insert alloc assms(2))
      ((rule returns_bind, rule cli_wp returns_rules) | rule cli_wp returns_rules returns_Some returns_any | (simp; fail))+
qed

lemma cli_bulk_put_abort:
  assumes "cli_inv B L s" "conn p s = Some c" "word_fits (k_state c) (CBW_status st) (abortingState c)" "\<And>r s'. cli_inv B L s' \<Longrightarrow> Q (r, s')"
  shows "returns Q (bulk_put_abort env p st s)"
  unfolding bulk_put_abort_def
proof (rule returns_bind, unfold SetAbortState_def, rule cli_cset [OF assms(1)], goal_cases)
  case (2 s' c')
  then have pending: "conn p s' = Some (c\<lparr>k_abort := ABORT_PENDING\<rparr>)"
    using assms(2) by simp
  show ?case
    unfolding set_bulk_status_def
    by (insert 2(1) pending assms(3,4))
      ((rule returns_bind, rule cli_set_word, assumption, assumption) | (rule returns_bind, rule cli_wp returns_rules) | rule cli_wp returns_rules returns_Some returns_any | (simp; fail))+
qed (simp add: ok_conn_def)

lemma cli_start_bulk_put:
  assumes "cli_inv B L s" "conn p s = Some c"
    "\<And>s' c'. cli_inv B L s' \<Longrightarrow> conn p s' = Some c' \<Longrightarrow>
       k_state c' = (if k_state c = OBEX_PUTTING then OBEX_BULK_PUTTING else k_state c) \<Longrightarrow> Q s'"
  shows "returns Q (start_bulk_put p st s)"
  unfolding start_bulk_put_def
proof (rule returns_any, rule returns_if)
  fix c' assume c': "conn p s = Some c'" "k_state c' = OBEX_PUTTING"
  show "returns Q (cset p (\<lambda>c. c\<lparr>k_state := OBEX_BULK_PUTTING, cb_head := 0, cb_tail := 0, cb_current := 0,
      cb_word := CBW_status (if st = OI_OBEX_CONTINUE then OI_OK else st)\<rparr>) s)"
    by (rule cli_cset [OF assms(1)]) (use assms c' guard_bulk(1) [OF assms(1) c'(1), of False] in
      \<open>auto simp: ok_conn_def ok_key_def in_bulk_def state_order\<close>)
next
  fix c' assume "conn p s = Some c'" "k_state c' \<noteq> OBEX_PUTTING"
  then show "returns Q (Some s)"
    using assms by (simp add: returns_Some)
qed

lemma cli_BulkPut:
  assumes "cli_inv B L s" "bulk_put_allowed h st s" "\<And>r s'. cli_inv B L s' \<Longrightarrow> Q (r, s')"
  shows "returns Q (OI_OBEXCLI_BulkPut env h bufs st s)"
proof (cases "LookupConnection_cli h s")
  case (Some found)
  show ?thesis
  proof (cases found)
    case None
    then show ?thesis
      using assms Some by (simp add: OI_OBEXCLI_BulkPut_def returns_Some)
  next
    case (Some pc)
    obtain p c where pc: "pc = (p, c)" by (cases pc)
    have look: "LookupConnection_cli h s = Some (Some (p, c))"
      using \<open>LookupConnection_cli h s = Some found\<close> Some pc by simp
    then have c: "conn p s = Some c"
      by (auto simp: LookupConnection_cli_def Let_def split: if_splits)
    show ?thesis
    proof (cases "k_state c < OBEX_CONNECTED")
      case True
      then show ?thesis
        using assms look by (simp add: OI_OBEXCLI_BulkPut_def returns_Some)
    next
      case False
      then have live: "cli_inv B (insert p L) s"
        by (intro cli_inv_live [OF assms(1) c]) (simp add: state_order)
      have weak: "cli_inv B (insert p L) s' \<Longrightarrow> Q (r, s')" for r s'
        by (rule assms(3), erule cli_inv_weak) auto
      have error: "word_fits (k_state c') (CBW_status st) a"
        if "\<not> OI_SUCCESS st \<and> st \<noteq> OI_OBEX_CONTINUE" "k_state c' = (if k_state c = OBEX_PUTTING then OBEX_BULK_PUTTING else k_state c)"
        for c' :: OBEXCLI_CONNECTION and a
        using that assms(2) False look by (cases "k_state c") (auto simp: bulk_put_allowed_def state_order)
      show ?thesis
        unfolding OI_OBEXCLI_BulkPut_def Let_def look Option.bind.simps option.case prod.case
        by (insert live weak c error)
          ((rule returns_bind, rule cli_start_bulk_put, assumption, assumption) | (rule returns_bind, rule cli_bulk_put_queue)
            | (rule cli_bulk_put_abort, assumption, assumption)
            | (rule returns_bind, rule cli_wp cli_Fatal_live returns_rules) | rule cli_wp returns_rules cli_Fatal_live returns_Some returns_any | (simp; fail) | rule returns_fall)+
    qed
  qed
qed (simp add: OI_OBEXCLI_BulkPut_def returns_None Let_def)

lemma new_connection_key:
  "new_connection env m h auth hs cbs = Some (st, c) \<Longrightarrow>
     k_state c = LOWER_LAYER_CONNECTING \<and> cb_word c = CBW_fn K_CONNECT (connectCfmCB cbs)"
  by (auto simp: new_connection_def Let_def monad_simps split: if_splits)

lemma cli_inv_fresh:
  assumes "cli_inv B L s" "ok_key {} {} (cl_fresh s) (k_state c) (cb_word c) (abortingState c)"
    "cl_conns s' = (cl_conns s)(cl_fresh s := Some c)" "cl_fresh s' = Suc (cl_fresh s)"
  shows "cli_inv B L s'"
  using assms unfolding cli_inv_def ok_conn_def conn_def by (auto simp: less_Suc_eq ok_key_def)

lemma cli_inv_same:
  assumes "cli_inv B L s" "cl_conns s' = cl_conns s" "cl_fresh s' \<ge> cl_fresh s"
  shows "cli_inv B L s'"
  using assms unfolding cli_inv_def conn_def by (auto intro: less_le_trans)

lemma cli_Connect:
  assumes "cli_inv B L s" "\<And>r h s'. cli_inv B L s' \<Longrightarrow> Q (r, h, s')"
  shows "returns Q (OI_OBEXCLI_Connect env addr protocol b auth hs cbs s)"
  unfolding OI_OBEXCLI_Connect_def
  by ((rule returns_rules returns_any returns_Some)
      | (rule assms(2), rule cli_inv_same [OF assms(1)], simp, simp; fail)
      | (rule assms(2), rule cli_inv_fresh [OF assms(1)], erule thin_rl, auto simp: ok_key_def dest!: new_connection_key; fail))+

section \<open>With callbacks\<close>

lemma cli_call_app [cli_wp]:
  "cli_inv B {} s \<Longrightarrow> cli_keeps env \<Longrightarrow> (\<And>s'. cli_inv B {} s' \<Longrightarrow> Q s') \<Longrightarrow> returns Q (call_app env p fn ind s)"
  unfolding call_app_def
  by (auto simp: returns_def monad_simps cli_keeps_def split: if_splits) blast?

lemma cli_call_word [cli_wp]:
  "cli_inv B {} s \<Longrightarrow> cli_keeps env \<Longrightarrow> (\<And>s'. cli_inv B {} s' \<Longrightarrow> Q s') \<Longrightarrow> returns Q (call_word env p k ind s)"
  unfolding call_word_def
  by ((rule returns_bind, rule cli_wp returns_rules) | rule cli_wp returns_rules returns_Some returns_any | (simp add: returns_None split: CB_WORD.split; fail) | (split CB_WORD.split, intro conjI allI impI))+

lemma cli_call_abortConfirm [cli_wp]:
  "cli_inv B {} s \<Longrightarrow> cli_keeps env \<Longrightarrow> (\<And>s'. cli_inv B {} s' \<Longrightarrow> Q s') \<Longrightarrow> returns Q (call_abortConfirm env p s)"
  unfolding call_abortConfirm_def
  by ((rule returns_bind, rule cli_wp returns_rules) | rule cli_wp returns_rules returns_Some returns_any | (simp; fail) | (split ABORT_FN.split, intro conjI allI impI))+

lemma cli_unlink [cli_wp]: "cli_inv B L s \<Longrightarrow> (\<And>s'. cli_inv B L s' \<Longrightarrow> Q s') \<Longrightarrow> returns Q (unlink_head p d n s)"
  unfolding unlink_head_def by (rule cli_frame) simp_all

lemma cli_confirm_puts [cli_wp]:
  assumes "cli_inv B {} s" "cli_keeps env" "\<And>p cfm cs s'. cli_inv B {} s' \<Longrightarrow> Q (p, cfm, cs, s')"
  shows "returns Q (confirm_puts env p status filt d cfm cs s)"
  unfolding returns_def
proof (intro allI impI)
  fix y assume result: "confirm_puts env p status filt d cfm cs s = Some y"
  have "cli_keeps env \<longrightarrow> cli_inv B {} s \<longrightarrow> cli_inv B {} (snd (snd (snd y)))"
  proof (rule confirm_puts.raw_induct [OF _ result], goal_cases)
    case (1 loop env p status filt d cfm cs s y)
    show ?case
    proof (intro impI)
      assume *: "cli_keeps env" "cli_inv B {} s"
      have loop: "returns Q (loop env p status filt d cfm cs s)"
        if "cli_inv B {} s" "\<And>p cfm cs s'. cli_inv B {} s' \<Longrightarrow> Q (p, cfm, cs, s')" for Q d cfm cs s
        unfolding returns_def
      proof (intro allI impI)
        fix y assume "loop env p status filt d cfm cs s = Some y"
        from 1(1) [OF this] have "cli_inv B {} (snd (snd (snd y)))"
          using * that(1) by blast
        then show "Q y"
          using that(2) by (cases y) simp
      qed
      show "cli_inv B {} (snd (snd (snd y)))"
        by (rule returnsD [OF _ 1(2)], insert *)
          ((rule returns_bind, rule cli_set_bulk_status, assumption, assumption, assumption)
            | (rule returns_bind, rule cli_wp returns_rules) | rule cli_wp loop returns_rules returns_Some returns_any | (simp; fail) | rule returns_fall)+
    qed
  qed
  with assms show "Q y"
    by (cases y) auto
qed

lemma cli_ConfirmBulkPuts [cli_wp]:
  "cli_inv B {} s \<Longrightarrow> cli_keeps env \<Longrightarrow> (\<And>b s'. cli_inv B {} s' \<Longrightarrow> Q (b, s')) \<Longrightarrow> returns Q (ConfirmBulkPuts env p st filt s)"
  unfolding ConfirmBulkPuts_def
  by ((rule returns_bind, rule cli_wp returns_rules) | rule cli_wp returns_rules returns_Some returns_any | (simp; fail) | rule returns_fall)+

lemma cli_ConfirmBulkPuts_void [cli_wp]:
  "cli_inv B {} s \<Longrightarrow> cli_keeps env \<Longrightarrow> (\<And>s'. cli_inv B {} s' \<Longrightarrow> Q s') \<Longrightarrow> returns Q (ConfirmBulkPuts_void env p st filt s)"
  unfolding ConfirmBulkPuts_void_def
  by ((rule returns_bind, rule cli_wp returns_rules) | rule cli_wp returns_rules returns_Some returns_any | (simp; fail) | rule returns_fall)+

lemma cli_AbortConfirm [cli_wp]:
  "cli_inv B {} s \<Longrightarrow> cli_keeps env \<Longrightarrow> p \<notin> B \<Longrightarrow> (\<And>s'. cli_inv B {} s' \<Longrightarrow> Q s') \<Longrightarrow> returns Q (AbortConfirm env p s)"
  unfolding AbortConfirm_def
  by ((rule returns_bind, rule cli_wp returns_rules) | rule cli_wp returns_rules returns_Some returns_any | (simp; fail) | rule returns_fall)+

lemma cli_confirm_if_aborting [cli_wp]:
  "cli_inv B {} s \<Longrightarrow> cli_keeps env \<Longrightarrow> (\<And>s'. cli_inv B {} s' \<Longrightarrow> Q s') \<Longrightarrow> returns Q (confirm_if_aborting env p s)"
  unfolding confirm_if_aborting_def
  by ((rule returns_bind, rule cli_wp returns_rules) | rule cli_wp returns_rules returns_Some returns_any | (simp; fail) | rule returns_fall)+

lemma cli_report_end [cli_wp]:
  "cli_inv B {} s \<Longrightarrow> cli_keeps env \<Longrightarrow> p \<notin> B \<Longrightarrow> (\<And>s'. cli_inv B {} s' \<Longrightarrow> Q s') \<Longrightarrow> returns Q (report_end env p state st s)"
  unfolding report_end_def
  by (cases state; simp only: CLI_CONNECTION_STATE.case;
    ((rule returns_bind, rule cli_wp returns_rules) | rule cli_wp returns_rules returns_Some returns_any | (simp; fail))+)

lemma cli_SetState_invalid:
  "cli_inv B {} s \<Longrightarrow> p \<notin> B \<Longrightarrow> (\<And>s'. cli_inv B {} s' \<Longrightarrow> Q s') \<Longrightarrow> returns Q (SetState_cli p INVALID_CONNECTION s)"
  unfolding SetState_cli_def by (erule cli_cset) (auto simp: ok_conn_def ok_key_def)

lemma cli_inv_removed [simp]: "cli_inv B L s \<Longrightarrow> cli_inv B L (s\<lparr>cl_handles := hs, cl_conns := (cl_conns s)(p := None)\<rparr>)"
  by (auto simp: cli_inv_def conn_def)

lemma cli_FreeConnection [cli_wp]:
  "cli_inv B {} s \<Longrightarrow> cli_keeps env \<Longrightarrow> p \<notin> B \<Longrightarrow> (\<And>s'. cli_inv B {} s' \<Longrightarrow> Q s') \<Longrightarrow> returns Q (FreeConnection env p st s)"
  unfolding FreeConnection_def
  by ((rule returns_bind, rule cli_SetState_invalid) | (rule returns_bind, rule cli_wp returns_rules)
      | rule cli_wp returns_rules returns_Some returns_any | (simp; fail) | rule returns_fall)+

lemma not_live_bulk: "cli_inv B L s \<Longrightarrow> conn p s = Some c \<Longrightarrow> \<not> LOWER_LAYER_CONNECTED \<le> k_state c \<Longrightarrow> p \<notin> B"
  using not_bulk by (fastforce simp: in_bulk_def state_order)

lemma cli_FatalObexError [cli_wp]:
  assumes "cli_inv B {} s" "cli_keeps env" "\<And>s'. cli_inv B {} s' \<Longrightarrow> Q s'"
  shows "returns Q (FatalObexError env p st s)"
  unfolding FatalObexError_def
  by (insert assms)
    ((rule returns_bind, rule cli_wp returns_rules) | rule cli_wp returns_rules returns_Some returns_any | (simp; fail)
      | (erule (2) not_live_bulk))+

lemma cli_CommandError [cli_wp]:
  "cli_inv B {} s \<Longrightarrow> cli_keeps env \<Longrightarrow> (\<And>s'. cli_inv B {} s' \<Longrightarrow> Q s') \<Longrightarrow> returns Q (CommandError env p st s)"
  unfolding CommandError_def
  by ((rule returns_bind, rule cli_wp returns_rules) | rule cli_wp returns_rules returns_Some returns_any | (simp; fail) | rule returns_fall)+

lemma cli_ResponseTimeout [cli_wp]:
  "cli_inv B {} s \<Longrightarrow> cli_keeps env \<Longrightarrow> (\<And>s'. cli_inv B {} s' \<Longrightarrow> Q s') \<Longrightarrow> returns Q (ResponseTimeout env p s)"
  unfolding ResponseTimeout_def
  by ((rule returns_bind, rule cli_wp returns_rules) | rule cli_wp returns_rules returns_Some returns_any | (simp; fail) | rule returns_fall)+

lemma cli_LowerDisconnectInd [cli_wp]:
  "cli_inv B {} s \<Longrightarrow> cli_keeps env \<Longrightarrow> p \<notin> B \<Longrightarrow> (\<And>s'. cli_inv B {} s' \<Longrightarrow> Q s') \<Longrightarrow> returns Q (LowerDisconnectInd_cli env p st s)"
  unfolding LowerDisconnectInd_cli_def
  by ((rule returns_bind, rule cli_wp returns_rules) | rule cli_wp returns_rules returns_Some returns_any | (simp; fail) | rule returns_fall)+

section \<open>Responses\<close>

lemma cli_srm_mode [cli_wp]:
  "cli_inv B L s \<Longrightarrow> (\<And>b hs' s'. cli_inv B L s' \<Longrightarrow> Q (b, hs', s')) \<Longrightarrow> returns Q (srm_mode p a hs s)"
  unfolding srm_mode_def
  by ((rule returns_bind, rule cli_wp returns_rules) | rule cli_wp returns_rules returns_Some returns_any | (simp; fail) | rule returns_fall)+

lemma cli_srm_parameters [cli_wp]:
  "cli_inv B L s \<Longrightarrow> (\<And>b hs' s'. cli_inv B L s' \<Longrightarrow> Q (b, hs', s')) \<Longrightarrow> returns Q (srm_parameters p a hs s)"
  unfolding srm_parameters_def
  by ((rule returns_bind, rule cli_wp returns_rules) | rule cli_wp returns_rules returns_Some returns_any | (simp; fail) | rule returns_fall)+

lemma cli_srm_headers [cli_wp]:
  "cli_inv B L s \<Longrightarrow> (\<And>hs b s'. cli_inv B L s' \<Longrightarrow> Q (hs, b, s')) \<Longrightarrow> returns Q (srm_headers p a hl s)"
  unfolding srm_headers_def
  by ((rule returns_bind, rule cli_wp returns_rules) | rule cli_wp returns_rules returns_Some returns_any | (simp; fail) | rule returns_fall)+

lemma cli_cli_progress [cli_wp]:
  "cli_inv B {} s \<Longrightarrow> cli_keeps env \<Longrightarrow> (\<And>s'. cli_inv B {} s' \<Longrightarrow> Q s') \<Longrightarrow> returns Q (cli_progress env p cmd s)"
  unfolding cli_progress_def
  by ((rule returns_bind, rule cli_wp returns_rules) | rule cli_wp returns_rules returns_Some returns_any | (simp; fail) | rule returns_fall)+

lemma cli_put_progress [cli_wp]:
  "cli_inv B {} s \<Longrightarrow> cli_keeps env \<Longrightarrow> (\<And>s'. cli_inv B {} s' \<Longrightarrow> Q s') \<Longrightarrow> returns Q (put_progress env p s)"
  unfolding put_progress_def
  by ((rule returns_bind, rule cli_wp returns_rules) | rule cli_wp returns_rules returns_Some returns_any | (simp; fail) | rule returns_fall)+

lemma cli_with_raw_headers [cli_wp]:
  "cli_inv B L s \<Longrightarrow> (\<And>s'. cli_inv B L s' \<Longrightarrow> returns (cli_inv B L) (callback s')) \<Longrightarrow> (\<And>s'. cli_inv B L s' \<Longrightarrow> Q s') \<Longrightarrow>
     returns Q (with_raw_headers p hl callback s)"
  unfolding with_raw_headers_def
  by (rule returns_bind, rule cli_frame, assumption, simp, rule returns_bind, rule returns_mono, assumption, rule cli_frame) simp_all

lemma cli_SetpathResponse [cli_wp]:
  "cli_inv {} {} s \<Longrightarrow> cli_keeps env \<Longrightarrow> (\<And>s'. cli_inv {} {} s' \<Longrightarrow> Q s') \<Longrightarrow> returns Q (SetpathResponse env p pkt rsp s)"
  unfolding SetpathResponse_def
  by ((rule returns_bind, rule cli_wp returns_rules) | rule cli_wp returns_rules returns_Some returns_any | (simp; fail) | rule returns_fall)+

lemma cli_ActionResponse [cli_wp]:
  "cli_inv {} {} s \<Longrightarrow> cli_keeps env \<Longrightarrow> (\<And>s'. cli_inv {} {} s' \<Longrightarrow> Q s') \<Longrightarrow> returns Q (ActionResponse env p pkt rsp s)"
  unfolding ActionResponse_def
  by ((rule returns_bind, rule cli_wp returns_rules) | rule cli_wp returns_rules returns_Some returns_any | (simp; fail) | rule returns_fall)+

lemma cli_DisconnectResponse [cli_wp]:
  "cli_inv {} {} s \<Longrightarrow> cli_keeps env \<Longrightarrow> (\<And>s'. cli_inv {} {} s' \<Longrightarrow> Q s') \<Longrightarrow> returns Q (DisconnectResponse env p rsp s)"
  unfolding DisconnectResponse_def
  by ((rule returns_bind, rule cli_wp returns_rules) | rule cli_wp returns_rules returns_Some returns_any | (simp; fail) | (simp add: cli_disconnect_inv; fail) | rule returns_fall)+

lemma cli_bulk_put_aborting [cli_wp]:
  "cli_inv {} {} s \<Longrightarrow> cli_keeps env \<Longrightarrow> (\<And>s'. cli_inv {} {} s' \<Longrightarrow> Q s') \<Longrightarrow> returns Q (bulk_put_aborting env p s)"
  unfolding bulk_put_aborting_def
  by ((rule returns_bind, rule cli_wp returns_rules) | rule cli_wp returns_rules returns_Some returns_any | (simp; fail) | rule returns_fall)+

lemma cli_set_conn:
  assumes "cli_inv B L s" "conn p s = Some c" "\<And>c. k_state (f c) = k_state c \<and> cb_word (f c) = cb_word c \<and> abortingState (f c) = abortingState c"
    "\<And>s'. cli_inv B L s' \<Longrightarrow> conn p s' = Some (f c) \<Longrightarrow> Q s'"
  shows "returns Q (cset p f s)"
  by (rule cli_cset [OF assms(1)]) (use assms(2-4) in \<open>auto simp: ok_conn_def\<close>)

lemma cli_SetState_conn:
  assumes "cli_inv {} {} s" "\<And>s' c. cli_inv {} {} s' \<Longrightarrow> conn p s' = Some c \<Longrightarrow> k_state c = OBEX_CONNECTED \<Longrightarrow> Q s'"
  shows "returns Q (SetState_cli p OBEX_CONNECTED s)"
  unfolding SetState_cli_def
  by (rule cli_cset [OF assms(1)]) (use assms(2) in \<open>auto simp: ok_conn_def ok_key_def\<close>)

lemma cli_bulk_put_confirm [cli_wp]:
  assumes "cli_inv {} {} s" "cli_keeps env" "\<And>s'. cli_inv {} {} s' \<Longrightarrow> Q s'"
  shows "returns Q (bulk_put_confirm env p st s)"
  unfolding bulk_put_confirm_def set_bulk_status_def set_busy_def
  by (insert assms)
    ((rule returns_bind, rule cli_SetState_conn) | (rule returns_bind, rule cli_set_conn, assumption, assumption) | (rule cli_set_word, assumption, assumption)
      | (rule returns_bind, rule cli_wp returns_rules) | rule cli_wp returns_rules returns_Some returns_any | (simp; fail))+

lemma cli_BulkPutResponse [cli_wp]:
  assumes "cli_inv {} {} s" "cli_keeps env" "\<And>s'. cli_inv {} {} s' \<Longrightarrow> Q s'"
  shows "returns Q (BulkPutResponse env p pkt rsp s)"
  unfolding BulkPutResponse_def
  by (insert assms)
    ((rule cli_set_bulk_status, assumption, assumption, assumption) 
      | (rule returns_bind, rule cli_wp returns_rules) | rule cli_wp returns_rules returns_Some returns_any | (simp; fail) | rule returns_fall)+

lemma cli_send_rest [cli_wp]:
  "cli_inv B L s \<Longrightarrow> (\<And>b r s'. cli_inv B L s' \<Longrightarrow> Q (b, r, s')) \<Longrightarrow> returns Q (send_rest env p st status s)"
  unfolding send_rest_def
  by ((rule returns_bind, rule cli_wp returns_rules) | rule cli_wp returns_rules returns_Some returns_any | (simp; fail) | rule returns_fall)+

lemma cli_PutResponse [cli_wp]:
  "cli_inv {} {} s \<Longrightarrow> cli_keeps env \<Longrightarrow> (\<And>s'. cli_inv {} {} s' \<Longrightarrow> Q s') \<Longrightarrow> returns Q (PutResponse env p pkt rsp s)"
  unfolding PutResponse_def
  by ((rule returns_bind, rule cli_wp returns_rules) | rule cli_wp returns_rules returns_Some returns_any | (simp; fail) | rule returns_fall)+

lemma cli_GetResponse [cli_wp]:
  "cli_inv {} {} s \<Longrightarrow> cli_keeps env \<Longrightarrow> (\<And>s'. cli_inv {} {} s' \<Longrightarrow> Q s') \<Longrightarrow> returns Q (GetResponse env p pkt rsp s)"
  unfolding GetResponse_def
  by ((rule returns_bind, rule cli_wp returns_rules) | rule cli_wp returns_rules returns_Some returns_any | (simp; fail) | rule returns_fall)+

lemma cli_connect_rsp_fields [cli_wp]:
  "cli_inv B L s \<Longrightarrow> (\<And>r pkt' s'. cli_inv B L s' \<Longrightarrow> Q (r, pkt', s')) \<Longrightarrow> returns Q (connect_rsp_fields p pkt s)"
  unfolding connect_rsp_fields_def
  by ((rule returns_bind, rule cli_wp returns_rules) | rule cli_wp returns_rules returns_Some returns_any | (simp; fail) | rule returns_fall)+

lemma cli_connect_verify [cli_wp]:
  "cli_inv B L s \<Longrightarrow> (\<And>r s'. cli_inv B L s' \<Longrightarrow> Q (r, s')) \<Longrightarrow> returns Q (connect_verify env p hs s)"
  unfolding connect_verify_def
  by ((rule returns_bind, rule cli_wp returns_rules) | rule cli_wp returns_rules returns_Some returns_any | (simp; fail) | rule returns_fall)+

lemma cli_connect_unauthorized [cli_wp]:
  "cli_inv {} {} s \<Longrightarrow> cli_keeps env \<Longrightarrow> (\<And>r s'. cli_inv {} {} s' \<Longrightarrow> Q (r, s')) \<Longrightarrow> returns Q (connect_unauthorized env p hl s)"
  unfolding connect_unauthorized_def
  by ((rule returns_bind, rule cli_wp returns_rules) | rule cli_wp returns_rules returns_Some returns_any | (simp; fail) | rule returns_fall)+

lemma cli_connect_established [cli_wp]:
  "cli_inv {} {} s \<Longrightarrow> cli_keeps env \<Longrightarrow> (\<And>r s'. cli_inv {} {} s' \<Longrightarrow> Q (r, s')) \<Longrightarrow> returns Q (connect_established env p hl s)"
  unfolding connect_established_def
  by ((rule returns_bind, rule cli_wp returns_rules) | rule cli_wp returns_rules returns_Some returns_any | (simp; fail) | rule returns_fall)+

lemma cli_connect_response [cli_wp]:
  "cli_inv {} {} s \<Longrightarrow> cli_keeps env \<Longrightarrow> (\<And>r s'. cli_inv {} {} s' \<Longrightarrow> Q (r, s')) \<Longrightarrow> returns Q (connect_response env p pkt rsp s)"
  unfolding connect_response_def
  by ((rule returns_bind, rule cli_wp returns_rules) | rule cli_wp returns_rules returns_Some returns_any | (simp; fail) | rule returns_fall)+

lemma cli_ConnectResponse [cli_wp]:
  "cli_inv {} {} s \<Longrightarrow> cli_keeps env \<Longrightarrow> (\<And>s'. cli_inv {} {} s' \<Longrightarrow> Q s') \<Longrightarrow> returns Q (ConnectResponse env p pkt rsp s)"
  unfolding ConnectResponse_def
  by ((rule returns_bind, rule cli_wp returns_rules) | rule cli_wp returns_rules returns_Some returns_any | (simp; fail) | rule returns_fall)+

section \<open>Events\<close>

text \<open>During a write confirmation of a bulk transfer the connection stays in the transfer.\<close>

lemma cli_bulk_write_failed [cli_wp]:
  "cli_inv B {} s \<Longrightarrow> cli_keeps env \<Longrightarrow> (\<And>r s'. cli_inv B {} s' \<Longrightarrow> Q (r, s')) \<Longrightarrow> returns Q (bulk_write_failed env p st s)"
  unfolding bulk_write_failed_def
  by ((rule returns_bind, rule cli_wp returns_rules) | rule cli_wp returns_rules returns_Some returns_any | (simp; fail) | rule returns_fall)+

lemma cli_bulk_write_next [cli_wp]:
  "cli_inv B {} s \<Longrightarrow> cli_keeps env \<Longrightarrow> p \<in> B \<Longrightarrow> (\<And>r s'. cli_inv B {} s' \<Longrightarrow> Q (r, s')) \<Longrightarrow> returns Q (bulk_write_next env p q st s)"
  unfolding bulk_write_next_def
  by ((rule returns_bind, rule cli_set_bulk_status_in cli_wp returns_rules) | rule cli_wp returns_rules returns_Some returns_any | (simp; fail) | rule returns_fall)+

lemma cli_BulkPutWriteCfm [cli_wp]:
  "cli_inv B {} s \<Longrightarrow> cli_keeps env \<Longrightarrow> p \<in> B \<Longrightarrow> (\<And>r s'. cli_inv B {} s' \<Longrightarrow> Q (r, s')) \<Longrightarrow> returns Q (BulkPutWriteCfm env p n d q st s)"
  unfolding BulkPutWriteCfm_def
  by ((rule returns_bind, rule cli_set_bulk_status_in cli_wp returns_rules) | rule cli_wp returns_rules returns_Some returns_any | (simp; fail) | rule returns_fall)+

lemma cli_LowerWriteCfm:
  assumes "cli_inv {} {} s" "cli_keeps env" "\<And>s'. cli_inv {} {} s' \<Longrightarrow> Q s'"
  shows "returns Q (LowerWriteCfm_cli env p wm q r s)"
  unfolding LowerWriteCfm_cli_def
proof (rule returns_if, rule returns_Some, rule assms(3) [OF assms(1)], rule returns_any, goal_cases)
  case (1 c)
  note c = 1(2)
  define B where "B = (if k_state c = OBEX_BULK_PUTTING then {p} else {})"
  have inv: "cli_inv B {} s"
    using assms(1) cli_inv_bulk [OF assms(1) c] by (simp add: B_def in_bulk_def)
  have weak: "cli_inv B {} s' \<Longrightarrow> Q s'" for s'
    by (rule assms(3), erule cli_inv_weak) auto
  have inB: "k_state c = OBEX_BULK_PUTTING \<Longrightarrow> p \<in> B"
    by (simp add: B_def)
  show ?case
    by (rule returns_any, insert inv weak inB assms(2))
      ((rule returns_bind, rule cli_wp returns_rules) | rule cli_wp returns_rules returns_Some returns_any | (simp; fail) | rule returns_fall)+
qed

lemma cli_abort_response [cli_wp]:
  "cli_inv {} {} s \<Longrightarrow> cli_keeps env \<Longrightarrow> (\<And>s'. cli_inv {} {} s' \<Longrightarrow> Q s') \<Longrightarrow> returns Q (abort_response env p rsp n s)"
  unfolding abort_response_def
  by ((rule returns_bind, rule cli_wp returns_rules) | rule cli_wp returns_rules returns_Some returns_any | (simp; fail) | rule returns_fall)+

lemma cli_dispatch_response [cli_wp]:
  assumes "cli_inv {} {} s" "cli_keeps env" "\<And>s'. cli_inv {} {} s' \<Longrightarrow> Q s'"
  shows "returns Q (dispatch_response env p pkt rsp n s)"
  unfolding dispatch_response_def
  by (rule returns_any, split CLI_CONNECTION_STATE.split, intro conjI impI)
    (rule returns_if cli_wp assms | assumption)+

lemma cli_LowerRecvDataInd:
  "cli_inv {} {} s \<Longrightarrow> cli_keeps env \<Longrightarrow> (\<And>s'. cli_inv {} {} s' \<Longrightarrow> Q s') \<Longrightarrow> returns Q (LowerRecvDataInd_cli env p buf s)"
  unfolding LowerRecvDataInd_cli_def
  by ((rule returns_bind, rule cli_wp returns_rules) | rule cli_wp returns_rules returns_Some returns_any | (simp; fail) | rule returns_fall)+

lemma cli_lower_connected:
  assumes "cli_inv {} {} s" "conn p s = Some c" "k_state c = LOWER_LAYER_CONNECTING" "\<And>s'. cli_inv {} {} s' \<Longrightarrow> Q s'"
    "\<And>c. cb_word (f c) = cb_word c \<and> k_state (f c) = LOWER_LAYER_CONNECTED"
  shows "returns Q (cset p f s)"
  by (rule cli_cset [OF assms(1)]) (use assms(2-5) in \<open>auto simp: ok_conn_def ok_key_def\<close>)

lemma cli_LowerConnectCfm:
  assumes "cli_inv {} {} s" "cli_keeps env" "\<And>s'. cli_inv {} {} s' \<Longrightarrow> Q s'"
  shows "returns Q (LowerConnectCfm_cli env p recv send r s)"
  unfolding LowerConnectCfm_cli_def
  by (insert assms)
    ((rule returns_bind, rule cli_lower_connected, assumption, assumption, erule assert_Some)
      | (rule returns_bind, rule cli_wp returns_rules) | rule cli_wp returns_rules returns_Some returns_any | (simp; fail))+

section \<open>Runs\<close>

text \<open>What the application can do: call the client's functions, in any order.\<close>

inductive cli_call :: "'w CLI_ENV \<Rightarrow> 'w OBEX_CLI \<Rightarrow> 'w OBEX_CLI \<Rightarrow> bool" for env where
  call_connect: "OI_OBEXCLI_Connect env addr protocol b auth hs cbs s = Some (r, h, s') \<Longrightarrow> cli_call env s s'"
| call_authenticate: "OI_OBEXCLI_Authentication env h u ul pw realm s = Some (r, s') \<Longrightarrow> cli_call env s s'"
| call_put: "OI_OBEXCLI_Put env h hs fn st s = Some (r, s') \<Longrightarrow> cli_call env s s'"
| call_bulk_put: "bulk_put_allowed h st s \<Longrightarrow> OI_OBEXCLI_BulkPut env h bufs st s = Some (r, s') \<Longrightarrow> cli_call env s s'"
| call_get: "OI_OBEXCLI_Get env h hs fn b s = Some (r, s') \<Longrightarrow> cli_call env s s'"
| call_abort: "OI_OBEXCLI_Abort env h afn s = Some (r, s') \<Longrightarrow> cli_call env s s'"
| call_setpath: "OI_OBEXCLI_SetPath env h name b b2 fn hs s = Some (r, s') \<Longrightarrow> cli_call env s s'"
| call_action: "OI_OBEXCLI_DoAction env h i name hs fn s = Some (r, s') \<Longrightarrow> cli_call env s s'"
| call_disconnect: "OI_OBEXCLI_Disconnect env h hs s = Some (r, s') \<Longrightarrow> cli_call env s s'"
| call_timeout: "OI_OBEXCLI_SetResponseTimeout h ti s = Some (r, s') \<Longrightarrow> cli_call env s s'"
| call_context: "OI_OBEXCLI_SetConnectionContext h ctx s = Some (r, s') \<Longrightarrow> cli_call env s s'"
| call_other: "cli_call env s (s\<lparr>cl_world := w, cl_disp := d\<rparr>)"

text \<open>It may also change the world around the client and use the dispatcher.\<close>

definition cli_api :: "'w CLI_ENV \<Rightarrow> 'w OBEX_CLI \<Rightarrow> 'w OBEX_CLI \<Rightarrow> bool" where
  "cli_api env = (cli_call env)\<^sup>*\<^sup>*"

lemma call_result: "returns (\<lambda>x. P (snd x)) m \<Longrightarrow> m = Some (r, s') \<Longrightarrow> P s'"
  by (simp add: returns_def)

lemma connect_result: "returns (\<lambda>x. P (snd (snd x))) m \<Longrightarrow> m = Some (r, h, s') \<Longrightarrow> P s'"
  by (simp add: returns_def)

lemma cli_call_keeps:
  assumes "cli_call env s s'" "cli_inv B L s"
  shows "cli_inv B L s'"
  using assms(1)
proof cases
  case call_connect
  then show ?thesis
    by (rule connect_result [where P = "cli_inv B L", OF cli_Connect [OF assms(2)], rotated]) simp
next
  case call_authenticate
  then show ?thesis
    by (rule call_result [where P = "cli_inv B L", OF cli_Authentication [OF assms(2)], rotated]) simp
next
  case call_put
  then show ?thesis
    by (rule call_result [where P = "cli_inv B L", OF cli_Put [OF assms(2)], rotated]) simp
next
  case call_bulk_put
  show ?thesis
    by (rule call_result [where P = "cli_inv B L", OF cli_BulkPut [OF assms(2) call_bulk_put(1)] call_bulk_put(2)]) simp
next
  case call_get
  then show ?thesis
    by (rule call_result [where P = "cli_inv B L", OF cli_Get [OF assms(2)], rotated]) simp
next
  case call_abort
  then show ?thesis
    by (rule call_result [where P = "cli_inv B L", OF cli_Abort [OF assms(2)], rotated]) simp
next
  case call_setpath
  then show ?thesis
    by (rule call_result [where P = "cli_inv B L", OF cli_SetPath [OF assms(2)], rotated]) simp
next
  case call_action
  then show ?thesis
    by (rule call_result [where P = "cli_inv B L", OF cli_DoAction [OF assms(2)], rotated]) simp
next
  case call_disconnect
  then show ?thesis
    by (rule call_result [where P = "cli_inv B L", OF cli_Disconnect [OF assms(2)], rotated]) simp
next
  case call_timeout
  then show ?thesis
    by (rule call_result [where P = "cli_inv B L", OF cli_SetResponseTimeout [OF assms(2)], rotated]) simp
next
  case call_context
  then show ?thesis
    by (rule call_result [where P = "cli_inv B L", OF cli_SetConnectionContext [OF assms(2)], rotated]) simp
next
  case call_other
  then show ?thesis
    using assms(2) by simp
qed

lemma cli_api_keeps: "cli_api env s s' \<Longrightarrow> cli_inv B L s \<Longrightarrow> cli_inv B L s'"
  unfolding cli_api_def by (induction rule: rtranclp_induct) (auto dest: cli_call_keeps)

text \<open>A callback may do what such calls do.\<close>

definition cli_app :: "'w CLI_ENV \<Rightarrow> bool" where
  "cli_app env \<longleftrightarrow> (\<forall>fn h ind s s'. v_app env fn h ind s = Some s' \<longrightarrow> cli_api env s s')"

lemma cli_app_keeps: "cli_app env \<Longrightarrow> cli_keeps env"
  unfolding cli_app_def cli_keeps_def using cli_api_keeps by blast

text \<open>A run: calls of the application and events, in any order. The dispatcher calls a function of the
  client with an address that the client gave to it, and is in a state of its own.\<close>

inductive cli_step :: "'w CLI_ENV \<Rightarrow> 'w OBEX_CLI \<Rightarrow> 'w OBEX_CLI \<Rightarrow> bool" for env where
  step_call: "cli_call env s s' \<Longrightarrow> cli_step env s s'"
| step_received: "LowerRecvDataInd_cli env p buf s = Some s' \<Longrightarrow> cli_step env s s'"
| step_written: "LowerWriteCfm_cli env p wm q st s = Some s' \<Longrightarrow> cli_step env s s'"
| step_connected: "LowerConnectCfm_cli env p n m st s = Some s' \<Longrightarrow> cli_step env s s'"
| step_disconnected: "LowerDisconnectInd_cli env p st s = Some s' \<Longrightarrow> cli_step env s s'"
| step_timeout: "ResponseTimeout env p s = Some s' \<Longrightarrow> cli_step env s s'"
| step_error: "CommandError env p st s = Some s' \<Longrightarrow> cli_step env s s'"

definition cli_run :: "'w CLI_ENV \<Rightarrow> 'w OBEX_CLI \<Rightarrow> 'w OBEX_CLI \<Rightarrow> bool" where
  "cli_run env = (cli_step env)\<^sup>*\<^sup>*"

definition cli_started :: "'w OBEX_CLI \<Rightarrow> bool" where
  "cli_started s \<longleftrightarrow> cl_conns s = (\<lambda>p. None)"

lemma cli_event: "returns P m \<Longrightarrow> m = Some s' \<Longrightarrow> P s'"
  by (simp add: returns_def)

lemma cli_step_keeps:
  assumes "cli_step env s s'" "cli_keeps env" "cli_inv {} {} s"
  shows "cli_inv {} {} s'"
  using assms(1)
proof cases
  case step_call
  then show ?thesis
    using assms(3) by (rule cli_call_keeps)
next
  case step_received
  then show ?thesis
    by (rule cli_event [OF cli_LowerRecvDataInd [OF assms(3,2)], rotated])
next
  case step_written
  then show ?thesis
    by (rule cli_event [OF cli_LowerWriteCfm [OF assms(3,2)], rotated])
next
  case step_connected
  then show ?thesis
    by (rule cli_event [OF cli_LowerConnectCfm [OF assms(3,2)], rotated])
next
  case step_disconnected
  then show ?thesis
    by (rule cli_event [OF cli_LowerDisconnectInd [OF assms(3,2)], rotated 2]) simp_all
next
  case step_timeout
  then show ?thesis
    by (rule cli_event [OF cli_ResponseTimeout [OF assms(3,2)], rotated])
next
  case step_error
  then show ?thesis
    by (rule cli_event [OF cli_CommandError [OF assms(3,2)], rotated])
qed

lemma cli_run_keeps:
  assumes "cli_run env s s'" "cli_keeps env" "cli_started s"
  shows "cli_inv {} {} s'"
  using assms(1) unfolding cli_run_def
proof (induction rule: rtranclp_induct)
  case base
  show ?case
    using assms(3) by (simp add: cli_inv_def cli_started_def conn_def)
qed (rule cli_step_keeps [OF _ assms(2)])

end
