(* ===== verification/ObexCliProps.thy ===== *)
theory ObexCliProps
  imports ObexCliSafe
begin

unbundle bit_operations_syntax

text \<open>
  The OBEX client: the properties of its runs and operations, with small runs of the model in
  which their hypotheses hold.
\<close>

declare confirm_puts.simps [code] all_confirmed.simps [code]

section \<open>A client to run\<close>

text \<open>The world notes what the lower layer and the application are asked to do.\<close>

datatype CLI_OBS = WROTE bytes | CALLED nat u32 CLI_IND | DROPPED | FLOW bool

definition demo_cli_env :: "CLI_OBS list CLI_ENV" where
  "demo_cli_env = \<lparr>v_write = (\<lambda>p w m early bulk. (OI_OK, False, w @ [WROTE (mbuf_content m)])),
     v_disconnect = (\<lambda>p w. (OI_OK, w @ [DROPPED])), v_flowControl = (\<lambda>p on w. w @ [FLOW on]),
     v_connect = (\<lambda>p addr prot mtu w. (OI_OK, w)), v_getCID = (\<lambda>p w. 64),
     v_app = (\<lambda>f h ind s. Some (s\<lparr>cl_world := cl_world s @ [CALLED f h ind]\<rparr>)), v_mem = (\<lambda>call i. True),
     v_privateKey = Some [0x6B, 0], v_responseTimeout = 300, v_maxPktLen = 1000, v_timestamp = replicate 8 1,
     v_md5ctx = demo_ctx, v_psize = 4\<rparr>"

definition demo_cli :: "CLI_OBS list OBEX_CLI" where
  "demo_cli = \<lparr>cl_conns = (\<lambda>p. None), cl_fresh = 1, cl_handles = initial_handles,
     cl_disp = snd (OI_Dispatch_Init 4 False \<lparr>Running = False, ImmediateDispatch = False, MaxUsedEntry = -1, numActiveEntries = 0,
        TableSize = 0, nextTimeout = 0, Table = None, serviceCallback = False, d_init = False, d_now = \<lparr>seconds = 0, mseconds = 0\<rparr>,
        d_requests = [], d_freed = [], d_calls = []\<rparr>),
     cl_heap = (\<lambda>p. None), cl_freshNode = 1, cl_calls = 0, cl_initFlag = 0, cl_world = []\<rparr>"

definition demo_cbs :: OI_OBEXCLI_CB_LIST where
  "demo_cbs = \<lparr>connectCfmCB = 1, disconnectIndCB = 2, authChallengeIndCB = 3, progressIndCB = 0, cbl_bulkPutCfm = 4\<rparr>"

definition demo_handle :: u32 where
  "demo_handle = fst (OI_HANDLE_Alloc ObexClientHandleType 1 initial_handles)"

text \<open>The lower connection is made, at the address 1; the server accepts the connection; it answers a
  GET with a first part.\<close>

definition demo_linked_cli :: "OI_OBEXCLI_AUTHENTICATION \<Rightarrow> CLI_OBS list OBEX_CLI option" where
  "demo_linked_cli a = do {
     (_, h, s) \<leftarrow> OI_OBEXCLI_Connect demo_cli_env [] OI_OBEX_LOWER_L2CAP True a None demo_cbs demo_cli;
     LowerConnectCfm_cli demo_cli_env 1 900 800 OI_OK s
   }"

definition demo_connected_cli :: "CLI_OBS list OBEX_CLI option" where
  "demo_connected_cli = do {
     s \<leftarrow> demo_linked_cli OI_OBEXCLI_AUTH_NONE;
     s \<leftarrow> LowerWriteCfm_cli demo_cli_env 1 CM_common False OI_OK s;
     LowerRecvDataInd_cli demo_cli_env 1 [0xA0, 0, 7, 0x10, 0, 2, 0x58] s
   }"

definition demo_getting :: "CLI_OBS list OBEX_CLI option" where
  "demo_getting = do {
     s \<leftarrow> demo_connected_cli;
     (r, s) \<leftarrow> OI_OBEXCLI_Get demo_cli_env demo_handle (Some []) 5 True s;
     s \<leftarrow> LowerWriteCfm_cli demo_cli_env 1 CM_common False OI_OK s;
     LowerRecvDataInd_cli demo_cli_env 1 [0x90, 0, 3] s
   }"

lemma cli_run_refl: "cli_run env s s"
  by (simp add: cli_run_def)

lemma cli_run_step: "cli_run env s s' \<Longrightarrow> cli_step env s' s'' \<Longrightarrow> cli_run env s s''"
  by (simp add: cli_run_def rtranclp.rtrancl_into_rtrancl)

lemma demo_cli_app: "cli_app demo_cli_env"
proof -
  have "cli_call demo_cli_env s (s\<lparr>cl_world := w\<rparr>)" for s w
    using call_other [where env = demo_cli_env and s = s and w = w and d = "cl_disp s"] by simp
  then show ?thesis
    by (auto simp: cli_app_def cli_api_def demo_cli_env_def)
qed

lemma demo_getting_run:
  assumes "demo_getting = Some s"
  shows "cli_run demo_cli_env demo_cli s"
proof -
  from assms obtain h r s1 s2 s3 s4 r2 s5 s6 where
      "OI_OBEXCLI_Connect demo_cli_env [] OI_OBEX_LOWER_L2CAP True OI_OBEXCLI_AUTH_NONE None demo_cbs demo_cli = Some (r, h, s1)"
      "LowerConnectCfm_cli demo_cli_env 1 900 800 OI_OK s1 = Some s2"
      "LowerWriteCfm_cli demo_cli_env 1 CM_common False OI_OK s2 = Some s3"
      "LowerRecvDataInd_cli demo_cli_env 1 [0xA0, 0, 7, 0x10, 0, 2, 0x58] s3 = Some s4"
      "OI_OBEXCLI_Get demo_cli_env demo_handle (Some []) 5 True s4 = Some (r2, s5)"
      "LowerWriteCfm_cli demo_cli_env 1 CM_common False OI_OK s5 = Some s6"
      "LowerRecvDataInd_cli demo_cli_env 1 [0x90, 0, 3] s6 = Some s"
    by (auto simp: demo_getting_def demo_connected_cli_def demo_linked_cli_def monad_simps)
  then show ?thesis
    by (intro cli_run_step [OF cli_run_step [OF cli_run_step [OF cli_run_step [OF cli_run_step [OF cli_run_step
          [OF cli_run_step [OF cli_run_refl]]]]]]])
      (blast intro: step_call call_connect call_get step_connected step_written step_received)+
qed

section \<open>The union of callbacks\<close>

fun state_kind :: "CLI_CONNECTION_STATE \<Rightarrow> CB_KIND option" where
  "state_kind LOWER_LAYER_CONNECTING = Some K_CONNECT"
| "state_kind LOWER_LAYER_CONNECTED = Some K_CONNECT"
| "state_kind OBEX_GETTING = Some K_GET"
| "state_kind OBEX_PUTTING = Some K_PUT"
| "state_kind OBEX_SETTING_PATH = Some K_SETPATH"
| "state_kind OBEX_DO_ACTION = Some K_ACTION"
| "state_kind st = None"

text \<open>The operation in progress, or being aborted.\<close>

definition current_state :: "OBEXCLI_CONNECTION \<Rightarrow> CLI_CONNECTION_STATE" where
  "current_state c = (if k_state c = OBEX_ABORTING \<and> COMMAND_IN_PROGRESS (abortingState c) then abortingState c else k_state c)"

lemma word_fits_current:
  assumes "word_ok c"
  shows "state_kind (current_state c) = Some k \<Longrightarrow> word_is k (cb_word c)"
    and "current_state c = OBEX_BULK_PUTTING \<Longrightarrow> word_status (cb_word c)"
  using assms unfolding word_ok_def current_state_def
  by (cases "(k_state c, cb_word c, abortingState c)" rule: word_fits.cases; auto simp: COMMAND_IN_PROGRESS_def state_order)+

text \<open>C3: In every run of a client that starts without connections, with an application that only calls the
  client's functions, and calls \<open>OI_OBEXCLI_BulkPut\<close> with an error status only while no other operation than
  a PUT or a bulk put is under way (\<open>bulk_put_allowed\<close>; \<open>bulk_error_in_get_crashes\<close> shows what it does
  otherwise): a connection in an operation, or aborting one, has the callback of that very operation in the
  word of its union, so that calling it calls what the application gave for it; in a bulk transfer the word
  is the transfer's status.\<close>

theorem union_discipline:
  assumes "cli_app env" "cli_started s" "cli_run env s s'" "conn p s' = Some c"
  shows "(\<forall>k. state_kind (current_state c) = Some k \<longrightarrow>
           (\<exists>f. f \<noteq> 0 \<and> cb_word c = CBW_fn k f \<and> (\<forall>ind. call_word env p k ind s' = v_app env f (k_handle c) ind s'))) \<and>
         (current_state c = OBEX_BULK_PUTTING \<longrightarrow> (\<exists>st. bulk_status c = Some st))"
proof -
  have "word_ok c"
    using ok_connI [OF cli_run_keeps [OF assms(3) cli_app_keeps [OF assms(1)] assms(2)] assms(4)]
    by (simp add: ok_conn_def ok_key_def word_ok_def)
  from word_fits_current [OF this] show ?thesis
    using assms(4) by (cases "cb_word c"; cases "state_kind (current_state c)") (auto simp: call_word_def call_app_def bulk_status_def)
qed

lemma union_discipline_witness:
  "\<exists>s c. demo_getting = Some s \<and> conn 1 s = Some c \<and> k_state c = OBEX_GETTING \<and>
     (\<forall>ind. call_word demo_cli_env 1 K_GET ind s = v_app demo_cli_env 5 demo_handle ind s)"
proof -
  have "case demo_getting of None \<Rightarrow> False | Some s \<Rightarrow>
      map_option (\<lambda>c. (k_state c, k_handle c, cb_word c)) (cl_conns s 1) = Some (OBEX_GETTING, demo_handle, CBW_fn K_GET 5)"
    by code_simp
  then obtain s c where s: "demo_getting = Some s" "cl_conns s 1 = Some c" "k_state c = OBEX_GETTING"
      "k_handle c = demo_handle" "cb_word c = CBW_fn K_GET 5"
    by (auto split: option.splits)
  have "cli_started demo_cli"
    by (simp add: cli_started_def demo_cli_def)
  from union_discipline [OF demo_cli_app this demo_getting_run [OF s(1)], of 1 c] s show ?thesis
    by (auto simp: conn_def current_state_def)
qed

section \<open>Timeouts\<close>

definition entry_of :: "'f DISPATCH_STATE \<Rightarrow> u32 \<Rightarrow> 'f DISPATCH_ENTRY" where
  "entry_of d h = the (Table d) ! unat (CB_INDEX h)"

text \<open>The entry calls \<open>ResponseTimeout\<close> with the address of the connection.\<close>

definition guards :: "nat \<Rightarrow> CLI_FUNC DISPATCH_ENTRY \<Rightarrow> bool" where
  "guards p e \<longleftrightarrow> e_CBFunc e = Some F_ResponseTimeout \<and> call_arg e = Some (Some (pointer_arg p))"

text \<open>A handle that is valid is kept, with its function and argument; otherwise there is a new one.\<close>

definition guarded :: "nat \<Rightarrow> OI_INTERVAL \<Rightarrow> u32 \<Rightarrow> CLI_FUNC DISPATCH_STATE \<Rightarrow> u32 \<Rightarrow> CLI_FUNC DISPATCH_STATE \<Rightarrow> bool" where
  "guarded p tmo h d h' d' \<longleftrightarrow> h' \<in> valid_handles d' \<and>
     e_timeout (entry_of d' h') = Dispatch_timeNowInterval d + tmo \<and> e_state (entry_of d' h') \<noteq> FUNC_SUSPENDED \<and>
     (if h \<in> valid_handles d
      then h' = h \<and> e_CBFunc (entry_of d' h) = e_CBFunc (entry_of d h) \<and> call_arg (entry_of d' h) = call_arg (entry_of d h)
      else guards p (entry_of d' h'))"

lemma pointer_arg_length: "length (pointer_arg p) = 4"
  by (simp add: pointer_arg_def SetUINT32_LittleEndian_def)

lemma SetCommandTimeout_guards:
  assumes inv: "dispatch_inv (cl_disp s)" and c: "conn p s = Some c" and tmo: "tmo \<le> OI_MAX_INTERVAL"
    and result: "SetCommandTimeout p tmo s = Some s'"
  shows "\<exists>c'. conn p s' = Some c' \<and> guarded p tmo (timeoutCB c) (cl_disp s) (timeoutCB c') (cl_disp s')"
proof -
  obtain t where t: "table_inv (cl_disp s) t"
    using inv by (auto simp: dispatch_inv_def)
  then have Table: "Table (cl_disp s) = Some t"
    by (simp add: table_inv_def counts_inv_def)
  show ?thesis
  proof (cases "valid_in t (timeoutCB c)")
    case True
    let ?t' = "t[unat (CB_INDEX (timeoutCB c)) := retimed (Dispatch_timeNowInterval (cl_disp s) + tmo) (t ! unat (CB_INDEX (timeoutCB c)))]"
    from True SetFuncTimeout_ok [OF t tmo, of "timeoutCB c"] obtain d' where
      d': "OI_Dispatch_SetFuncTimeout (timeoutCB c) tmo (cl_disp s) = Some (OI_OK, d')" "table_inv d' ?t'"
      by auto
    have "s' = s\<lparr>cl_disp := d'\<rparr>"
      using result c d' True by (auto simp: SetCommandTimeout_def IsValidHandle_eq [OF t])
    moreover have "timeoutCB c \<in> valid_handles d'"
      using SetFuncTimeout_handles [OF t tmo, of "timeoutCB c"] d'(1) True by (auto simp: valid_handles_eq [OF t])
    moreover have "Table d' = Some ?t'"
      using d'(2) by (simp add: table_inv_def counts_inv_def)
    ultimately show ?thesis
      using c True Table by (auto simp: guarded_def valid_handles_eq [OF t] entry_of_def valid_in_def retimed_def)
  next
    case False
    from False result c obtain st h d' where
      reg: "OI_Dispatch_RegisterTimedFunc True (Some F_ResponseTimeout) (Some (pointer_arg p)) tmo (cl_disp s) = Some (st, h, d')"
      and s': "cset p (\<lambda>c. c\<lparr>timeoutCB := h\<rparr>) (s\<lparr>cl_disp := d'\<rparr>) = Some s'"
      by (auto simp: SetCommandTimeout_def IsValidHandle_eq [OF t] monad_simps)
    have arg: "arg_ok (Some (pointer_arg p))" "passed (Some (pointer_arg p)) = Some (pointer_arg p)"
      using pointer_arg_length [of p] by (auto simp: arg_ok_def passed_def)
    note conds = Register_conditions [OF reg t]
    from Register_ok [OF t _ tmo arg(1), of "Some F_ResponseTimeout" True] reg conds obtain e where
      e: "st = OI_OK" "table_inv d' (t[slot t := e])"
        "registered st h (Some F_ResponseTimeout) (Some (pointer_arg p)) (Dispatch_timeNowInterval (cl_disp s) + tmo) (slot t) (e_salt (t ! slot t)) e"
      by auto
    have i: "slot t < length t" "\<not> ENTRY_IN_USE (t ! slot t)"
      using slot_free conds by auto
    have valid: "h \<in> valid_handles d'"
      using registered_handles [OF t e(2) i] e(1,3) by simp
    have "slot t < 65536"
      using i(1) t by (auto simp: table_inv_def counts_inv_def)
    then have "unat (CB_INDEX h) = slot t"
      using e(1,3) by (simp add: registered_def CB_INDEX_HANDLE unat_of_nat_u16)
    moreover have "Table d' = Some (t[slot t := e])"
      using e(2) by (simp add: table_inv_def counts_inv_def)
    ultimately have "entry_of d' h = e"
      using i(1) by (simp add: entry_of_def)
    with valid e(1,3) s' c False arg(2) show ?thesis
      by (auto simp: cset_def registered_def guarded_def guards_def valid_handles_eq [OF t])
  qed
qed

text \<open>C11: A request that the lower layer takes is guarded by an entry of the dispatcher: the connection then has
  a valid handle whose entry falls due after the timeout asked for and is not suspended. If the connection
  had no valid handle before, the entry is one that calls \<open>ResponseTimeout\<close> with this connection's address;
  if it had one, it keeps it, with the entry's function and argument. A request to disconnect leaves the
  dispatcher as it is, and so is the one request without such a guard.\<close>

theorem request_is_guarded:
  assumes "dispatch_inv (cl_disp s)" "conn p s = Some c" "tmo \<le> OI_MAX_INTERVAL" "ClientSendPacket env p tmo s = Some (OI_OK, s')"
  shows "if currentOpcode (k_common c) = OI_OBEX_CMD_DISCONNECT then cl_disp s' = cl_disp s
    else \<exists>c'. conn p s' = Some c' \<and> guarded p tmo (timeoutCB c) (cl_disp s) (timeoutCB c') (cl_disp s')"
proof (cases "currentOpcode (k_common c) = OI_OBEX_CMD_DISCONNECT")
  case True
  with assms(2,4) show ?thesis
    by (auto simp: ClientSendPacket_def monad_simps Let_def split_beta cset_def split: if_splits)
next
  case False
  with assms(2,4) obtain w where "SetCommandTimeout p tmo (s\<lparr>cl_world := w\<rparr>) = Some s'"
    by (auto simp: ClientSendPacket_def monad_simps Let_def split_beta split: if_splits)
  with SetCommandTimeout_guards [of "s\<lparr>cl_world := w\<rparr>" p c tmo s'] assms(1-3) False show ?thesis
    by simp
qed

text \<open>A connection that sends a packet of three bytes.\<close>

definition demo_sending :: "CLI_OBS list OBEX_CLI" where
  "demo_sending = demo_cli\<lparr>cl_conns := (\<lambda>p. None)(1 := Some (zeroed_connection\<lparr>k_state := OBEX_GETTING,
     k_common := (k_common zeroed_connection)\<lparr>mbuf := Some (MBUF ((zeroed_hdr 1)\<lparr>numBytes := 3\<rparr>) [CELL_INLINE 3 [0x83, 0, 3]])\<rparr>\<rparr>))\<rparr>"

lemma demo_cli_disp: "dispatch_inv (cl_disp demo_cli)"
proof -
  have "entry_wf (free_entry :: CLI_FUNC DISPATCH_ENTRY)"
    by (simp add: entry_wf_def free_entry_def ENTRY_IN_USE_def)
  then have "table_inv (cl_disp demo_cli) (replicate 4 free_entry)"
    by (auto simp: demo_cli_def lower_mark_free active_count_free OI_Dispatch_Init_def table_inv_def counts_inv_def list_all_iff)
  then show ?thesis
    by (auto simp: dispatch_inv_def)
qed

lemma request_is_guarded_witness:
  "\<exists>s' c'. ClientSendPacket demo_cli_env 1 300 demo_sending = Some (OI_OK, s') \<and> conn 1 s' = Some c' \<and>
     timeoutCB c' \<in> valid_handles (cl_disp s') \<and> guards 1 (entry_of (cl_disp s') (timeoutCB c'))"
proof -
  have "case ClientSendPacket demo_cli_env 1 300 demo_sending of None \<Rightarrow> False | Some (r, s') \<Rightarrow> r = OI_OK"
    by code_simp
  then obtain s' where s': "ClientSendPacket demo_cli_env 1 300 demo_sending = Some (OI_OK, s')"
    by (auto split: option.splits)
  have "OI_Dispatch_IsValidHandle 0 (cl_disp demo_cli) \<noteq> Some True"
    by code_simp
  then have "0 \<notin> valid_handles (cl_disp demo_cli)"
    by (simp add: valid_handles_def)
  with request_is_guarded [OF _ _ _ s'] s' demo_cli_disp show ?thesis
    by (auto simp: demo_sending_def conn_def zeroed_connection_def OI_MAX_INTERVAL_def OI_OBEX_CMD_DISCONNECT_def guarded_def)
qed

section \<open>Authentication of the server\<close>

text \<open>A response of the server verifies against what the client stores.\<close>

definition server_verified :: "'w CLI_ENV \<Rightarrow> AUTH_COMMON \<Rightarrow> OI_OBEX_HEADER \<Rightarrow> bool" where
  "server_verified env a response \<longleftrightarrow>
     (\<exists>st a'. OI_OBEXAUTH_SaveResponse a response = Some (st, a') \<and> check_userId (authentication a') = Some OI_OK \<and>
        OI_OBEXAUTH_Authenticate OI_LITTLE_ENDIAN_BYTE_ORDER (v_psize env) (v_md5ctx env) a' = Some OI_OK)"

text \<open>The connection waits for the response to its CONNECT request and requires authentication; nothing
  has been done to the world.\<close>

definition awaits :: "nat \<Rightarrow> AUTH_COMMON option \<Rightarrow> 'w \<Rightarrow> 'w OBEX_CLI \<Rightarrow> bool" where
  "awaits p a w s \<longleftrightarrow> cl_world s = w \<and>
     (\<exists>c. conn p s = Some c \<and> k_state c = LOWER_LAYER_CONNECTED \<and> k_authRequired c \<noteq> OI_OBEXCLI_AUTH_NONE \<and>
        (a = None \<or> auth_part_cli c = a))"

text \<open>The link is dropped: the lower layer has been asked to disconnect, and that is all.\<close>

definition refused :: "'w CLI_ENV \<Rightarrow> nat \<Rightarrow> 'w \<Rightarrow> 'w OBEX_CLI \<Rightarrow> bool" where
  "refused env p w s \<longleftrightarrow> cl_world s = snd (v_disconnect env p w) \<and>
     (\<exists>c. conn p s = Some c \<and> k_state c = LOWER_LAYER_CONNECTED \<and> disconnectingLowerLayer c)"

lemma awaits_fields [simp]: "awaits p a w (s\<lparr>cl_calls := n\<rparr>) = awaits p a w s"
  by (simp add: awaits_def)

lemma awaits_weak: "awaits p (Some a) w s \<Longrightarrow> awaits p None w s"
  by (auto simp: awaits_def)

lemma awaits_cset:
  assumes "awaits p a w s" "\<And>s'. awaits p a w s' \<Longrightarrow> Q s'"
    "\<And>c. k_state (f c) = k_state c \<and> k_authRequired (f c) = k_authRequired c \<and> auth_part_cli (f c) = auth_part_cli c"
  shows "returns Q (cset p f s)"
  using assms by (auto simp: cset_def returns_def awaits_def)

lemma awaits_put_auth:
  assumes "awaits p a w s" "\<And>s'. awaits p None w s' \<Longrightarrow> Q s'"
  shows "returns Q (put_auth_cli p b s)"
  using assms by (auto simp: put_auth_cli_def cset_def returns_def awaits_def)

lemma awaits_ParseHeaderList:
  "awaits p a w s \<Longrightarrow> (\<And>r hl s'. awaits p a w s' \<Longrightarrow> Q (r, hl, s')) \<Longrightarrow> returns Q (ParseHeaderList_cli env p pkt s)"
  unfolding ParseHeaderList_cli_def
  by ((rule returns_bind, rule awaits_cset) | rule returns_rules returns_Some returns_any | (simp add: auth_part_cli_def; fail))+

lemma awaits_connect_rsp_fields:
  "awaits p a w s \<Longrightarrow> (\<And>r pkt s'. awaits p a w s' \<Longrightarrow> Q (r, pkt, s')) \<Longrightarrow> returns Q (connect_rsp_fields p pkt s)"
  unfolding connect_rsp_fields_def
  by ((rule returns_bind, rule awaits_cset) | rule returns_rules returns_Some returns_any | (simp add: auth_part_cli_def; fail))+

lemma verifiedI:
  "OI_OBEX_FindHeader hs OI_OBEX_HDR_AUTHENTICATION_RESPONSE = Some h \<Longrightarrow>
     OI_OBEXAUTH_SaveResponse a h = Some x \<Longrightarrow> x = (u, a') \<Longrightarrow> check_userId (authentication a') = Some st \<Longrightarrow>
     (if OI_SUCCESS st then OI_OBEXAUTH_Authenticate OI_LITTLE_ENDIAN_BYTE_ORDER (v_psize env) (v_md5ctx env) a' else Some st) = Some r \<Longrightarrow>
     OI_SUCCESS r \<Longrightarrow> \<exists>h. OI_OBEX_FindHeader hs OI_OBEX_HDR_AUTHENTICATION_RESPONSE = Some h \<and> server_verified env a h"
  by (auto simp: server_verified_def OI_SUCCESS_def split: if_splits)

lemma awaits_connect_verify:
  assumes "awaits p (Some a) w s"
    "\<And>r s'. awaits p None w s' \<Longrightarrow>
       (OI_SUCCESS r \<Longrightarrow> \<exists>h. OI_OBEX_FindHeader hs OI_OBEX_HDR_AUTHENTICATION_RESPONSE = Some h \<and> server_verified env a h) \<Longrightarrow> Q (r, s')"
  shows "returns Q (connect_verify env p hs s)"
proof -
  obtain c where c: "conn p s = Some c" "k_authRequired c \<noteq> OI_OBEXCLI_AUTH_NONE" "auth_part_cli c = Some a"
    using assms(1) by (auto simp: awaits_def)
  have weak: "awaits p None w s"
    using assms(1) by (rule awaits_weak)
  show ?thesis
    unfolding connect_verify_def c(1) Option.bind.simps if_not_P [OF c(2)] c(3)
    by (insert weak)
      ((rule returns_bind, rule awaits_put_auth) | rule returns_rules returns_Some returns_any | (simp; fail)
       | (rule assms(2), assumption, simp; fail) | (rule assms(2), assumption, erule (5) verifiedI))+
qed

lemma fatal_refuses: "awaits p a w s \<Longrightarrow> FatalObexError env p st s = Some s' \<Longrightarrow> refused env p w s'"
  by (auto simp: awaits_def refused_def FatalObexError_def SetAbortState_def cset_def monad_simps cli_disconnect_def split_beta)

lemma awaits_connect_established:
  assumes "awaits p (Some a) w s" "\<And>r s'. awaits p None w s' \<Longrightarrow> \<not> OI_SUCCESS r \<Longrightarrow> Q (r, s')"
    "\<And>hs h. hl_headers hl = Some hs \<Longrightarrow> OI_OBEX_FindHeader hs OI_OBEX_HDR_AUTHENTICATION_RESPONSE = Some h \<Longrightarrow> \<not> server_verified env a h"
  shows "returns Q (connect_established env p hl s)"
  unfolding connect_established_def
proof (rule returns_any, rule returns_bind, goal_cases)
  case (1 hs)
  have "returns (awaits p (Some a) w) (case OI_OBEX_FindHeader hs OI_OBEX_HDR_CONNECTION_ID of None \<Rightarrow> Some s
      | Some h \<Rightarrow> do { v \<leftarrow> uint32_of h; cset p (\<lambda>c. c\<lparr>k_cid := v\<rparr>) s })"
    using assms(1)
    by (auto intro!: returns_any returns_Some awaits_cset [OF assms(1)] simp: auth_part_cli_def split: option.split)
  then show ?case
  proof (rule returns_mono, goal_cases)
    case (1 s1)
    show ?case
    proof (rule returns_bind, rule awaits_connect_verify [OF 1], goal_cases)
      case (1 r s')
      then have "\<not> OI_SUCCESS r"
        using assms(3) \<open>hl_headers hl = Some hs\<close> by blast
      then show ?case
        using assms(2) [OF 1(1)] by (simp add: returns_Some)
    qed
  qed
qed

text \<open>The authentication response in a packet of the server.\<close>

definition response_in :: "'w CLI_ENV \<Rightarrow> nat \<Rightarrow> OI_BYTE_STREAM \<Rightarrow> 'w OBEX_CLI \<Rightarrow> OI_OBEX_HEADER \<Rightarrow> bool" where
  "response_in env p pkt s h \<longleftrightarrow>
     (\<exists>st rest s1 hl s2 hs. connect_rsp_fields p pkt s = Some (OI_OK, rest, s1) \<and> ParseHeaderList_cli env p rest s1 = Some (st, hl, s2) \<and>
        hl_headers hl = Some hs \<and> OI_OBEX_FindHeader hs OI_OBEX_HDR_AUTHENTICATION_RESPONSE = Some h)"

lemma returns_result: "returns P m \<Longrightarrow> (\<And>x. m = Some x \<Longrightarrow> P x \<Longrightarrow> returns Q (f x)) \<Longrightarrow> returns Q (Option.bind m f)"
  by (cases m) (auto simp: returns_def)

text \<open>C4: A client that requires the server to authenticate itself, and gets the response OK to its CONNECT
  request, drops the link without a word to the application unless that packet holds an authentication
  response that names the client's user id, where one is required, and verifies against the client's
  challenge and password.\<close>

theorem connected_server_is_verified:
  assumes "conn p s = Some c" "k_state c = LOWER_LAYER_CONNECTED" "k_authRequired c \<noteq> OI_OBEXCLI_AUTH_NONE"
    and "auth_part_cli c = Some a" "ConnectResponse env p pkt (OI_OBEX_FINAL OI_OBEX_RSP_OK) s = Some s'"
  shows "(\<exists>h. response_in env p pkt s h \<and> server_verified env a h) \<or> refused env p (cl_world s) s'"
proof (cases "\<exists>h. response_in env p pkt s h \<and> server_verified env a h")
  case none: False
  have start: "awaits p (Some a) (cl_world s) s"
    using assms(1-4) by (simp add: awaits_def)
  have ok: "MapResponse (OI_OBEX_FINAL OI_OBEX_RSP_OK) e = OI_OK" for e
    by (simp add: MapResponse_def)
  let ?Q = "\<lambda>(r, s'). awaits p None (cl_world s) s' \<and> \<not> OI_SUCCESS r"
  have "returns ?Q (connect_response env p pkt (OI_OBEX_FINAL OI_OBEX_RSP_OK) s)"
    unfolding connect_response_def ok Let_def
  proof (simp only: OI_SUCCESS_simps simp_thms if_False, rule returns_result, rule awaits_connect_rsp_fields [OF start, where Q = "\<lambda>(_, _, s1). awaits p (Some a) (cl_world s) s1"], simp, goal_cases)
    case (1 x)
    obtain st rest s1 where x: "x = (st, rest, s1)" by (cases x)
    have s1: "awaits p (Some a) (cl_world s) s1"
      using 1(2) x by simp
    have parse: "returns (\<lambda>(_, _, s2). awaits p (Some a) (cl_world s) s2) (ParseHeaderList_cli env p rest s1)"
      by (rule awaits_ParseHeaderList [OF s1]) simp
    show ?case
      unfolding x prod.case
    proof (rule returns_if, use s1 in \<open>simp add: returns_Some awaits_weak\<close>, rule returns_result [OF parse], goal_cases)
      case (1 y)
      obtain st' hl s2 where y: "y = (st', hl, s2)" by (cases y)
      have s2: "awaits p (Some a) (cl_world s) s2"
        using 1(3) y by simp
      have "\<not> server_verified env a h" if "hl_headers hl = Some hs" "OI_OBEX_FindHeader hs OI_OBEX_HDR_AUTHENTICATION_RESPONSE = Some h" for hs h
        using none \<open>connect_rsp_fields p pkt s = Some x\<close> 1 x y that by (auto simp: response_in_def OI_SUCCESS_def)
      then show ?case
        using s2 unfolding y prod.case
        by (auto intro!: returns_Some awaits_connect_established simp: awaits_weak)
    qed
  qed
  with assms(5) show ?thesis
    by (auto simp: ConnectResponse_def returns_def monad_simps split: if_splits dest: fatal_refuses)
qed simp

text \<open>A response of a server that does not authenticate itself, after the response code and the length.\<close>

definition demo_plain_response :: OI_BYTE_STREAM where
  "demo_plain_response = blank_stream\<lparr>bs_data := [0xA0, 0, 7, 0x10, 0, 2, 0x58], bs_trueSize := 7, bs_RWFlag := BYTESTREAM_READ,
     bs_size := 7, bs_pos := 3\<rparr>"

lemma connected_server_is_verified_witness:
  "\<exists>s s'. demo_linked_cli OI_OBEXCLI_AUTH_PASSWORD = Some s \<and>
     ConnectResponse demo_cli_env 1 demo_plain_response (OI_OBEX_FINAL OI_OBEX_RSP_OK) s = Some s' \<and>
     refused demo_cli_env 1 (cl_world s) s'"
proof -
  have "case demo_linked_cli OI_OBEXCLI_AUTH_PASSWORD of None \<Rightarrow> False | Some s \<Rightarrow>
      map_option (\<lambda>c. (k_state c, k_authRequired c, auth_part_cli c = None)) (cl_conns s 1) =
        Some (LOWER_LAYER_CONNECTED, OI_OBEXCLI_AUTH_PASSWORD, False) \<and>
      ConnectResponse demo_cli_env 1 demo_plain_response (OI_OBEX_FINAL OI_OBEX_RSP_OK) s \<noteq> None \<and>
      (case connect_rsp_fields 1 demo_plain_response s of None \<Rightarrow> True | Some (st, rest, s1) \<Rightarrow>
        (case ParseHeaderList_cli demo_cli_env 1 rest s1 of None \<Rightarrow> True | Some (st', hl, s2) \<Rightarrow>
          Option.bind (hl_headers hl) (\<lambda>hs. OI_OBEX_FindHeader hs OI_OBEX_HDR_AUTHENTICATION_RESPONSE) = None))"
    by code_simp
  then obtain s c a s' where s: "demo_linked_cli OI_OBEXCLI_AUTH_PASSWORD = Some s" "conn 1 s = Some c" "k_state c = LOWER_LAYER_CONNECTED"
      "k_authRequired c \<noteq> OI_OBEXCLI_AUTH_NONE" "auth_part_cli c = Some a"
      "ConnectResponse demo_cli_env 1 demo_plain_response (OI_OBEX_FINAL OI_OBEX_RSP_OK) s = Some s'"
      "\<nexists>h. response_in demo_cli_env 1 demo_plain_response s h"
    by (fastforce simp: conn_def response_in_def split: option.splits)
  then show ?thesis
    using connected_server_is_verified [OF s(2-6)] by blast
qed

section \<open>Single response mode\<close>

text \<open>What a response does to the mode, on three bits: whether it is on, whether the parameters count, and
  whether it is suspended. \<open>mode\<close> and \<open>param\<close> are the values of the two headers.\<close>

definition srm_step :: "u8 option \<Rightarrow> u8 option \<Rightarrow> bool \<times> bool \<times> bool \<Rightarrow> bool \<times> bool \<times> bool" where
  "srm_step mode param = (\<lambda>(on, valid, suspended).
     let on = (on \<or> mode = Some OI_OBEX_SRM_ENABLED) in
     case param of
       None \<Rightarrow> if suspended then (True, valid, False) else (on, valid, suspended)
     | Some v \<Rightarrow>
         if mode \<noteq> None then if v = OI_OBEX_SRM_PARAM_WAIT \<and> on then (False, True, True) else (on, True, suspended)
         else if valid \<and> v = OI_OBEX_SRM_PARAM_WAIT \<and> \<not> suspended then (False, valid, True)
         else if valid \<and> v = OI_OBEX_SRM_PARAM_RSVP \<and> suspended then (True, valid, False)
         else (on, valid, suspended))"

definition srm_view :: "OBEXCLI_CONNECTION \<Rightarrow> bool \<times> bool \<times> bool" where
  "srm_view c = (srm_on c, srmpValid c, srmpWaitReceived c)"

definition header_value :: "OI_OBEX_HEADER list \<Rightarrow> u8 \<Rightarrow> u8 option" where
  "header_value hs x = Option.bind (OI_OBEX_FindHeader hs x) uint8_of"

lemma find_remove1_other: "\<not> P h \<Longrightarrow> List.find P (remove1 h hs) = List.find P hs"
  by (induction hs) auto

lemma find_deleted_other:
  assumes "x \<noteq> y"
  shows "OI_OBEX_FindHeader (snd (OI_OBEXCOMMON_DeleteHeaderFromList hs x)) y = OI_OBEX_FindHeader hs y"
  using assms by (auto simp: header_list_spec find_remove1_other find_Some_iff split: option.split)

lemma srm_on_bit: "srm_on c \<longleftrightarrow> bit (srm (k_common c)) 0"
  by (simp add: srm_on_def OI_OBEX_SRM_ENABLED_def and_one_eq bit_0 odd_iff_mod_2_eq_one)

lemma enabled_bit [simp]: "bit OI_OBEX_SRM_ENABLED 0"
  by (simp add: OI_OBEX_SRM_ENABLED_def)

lemma cset_at: "conn p s = Some c \<Longrightarrow> cset p f s = Some (s\<lparr>cl_conns := (cl_conns s)(p := Some (f c))\<rparr>)"
  by (simp add: cset_def)

lemma srm_mode_view:
  assumes "conn p s = Some c" "srm_mode p always hs s = Some (b, hs', s')"
  shows "(b \<longleftrightarrow> header_value hs OI_OBEX_HDR_SINGLE_RESPONSE_MODE \<noteq> None) \<and>
    (\<forall>x. x \<noteq> OI_OBEX_HDR_SINGLE_RESPONSE_MODE \<longrightarrow> OI_OBEX_FindHeader hs' x = OI_OBEX_FindHeader hs x) \<and>
    (\<exists>c'. conn p s' = Some c' \<and> srmpValid c' = srmpValid c \<and> srmpWaitReceived c' = srmpWaitReceived c \<and>
       (srm_on c' \<longleftrightarrow> srm_on c \<or> header_value hs OI_OBEX_HDR_SINGLE_RESPONSE_MODE = Some OI_OBEX_SRM_ENABLED))"
proof (cases "OI_OBEX_FindHeader hs OI_OBEX_HDR_SINGLE_RESPONSE_MODE")
  case None
  with assms show ?thesis
    by (auto simp: srm_mode_def header_value_def)
next
  case (Some h)
  with assms obtain v where "uint8_of h = Some v"
    by (auto simp: srm_mode_def monad_simps)
  with Some assms show ?thesis
    by (cases "v = OI_OBEX_SRM_ENABLED"; cases always)
      (auto simp: srm_mode_def header_value_def set_srm_cli_def cset_at [OF assms(1)] find_deleted_other srm_on_bit bit_simps)
qed

lemma srm_wait_at:
  assumes "conn p s = Some c" "srm_wait p wait s = Some s'"
  shows "\<exists>c'. conn p s' = Some c' \<and> srm_view c' = (\<not> wait, srmpValid c, wait)"
  using assms(2) by (cases wait) (auto simp: srm_wait_def cset_at [OF assms(1)] srm_view_def srm_on_bit bit_simps)

lemma srm_parameters_view:
  assumes c: "conn p s = Some c" and "srm_parameters p initial hs s = Some (b, hs', s')"
  shows "(b \<longleftrightarrow> header_value hs OI_OBEX_HDR_SINGLE_RESPONSE_PARAMETERS \<noteq> None) \<and>
    (\<exists>c'. conn p s' = Some c' \<and>
       (case header_value hs OI_OBEX_HDR_SINGLE_RESPONSE_PARAMETERS of
          None \<Rightarrow> c' = c
        | Some v \<Rightarrow> srm_view c' = srm_step (if initial then Some 0 else None) (Some v) (srm_view c)))"
proof (cases "OI_OBEX_FindHeader hs OI_OBEX_HDR_SINGLE_RESPONSE_PARAMETERS")
  case None
  with assms show ?thesis
    by (auto simp: srm_parameters_def header_value_def)
next
  case (Some h)
  with assms obtain v where v: "uint8_of h = Some v"
    by (auto simp: srm_parameters_def monad_simps)
  have val: "header_value hs OI_OBEX_HDR_SINGLE_RESPONSE_PARAMETERS = Some v"
    using Some v by (simp add: header_value_def)
  show ?thesis
  proof (cases initial)
    case True
    let ?s = "s\<lparr>cl_conns := (cl_conns s)(p := Some (c\<lparr>srmpValid := True\<rparr>))\<rparr>"
    have "(if v = OI_OBEX_SRM_PARAM_WAIT \<and> srm_on c then srm_wait p True ?s else Some ?s) = Some s'" b
      using assms Some v True by (auto simp: srm_parameters_def cset_at [OF c] monad_simps srm_on_def split: if_splits)
    then show ?thesis
      using True val srm_wait_at [of p ?s "c\<lparr>srmpValid := True\<rparr>" True s']
      by (auto simp: srm_step_def srm_view_def srm_on_def OI_OBEX_SRM_ENABLED_def split: if_splits)
  next
    case False
    then have "b" "(if \<not> srmpValid c then Some s
        else if v = OI_OBEX_SRM_PARAM_WAIT then if \<not> srmpWaitReceived c then srm_wait p True s else Some s
        else if v = OI_OBEX_SRM_PARAM_RSVP then if srmpWaitReceived c then srm_wait p False s else Some s else Some s) = Some s'"
      using assms Some v by (auto simp: srm_parameters_def monad_simps)
    then show ?thesis
      using False val c srm_wait_at [OF c, of _ s']
      by (auto simp: srm_step_def srm_view_def OI_OBEX_SRM_PARAM_WAIT_def OI_OBEX_SRM_PARAM_RSVP_def split: if_splits)
  qed
qed

text \<open>C10: The two single response mode headers of a response act on a connection as the three-bit machine
  \<open>srm_step\<close> does, whatever else the response holds, and the transfer is resumed exactly if the mode was
  suspended and the response has no parameters.\<close>

theorem srm_headers_refines:
  assumes "conn p s = Some c" "hl_headers hl = Some hs" "srm_headers p always hl s = Some (hs', resumed, s')"
  shows "\<exists>c'. conn p s' = Some c' \<and>
    srm_view c' = srm_step (header_value hs OI_OBEX_HDR_SINGLE_RESPONSE_MODE)
      (header_value hs OI_OBEX_HDR_SINGLE_RESPONSE_PARAMETERS) (srm_view c) \<and>
    (resumed \<longleftrightarrow> header_value hs OI_OBEX_HDR_SINGLE_RESPONSE_PARAMETERS = None \<and> srmpWaitReceived c)"
proof -
  let ?mode = "header_value hs OI_OBEX_HDR_SINGLE_RESPONSE_MODE" and ?param = "header_value hs OI_OBEX_HDR_SINGLE_RESPONSE_PARAMETERS"
  from assms obtain m hs1 s1 n hs2 s2 where
    mode: "srm_mode p always hs s = Some (m, hs1, s1)" and params: "srm_parameters p m hs1 s1 = Some (n, hs2, s2)"
    and rest: "Option.bind (conn p s2) (\<lambda>c. if \<not> n \<and> srmpWaitReceived c then map_option (\<lambda>s. (hs2, True, s)) (srm_wait p False s2)
      else Some (hs2, False, s2)) = Some (hs', resumed, s')"
    by (auto simp: srm_headers_def monad_simps map_option_case split: option.splits if_splits)
  from srm_mode_view [OF assms(1) mode] obtain c1 where c1: "m \<longleftrightarrow> ?mode \<noteq> None"
      "OI_OBEX_FindHeader hs1 OI_OBEX_HDR_SINGLE_RESPONSE_PARAMETERS = OI_OBEX_FindHeader hs OI_OBEX_HDR_SINGLE_RESPONSE_PARAMETERS"
      "conn p s1 = Some c1" "srm_view c1 = (srm_on c \<or> ?mode = Some OI_OBEX_SRM_ENABLED, srmpValid c, srmpWaitReceived c)"
    by (auto simp: srm_view_def OI_OBEX_HDR_SINGLE_RESPONSE_MODE_def OI_OBEX_HDR_SINGLE_RESPONSE_PARAMETERS_def)
  then have val: "header_value hs1 OI_OBEX_HDR_SINGLE_RESPONSE_PARAMETERS = ?param"
    by (simp add: header_value_def)
  from srm_parameters_view [OF c1(3) params] obtain c2 where c2: "n \<longleftrightarrow> ?param \<noteq> None" "conn p s2 = Some c2"
      "case ?param of None \<Rightarrow> c2 = c1 | Some v \<Rightarrow> srm_view c2 = srm_step (if m then Some 0 else None) (Some v) (srm_view c1)"
    unfolding val by blast
  show ?thesis
  proof (cases ?param)
    case None
    with c1 c2 rest srm_wait_at [OF c2(2), of False s'] show ?thesis
      by (auto simp: srm_step_def srm_view_def split: if_splits)
  next
    case (Some v)
    with c1 c2 rest show ?thesis
      by (auto simp: srm_step_def srm_view_def Let_def OI_OBEX_SRM_ENABLED_def OI_OBEX_SRM_PARAM_WAIT_def OI_OBEX_SRM_PARAM_RSVP_def
          split: if_splits)
  qed
qed

text \<open>A response that enables the mode and suspends it at once.\<close>

definition demo_srm_rsp :: OI_OBEX_HEADER_LIST where
  "demo_srm_rsp = \<lparr>hl_count = 2, hl_list = Some [hdr_u8 OI_OBEX_HDR_SINGLE_RESPONSE_MODE 1, hdr_u8 OI_OBEX_HDR_SINGLE_RESPONSE_PARAMETERS 1]\<rparr>"

lemma srm_headers_refines_witness:
  "\<exists>s hs' s' c'. demo_connected_cli = Some s \<and> srm_headers 1 True demo_srm_rsp s = Some (hs', False, s') \<and> conn 1 s' = Some c' \<and>
     srm_view c' = (False, True, True)"
proof -
  have "case demo_connected_cli of None \<Rightarrow> False | Some s \<Rightarrow>
      map_option srm_view (cl_conns s 1) = Some (False, False, False) \<and> srm_headers 1 True demo_srm_rsp s \<noteq> None"
    by code_simp
  then obtain s c hs' r s' where s: "demo_connected_cli = Some s" "conn 1 s = Some c" "srm_view c = (False, False, False)"
      "srm_headers 1 True demo_srm_rsp s = Some (hs', r, s')"
    by (auto simp: conn_def split: option.splits)
  have "hl_headers demo_srm_rsp = Some (the (hl_list demo_srm_rsp))"
    by (simp add: demo_srm_rsp_def hl_headers_def)
  moreover have "srm_step (header_value (the (hl_list demo_srm_rsp)) OI_OBEX_HDR_SINGLE_RESPONSE_MODE)
      (header_value (the (hl_list demo_srm_rsp)) OI_OBEX_HDR_SINGLE_RESPONSE_PARAMETERS) (False, False, False) = (False, True, True)"
    "header_value (the (hl_list demo_srm_rsp)) OI_OBEX_HDR_SINGLE_RESPONSE_PARAMETERS \<noteq> None"
    by code_simp+
  ultimately show ?thesis
    using srm_headers_refines [OF s(2) _ s(4)] s by auto
qed

section \<open>What goes wrong\<close>

lemma final_codes [simp]:
  "OI_OBEX_FINAL OI_OBEX_RSP_PARTIAL_CONTENT = 0xA6" "OI_OBEX_FINAL OI_OBEX_RSP_NOT_MODIFIED = 0xB4"
  "OI_OBEX_FINAL OI_OBEX_RSP_BAD_REQUEST = 0xC0" "OI_OBEX_FINAL OI_OBEX_RSP_UNAUTHORIZED = 0xC1"
  "OI_OBEX_FINAL OI_OBEX_RSP_FORBIDDEN = 0xC3" "OI_OBEX_FINAL OI_OBEX_RSP_NOT_FOUND = 0xC4"
  "OI_OBEX_FINAL OI_OBEX_RSP_METHOD_NOT_ALLOWED = 0xC5" "OI_OBEX_FINAL OI_OBEX_RSP_NOT_ACCEPTABLE = 0xC6"
  "OI_OBEX_FINAL OI_OBEX_RSP_CONFLICT = 0xC9" "OI_OBEX_FINAL OI_OBEX_RSP_LENGTH_REQUIRED = 0xCB"
  "OI_OBEX_FINAL OI_OBEX_RSP_PRECONDITION_FAILED = 0xCC" "OI_OBEX_FINAL OI_OBEX_RSP_UNSUPPORTED_MEDIA_TYPE = 0xCF"
  "OI_OBEX_FINAL OI_OBEX_RSP_INTERNAL_SERVER_ERROR = 0xD0" "OI_OBEX_FINAL OI_OBEX_RSP_NOT_IMPLEMENTED = 0xD1"
  "OI_OBEX_FINAL OI_OBEX_RSP_SERVICE_UNAVAILABLE = 0xD3" "OI_OBEX_FINAL OI_OBEX_RSP_DATABASE_FULL = 0xE0"
  "OI_OBEX_FINAL OI_OBEX_RSP_DATABASE_LOCKED = 0xE1" "OI_OBEX_FINAL OI_OBEX_RSP_CREATED = 0xA1"
  "OI_OBEX_FINAL OI_OBEX_RSP_CONTINUE = 0x90" "OI_OBEX_FINAL OI_OBEX_RSP_OK = 0xA0"
  by code_simp+

lemma cancel_timeout_conn:
  "conn p s = Some c \<Longrightarrow> cancel_timeout p s = Some s' \<Longrightarrow> \<exists>h. conn p s' = Some (c\<lparr>timeoutCB := h\<rparr>)"
  by (auto simp: cancel_timeout_def cset_def monad_simps split: if_splits intro: exI [of _ "timeoutCB c"])

text \<open>A packet of four bytes, after the response code and the length.\<close>

definition short_packet :: "bytes \<Rightarrow> OI_BYTE_STREAM" where
  "short_packet buf = blank_stream\<lparr>bs_error := 0, bs_addr := 0, bs_data := buf, bs_trueSize := 4, bs_RWFlag := BYTESTREAM_READ,
     bs_size := 4, bs_pos := 3\<rparr>"

lemma receive_short:
  assumes "p \<noteq> 0" "cancel_timeout p s = Some s'" "conn p s' = Some c" "\<not> disconnectingLowerLayer c"
  shows "LowerRecvDataInd_cli env p [rsp, x, y, v] s = dispatch_response env p (short_packet [rsp, x, y, v]) rsp (length [rsp, x, y, v]) s'"
  using assms by (simp add: LowerRecvDataInd_cli_def ByteStream_Init_def ByteStream_Open_def ByteStream_GetUINT8_def ByteStream_Skip_def
      bs_peek_def bs_advance_def short_packet_def)

lemma short_fields: "OI_OBEX_MAJOR_VERSION_NUMBER v = 1 \<Longrightarrow> connect_rsp_fields p (short_packet [rsp, x, y, v]) s = None"
  by (simp add: connect_rsp_fields_def ByteStream_GetUINT8_Checked_def ByteStream_Skip_def bs_peek_def bs_advance_def short_packet_def)

text \<open>C16: A client that waits for the response to its CONNECT request fails an assertion on a packet of four
  bytes with a response code that it goes on with and version 1: the flags are skipped without a look
  at the end of the packet.\<close>

theorem short_connect_response_asserts:
  assumes "conn p s = Some c" "p \<noteq> 0" "k_state c = LOWER_LAYER_CONNECTED" "\<not> disconnectingLowerLayer c"
    and "rsp = OI_OBEX_FINAL OI_OBEX_RSP_OK \<or> rsp = OI_OBEX_FINAL OI_OBEX_RSP_UNAUTHORIZED" "OI_OBEX_MAJOR_VERSION_NUMBER v = 1"
  shows "LowerRecvDataInd_cli env p [rsp, x, y, v] s = None"
proof (cases "cancel_timeout p s")
  case (Some s')
  then obtain h where s': "conn p s' = Some (c\<lparr>timeoutCB := h\<rparr>)"
    using cancel_timeout_conn [OF assms(1)] by blast
  have "OI_SUCCESS (MapResponse rsp OI_OBEX_CONNECT_FAILED) \<or> MapResponse rsp OI_OBEX_CONNECT_FAILED = OI_OBEX_UNAUTHORIZED"
    using assms(5) by (elim disjE) (simp_all add: MapResponse_def)
  then have "connect_response env p (short_packet [rsp, x, y, v]) rsp s' = None"
    using short_fields [OF assms(6), of p rsp x y s'] by (auto simp: connect_response_def Let_def)
  then show ?thesis
    using receive_short [OF assms(2) Some s'] s' assms(3,4) by (simp add: dispatch_response_def ConnectResponse_def)
qed (use assms in \<open>simp add: LowerRecvDataInd_cli_def\<close>)

lemma short_connect_response_asserts_witness:
  "\<exists>s. demo_linked_cli OI_OBEXCLI_AUTH_NONE = Some s \<and> LowerRecvDataInd_cli demo_cli_env 1 [0xA0, 0, 4, 0x10] s = None"
proof -
  have "case demo_linked_cli OI_OBEXCLI_AUTH_NONE of None \<Rightarrow> False | Some s \<Rightarrow>
      map_option (\<lambda>c. (k_state c, disconnectingLowerLayer c)) (cl_conns s 1) = Some (LOWER_LAYER_CONNECTED, False)"
    by code_simp
  then obtain s c where s: "demo_linked_cli OI_OBEXCLI_AUTH_NONE = Some s" "cl_conns s 1 = Some c" "k_state c = LOWER_LAYER_CONNECTED"
      "\<not> disconnectingLowerLayer c"
    by (auto split: option.splits)
  have "OI_OBEX_MAJOR_VERSION_NUMBER 0x10 = 1"
    by code_simp
  with short_connect_response_asserts [of 1 s c "0xA0" "0x10"] s show ?thesis
    by (auto simp: conn_def)
qed














end
