(* ===== verification/ObexCliQueue.thy ===== *)
theory ObexCliQueue
  imports ObexCliProps
begin

unbundle bit_operations_syntax

text \<open>
  The queue of bulk data blocks of the OBEX client: when it can be confirmed, and how it grows.
\<close>

section \<open>Can all blocks be confirmed?\<close>

lemma all_confirmed_path:
  "bulk_path h p ps bs \<Longrightarrow> all_confirmed h p = Some (\<forall>b \<in> set bs. bytesSent b \<le> bytesConfirmed b)"
proof (induction h p ps bs rule: bulk_path.induct)
  case (1 h p)
  then show ?case
    by (subst all_confirmed.simps) simp
next
  case (2 h p q qs b bs)
  then show ?case
    by (subst all_confirmed.simps) (auto simp: not_less)
qed simp_all

text \<open>C13: On a queue that is a list the walk of \<open>CanConfirmAllBulkPuts\<close> ends, and says whether the lower
  layer has confirmed every byte of every block that it was given.\<close>

theorem CanConfirmAllBulkPuts_spec:
  assumes "conn p s = Some c" "bulk_path (cl_heap s) (cb_head c) ps bs"
  shows "CanConfirmAllBulkPuts p s = Some (\<forall>b \<in> set bs. bytesSent b \<le> bytesConfirmed b)"
  using assms by (simp add: CanConfirmAllBulkPuts_def all_confirmed_path)

section \<open>Growing\<close>

text \<open>The queue of a connection: its blocks in memory, older than the next node, and its last node.\<close>

definition queue_at :: "'w OBEX_CLI \<Rightarrow> OBEXCLI_CONNECTION \<Rightarrow> nat list \<Rightarrow> OBEX_BULK_DATA list \<Rightarrow> bool" where
  "queue_at s c ps bs \<longleftrightarrow> bulk_path (cl_heap s) (cb_head c) ps bs \<and> cb_tail c = (if ps = [] then 0 else last ps) \<and>
     (\<forall>q \<in> set ps. q < cl_freshNode s)"

definition fresh_block :: "bytes option \<times> u32 \<Rightarrow> OBEX_BULK_DATA" where
  "fresh_block = (\<lambda>(buffer, n). \<lparr>blockBuffer = (if n > 0 then buffer else None), blockSize = n, bytesSent = 0,
     bytesConfirmed = 0, bd_final = False\<rparr>)"

text \<open>The blocks of a bulk put, the last of which is final if the application says so.\<close>

definition put_blocks :: "(bytes option \<times> u32) list \<Rightarrow> bool \<Rightarrow> OBEX_BULK_DATA list" where
  "put_blocks buffers final = map fresh_block (butlast buffers) @ [(fresh_block (last buffers))\<lparr>bd_final := final\<rparr>]"

lemma AppendBulkData_queue:
  assumes c: "conn p s = Some c" "queue_at s c ps bs" "ps \<noteq> [] \<longrightarrow> \<not> bd_final (last bs)"
    and new: "bulk_path (cl_heap s) q qs cs" "qs \<noteq> []" "set ps \<inter> set qs = {}" "\<forall>r \<in> set qs. r < cl_freshNode s"
  shows "\<exists>s' c'. AppendBulkData_cli p q (last qs) s = Some s' \<and> conn p s' = Some c' \<and> queue_at s' c' (ps @ qs) (bs @ cs) \<and>
    c' = c\<lparr>cb_head := cb_head c', cb_tail := cb_tail c', cb_current := (if cb_current c = 0 then q else cb_current c)\<rparr> \<and>
    cl_world s' = cl_world s"
proof (cases ps rule: rev_cases)
  case Nil
  with c have "cb_head c = 0" "cb_tail c = 0" "bs = []"
    by (auto simp: queue_at_def)
  with Nil c(1) new show ?thesis
    by (auto simp: AppendBulkData_cli_def cset_def queue_at_def)
next
  case (snoc ps' r)
  obtain bs' b where bs: "bs = bs' @ [b]"
    using c(2) snoc by (cases bs rule: rev_cases) (auto simp: queue_at_def)
  have path: "bulk_path (cl_heap s) (cb_head c) (ps' @ [r]) (bs' @ [b])" "cb_tail c = r" "r \<noteq> 0" "\<not> bd_final b"
    using c snoc bs bulk_path_nonzero [of "cl_heap s" "cb_head c" ps bs] by (auto simp: queue_at_def)
  have "cl_heap s r = Some \<lparr>bn_block = b, bn_next = 0\<rparr>"
    using bulk_path_last [OF path(1)] .
  moreover have "bulk_path ((cl_heap s)(r := Some \<lparr>bn_block = b, bn_next = q\<rparr>)) (cb_head c) (ps' @ r # qs) (bs' @ b # cs)"
    by (rule bulk_path_append [OF path(1) new(1)]) (use new(3) snoc in auto)
  ultimately show ?thesis
    using c(1,2) snoc bs path new(2,4) by (auto simp: AppendBulkData_cli_def cset_def queue_at_def)
qed

text \<open>A bulk transfer with one block that the lower layer has in part.\<close>

definition demo_queued :: OBEX_BULK_DATA where
  "demo_queued = \<lparr>blockBuffer = Some [1, 2, 3], blockSize = 3, bytesSent = 2, bytesConfirmed = 1, bd_final = False\<rparr>"

definition demo_bulk_conn :: OBEXCLI_CONNECTION where
  "demo_bulk_conn = zeroed_connection\<lparr>k_state := OBEX_BULK_PUTTING, k_busy := True, bulkPutCfm := 4, cb_word := CBW_status OI_OK,
     cb_head := 1, cb_tail := 1, cb_current := 1\<rparr>"

definition demo_bulk_cli :: "CLI_OBS list OBEX_CLI" where
  "demo_bulk_cli = demo_cli\<lparr>cl_conns := [1 \<mapsto> demo_bulk_conn], cl_handles := snd (OI_HANDLE_Alloc ObexClientHandleType 1 initial_handles),
     cl_heap := [1 \<mapsto> \<lparr>bn_block = demo_queued, bn_next = 0\<rparr>], cl_freshNode := 2\<rparr>"

lemma demo_bulk_facts:
  "LookupConnection_cli demo_handle demo_bulk_cli = Some (Some (1, demo_bulk_conn))" "conn 1 demo_bulk_cli = Some demo_bulk_conn"
  "queue_at demo_bulk_cli demo_bulk_conn [1] [demo_queued]"
proof -
  have "OI_HANDLE_Deref demo_handle (cl_handles demo_bulk_cli) = 1"
    by code_simp
  then show "LookupConnection_cli demo_handle demo_bulk_cli = Some (Some (1, demo_bulk_conn))"
    by (simp add: LookupConnection_cli_def conn_def demo_bulk_cli_def)
qed (simp_all add: conn_def demo_bulk_cli_def queue_at_def demo_bulk_conn_def)

lemma CanConfirmAllBulkPuts_spec_witness: "CanConfirmAllBulkPuts 1 demo_bulk_cli = Some False"
  using CanConfirmAllBulkPuts_spec [OF demo_bulk_facts(2) demo_bulk_facts(3) [unfolded queue_at_def, THEN conjunct1]]
  by (simp add: demo_queued_def word_le_nat_alt)

lemma upt_last: "n > 0 \<Longrightarrow> [q..<q + n] = [q..<q + n - 1] @ [q + n - 1]"
  by (cases n) auto

lemma AllocBulk_cli_ok:
  assumes "\<forall>i < length buffers. v_mem env (cl_calls s) i" "buffers \<noteq> []"
  shows "AllocBulk_cli env buffers s = (OI_OK, cl_freshNode s, cl_freshNode s + length buffers - 1,
     s\<lparr>cl_heap := link_blocks (cl_freshNode s) (map fresh_block buffers) (cl_heap s), cl_freshNode := cl_freshNode s + length buffers,
       cl_calls := Suc (cl_calls s)\<rparr>)"
  using assms by (simp add: AllocBulk_cli_def OI_OBEXCOMMON_AllocBulkData_def fresh_block_def Let_def)

text \<open>C12: In a bulk transfer whose last packet is still being written, a bulk put appends one new block for
  each of its buffers to the queue, in order and with nothing sent yet; exactly the last of them is
  final, if the application says so; the blocks queued before stay as they are, and nothing is sent.\<close>

theorem BulkPut_enqueues:
  assumes found: "LookupConnection_cli h s = Some (Some (p, c))"
    and put: "k_state c = OBEX_BULK_PUTTING" "k_busy c" "k_abort c = NO_ABORT" "bulkPutCfm c \<noteq> 0"
    and status: "status = OI_OK \<or> status = OI_OBEX_CONTINUE"
    and queue: "queue_at s c ps bs" "ps \<noteq> [] \<longrightarrow> \<not> bd_final (last bs)" "cl_freshNode s \<noteq> 0"
    and buffers: "buffers \<noteq> []" "\<forall>i < length buffers. v_mem env (cl_calls s) i"
  shows "\<exists>s' c'. OI_OBEXCLI_BulkPut env h buffers status s = Some (OI_OK, s') \<and> conn p s' = Some c' \<and>
    queue_at s' c' (ps @ [cl_freshNode s..<cl_freshNode s + length buffers]) (bs @ put_blocks buffers (status = OI_OK)) \<and>
    cb_current c' = (if cb_current c = 0 then cl_freshNode s else cb_current c) \<and> cl_world s' = cl_world s"
proof -
  let ?q = "cl_freshNode s" and ?n = "length buffers"
  let ?r = "?q + ?n - 1"
  let ?h = "link_blocks ?q (map fresh_block buffers) (cl_heap s)"
  let ?s1 = "s\<lparr>cl_heap := ?h, cl_freshNode := ?q + ?n, cl_calls := Suc (cl_calls s)\<rparr>"
  let ?b = "(fresh_block (last buffers))\<lparr>bd_final := (status = OI_OK)\<rparr>"
  let ?s2 = "?s1\<lparr>cl_heap := ?h(?r := Some \<lparr>bn_block = ?b, bn_next = 0\<rparr>)\<rparr>"
  have c: "conn p s = Some c"
    using found by (auto simp: LookupConnection_cli_def Let_def split: if_splits)
  have n: "?n > 0"
    using buffers(1) by simp
  have qs: "[?q..<?q + ?n] = [?q..<?r] @ [?r]" "last [?q..<?q + ?n] = ?r" "[?q..<?q + ?n] \<noteq> []"
    using upt_last [OF n] n by auto
  have blocks: "map fresh_block buffers = map fresh_block (butlast buffers) @ [fresh_block (last buffers)]"
    using append_butlast_last_id [OF buffers(1)] by (metis list.simps(8,9) map_append)
  have path: "bulk_path ?h ?q ([?q..<?r] @ [?r]) (map fresh_block (butlast buffers) @ [fresh_block (last buffers)])"
    using link_blocks_path [of "map fresh_block buffers" ?q "cl_heap s"] buffers(1) queue(3) unfolding qs(1) [symmetric] blocks [symmetric] by simp
  have last_node: "?h ?r = Some \<lparr>bn_block = fresh_block (last buffers), bn_next = 0\<rparr>"
    by (rule bulk_path_last [OF path])
  have new: "bulk_path (cl_heap ?s2) ?q [?q..<?q + ?n] (put_blocks buffers (status = OI_OK))"
    using bulk_path_change_last [OF path] by (simp add: put_blocks_def qs(1))
  have old: "q < ?q" if "q \<in> set ps" for q
    using queue(1) that by (auto simp: queue_at_def)
  have same: "cl_heap ?s2 q = cl_heap s q" if "q \<in> set ps" for q
  proof -
    have "q \<noteq> ?r"
      using old [OF that] n by linarith
    then show ?thesis
      using old [OF that] by (simp add: link_blocks_other)
  qed
  have "bulk_path (cl_heap ?s2) (cb_head c) ps bs"
    by (rule bulk_path_cong [of "cl_heap s"]) (use queue(1) same in \<open>auto simp only: queue_at_def\<close>)
  then have kept: "queue_at ?s2 c ps bs"
    using queue(1) trans_less_add1 [OF old] by (simp add: queue_at_def)
  from AppendBulkData_queue [of p ?s2 c ps bs ?q "[?q..<?q + ?n]" "put_blocks buffers (status = OI_OK)"] c kept queue(2) new qs(3) old
  obtain s' c' where app: "AppendBulkData_cli p ?q ?r ?s2 = Some s'" "conn p s' = Some c'"
      "queue_at s' c' (ps @ [?q..<?q + ?n]) (bs @ put_blocks buffers (status = OI_OK))"
      "c' = c\<lparr>cb_head := cb_head c', cb_tail := cb_tail c', cb_current := (if cb_current c = 0 then ?q else cb_current c)\<rparr>"
      "cl_world s' = cl_world s"
    unfolding qs(2) by fastforce
  have busy: "k_busy c'" "cb_current c' = (if cb_current c = 0 then ?q else cb_current c)"
    using put(2) by (subst app(4); simp)+
  have "bulk_put_queue env p buffers (status = OI_OK) s = Some (OI_OK, s')"
    unfolding bulk_put_queue_def AllocBulk_cli_ok [OF buffers(2,1)]
    using last_node app(1,2) busy by simp
  moreover have "(if cb_tail c \<noteq> 0 then map_option (\<lambda>n. bd_final (bn_block n)) (cl_heap s (cb_tail c)) else Some False) = Some False"
  proof (cases ps rule: rev_cases)
    case (snoc ps' r)
    then obtain bs' b where "bs = bs' @ [b]"
      using queue(1) by (cases bs rule: rev_cases) (auto simp: queue_at_def)
    with snoc queue show ?thesis
      using bulk_path_last [of "cl_heap s" "cb_head c" ps' r bs' b] by (simp add: queue_at_def)
  qed (use queue(1) in \<open>simp add: queue_at_def\<close>)
  ultimately have "OI_OBEXCLI_BulkPut env h buffers status s = Some (OI_OK, s')"
    using found put status c buffers(1) by (auto simp: OI_OBEXCLI_BulkPut_def start_bulk_put_def state_order Let_def)
  with app(2,3,5) busy(2) show ?thesis
    by blast
qed

lemma BulkPut_enqueues_witness:
  "\<exists>s' c'. OI_OBEXCLI_BulkPut demo_cli_env demo_handle [(Some [4], 1), (Some [5, 6], 2)] OI_OK demo_bulk_cli = Some (OI_OK, s') \<and>
     conn 1 s' = Some c' \<and> queue_at s' c' [1, 2, 3] [demo_queued, fresh_block (Some [4], 1), (fresh_block (Some [5, 6], 2))\<lparr>bd_final := True\<rparr>]"
proof -
  have "cl_freshNode demo_bulk_cli = 2" "[2..<4] = [2, 3::nat]"
    by (simp_all add: demo_bulk_cli_def upt_conv_Cons)
  with BulkPut_enqueues [OF demo_bulk_facts(1), of OI_OK "[1]" "[demo_queued]" "[(Some [4], 1), (Some [5, 6], 2)]" demo_cli_env]
    demo_bulk_facts(3) show ?thesis
    by (auto simp: demo_bulk_conn_def zeroed_connection_def demo_queued_def demo_cli_env_def put_blocks_def)
qed

end
