(* ===== verification/ObexCliFaults.thy ===== *)
theory ObexCliFaults
  imports ObexCliProps
begin

unbundle bit_operations_syntax

text \<open>
  Small runs of the OBEX client that end badly: each evaluates the model on concrete packets and calls.
  The callbacks of the application are the numbers in \<^const>\<open>demo_cbs\<close>: 2 hears of the end of the
  connection, 4 of bulk puts.
\<close>

section \<open>Aborts\<close>

text \<open>A bulk put with an error status between two GETs overwrites the callback of the GET; the server's
  answer to the abort then calls the status as a function.\<close>

lemma bulk_error_in_get_crashes:
  "Option.bind demo_getting (\<lambda>s. Option.bind (OI_OBEXCLI_BulkPut demo_cli_env demo_handle [] OI_OBEX_ERROR s) (\<lambda>(r, s).
     Option.bind (LowerWriteCfm_cli demo_cli_env 1 CM_common False OI_OK s) (\<lambda>s.
     Some (r, LowerRecvDataInd_cli demo_cli_env 1 [0xA0, 0, 3] s = None)))) = Some (OI_OK, True)"
  by code_simp

text \<open>An abort without a callback replaces the default one that sending the abort has just stored, so that
  the server's answer calls \<open>NULL\<close>.\<close>

lemma abort_without_callback_crashes:
  "Option.bind demo_getting (\<lambda>s. Option.bind (OI_OBEXCLI_Abort demo_cli_env demo_handle NO_FN s) (\<lambda>(r, s).
     Option.bind (LowerWriteCfm_cli demo_cli_env 1 CM_common False OI_OK s) (\<lambda>s.
     Some (r, LowerRecvDataInd_cli demo_cli_env 1 [0xA0, 0, 3] s = None)))) = Some (OI_OK, True)"
  by code_simp

text \<open>The link is lost while an abort is pending: the GET and the end of the connection are reported, the
  abort, whose callback is 6, is not.\<close>

definition demo_pending_abort :: "CLI_OBS list OBEX_CLI option" where
  "demo_pending_abort = do {
     s \<leftarrow> demo_connected_cli;
     (_, s) \<leftarrow> OI_OBEXCLI_Get demo_cli_env demo_handle (Some []) 5 True s;
     (_, s) \<leftarrow> OI_OBEXCLI_Abort demo_cli_env demo_handle (APP_FN 6) s;
     LowerDisconnectInd_cli demo_cli_env 1 OI_OK (s\<lparr>cl_world := []\<rparr>)
   }"

lemma lost_link_skips_abort_confirm:
  "map_option cl_world demo_pending_abort =
     Some [CALLED 5 demo_handle (GET_RECV_DATA None OI_OBEX_CLIENT_ABORTED_COMMAND), CALLED 2 demo_handle CLI_DISCONNECT_IND]"
  by code_simp

text \<open>What the end of a connection tells the application of a bulk put whose blocks have all been reported
  so far: nothing is confirmed, with success, whatever ended the connection.\<close>

lemma empty_bulk_put_ends_in_success:
  assumes "conn p s = Some c" "cb_head c = 0"
  shows "ConfirmBulkPuts_void env p status filt s = call_app env p (bulkPutCfm c) (BULK_PUT_CFM [] OI_OK) s"
  using assms by (cases "call_app env p (bulkPutCfm c) (BULK_PUT_CFM [] OI_OK) s")
    (simp_all add: ConfirmBulkPuts_void_def ConfirmBulkPuts_def confirm_puts.simps)

section \<open>Single response mode\<close>

text \<open>A GET that the server has suspended is aborted. The suspension stays, a PUT does not end it, and its
  first response without any header turns the mode on, although the server has not agreed to it.\<close>

definition demo_suspended :: "CLI_OBS list OBEX_CLI option" where
  "demo_suspended = do {
     s \<leftarrow> demo_connected_cli;
     (_, s) \<leftarrow> OI_OBEXCLI_Get demo_cli_env demo_handle (Some []) 5 True s;
     s \<leftarrow> LowerWriteCfm_cli demo_cli_env 1 CM_common False OI_OK s;
     s \<leftarrow> LowerRecvDataInd_cli demo_cli_env 1 [0x90, 0, 7, 0x97, 1, 0x98, 1] s;
     (_, s) \<leftarrow> OI_OBEXCLI_Abort demo_cli_env demo_handle (APP_FN 6) s;
     s \<leftarrow> LowerWriteCfm_cli demo_cli_env 1 CM_common False OI_OK s;
     LowerRecvDataInd_cli demo_cli_env 1 [0xA0, 0, 3] s
   }"

lemma abort_keeps_suspension:
  "map_option (\<lambda>s. map_option srm_view (cl_conns s 1)) demo_suspended = Some (Some (False, True, True))"
  by code_simp

lemma put_keeps_suspension:
  "conn p s = Some c \<Longrightarrow> begin_operation p OBEX_PUTTING s = Some (hs, s') \<Longrightarrow>
     \<exists>c'. conn p s' = Some c' \<and> srmpWaitReceived c' = srmpWaitReceived c"
  by (auto simp: begin_operation_def cset_def monad_simps split: if_splits)

lemma suspension_enables_mode:
  "conn p s = Some c \<Longrightarrow> srmpWaitReceived c \<Longrightarrow> srm_headers p always \<lparr>hl_count = 0, hl_list = l\<rparr> s = Some (hs, r, s') \<Longrightarrow>
     \<exists>c'. conn p s' = Some c' \<and> srm_on c'"
  using srm_wait_at [of p s c False]
  by (auto simp: srm_headers_def hl_headers_def srm_mode_def srm_parameters_def OI_OBEX_FindHeader_def monad_simps srm_view_def)

section \<open>Ends of a connection\<close>

text \<open>A request to disconnect is sent without a timeout, whatever timeout is asked for: nothing ends a
  connection whose server never answers it.\<close>

lemma disconnect_is_not_guarded:
  assumes "conn p s = Some c" "currentOpcode (k_common c) = OI_OBEX_CMD_DISCONNECT" "ClientSendPacket env p tmo s = Some (r, s')"
  shows "cl_disp s' = cl_disp s"
  using assms by (auto simp: ClientSendPacket_def monad_simps Let_def split_beta cset_def split: if_splits)

text \<open>An error that is to be reported later keeps the address of the connection when that is freed; the
  dispatcher then calls with it.\<close>

lemma late_error_uses_freed_connection:
  "Option.bind (demo_linked_cli OI_OBEXCLI_AUTH_PASSWORD) (\<lambda>s.
     Option.bind (OI_OBEXCLI_Authentication demo_cli_env demo_handle None 0 None None s) (\<lambda>(r, s).
     Option.bind (LowerDisconnectInd_cli demo_cli_env 1 OI_OK s) (\<lambda>s.
     Some (map e_CBFunc (filter ENTRY_IN_USE (the (Table (cl_disp s)))),
       CommandError demo_cli_env 1 OI_OBEX_CLIENT_ABORTED_COMMAND s = None)))) =
   Some ([Some (F_CommandError OI_OBEX_CLIENT_ABORTED_COMMAND)], True)"
  by code_simp

section \<open>Memory\<close>

text \<open>Without memory for the headers of a response their count is kept, and the search for a header
  follows the array that is not there.\<close>

lemma no_memory_for_headers_crashes:
  "Option.bind demo_connected_cli (\<lambda>s. Option.bind (OI_OBEXCLI_Get demo_cli_env demo_handle (Some []) 5 True s) (\<lambda>(r, s).
     Option.bind (LowerWriteCfm_cli demo_cli_env 1 CM_common False OI_OK s) (\<lambda>s.
     Some (LowerRecvDataInd_cli (demo_cli_env\<lparr>v_mem := (\<lambda>call i. False)\<rparr>) 1 [0x90, 0, 5, 0x97, 0] s = None)))) = Some True"
  by code_simp

end
