(* ===== verification/ObexPeer.thy ===== *)
theory ObexPeer
  imports ObexSrv ObexCliProps
begin

unbundle bit_operations_syntax

text \<open>
  The OBEX server and the OBEX client together: what the client makes of the status that the
  application of the server answers with.
\<close>

section \<open>A status on the wire\<close>

text \<open>The status at the client for one at the server: it goes over as a response code.\<close>

definition transmitted :: "OI_STATUS \<Rightarrow> OI_STATUS" where
  "transmitted status =
     (if status \<in> {OI_OBEX_BAD_PACKET, OI_OBEX_REQUIRED_HEADER_NOT_FOUND, OI_OBEX_UNSUPPORTED_VERSION, OI_OBEX_INCOMPLETE_PACKET}
        then OI_OBEX_BAD_REQUEST
      else if status \<in> {OI_OBEX_OPERATION_IN_PROGRESS, OI_OBEX_FORBIDDEN, OI_STATUS_ACCESS_DENIED} then OI_OBEX_ACCESS_DENIED
      else if status \<in> {OI_OBEX_UNKNOWN_COMMAND, OI_STATUS_NOT_IMPLEMENTED} then OI_OBEX_NOT_IMPLEMENTED
      else if status = OI_OBEX_FOLDER_BROWSING_NOT_ALLOWED then OI_OBEX_UNAUTHORIZED
      else if status \<in> {OI_OK, OI_OBEX_BAD_REQUEST, OI_OBEX_ACCESS_DENIED, OI_OBEX_NOT_FOUND, OI_OBEX_NOT_IMPLEMENTED,
        OI_OBEX_LENGTH_REQUIRED, OI_OBEX_SERVICE_UNAVAILABLE, OI_OBEX_VALUE_NOT_ACCEPTABLE, OI_OBEX_PRECONDITION_FAILED,
        OI_OBEX_DATABASE_FULL, OI_OBEX_DATABASE_LOCKED, OI_OBEX_UNSUPPORTED_MEDIA_TYPE, OI_OBEX_CONFLICT, OI_OBEX_UNAUTHORIZED,
        OI_OBEX_PARTIAL_CONTENT, OI_OBEX_METHOD_NOT_ALLOWED, OI_OBEX_NOT_MODIFIED} then status
      else OI_OBEX_INTERNAL_SERVER_ERROR)"

text \<open>C14: The client reads the status of an error response as \<open>transmitted\<close> says, whatever it would make of
  an unknown code: a success arrives as a success and nothing else does, sixteen errors and
  the internal error arrive as they are, no other status is confused with one of them except by the groups of \<open>transmitted\<close>, and what has
  arrived would arrive unchanged again.\<close>

theorem status_transmitted:
  "MapResponse (MapStatus status) unknown = transmitted status \<and>
   (OI_SUCCESS (transmitted status) \<longleftrightarrow> OI_SUCCESS status) \<and>
   transmitted (transmitted status) = transmitted status"
  by (cases status) (simp_all add: MapResponse_def MapStatus_def transmitted_def)

end
