(* ===== verification/Spec2Isabelle.thy ===== *)
theory Spec2Isabelle
  imports ObexParse ObexAuth Dispatch ObexBulk ObexShared ObexSrvQueue Containers ObexCliQueue ObexCliFaults ObexPeer
begin

text \<open>
  A verification library for the OBEX stack of this repository (\<open>src/obex_profiles\<close>), the part that
  carries the protocol logic of the object push and phone book profiles.

  The program. An OBEX packet is composed and parsed by \<open>profiles/obex/obexcommon.c\<close>: composition goes
  into an mbuf (\<open>stack/support/oi_mbuf.c\<close>), a list of cells that refer to, copy or nest data; parsing
  reads a byte stream (\<open>include/oi_bytestream.h\<close>). The server \<open>profiles/obex/obexsrv.c\<close> is a state
  machine per connection between a lower layer, which delivers packets and write confirmations, and an
  application, which is called back with requests and answers them; it authenticates clients with
  \<open>profiles/obex/obexauth.c\<close> over the MD5 of \<open>stack/support/md5_hash.c\<close> and defers work to the
  dispatcher \<open>stack/support/oi_dispatch.c\<close>, a table of timed functions over \<open>oi_time.c\<close>.

  The theories, from the bottom:

  \<open>Prelude\<close>: types, status codes, undefined behaviour and assertions as \<^const>\<open>None\<close>, copies between
  buffers, lemmas on words and lists. The build has \<open>OI_DEBUG\<close>, so a failed assertion ends the run.

  \<open>ByteStream\<close>: the byte-order macros and the stream macros. \<open>Fcs\<close>: the frame check sequence of
  \<open>oi_fcs.c\<close>, equal to the bitwise division; the locale \<open>checksum\<close> is what the mbufs use of it.
  \<open>Mbuf\<close>: every operation of \<open>oi_mbuf.c\<close>, with the bytes a consumer still sees as the abstraction;
  the locale \<open>packet_builder\<close> is what the composition of packets uses.

  \<open>ObexHeaders\<close> and \<open>ObexParse\<close>: composition and parsing of packets and application parameters, with
  the wire format as specification of both, so that parsing inverts composing. \<open>Md5\<close>: the hash and
  its equality with RFC 1321; the locale \<open>digest\<close> is what \<open>ObexAuth\<close> uses for the challenges and
  responses of \<open>obexauth.c\<close>. \<open>OiTime\<close> and \<open>Dispatch\<close>: intervals and the dispatcher with its table
  invariant, the meaning of its handles and the functions a run calls.

  \<open>ObexBulk\<close>: allocating and sending bulk data blocks. \<open>ObexShared\<close>: constants and the memory of
  blocks that server and client share. \<open>ObexSrv\<close>, \<open>ObexSrvBulk\<close>, \<open>ObexSrvReq\<close> and \<open>ObexSrvConn\<close>: the
  server, one definition per function of \<open>obexsrv.c\<close>; a jump to an error label is a definition of its
  own. \<open>ObexSrvSafe\<close> and \<open>ObexSrvGate\<close>: what every function keeps, by a calculus for what holds of
  every normal return, and the runs of a server with any application. \<open>ObexSrvProps\<close> and
  \<open>ObexSrvQueue\<close>: authentication, answers, and the queue of bulk blocks in memory.

  \<open>ObexCli\<close>, \<open>ObexCliOps\<close>, \<open>ObexCliRecv\<close> and \<open>ObexCliLower\<close>: the client \<open>obexcli.c\<close> in the same way, its
  connections, the operations of the application, the responses, and the events of the lower layer.
  \<open>ObexCliSafe\<close>: what every function of the client keeps, by the same kind of calculus, and the runs of
  a client with any application. \<open>ObexCliProps\<close>: callbacks, timeouts, authentication of the server and
  single response mode; \<open>ObexCliQueue\<close>: the queue of bulk puts; \<open>ObexCliFaults\<close>: small runs that end badly.
  \<open>ObexPeer\<close>: what server and client make of each other's status.

  \<open>Containers\<close>: the handle table, the simple map and the linked lists of \<open>stack/support\<close>. Handles are
  followed over any sequence of operations with fewer than \<open>2 ^ 23 - 1\<close> allocations, as many as there are
  salts.

  How the model corresponds to the code. Structures are records with the fields of the code, integers
  keep their width (32-bit counters and 16-bit lengths wrap), pointers to data that is not shared are
  the data (an option where they may be \<open>NULL\<close>), and shared nodes (the bulk queue, linked lists) live
  in a memory that maps addresses to nodes. A function gives \<^const>\<open>None\<close> where the C code is undefined
  or fails an assertion; theorems about results say for which inputs there is one. Loops that follow
  pointers or call the application are partial functions without fuel; other loops are recursions on
  their bound (the size of a table, the bytes left). The answers of the allocator, the lower layer's
  functions, the callbacks of the application, the clock and the configuration are parameters; a
  callback may do anything to the state that calls of the server's functions can do.

  The server's state is one server and one of its connections. Requests reach it as packets in any
  order; the run relation of \<open>ObexSrvGate\<close> leaves out only GET requests that come when none is
  expected, and \<open>ObexSrvProps\<close> shows that these break the invariant of the runs.

  The list of received headers that the application may ask for during a callback is a pointer to a
  variable of the command's function: it points to nothing, to a list, or to where a list was before the
  function returned. When it tells the application of a CONNECT request the code has freed the list already.

  The client's state is a memory of connections, since the code keeps and frees them by address. The
  union of callbacks in a connection is one word with a tag: code that calls it under another tag than
  the one it was stored under jumps to a wrong address, and is \<^const>\<open>None\<close>. The runs of
  \<open>ObexCliSafe\<close> leave out one call of the application, a bulk put with an error status while another
  operation is under way; \<open>ObexCliFaults\<close> shows what it does to a GET.

  Not modelled: the profiles above OBEX, the sockets
  below it, the memory manager that this build replaces, texts and debug output, the platform layer,
  the C++ application \<open>bt-app\<close>, which drives the Bluetooth HAL through callbacks and threads, and the
  property daemon. \<open>unicode/ConvertUTF.c\<close> is vendored.
\<close>

end
